(* ===== verification/Prelude.thy ===== *)
theory Prelude
  imports Main "HOL-Library.Word" "HOL-Library.AList" "HOL-Library.Signed_Division"
begin

text \<open>
  Shared vocabulary of the development: the hint collections, machine-level type
  synonyms, the Go error value with \<open>errors.Is\<close> and \<open>errors.Join\<close>, sequencing of
  fallible effectful steps, and the list and association-list lemmas the components share.
\<close>

section \<open>Hint collections\<close>

named_theorems sep_simps \<open>reads and writes of memory cells at separated addresses\<close>
named_theorems step_simps \<open>one-step evaluation of the effectful operations\<close>
named_theorems law_intros \<open>preservation of the components' invariants\<close>

section \<open>Machine-level types\<close>

type_synonym byte = "8 word"
type_synonym addr = "64 word"
type_synonym pid = int

section \<open>Go errors\<close>

text \<open>
  An error value: a kernel error number, a message, \<open>fmt.Errorf("ctx: %w", err)\<close> with its
  static text, \<open>errors.Join\<close>, or a gRPC status. The numbers and addresses that the messages interpolate
  are left out: no caller reads them back.
\<close>

datatype errno = ESRCH | ECHILD | EPERM | EIO | EFAULT | EBADF | EEXIST | ENOENT | OtherErrno int

text \<open>Status codes of gRPC, as far as the program names them.\<close>

datatype grpc_code = InvalidArgument | NotFound | Internal | Unavailable | OtherCode int

datatype goerr =
    Errno errno
  | Msg string
  | Wrap string goerr
  | Joined "goerr list"
  | Status grpc_code string

text \<open>\<open>errors.Is(err, target)\<close> walks the wrap chain and every branch of a join.\<close>

fun errors_Is :: "goerr \<Rightarrow> errno \<Rightarrow> bool" where
  "errors_Is (Errno e) t = (e = t)"
| "errors_Is (Msg s) t = False"
| "errors_Is (Wrap s e) t = errors_Is e t"
| "errors_Is (Joined es) t = list_ex (\<lambda>e. errors_Is e t) es"
| "errors_Is (Status c s) t = False"

text \<open>
  \<open>errors.Join(errs...)\<close>: nil (\<open>None\<close>) when every element is nil, otherwise the join
  of the non-nil ones.
\<close>

definition errors_Join :: "goerr option list \<Rightarrow> goerr option" where
  "errors_Join errs =
     (case List.map_filter (\<lambda>e. e) errs of [] \<Rightarrow> None | es \<Rightarrow> Some (Joined es))"

lemma map_filter_id_Nil_iff: "List.map_filter (\<lambda>e. e) xs = [] \<longleftrightarrow> (\<forall>x \<in> set xs. x = None)"
  by (induction xs) (auto simp: List.map_filter_simps split: option.splits)

lemma errors_Join_None_iff: "errors_Join errs = None \<longleftrightarrow> (\<forall>e \<in> set errs. e = None)"
  by (auto simp: errors_Join_def map_filter_id_Nil_iff [symmetric] split: list.splits)

lemma errors_Join_replicate_None [simp]: "errors_Join (map (\<lambda>_. None) xs) = None"
  by (simp add: errors_Join_None_iff)

section \<open>Sequencing\<close>

text \<open>
  An effectful step takes the world and returns a result and the next world. \<open>attempt\<close> is
  Go's \<open>x, err := m(); if err != nil \<lbrace> return ..., wrap(err) \<rbrace>; k(x)\<close>.
\<close>

definition attempt ::
  "('w \<Rightarrow> ('e + 'a) \<times> 'w) \<Rightarrow> ('e \<Rightarrow> 'f) \<Rightarrow> ('a \<Rightarrow> 'w \<Rightarrow> ('f + 'b) \<times> 'w) \<Rightarrow> 'w \<Rightarrow> ('f + 'b) \<times> 'w"
  where
  "attempt m wrap k w = (case m w of (Inl e, w') \<Rightarrow> (Inl (wrap e), w') | (Inr a, w') \<Rightarrow> k a w')"

lemma attempt_Inl [step_simps]: "m w = (Inl e, w') \<Longrightarrow> attempt m wr k w = (Inl (wr e), w')"
  by (simp add: attempt_def)

lemma attempt_Inr [step_simps]: "m w = (Inr a, w') \<Longrightarrow> attempt m wr k w = k a w'"
  by (simp add: attempt_def)

lemma attempt_InrE:
  assumes "attempt m wr k w = (Inr b, w'')"
  obtains a w' where "m w = (Inr a, w')" and "k a w' = (Inr b, w'')"
  using assms by (auto simp: attempt_def split: prod.splits sum.splits)

lemma attempt_InlE:
  assumes "attempt m wr k w = (Inl f, w'')"
  obtains (fail) e where "m w = (Inl e, w'')" and "f = wr e"
        | (later) a w' where "m w = (Inr a, w')" and "k a w' = (Inl f, w'')"
  using assms by (auto simp: attempt_def split: prod.splits sum.splits)

text \<open>Running a step for its effect, its error ignored (Go's \<open>//nolint:errcheck\<close>).\<close>

definition ignore_err :: "('w \<Rightarrow> 'r \<times> 'w) \<Rightarrow> 'w \<Rightarrow> 'w" where
  "ignore_err m w = snd (m w)"

text \<open>A loop over a slice that runs one step per element and collects the results.\<close>

fun map_step :: "('a \<Rightarrow> 'w \<Rightarrow> 'r \<times> 'w) \<Rightarrow> 'a list \<Rightarrow> 'w \<Rightarrow> 'r list \<times> 'w" where
  "map_step f [] w = ([], w)"
| "map_step f (x # xs) w =
     (case f x w of (r, w1) \<Rightarrow> (case map_step f xs w1 of (rs, w2) \<Rightarrow> (r # rs, w2)))"

lemma length_map_step [simp]: "map_step f xs w = (rs, w') \<Longrightarrow> length rs = length xs"
  by (induction xs arbitrary: w rs) (auto split: prod.splits)

lemma map_step_Cons_eq:
  "map_step f (x # xs) w = (rs, w') \<longleftrightarrow>
     (\<exists>r w1 rs'. f x w = (r, w1) \<and> map_step f xs w1 = (rs', w') \<and> rs = r # rs')"
  by (auto split: prod.splits)

lemma map_step_invariant:
  assumes step: "\<And>x w r w'. P w \<Longrightarrow> f x w = (r, w') \<Longrightarrow> P w'"
  shows "map_step f xs w = (rs, w') \<Longrightarrow> P w \<Longrightarrow> P w'"
proof (induction xs arbitrary: w rs)
  case Nil
  then show ?case by simp
next
  case (Cons x xs)
  then show ?case unfolding map_step_Cons_eq by (blast dest: step)
qed

section \<open>Association lists: Go maps with a fixed iteration order\<close>

text \<open>
  A Go map that is iterated is an association list with distinct keys; the list's order is
  the order of the iteration, which the theorems leave open by quantifying over the list.
\<close>

type_synonym ('k, 'v) gomap = "('k \<times> 'v) list"

abbreviation keys :: "('k, 'v) gomap \<Rightarrow> 'k list" where
  "keys m \<equiv> map fst m"

definition wf_map :: "('k, 'v) gomap \<Rightarrow> bool" where
  "wf_map m \<longleftrightarrow> distinct (keys m)"

lemma wf_map_Nil [simp, law_intros]: "wf_map []"
  by (simp add: wf_map_def)

lemma wf_map_update [simp, law_intros]: "wf_map m \<Longrightarrow> wf_map (AList.update k v m)"
  by (simp add: wf_map_def AList.distinct_update)

lemma wf_map_delete [simp, law_intros]: "wf_map m \<Longrightarrow> wf_map (AList.delete k m)"
  by (simp add: wf_map_def AList.distinct_delete)

lemma wf_map_filter [simp, law_intros]: "wf_map m \<Longrightarrow> wf_map (filter P m)"
  by (simp add: wf_map_def distinct_map_filter)

lemma wf_map_mem_iff: "wf_map m \<Longrightarrow> (k, v) \<in> set m \<longleftrightarrow> map_of m k = Some v"
  by (simp add: wf_map_def)

lemma map_of_update [simp]: "map_of (AList.update k v m) = (map_of m)(k \<mapsto> v)"
  by (rule AList.update_conv')

lemma map_of_delete [simp]: "map_of (AList.delete k m) = (map_of m)(k := None)"
  by (rule AList.delete_conv')

lemma set_update_alist:
  "wf_map m \<Longrightarrow> set (AList.update k v m) = {(k, v)} \<union> {kv \<in> set m. fst kv \<noteq> k}"
  by (induction m) (auto simp: wf_map_def image_iff)

lemma set_delete_alist: "set (AList.delete k m) = {kv \<in> set m. fst kv \<noteq> k}"
  by (auto simp: AList.delete_eq)

end
