(* ===== verification/GoTime.thy ===== *)
theory GoTime
  imports Prelude
begin

text \<open>
  Go's \<open>time\<close> package as the program uses it. A \<open>time.Time\<close> is an instant in nanoseconds
  since the Unix epoch (the wall and the monotonic reading of \<open>time.Now\<close> are one clock
  here); a \<open>time.Duration\<close> is an int64 nanosecond count, so \<open>Sub\<close> saturates and
  \<open>+\<close> on durations wraps.
\<close>

type_synonym gotime = int
type_synonym duration = int

definition second :: int where "second = 1000000000"

definition min_duration :: duration where "min_duration = - (2 ^ 63)"
definition max_duration :: duration where "max_duration = 2 ^ 63 - 1"

text \<open>Two's complement reading of an integer at 64 bits.\<close>

definition wrap64 :: "int \<Rightarrow> int" where
  "wrap64 x = (x + 2 ^ 63) mod 2 ^ 64 - 2 ^ 63"

definition in_int64 :: "int \<Rightarrow> bool" where
  "in_int64 x \<longleftrightarrow> min_duration \<le> x \<and> x \<le> max_duration"

definition time_Sub :: "gotime \<Rightarrow> gotime \<Rightarrow> duration" where
  "time_Sub t u =
     (let d = t - u in
      if d < min_duration then min_duration
      else if max_duration < d then max_duration else d)"

definition time_Add :: "gotime \<Rightarrow> duration \<Rightarrow> gotime" where
  "time_Add t d = t + d"

text \<open>\<open>time.Until(t)\<close> at the instant \<open>now\<close>.\<close>

definition time_Until :: "gotime \<Rightarrow> gotime \<Rightarrow> duration" where
  "time_Until now t = time_Sub t now"

definition dur_add :: "duration \<Rightarrow> duration \<Rightarrow> duration" where
  "dur_add a b = wrap64 (a + b)"

definition time_Unix :: "gotime \<Rightarrow> int" where
  "time_Unix t = t div second"

definition time_Nanosecond :: "gotime \<Rightarrow> int" where
  "time_Nanosecond t = t mod second"

text \<open>The zero \<open>time.Time\<close> is January 1 of year 1, UTC.\<close>

definition zero_time :: gotime where
  "zero_time = - 62135596800 * second"

definition time_IsZero :: "gotime \<Rightarrow> bool" where
  "time_IsZero t \<longleftrightarrow> t = zero_time"

definition time_After :: "gotime \<Rightarrow> gotime \<Rightarrow> bool" where
  "time_After t u \<longleftrightarrow> u < t"

definition time_Before :: "gotime \<Rightarrow> gotime \<Rightarrow> bool" where
  "time_Before t u \<longleftrightarrow> t < u"

section \<open>Laws\<close>

lemma wrap64_id [simp]: "in_int64 x \<Longrightarrow> wrap64 x = x"
  by (simp add: wrap64_def in_int64_def min_duration_def max_duration_def)

lemma in_int64_wrap64 [simp]: "in_int64 (wrap64 x)"
proof -
  have "0 \<le> (x + 2 ^ 63) mod 2 ^ 64" and "(x + 2 ^ 63) mod 2 ^ 64 < 2 ^ 64" by simp_all
  then show ?thesis by (simp add: wrap64_def in_int64_def min_duration_def max_duration_def)
qed

lemma in_int64_time_Sub [simp]: "in_int64 (time_Sub t u)"
  by (simp add: time_Sub_def Let_def in_int64_def min_duration_def max_duration_def)

lemma time_Sub_exact [simp]: "in_int64 (t - u) \<Longrightarrow> time_Sub t u = t - u"
  by (simp add: time_Sub_def Let_def in_int64_def)

lemma time_Add_Sub: "in_int64 (t - u) \<Longrightarrow> time_Add u (time_Sub t u) = t"
  by (simp add: time_Add_def)

lemma time_Until_exact [simp]: "in_int64 (t - now) \<Longrightarrow> time_Until now t = t - now"
  by (simp add: time_Until_def)

lemma second_pos [simp]: "0 < second"
  by (simp add: second_def)

lemma time_split: "time_Unix t * second + time_Nanosecond t = t"
  by (simp add: time_Unix_def time_Nanosecond_def)

lemma time_Nanosecond_range [simp]:
  "0 \<le> time_Nanosecond t" "time_Nanosecond t < second"
  by (simp_all add: time_Nanosecond_def second_def)

lemma time_Sub_saturates: "t - u < min_duration \<Longrightarrow> time_Sub t u = min_duration"
  "max_duration < t - u \<Longrightarrow> time_Sub t u = max_duration"
  by (simp_all add: time_Sub_def Let_def min_duration_def max_duration_def)

end
