(* ===== verification/Trampoline.thy ===== *)
theory Trampoline
  imports GoTime
begin

text \<open>
  pkg/trampoline/trampoline.go: the embedded payload, the offsets that locate the three hook
  stubs and the state struct inside it, and the serialisation of the 32-byte state struct.
  The codec locale is the contract of every encode/decode pair of the program.
\<close>

unbundle bit_operations_syntax

section \<open>Little-endian bytes\<close>

text \<open>\<open>binary.LittleEndian.PutUint64\<close> and \<open>Uint64\<close> (and the 32-bit pair) on \<open>n\<close> bytes.\<close>

fun to_le :: "nat \<Rightarrow> 'a::len word \<Rightarrow> byte list" where
  "to_le 0 w = []"
| "to_le (Suc n) w = ucast w # to_le n (drop_bit 8 w)"

fun of_le :: "byte list \<Rightarrow> 'a::len word" where
  "of_le [] = 0"
| "of_le (b # bs) = ucast b OR push_bit 8 (of_le bs)"

lemma length_to_le [simp]: "length (to_le n w) = n"
  by (induction n arbitrary: w) auto

lemma of_le_to_le: "(of_le (to_le n w) :: 'a::len word) = take_bit (8 * n) w"
proof (induction n arbitrary: w)
  case 0
  then show ?case by simp
next
  case (Suc n)
  have "(ucast (ucast w :: byte) OR push_bit 8 (take_bit (8 * n) (drop_bit 8 w)) :: 'a word)
      = take_bit (8 * Suc n) w"
    by (rule bit_word_eqI) (auto simp: bit_simps)
  with Suc show ?case by simp
qed

lemma of_le_to_le_64 [simp]: "of_le (to_le 8 (w :: 64 word)) = w"
  by (simp add: of_le_to_le take_bit_length_eq [where 'a = 64, simplified])

lemma of_le_to_le_32 [simp]: "of_le (to_le 4 (w :: 32 word)) = w"
  by (simp add: of_le_to_le take_bit_length_eq [where 'a = 32, simplified])

text \<open>Overwriting part of a buffer: \<open>copy(buf[i:], bs)\<close> when the copy fits.\<close>

definition put_at :: "nat \<Rightarrow> byte list \<Rightarrow> byte list \<Rightarrow> byte list" where
  "put_at i bs buf = take i buf @ bs @ drop (i + length bs) buf"

lemma length_put_at [simp]: "i + length bs \<le> length buf \<Longrightarrow> length (put_at i bs buf) = length buf"
  by (simp add: put_at_def)

lemma drop_put_at: "i \<le> length buf \<Longrightarrow> take (length bs) (drop i (put_at i bs buf)) = bs"
  by (simp add: put_at_def)

lemma take_put_at: "i \<le> length buf \<Longrightarrow> take i (put_at i bs buf) = take i buf"
  by (simp add: put_at_def)

section \<open>Layout constants\<close>

definition StateOffset :: nat where "StateOffset = 436"

definition ClockGettimeEntryOffset :: nat where "ClockGettimeEntryOffset = 0"
definition GettimeofdayEntryOffset :: nat where "GettimeofdayEntryOffset = 141"
definition TimeEntryOffset :: nat where "TimeEntryOffset = 306"

definition FieldOffsetSec :: nat where "FieldOffsetSec = StateOffset + 0"
definition FieldOffsetNsec :: nat where "FieldOffsetNsec = StateOffset + 8"
definition FieldEnabledMask :: nat where "FieldEnabledMask = StateOffset + 16"
definition FieldGeneration :: nat where "FieldGeneration = StateOffset + 24"

definition MaskEnabled :: "64 word" where "MaskEnabled = 1"
definition MaskFrozen :: "64 word" where "MaskFrozen = 3"

definition StateSize :: nat where "StateSize = 32"

section \<open>The state struct\<close>

record tramp_state =
  offsetSec :: int
  offsetNsec :: int
  enabledMask :: "64 word"
  generation :: "32 word"

definition EncodeState :: "int \<Rightarrow> int \<Rightarrow> 64 word \<Rightarrow> 32 word \<Rightarrow> byte list" where
  "EncodeState sec nsec msk gen =
     (let b = replicate StateSize 0;
          b = put_at 0 (to_le 8 (word_of_int sec :: 64 word)) b;
          b = put_at 8 (to_le 8 (word_of_int nsec :: 64 word)) b;
          b = put_at 16 (to_le 8 msk) b
      in put_at 24 (to_le 4 gen) b)"

text \<open>\<open>b[i:]\<close> read as a little-endian integer of \<open>n\<close> bytes.\<close>

definition slice :: "nat \<Rightarrow> nat \<Rightarrow> byte list \<Rightarrow> byte list" where
  "slice i n b = take n (drop i b)"

definition DecodeState :: "byte list \<Rightarrow> goerr + tramp_state" where
  "DecodeState b =
     (if length b < StateSize then Inl (Msg ''trampoline: DecodeState: buffer too short'')
      else Inr \<lparr>offsetSec = sint (of_le (slice 0 8 b) :: 64 word),
                offsetNsec = sint (of_le (slice 8 8 b) :: 64 word),
                enabledMask = of_le (slice 16 8 b),
                generation = of_le (slice 24 4 b)\<rparr>)"

lemma EncodeState_eq:
  "EncodeState sec nsec msk gen =
     to_le 8 (word_of_int sec :: 64 word) @ to_le 8 (word_of_int nsec :: 64 word) @
     to_le 8 msk @ to_le 4 gen @ replicate 4 0"
  by (simp add: EncodeState_def Let_def put_at_def StateSize_def)

lemma length_EncodeState [simp]: "length (EncodeState sec nsec msk gen) = StateSize"
  by (simp add: EncodeState_eq StateSize_def)

lemma slice_EncodeState [simp]:
  "slice 0 8 (EncodeState sec nsec msk gen) = to_le 8 (word_of_int sec :: 64 word)"
  "slice 8 8 (EncodeState sec nsec msk gen) = to_le 8 (word_of_int nsec :: 64 word)"
  "slice 16 8 (EncodeState sec nsec msk gen) = to_le 8 msk"
  "slice 24 4 (EncodeState sec nsec msk gen) = to_le 4 gen"
  by (simp_all add: EncodeState_eq slice_def)

lemma sint_word_of_int64 [simp]: "in_int64 x \<Longrightarrow> sint (word_of_int x :: 64 word) = x"
  by (simp add: in_int64_def min_duration_def max_duration_def sint_sbintrunc'
      signed_take_bit_int_eq_self)

lemma sint_word_of_int64_wrap: "sint (word_of_int x :: 64 word) = wrap64 x"
  by (simp add: int_word_sint wrap64_def)

lemma DecodeState_EncodeState:
  "DecodeState (EncodeState sec nsec msk gen) =
     Inr \<lparr>offsetSec = wrap64 sec, offsetNsec = wrap64 nsec, enabledMask = msk, generation = gen\<rparr>"
  by (simp add: DecodeState_def sint_word_of_int64_wrap)

section \<open>The codec contract\<close>

locale codec =
  fixes enc :: "'a \<Rightarrow> 'c" and dec :: "'c \<Rightarrow> 'e + 'a" and valid :: "'a \<Rightarrow> bool"
  assumes dec_enc: "valid x \<Longrightarrow> dec (enc x) = Inr x"
begin

lemma enc_inj: "valid x \<Longrightarrow> valid y \<Longrightarrow> enc x = enc y \<Longrightarrow> x = y"
  by (metis dec_enc sum.inject(2))

lemma dec_enc_not_error: "valid x \<Longrightarrow> dec (enc x) \<noteq> Inl e"
  by (simp add: dec_enc)

end

definition encode_state :: "tramp_state \<Rightarrow> byte list" where
  "encode_state s = EncodeState (offsetSec s) (offsetNsec s) (enabledMask s) (generation s)"

definition valid_state :: "tramp_state \<Rightarrow> bool" where
  "valid_state s \<longleftrightarrow> in_int64 (offsetSec s) \<and> in_int64 (offsetNsec s)"

interpretation state_codec: codec encode_state DecodeState valid_state
  by unfold_locales (simp add: encode_state_def valid_state_def DecodeState_EncodeState)

section \<open>The embedded payload\<close>

text \<open>trampoline.bin, byte for byte.\<close>

definition Payload :: "byte list" where
  "Payload =
    [131, 255, 0, 116, 5, 131, 255, 5, 117, 117, 76, 141, 29, 163, 1, 0, 0, 65,
     246, 67, 16, 1, 116, 103, 65, 246, 67, 16, 2, 117, 80, 87, 86, 184, 228, 0,
     0, 0, 15, 5, 94, 95, 76, 141, 29, 131, 1, 0, 0, 77, 139, 3, 77, 139,
     75, 8, 76, 1, 6, 76, 1, 78, 8, 72, 139, 70, 8, 72, 61, 0, 202, 154,
     59, 124, 15, 72, 45, 0, 202, 154, 59, 72, 137, 70, 8, 72, 255, 6, 235, 48,
     72, 131, 248, 0, 125, 42, 72, 5, 0, 202, 154, 59, 72, 137, 70, 8, 72, 255,
     14, 235, 27, 77, 139, 3, 77, 139, 75, 8, 76, 137, 6, 76, 137, 78, 8, 235,
     11, 87, 86, 184, 228, 0, 0, 0, 15, 5, 94, 95, 49, 192, 195, 76, 141, 29,
     32, 1, 0, 0, 65, 246, 67, 16, 1, 15, 132, 133, 0, 0, 0, 65, 246, 67,
     16, 2, 117, 95, 87, 86, 184, 96, 0, 0, 0, 15, 5, 94, 95, 72, 133, 255,
     116, 121, 76, 141, 29, 247, 0, 0, 0, 77, 139, 3, 73, 139, 67, 8, 72, 153,
     185, 232, 3, 0, 0, 72, 247, 249, 76, 1, 7, 72, 1, 71, 8, 72, 139, 71,
     8, 72, 61, 64, 66, 15, 0, 124, 15, 72, 45, 64, 66, 15, 0, 72, 137, 71,
     8, 72, 255, 7, 235, 63, 72, 131, 248, 0, 125, 57, 72, 5, 64, 66, 15, 0,
     72, 137, 71, 8, 72, 255, 15, 235, 42, 72, 133, 255, 116, 37, 77, 139, 3, 73,
     139, 67, 8, 72, 153, 185, 232, 3, 0, 0, 72, 247, 249, 76, 137, 7, 72, 137,
     71, 8, 235, 11, 87, 86, 184, 96, 0, 0, 0, 15, 5, 94, 95, 49, 192, 195,
     76, 141, 29, 123, 0, 0, 0, 65, 246, 67, 16, 1, 116, 108, 65, 246, 67, 16,
     2, 117, 88, 87, 72, 131, 236, 16, 49, 255, 72, 137, 230, 184, 228, 0, 0, 0,
     15, 5, 76, 141, 29, 85, 0, 0, 0, 77, 139, 3, 77, 139, 75, 8, 76, 1,
     4, 36, 76, 1, 76, 36, 8, 72, 139, 68, 36, 8, 72, 61, 0, 202, 154, 59,
     124, 6, 72, 255, 4, 36, 235, 10, 72, 131, 248, 0, 125, 4, 72, 255, 12, 36,
     72, 139, 4, 36, 72, 131, 196, 16, 95, 72, 133, 255, 116, 25, 72, 137, 7, 235,
     20, 73, 139, 3, 72, 133, 255, 116, 12, 72, 137, 7, 235, 7, 184, 201, 0, 0,
     0, 15, 5, 195, 0, 0, 0, 0, 0, 0, 0, 0, 0, 0, 0, 0, 0, 0,
     0, 0, 1, 0, 0, 0, 0, 0, 0, 0, 0, 0, 0, 0, 0, 0, 0, 0]"

lemma length_Payload [simp]: "length Payload = StateOffset + StateSize"
  by (simp add: Payload_def StateOffset_def StateSize_def)

text \<open>The payload with the initial state written into it, as the injector builds it.\<close>

definition payload_with_state :: "int \<Rightarrow> int \<Rightarrow> 64 word \<Rightarrow> byte list" where
  "payload_with_state sec nsec msk = put_at StateOffset (EncodeState sec nsec msk 0) Payload"

lemma length_payload_with_state [simp]:
  "length (payload_with_state sec nsec msk) = StateOffset + StateSize"
  by (simp add: payload_with_state_def)

lemma payload_state_slice:
  "slice StateOffset StateSize (payload_with_state sec nsec msk) = EncodeState sec nsec msk 0"
  unfolding slice_def payload_with_state_def
  using drop_put_at [of StateOffset Payload "EncodeState sec nsec msk 0"] by simp

lemma payload_code_unchanged:
  "take StateOffset (payload_with_state sec nsec msk) = take StateOffset Payload"
  by (simp add: payload_with_state_def take_put_at)

end
