(* ===== verification/X86.thy ===== *)
theory X86
  imports Trampoline
begin

text \<open>
  The fragment of x86-64 that pkg/trampoline/trampoline.asm is written in: a byte-addressed
  memory, the nine registers the stubs touch, the two flag conditions their jumps read, one
  evaluation function per instruction, basic blocks, and a run function with fuel.
\<close>

section \<open>Byte-addressed memory\<close>

type_synonym memory = "addr \<Rightarrow> byte"

definition read_bytes :: "memory \<Rightarrow> addr \<Rightarrow> nat \<Rightarrow> byte list" where
  "read_bytes m a n = map (\<lambda>i. m (a + of_nat i)) [0..<n]"

definition write_bytes :: "memory \<Rightarrow> addr \<Rightarrow> byte list \<Rightarrow> memory" where
  "write_bytes m a bs = (\<lambda>x. if unat (x - a) < length bs then bs ! unat (x - a) else m x)"

definition read64 :: "memory \<Rightarrow> addr \<Rightarrow> 64 word" where
  "read64 m a = of_le (read_bytes m a 8)"

definition write64 :: "memory \<Rightarrow> addr \<Rightarrow> 64 word \<Rightarrow> memory" where
  "write64 m a v = write_bytes m a (to_le 8 v)"

text \<open>Disjoint address ranges \<open>[a, a + n)\<close> and \<open>[b, b + k)\<close>.\<close>

definition apart :: "addr \<Rightarrow> nat \<Rightarrow> addr \<Rightarrow> nat \<Rightarrow> bool" where
  "apart a n b k \<longleftrightarrow> n \<le> unat (b - a) \<and> k \<le> unat (a - b)"

lemma length_read_bytes [simp]: "length (read_bytes m a n) = n"
  by (simp add: read_bytes_def)

lemma apart_sym: "apart a n b k \<longleftrightarrow> apart b k a n"
  by (auto simp: apart_def)

lemma unat_diff_bound:
  fixes a b :: addr
  assumes "n \<le> unat (b - a)" and "k \<le> unat (a - b)" and "0 < n \<or> 0 < k"
  shows "unat (b - a) + k \<le> 2 ^ 64"
proof -
  have *: "unat (a - b) + unat (b - a) = 2 ^ 64" if "a \<noteq> b"
  proof -
    have "uint (a - b) + uint (b - a) = 2 ^ 64"
      using that by (auto simp: uint_sub_if' word_uint_eq_iff)
    then have "int (unat (a - b) + unat (b - a)) = int (2 ^ 64)"
      by simp
    then show ?thesis by (simp only: of_nat_eq_iff)
  qed
  show ?thesis
  proof (cases "a = b")
    case True
    with assms show ?thesis by simp
  next
    case False
    with * [OF False] assms(2) show ?thesis by simp
  qed
qed

lemma apart_offset:
  assumes "apart a n b k" and "i < n" and "0 < n"
  shows "k \<le> unat (a + of_nat i - b)"
proof -
  have ub: "unat (a - b) + n \<le> 2 ^ 64"
    using assms unat_diff_bound [of k a b n] by (auto simp: apart_def)
  have i: "unat (of_nat i :: addr) = i"
    using ub assms(2) by (simp add: unat_of_nat)
  have "unat (a - b + of_nat i) = unat (a - b) + i"
    by (subst unat_add_lem [THEN iffD1]) (use ub assms(2) i in simp_all)
  then have "unat (a + of_nat i - b) = unat (a - b) + i"
    by (simp add: algebra_simps)
  then show ?thesis using assms(1) by (simp add: apart_def)
qed

lemma write_bytes_outside:
  "length bs \<le> unat (x - a) \<Longrightarrow> write_bytes m a bs x = m x"
  by (simp add: write_bytes_def)

lemma read_bytes_write_apart [sep_simps]:
  assumes "apart a n b (length bs)"
  shows "read_bytes (write_bytes m b bs) a n = read_bytes m a n"
  using apart_offset [OF assms] by (auto simp: read_bytes_def write_bytes_outside)

lemma read_bytes_write_same [simp]:
  assumes "length bs < 2 ^ 64"
  shows "read_bytes (write_bytes m a bs) a (length bs) = bs"
proof (rule nth_equalityI)
  fix i
  assume "i < length (read_bytes (write_bytes m a bs) a (length bs))"
  then have i: "i < length bs" by simp
  then have "unat (of_nat i :: addr) = i" using assms by (simp add: unat_of_nat)
  with i show "read_bytes (write_bytes m a bs) a (length bs) ! i = bs ! i"
    by (simp add: read_bytes_def write_bytes_def)
qed simp

lemma read64_write64_same [simp]: "read64 (write64 m a v) a = v"
  using read_bytes_write_same [of "to_le 8 v" m a] by (simp add: read64_def write64_def)

lemma read64_write64_apart [sep_simps]:
  "apart a 8 b 8 \<Longrightarrow> read64 (write64 m b v) a = read64 m a"
  by (simp add: read64_def write64_def read_bytes_write_apart)

lemma write64_byte_apart [sep_simps]:
  "apart a 1 b 8 \<Longrightarrow> write64 m b v a = m a"
  by (simp add: write64_def apart_def write_bytes_outside)

text \<open>Ranges inside disjoint ranges are disjoint.\<close>

lemma apart_sub:
  assumes "apart a n b k" and "i + n' \<le> n" and "j + k' \<le> k" and "0 < n'" and "0 < k'"
  shows "apart (a + of_nat i) n' (b + of_nat j) k'"
proof -
  have ub: "unat (b - a) + k \<le> 2 ^ 64" and ub': "unat (a - b) + n \<le> 2 ^ 64"
    using assms unat_diff_bound [of n b a k] unat_diff_bound [of k a b n] by (auto simp: apart_def)
  have lo: "n \<le> unat (b - a)" "k \<le> unat (a - b)" using assms(1) by (auto simp: apart_def)
  have shift: "unat (d + of_nat p - of_nat q) = unat d + p - q"
    if "unat d + p < 2 ^ 64" "q \<le> unat d" for d :: addr and p q
  proof -
    have p: "unat (of_nat p :: addr) = p" and q: "unat (of_nat q :: addr) = q"
      using that unsigned_less [of d, where 'a = nat] by (simp_all add: unat_of_nat)
    have dp: "unat (d + of_nat p) = unat d + p"
      by (subst unat_add_lem [THEN iffD1]) (use that p in simp_all)
    have "of_nat q \<le> d + of_nat p"
      using that dp q by (simp add: word_le_nat_alt)
    then show ?thesis by (simp add: unat_sub dp q)
  qed
  have "unat (b - a + of_nat j - of_nat i) = unat (b - a) + j - i"
    by (rule shift) (use ub lo assms(2-5) in simp_all)
  moreover have "unat (a - b + of_nat i - of_nat j) = unat (a - b) + i - j"
    by (rule shift) (use ub' lo assms(2-5) in simp_all)
  ultimately show ?thesis
    using lo assms(2-5) by (simp add: apart_def algebra_simps) arith
qed

section \<open>Registers, flags, instructions\<close>

datatype reg = RAX | RCX | RDX | RSI | RDI | RSP | R8 | R9 | R11

text \<open>
  The flags are kept as the two conditions the stubs' jumps read: \<open>zf\<close> (je, jz, jne, jnz)
  and \<open>lt\<close>, that is \<open>SF \<noteq> OF\<close> (jl, jge).
\<close>

record cpu =
  regs :: "reg \<Rightarrow> 64 word"
  mem :: memory
  zf :: bool
  lt :: bool

datatype 'l instr =
    MovImm reg "64 word"
  | MovReg reg reg
  | MovLoad reg reg "64 word"
  | MovStore reg "64 word" reg
  | LeaState reg
  | TestByte reg "64 word" byte
  | TestReg reg
  | Cmp32 reg "32 word"
  | CmpImm reg "64 word"
  | AddStore reg "64 word" reg
  | AddImm reg "64 word"
  | SubImm reg "64 word"
  | IncMem reg "64 word"
  | DecMem reg "64 word"
  | Push reg
  | Pop reg
  | ClearReg reg
  | Cqo
  | Idiv reg
  | Syscall
  | Jmp 'l
  | Je 'l
  | Jne 'l
  | Jl 'l
  | Jge 'l
  | Ret

text \<open>
  The kernel's side of the \<open>syscall\<close> instruction is a parameter: from the number (rax), the
  first two arguments and the memory it gives rax, the two registers the instruction itself
  clobbers (rcx with the return address, r11 with RFLAGS) and the memory afterwards.
\<close>

record sysret =
  ret_rax :: "64 word"
  ret_rcx :: "64 word"
  ret_r11 :: "64 word"
  ret_mem :: memory

type_synonym syscall_fn = "64 word \<Rightarrow> 64 word \<Rightarrow> 64 word \<Rightarrow> memory \<Rightarrow> sysret"

definition set_reg :: "reg \<Rightarrow> 64 word \<Rightarrow> cpu \<Rightarrow> cpu" where
  "set_reg r v c = c\<lparr>regs := (regs c)(r := v)\<rparr>"

definition set_mem64 :: "addr \<Rightarrow> 64 word \<Rightarrow> cpu \<Rightarrow> cpu" where
  "set_mem64 a v c = c\<lparr>mem := write64 (mem c) a v\<rparr>"

text \<open>Flags of a result: zero, and the sign of the result had it not overflowed.\<close>

definition set_flags :: "bool \<Rightarrow> bool \<Rightarrow> cpu \<Rightarrow> cpu" where
  "set_flags z l c = c\<lparr>zf := z, lt := l\<rparr>"

definition add_flags :: "64 word \<Rightarrow> 64 word \<Rightarrow> cpu \<Rightarrow> cpu" where
  "add_flags a b = set_flags (a + b = 0) (sint a + sint b < 0)"

definition sub_flags :: "64 word \<Rightarrow> 64 word \<Rightarrow> cpu \<Rightarrow> cpu" where
  "sub_flags a b = set_flags (a = b) (sint a < sint b)"

datatype 'l outcome = Next cpu | Goto 'l cpu | Returned cpu | Fault

text \<open>One instruction; \<open>st\<close> is the address of the \<open>state\<close> label (rip-relative in the code).\<close>

fun exec_instr :: "syscall_fn \<Rightarrow> addr \<Rightarrow> 'l instr \<Rightarrow> cpu \<Rightarrow> 'l outcome" where
  "exec_instr sc st (MovImm r v) c = Next (set_reg r v c)"
| "exec_instr sc st (MovReg r s) c = Next (set_reg r (regs c s) c)"
| "exec_instr sc st (MovLoad r b d) c = Next (set_reg r (read64 (mem c) (regs c b + d)) c)"
| "exec_instr sc st (MovStore b d r) c = Next (set_mem64 (regs c b + d) (regs c r) c)"
| "exec_instr sc st (LeaState r) c = Next (set_reg r st c)"
| "exec_instr sc st (TestByte b d v) c =
     (let x = mem c (regs c b + d) AND v in Next (set_flags (x = 0) (sint x < 0) c))"
| "exec_instr sc st (TestReg r) c =
     Next (set_flags (regs c r = 0) (sint (regs c r) < 0) c)"
| "exec_instr sc st (Cmp32 r v) c =
     (let x = (ucast (regs c r) :: 32 word) in Next (set_flags (x = v) (sint x < sint v) c))"
| "exec_instr sc st (CmpImm r v) c = Next (sub_flags (regs c r) v c)"
| "exec_instr sc st (AddStore b d r) c =
     (let a = regs c b + d; x = read64 (mem c) a
      in Next (add_flags x (regs c r) (set_mem64 a (x + regs c r) c)))"
| "exec_instr sc st (AddImm r v) c =
     Next (add_flags (regs c r) v (set_reg r (regs c r + v) c))"
| "exec_instr sc st (SubImm r v) c =
     Next (sub_flags (regs c r) v (set_reg r (regs c r - v) c))"
| "exec_instr sc st (IncMem b d) c =
     (let a = regs c b + d; x = read64 (mem c) a
      in Next (add_flags x 1 (set_mem64 a (x + 1) c)))"
| "exec_instr sc st (DecMem b d) c =
     (let a = regs c b + d; x = read64 (mem c) a
      in Next (sub_flags x 1 (set_mem64 a (x - 1) c)))"
| "exec_instr sc st (Push r) c =
     (let sp = regs c RSP - 8 in Next (set_mem64 sp (regs c r) (set_reg RSP sp c)))"
| "exec_instr sc st (Pop r) c =
     (let sp = regs c RSP
      in Next (set_reg r (read64 (mem c) sp) (set_reg RSP (sp + 8) c)))"
| "exec_instr sc st (ClearReg r) c = Next (set_flags True False (set_reg r 0 c))"
| "exec_instr sc st Cqo c =
     Next (set_reg RDX (if sint (regs c RAX) < 0 then - 1 else 0) c)"
| "exec_instr sc st (Idiv r) c =
     (let n = sint (regs c RDX) * 2 ^ 64 + uint (regs c RAX); d = sint (regs c r) in
      if d = 0 \<or> \<not> in_int64 (n sdiv d) then Fault
      else Next (set_reg RDX (word_of_int (n smod d)) (set_reg RAX (word_of_int (n sdiv d)) c)))"
| "exec_instr sc st Syscall c =
     (let r = sc (regs c RAX) (regs c RDI) (regs c RSI) (mem c)
      in Next (set_reg RAX (ret_rax r) (set_reg RCX (ret_rcx r) (set_reg R11 (ret_r11 r)
           (c\<lparr>mem := ret_mem r\<rparr>)))))"
| "exec_instr sc st (Jmp l) c = Goto l c"
| "exec_instr sc st (Je l) c = (if zf c then Goto l c else Next c)"
| "exec_instr sc st (Jne l) c = (if zf c then Next c else Goto l c)"
| "exec_instr sc st (Jl l) c = (if lt c then Goto l c else Next c)"
| "exec_instr sc st (Jge l) c = (if lt c then Next c else Goto l c)"
| "exec_instr sc st Ret c = Returned (set_reg RSP (regs c RSP + 8) c)"

text \<open>
  A basic block runs to its first taken jump or return. Falling off the end of a block is a
  fault: the listing's fall-through from one label to the next is written as a \<open>Jmp\<close>.
\<close>

fun exec_block :: "syscall_fn \<Rightarrow> addr \<Rightarrow> 'l instr list \<Rightarrow> cpu \<Rightarrow> 'l outcome" where
  "exec_block sc st [] c = Fault"
| "exec_block sc st (i # is) c =
     (case exec_instr sc st i c of Next c' \<Rightarrow> exec_block sc st is c' | out \<Rightarrow> out)"

text \<open>\<open>run\<close> spends one unit of fuel per block; \<open>None\<close> is a fault or no fuel left.\<close>

fun run :: "('l \<Rightarrow> 'l instr list) \<Rightarrow> syscall_fn \<Rightarrow> addr \<Rightarrow> nat \<Rightarrow> 'l \<Rightarrow> cpu \<Rightarrow> cpu option" where
  "run prog sc st 0 l c = None"
| "run prog sc st (Suc n) l c =
     (case exec_block sc st (prog l) c of
        Goto l' c' \<Rightarrow> run prog sc st n l' c'
      | Returned c' \<Rightarrow> Some c'
      | _ \<Rightarrow> None)"

lemma run_mono: "run prog sc st n l c = Some c' \<Longrightarrow> run prog sc st (n + k) l c = Some c'"
proof (induction n arbitrary: l c)
  case 0
  then show ?case by simp
next
  case (Suc n)
  then show ?case by (auto split: outcome.splits)
qed

end
