(* ===== verification/Hooks.thy ===== *)
theory Hooks
  imports X86
begin

text \<open>
  pkg/trampoline/trampoline.asm: the three hook stubs, block by block, in the order of the
  listing, and what each computes from the state struct and the kernel's reading.
\<close>

section \<open>The listing\<close>

datatype hook_label =
    Cgt_entry | Cgt_maybe_intercept | Cgt_check_negative | Cgt_freeze | Cgt_real_syscall | Cgt_done
  | Gtod_entry | Gtod_check_negative | Gtod_freeze | Gtod_real_syscall | Gtod_done
  | Time_entry | Time_check_negative | Time_load_result | Time_freeze | Time_real_time | Time_done

fun hook :: "hook_label \<Rightarrow> hook_label instr list" where
  "hook Cgt_entry =
     [Cmp32 RDI 0, Je Cgt_maybe_intercept, Cmp32 RDI 5, Jne Cgt_real_syscall,
      Jmp Cgt_maybe_intercept]"
| "hook Cgt_maybe_intercept =
     [LeaState R11, TestByte R11 16 1, Je Cgt_real_syscall, TestByte R11 16 2, Jne Cgt_freeze,
      Push RDI, Push RSI, MovImm RAX 228, Syscall, Pop RSI, Pop RDI,
      LeaState R11, MovLoad R8 R11 0, MovLoad R9 R11 8,
      AddStore RSI 0 R8, AddStore RSI 8 R9,
      MovLoad RAX RSI 8, CmpImm RAX 1000000000, Jl Cgt_check_negative,
      SubImm RAX 1000000000, MovStore RSI 8 RAX, IncMem RSI 0, Jmp Cgt_done]"
| "hook Cgt_check_negative =
     [CmpImm RAX 0, Jge Cgt_done, AddImm RAX 1000000000, MovStore RSI 8 RAX, DecMem RSI 0,
      Jmp Cgt_done]"
| "hook Cgt_freeze =
     [MovLoad R8 R11 0, MovLoad R9 R11 8, MovStore RSI 0 R8, MovStore RSI 8 R9, Jmp Cgt_done]"
| "hook Cgt_real_syscall =
     [Push RDI, Push RSI, MovImm RAX 228, Syscall, Pop RSI, Pop RDI, Jmp Cgt_done]"
| "hook Cgt_done = [ClearReg RAX, Ret]"
| "hook Gtod_entry =
     [LeaState R11, TestByte R11 16 1, Je Gtod_real_syscall, TestByte R11 16 2, Jne Gtod_freeze,
      Push RDI, Push RSI, MovImm RAX 96, Syscall, Pop RSI, Pop RDI,
      TestReg RDI, Je Gtod_done,
      LeaState R11, MovLoad R8 R11 0, MovLoad RAX R11 8, Cqo, MovImm RCX 1000, Idiv RCX,
      AddStore RDI 0 R8, AddStore RDI 8 RAX,
      MovLoad RAX RDI 8, CmpImm RAX 1000000, Jl Gtod_check_negative,
      SubImm RAX 1000000, MovStore RDI 8 RAX, IncMem RDI 0, Jmp Gtod_done]"
| "hook Gtod_check_negative =
     [CmpImm RAX 0, Jge Gtod_done, AddImm RAX 1000000, MovStore RDI 8 RAX, DecMem RDI 0,
      Jmp Gtod_done]"
| "hook Gtod_freeze =
     [TestReg RDI, Je Gtod_done,
      MovLoad R8 R11 0, MovLoad RAX R11 8, Cqo, MovImm RCX 1000, Idiv RCX,
      MovStore RDI 0 R8, MovStore RDI 8 RAX, Jmp Gtod_done]"
| "hook Gtod_real_syscall =
     [Push RDI, Push RSI, MovImm RAX 96, Syscall, Pop RSI, Pop RDI, Jmp Gtod_done]"
| "hook Gtod_done = [ClearReg RAX, Ret]"
| "hook Time_entry =
     [LeaState R11, TestByte R11 16 1, Je Time_real_time, TestByte R11 16 2, Jne Time_freeze,
      Push RDI, SubImm RSP 16, ClearReg RDI, MovReg RSI RSP, MovImm RAX 228, Syscall,
      LeaState R11, MovLoad R8 R11 0, MovLoad R9 R11 8,
      AddStore RSP 0 R8, AddStore RSP 8 R9,
      MovLoad RAX RSP 8, CmpImm RAX 1000000000, Jl Time_check_negative,
      IncMem RSP 0, Jmp Time_load_result]"
| "hook Time_check_negative = [CmpImm RAX 0, Jge Time_load_result, DecMem RSP 0,
      Jmp Time_load_result]"
| "hook Time_load_result =
     [MovLoad RAX RSP 0, AddImm RSP 16, Pop RDI, TestReg RDI, Je Time_done,
      MovStore RDI 0 RAX, Jmp Time_done]"
| "hook Time_freeze =
     [MovLoad RAX R11 0, TestReg RDI, Je Time_done, MovStore RDI 0 RAX, Jmp Time_done]"
| "hook Time_real_time = [MovImm RAX 201, Syscall, Jmp Time_done]"
| "hook Time_done = [Ret]"

section \<open>What the stubs compute\<close>

text \<open>
  The reference: an offset (or a frozen instant) in seconds and nanoseconds applied to a
  kernel reading, with one carry or borrow.
\<close>

definition adv_timespec :: "int \<times> int \<Rightarrow> int \<times> int \<Rightarrow> int \<times> int" where
  "adv_timespec = (\<lambda>(s, n) (os, on).
     if 1000000000 \<le> n + on then (s + os + 1, n + on - 1000000000)
     else if n + on < 0 then (s + os - 1, n + on + 1000000000)
     else (s + os, n + on))"

definition adv_timeval :: "int \<times> int \<Rightarrow> int \<times> int \<Rightarrow> int \<times> int" where
  "adv_timeval = (\<lambda>(s, u) (os, on).
     let ou = on sdiv 1000 in
     if 1000000 \<le> u + ou then (s + os + 1, u + ou - 1000000)
     else if u + ou < 0 then (s + os - 1, u + ou + 1000000)
     else (s + os, u + ou))"

section \<open>Layout of a call\<close>

text \<open>
  \<open>state_at\<close>: the 32 bytes at \<open>st\<close> are an encoded state. \<open>hook_frame\<close>: the state struct,
  the caller's 16-byte result buffer \<open>p\<close> (unless it is NULL) and the stub's stack (24 bytes
  below the return address, and the return address) do not overlap.
\<close>

definition state_at :: "memory \<Rightarrow> addr \<Rightarrow> tramp_state \<Rightarrow> bool" where
  "state_at m st s \<longleftrightarrow> read_bytes m st StateSize = encode_state s"

definition hook_frame :: "addr \<Rightarrow> addr \<Rightarrow> addr \<Rightarrow> bool" where
  "hook_frame st p sp \<longleftrightarrow>
     apart st 32 (sp - 24) 32 \<and> (p \<noteq> 0 \<longrightarrow> apart st 32 p 16 \<and> apart p 16 (sp - 24) 32)"

lemma read_bytes_slice:
  "i + k \<le> n \<Longrightarrow> slice i k (read_bytes m a n) = read_bytes m (a + of_nat i) k"
  by (rule nth_equalityI) (auto simp: slice_def read_bytes_def algebra_simps)

lemma state_at_reads:
  assumes "state_at m st s"
  shows "read64 m st = word_of_int (offsetSec s)"
    and "read64 m (st + 8) = word_of_int (offsetNsec s)"
    and "m (st + 16) = ucast (enabledMask s)"
proof -
  have sl: "slice i k (encode_state s) = read_bytes m (st + of_nat i) k" if "i + k \<le> 32" for i k
    using assms that read_bytes_slice [of i k 32 m st] by (simp add: state_at_def StateSize_def)
  have "read_bytes m st 8 = to_le 8 (word_of_int (offsetSec s) :: 64 word)"
    using sl [of 0 8] by (simp add: encode_state_def)
  then show "read64 m st = word_of_int (offsetSec s)"
    by (simp add: read64_def)
  have "read_bytes m (st + 8) 8 = to_le 8 (word_of_int (offsetNsec s) :: 64 word)"
    using sl [of 8 8] by (simp add: encode_state_def)
  then show "read64 m (st + 8) = word_of_int (offsetNsec s)"
    by (simp add: read64_def)
  have "read_bytes m (st + 16) 8 = to_le 8 (enabledMask s)"
    using sl [of 16 8] by (simp add: encode_state_def)
  then have "read_bytes m (st + 16) 8 ! 0 = to_le 8 (enabledMask s) ! 0" by simp
  then show "m (st + 16) = ucast (enabledMask s)"
    by (simp add: read_bytes_def numeral_eq_Suc)
qed

lemma apart_self:
  "apart a 8 (a + 8) 8" "apart (a + 8) 8 a 8" "apart a 8 (a + 16) 8" "apart (a + 16) 8 a 8"
  for a :: addr
  by (simp_all add: apart_def)

lemma hook_frame_stack:
  assumes "hook_frame st p sp"
  shows "apart st 8 (sp - 8) 8" "apart st 8 (sp - 16) 8" "apart st 8 (sp - 24) 8"
    "apart (st + 8) 8 (sp - 8) 8" "apart (st + 8) 8 (sp - 16) 8" "apart (st + 8) 8 (sp - 24) 8"
    "apart (sp - 8) 8 (sp - 16) 8" "apart (sp - 16) 8 (sp - 8) 8"
    "apart (sp - 8) 8 (sp - 24) 8" "apart (sp - 24) 8 (sp - 8) 8"
    "apart (sp - 16) 8 (sp - 24) 8" "apart (sp - 24) 8 (sp - 16) 8"
    "apart st 32 (sp - 8) 8" "apart st 32 (sp - 16) 8" "apart st 32 (sp - 24) 8"
proof -
  have fr: "apart st 32 (sp - 24) 32" using assms by (simp add: hook_frame_def)
  note sub = apart_sub [OF fr]
  show "apart st 8 (sp - 8) 8" "apart st 8 (sp - 16) 8" "apart st 8 (sp - 24) 8"
    using sub [of 0 8 16 8] sub [of 0 8 8 8] sub [of 0 8 0 8] by simp_all
  show "apart (st + 8) 8 (sp - 8) 8" "apart (st + 8) 8 (sp - 16) 8" "apart (st + 8) 8 (sp - 24) 8"
    using sub [of 8 8 16 8] sub [of 8 8 8 8] sub [of 8 8 0 8] by simp_all
  show "apart (sp - 8) 8 (sp - 16) 8" "apart (sp - 16) 8 (sp - 8) 8"
    "apart (sp - 8) 8 (sp - 24) 8" "apart (sp - 24) 8 (sp - 8) 8"
    "apart (sp - 16) 8 (sp - 24) 8" "apart (sp - 24) 8 (sp - 16) 8"
    using apart_self [of "sp - 16"] apart_self [of "sp - 24"] by simp_all
  show "apart st 32 (sp - 8) 8" "apart st 32 (sp - 16) 8" "apart st 32 (sp - 24) 8"
    using sub [of 0 32 16 8] sub [of 0 32 8 8] sub [of 0 32 0 8] by simp_all
qed

lemma hook_frame_buffer:
  assumes "hook_frame st p sp" and "p \<noteq> 0"
  shows "apart st 8 p 8" "apart (st + 8) 8 p 8" "apart st 8 (p + 8) 8" "apart (st + 8) 8 (p + 8) 8"
    "apart p 8 (p + 8) 8" "apart (p + 8) 8 p 8"
    "apart p 8 (sp - 8) 8" "apart p 8 (sp - 16) 8" "apart p 8 (sp - 24) 8"
    "apart (p + 8) 8 (sp - 8) 8" "apart (p + 8) 8 (sp - 16) 8"
    "apart (sp - 8) 8 p 8" "apart (sp - 16) 8 p 8" "apart (sp - 8) 8 (p + 8) 8"
    "apart (sp - 16) 8 (p + 8) 8"
    "apart st 32 p 8" "apart st 32 (p + 8) 8"
    "apart sp 8 p 8" "apart sp 8 (p + 8) 8"
proof -
  have fr: "apart st 32 p 16" "apart p 16 (sp - 24) 32"
    using assms by (simp_all add: hook_frame_def)
  note sub = apart_sub [OF fr(1)] and sub' = apart_sub [OF fr(2)]
  show "apart st 8 p 8" "apart (st + 8) 8 p 8" "apart st 8 (p + 8) 8" "apart (st + 8) 8 (p + 8) 8"
    using sub [of 0 8 0 8] sub [of 8 8 0 8] sub [of 0 8 8 8] sub [of 8 8 8 8] by simp_all
  show "apart p 8 (p + 8) 8" "apart (p + 8) 8 p 8" by (rule apart_self)+
  have *: "apart p 8 (sp - 8) 8" "apart p 8 (sp - 16) 8" "apart (p + 8) 8 (sp - 8) 8"
    "apart (p + 8) 8 (sp - 16) 8" "apart p 8 sp 8" "apart (p + 8) 8 sp 8"
    using sub' [of 0 8 16 8] sub' [of 0 8 8 8] sub' [of 8 8 16 8] sub' [of 8 8 8 8]
      sub' [of 0 8 24 8] sub' [of 8 8 24 8]
    by simp_all
  then show "apart p 8 (sp - 8) 8" "apart p 8 (sp - 16) 8" "apart (p + 8) 8 (sp - 8) 8"
    "apart (p + 8) 8 (sp - 16) 8"
    by blast+
  show "apart p 8 (sp - 24) 8" using sub' [of 0 8 0 8] by simp
  from * show "apart (sp - 8) 8 p 8" "apart (sp - 16) 8 p 8" "apart (sp - 8) 8 (p + 8) 8"
    "apart (sp - 16) 8 (p + 8) 8" "apart sp 8 p 8" "apart sp 8 (p + 8) 8"
    by (simp_all only: apart_sym)
  show "apart st 32 p 8" "apart st 32 (p + 8) 8"
    using sub [of 0 32 0 8] sub [of 0 32 8 8] by simp_all
qed

lemma state_at_write64 [sep_simps]:
  "apart st 32 a 8 \<Longrightarrow> state_at (write64 m a v) st s \<longleftrightarrow> state_at m st s"
  by (simp add: state_at_def write64_def StateSize_def read_bytes_write_apart)

section \<open>The kernel's side\<close>

text \<open>
  Documented behaviour of the three system calls, on which the stubs rely: \<open>clock_gettime\<close>
  (228) stores the reading of the clock it is asked for as a timespec, \<open>gettimeofday\<close> (96)
  stores the reading of the wall clock as a timeval unless the pointer is NULL (the time zone
  pointer is NULL), \<open>time\<close> (201) is not constrained.
\<close>

definition kernel_clock :: "syscall_fn \<Rightarrow> (32 word \<Rightarrow> int \<times> int) \<Rightarrow> bool" where
  "kernel_clock sc rd \<longleftrightarrow>
     (\<forall>clk tp m. ret_mem (sc 228 clk tp m) =
        write64 (write64 m tp (word_of_int (fst (rd (ucast clk))))) (tp + 8)
          (word_of_int (snd (rd (ucast clk)))))"

definition kernel_tod :: "syscall_fn \<Rightarrow> int \<times> int \<Rightarrow> bool" where
  "kernel_tod sc tv \<longleftrightarrow>
     (\<forall>p m. ret_mem (sc 96 p 0 m) =
        (if p = 0 then m
         else write64 (write64 m p (word_of_int (fst tv))) (p + 8) (word_of_int (snd tv))))"

text \<open>A kernel that behaves so: every clock reads \<open>rd\<close>, microseconds are truncated.\<close>

definition fixed_kernel :: "int \<times> int \<Rightarrow> syscall_fn" where
  "fixed_kernel rd nr a b m =
     \<lparr>ret_rax = (if nr = 201 then word_of_int (fst rd) else 0), ret_rcx = 0, ret_r11 = 0,
      ret_mem =
        (if nr = 228 then write64 (write64 m b (word_of_int (fst rd))) (b + 8) (word_of_int (snd rd))
         else if a = 0 then m
         else if nr = 96 then write64 (write64 m a (word_of_int (fst rd))) (a + 8)
                               (word_of_int (snd rd div 1000))
         else write64 m a (word_of_int (fst rd)))\<rparr>"

lemma kernel_clock_fixed [simp]: "kernel_clock (fixed_kernel rd) (\<lambda>_. rd)"
  by (simp add: kernel_clock_def fixed_kernel_def)

lemma kernel_tod_fixed [simp]: "kernel_tod (fixed_kernel rd) (fst rd, snd rd div 1000)"
  by (simp add: kernel_tod_def fixed_kernel_def)

section \<open>Symbolic execution of the stubs\<close>

lemma run_numeral:
  "run prog sc st (numeral k) l c =
     (case exec_block sc st (prog l) c of
        Goto l' c' \<Rightarrow> run prog sc st (pred_numeral k) l' c'
      | Returned c' \<Rightarrow> Some c'
      | _ \<Rightarrow> None)"
  by (simp add: numeral_eq_Suc)

lemmas machine_simps =
  run_numeral set_flags_def set_reg_def set_mem64_def add_flags_def sub_flags_def Let_def

text \<open>The dividend that \<open>cqo\<close> prepares is the signed value of rax.\<close>

lemma cqo_dividend:
  "sint (if sint w < 0 then - 1 else (0 :: 64 word)) * 2 ^ 64 + uint w = sint (w :: 64 word)"
proof -
  have lo: "- (2 ^ 63) \<le> sint w" and hi: "sint w < 2 ^ 63"
    using sint_ge [of w] sint_lt [of w] by simp_all
  have u: "uint w = sint w mod 2 ^ 64" by (simp add: uint_sint take_bit_int_def)
  show ?thesis
  proof (cases "sint w < 0")
    case True
    then have "(sint w + 2 ^ 64) mod 2 ^ 64 = sint w + 2 ^ 64"
      using lo by (intro mod_pos_pos_trivial) simp_all
    with u True show ?thesis by simp
  next
    case False
    with u hi show ?thesis by simp
  qed
qed

lemma sdiv_1000_range:
  assumes "- 1000000000 < x" and "x < (1000000000 :: int)"
  shows "- 1000000 < x sdiv 1000 \<and> x sdiv 1000 < 1000000"
  using assms by (auto simp: signed_divide_int_def sgn_if)

lemma in_int64_small [simp]: "- 4000000000 \<le> x \<Longrightarrow> x \<le> 4000000000 \<Longrightarrow> in_int64 x"
  by (simp add: in_int64_def min_duration_def max_duration_def)

lemma sint_sum_small:
  assumes "- 4000000000 \<le> a + b" and "a + b \<le> 4000000000"
  shows "sint (word_of_int a + word_of_int b :: 64 word) = a + b"
  using sint_word_of_int64 [of "a + b"] assms by simp

text \<open>
  The outcome of a call: it returns to its caller (the return address popped, the argument
  registers rdi and rsi as they were), it leaves the state struct alone, and \<open>p\<close> holds the
  pair of 64-bit values \<open>v\<close>.
\<close>

definition stores_pair :: "addr \<Rightarrow> int \<times> int \<Rightarrow> cpu \<Rightarrow> bool" where
  "stores_pair p v c \<longleftrightarrow>
     read64 (mem c) p = word_of_int (fst v) \<and> read64 (mem c) (p + 8) = word_of_int (snd v)"

definition returns_from :: "cpu \<Rightarrow> cpu \<Rightarrow> bool" where
  "returns_from c c' \<longleftrightarrow> regs c' RSP = regs c RSP + 8 \<and> regs c' RDI = regs c RDI"

subsection \<open>clock_gettime\<close>

lemma cgt_advancing_run:
  assumes frame: "hook_frame st (regs c RSI) (regs c RSP)" and "regs c RSI \<noteq> 0"
    and st: "state_at (mem c) st s" and mode: "enabledMask s = MaskEnabled"
    and clk: "ucast (regs c RDI) \<in> {0, 5 :: 32 word}"
    and kern: "kernel_clock sc rd" and rd: "rd (ucast (regs c RDI)) = (rs, rn)"
    and rn: "0 \<le> rn" "rn < 1000000000"
    and on: "- 1000000000 < offsetNsec s" "offsetNsec s < 1000000000"
  shows "\<exists>c'. run hook sc st 4 Cgt_entry c = Some c' \<and> regs c' RAX = 0 \<and> returns_from c c' \<and>
     state_at (mem c') st s \<and>
     stores_pair (regs c RSI) (adv_timespec (rs, rn) (offsetSec s, offsetNsec s)) c'"
proof -
  obtain p sp where r: "regs c RSI = p" "regs c RSP = sp" by blast
  note ff = hook_frame_stack [OF frame, unfolded r]
    hook_frame_buffer [OF frame \<open>regs c RSI \<noteq> 0\<close>, unfolded r]
  have b: "mem c (st + 16) = 1"
    using mode state_at_reads(3) [OF st] by (simp add: MaskEnabled_def)
  have k: "ret_mem (sc 228 (regs c RDI) p m) =
      write64 (write64 m p (word_of_int rs)) (p + 8) (word_of_int rn)" for m
    using kern rd by (simp add: kernel_clock_def)
  have sum: "sint (word_of_int rn + word_of_int (offsetNsec s) :: 64 word) = rn + offsetNsec s"
    by (rule sint_sum_small) (use rn on in simp_all)
  show ?thesis
    using clk rn on
    by (auto simp: machine_simps sep_simps ff r b k sum state_at_reads [OF st] st returns_from_def
        stores_pair_def adv_timespec_def)
qed

lemma cgt_frozen_run:
  assumes frame: "hook_frame st (regs c RSI) (regs c RSP)" and "regs c RSI \<noteq> 0"
    and st: "state_at (mem c) st s" and mode: "enabledMask s = MaskFrozen"
    and clk: "ucast (regs c RDI) \<in> {0, 5 :: 32 word}"
  shows "\<exists>c'. run hook sc st 4 Cgt_entry c = Some c' \<and> regs c' RAX = 0 \<and> returns_from c c' \<and>
     state_at (mem c') st s \<and> stores_pair (regs c RSI) (offsetSec s, offsetNsec s) c'"
proof -
  obtain p sp where r: "regs c RSI = p" "regs c RSP = sp" by blast
  note ff = hook_frame_buffer [OF frame \<open>regs c RSI \<noteq> 0\<close>, unfolded r]
  have b: "mem c (st + 16) = 3"
    using mode state_at_reads(3) [OF st] by (simp add: MaskFrozen_def)
  show ?thesis
    using clk
    by (auto simp: machine_simps sep_simps ff r b state_at_reads [OF st] st returns_from_def
        stores_pair_def)
qed

lemma cgt_passthrough_run:
  assumes frame: "hook_frame st (regs c RSI) (regs c RSP)" and "regs c RSI \<noteq> 0"
    and st: "state_at (mem c) st s"
    and clk: "ucast (regs c RDI) \<notin> {0, 5 :: 32 word}"
    and kern: "kernel_clock sc rd" and rd: "rd (ucast (regs c RDI)) = v"
  shows "\<exists>c'. run hook sc st 4 Cgt_entry c = Some c' \<and> regs c' RAX = 0 \<and> returns_from c c' \<and>
     state_at (mem c') st s \<and> stores_pair (regs c RSI) v c'"
proof -
  obtain p sp where r: "regs c RSI = p" "regs c RSP = sp" by blast
  note ff = hook_frame_stack [OF frame, unfolded r]
    hook_frame_buffer [OF frame \<open>regs c RSI \<noteq> 0\<close>, unfolded r]
  have k: "ret_mem (sc 228 (regs c RDI) p m) =
      write64 (write64 m p (word_of_int (fst v))) (p + 8) (word_of_int (snd v))" for m
    using kern rd by (simp add: kernel_clock_def)
  show ?thesis
    using clk
    by (auto simp: machine_simps sep_simps ff r k st returns_from_def stores_pair_def)
qed

subsection \<open>gettimeofday\<close>

lemma gtod_advancing_run:
  assumes frame: "hook_frame st (regs c RDI) (regs c RSP)" and "regs c RDI \<noteq> 0"
    and "regs c RSI = 0"
    and st: "state_at (mem c) st s" and mode: "enabledMask s = MaskEnabled"
    and kern: "kernel_tod sc (rs, ru)"
    and ru: "0 \<le> ru" "ru < 1000000"
    and on: "- 1000000000 < offsetNsec s" "offsetNsec s < 1000000000"
  shows "\<exists>c'. run hook sc st 4 Gtod_entry c = Some c' \<and> regs c' RAX = 0 \<and> returns_from c c' \<and>
     state_at (mem c') st s \<and>
     stores_pair (regs c RDI) (adv_timeval (rs, ru) (offsetSec s, offsetNsec s)) c'"
proof -
  obtain p sp where r: "regs c RDI = p" "regs c RSP = sp" by blast
  note ff = hook_frame_stack [OF frame, unfolded r]
    hook_frame_buffer [OF frame \<open>regs c RDI \<noteq> 0\<close>, unfolded r]
  have p: "p \<noteq> 0" using \<open>regs c RDI \<noteq> 0\<close> r by simp
  have b: "mem c (st + 16) = 1"
    using mode state_at_reads(3) [OF st] by (simp add: MaskEnabled_def)
  have k: "ret_mem (sc 96 p 0 m) =
      write64 (write64 m p (word_of_int rs)) (p + 8) (word_of_int ru)" for m
    using kern p by (simp add: kernel_tod_def)
  note q = sdiv_1000_range [OF on]
  have son: "sint (word_of_int (offsetNsec s) :: 64 word) = offsetNsec s"
    by (rule sint_word_of_int64) (use on in simp)
  have ok: "in_int64 (offsetNsec s sdiv 1000)" using q by simp
  have sum: "sint (word_of_int ru + word_of_int (offsetNsec s sdiv 1000) :: 64 word) =
      ru + offsetNsec s sdiv 1000"
    by (rule sint_sum_small) (use ru q in simp_all)
  note div = cqo_dividend [of "word_of_int (offsetNsec s)", unfolded son]
  show ?thesis
    using ru q
    by (auto simp: machine_simps sep_simps ff r p b k sum div [simplified] ok \<open>regs c RSI = 0\<close>
        state_at_reads [OF st] st returns_from_def stores_pair_def adv_timeval_def son)
qed

lemma gtod_frozen_run:
  assumes frame: "hook_frame st (regs c RDI) (regs c RSP)" and "regs c RDI \<noteq> 0"
    and st: "state_at (mem c) st s" and mode: "enabledMask s = MaskFrozen"
    and on: "0 \<le> offsetNsec s" "offsetNsec s < 1000000000"
  shows "\<exists>c'. run hook sc st 4 Gtod_entry c = Some c' \<and> regs c' RAX = 0 \<and> returns_from c c' \<and>
     state_at (mem c') st s \<and> stores_pair (regs c RDI) (offsetSec s, offsetNsec s div 1000) c'"
proof -
  obtain p sp where r: "regs c RDI = p" "regs c RSP = sp" by blast
  note ff = hook_frame_buffer [OF frame \<open>regs c RDI \<noteq> 0\<close>, unfolded r]
  have p: "p \<noteq> 0" using \<open>regs c RDI \<noteq> 0\<close> r by simp
  have b: "mem c (st + 16) = 3"
    using mode state_at_reads(3) [OF st] by (simp add: MaskFrozen_def)
  have son: "sint (word_of_int (offsetNsec s) :: 64 word) = offsetNsec s"
    by (rule sint_word_of_int64) (use on in simp)
  have q: "offsetNsec s sdiv 1000 = offsetNsec s div 1000"
    using on by (simp add: signed_divide_int_def sgn_if)
  have ok: "in_int64 (offsetNsec s div 1000)" using on by simp
  note div = cqo_dividend [of "word_of_int (offsetNsec s)", unfolded son]
  show ?thesis
    by (auto simp: machine_simps sep_simps ff r p b div [simplified] q ok
        state_at_reads [OF st] st returns_from_def stores_pair_def son)
qed

text \<open>With a NULL result pointer the stub stores nothing, in every mode.\<close>

lemma gtod_null_run:
  assumes frame: "hook_frame st 0 (regs c RSP)" and "regs c RDI = 0" and "regs c RSI = 0"
    and st: "state_at (mem c) st s" and mode: "enabledMask s \<in> {MaskEnabled, MaskFrozen}"
    and kern: "kernel_tod sc tv"
  shows "\<exists>c'. run hook sc st 4 Gtod_entry c = Some c' \<and> regs c' RAX = 0 \<and> returns_from c c' \<and>
     state_at (mem c') st s"
proof -
  obtain sp where r: "regs c RSP = sp" by blast
  note ff = hook_frame_stack [OF frame, unfolded r]
  have b: "mem c (st + 16) = 1 \<or> mem c (st + 16) = 3"
    using mode state_at_reads(3) [OF st] by (auto simp: MaskEnabled_def MaskFrozen_def)
  have k: "ret_mem (sc 96 0 0 m) = m" for m
    using kern by (simp add: kernel_tod_def)
  show ?thesis
    using b
    by (auto simp: machine_simps sep_simps ff r k \<open>regs c RDI = 0\<close> \<open>regs c RSI = 0\<close> st
        returns_from_def)
qed

subsection \<open>time\<close>

lemma time_advancing_run:
  assumes frame: "hook_frame st (regs c RDI) (regs c RSP)"
    and st: "state_at (mem c) st s" and mode: "enabledMask s = MaskEnabled"
    and kern: "kernel_clock sc rd" and rd: "rd 0 = (rs, rn)"
    and rn: "0 \<le> rn" "rn < 1000000000"
    and on: "- 1000000000 < offsetNsec s" "offsetNsec s < 1000000000"
  shows "\<exists>c'. run hook sc st 4 Time_entry c = Some c' \<and> returns_from c c' \<and>
     state_at (mem c') st s \<and>
     regs c' RAX = word_of_int (fst (adv_timespec (rs, rn) (offsetSec s, offsetNsec s))) \<and>
     (regs c RDI \<noteq> 0 \<longrightarrow> read64 (mem c') (regs c RDI) = regs c' RAX)"
proof -
  obtain p sp where r: "regs c RDI = p" "regs c RSP = sp" by blast
  note ff = hook_frame_stack [OF frame, unfolded r]
  have fb: "p \<noteq> 0 \<Longrightarrow> apart st 32 p 8" using hook_frame_buffer [OF frame] r by simp
  have b: "mem c (st + 16) = 1"
    using mode state_at_reads(3) [OF st] by (simp add: MaskEnabled_def)
  have k: "ret_mem (sc 228 0 a m) = write64 (write64 m a (word_of_int rs)) (a + 8) (word_of_int rn)"
    for a m
    using kern rd by (simp add: kernel_clock_def)
  have sum: "sint (word_of_int rn + word_of_int (offsetNsec s) :: 64 word) = rn + offsetNsec s"
    by (rule sint_sum_small) (use rn on in simp_all)
  show ?thesis
    using rn on fb
    by (auto simp: machine_simps sep_simps ff r b k sum state_at_reads [OF st] st returns_from_def
        adv_timespec_def)
qed

lemma time_frozen_run:
  assumes frame: "hook_frame st (regs c RDI) (regs c RSP)"
    and st: "state_at (mem c) st s" and mode: "enabledMask s = MaskFrozen"
  shows "\<exists>c'. run hook sc st 4 Time_entry c = Some c' \<and> returns_from c c' \<and>
     state_at (mem c') st s \<and> regs c' RAX = word_of_int (offsetSec s) \<and>
     (regs c RDI \<noteq> 0 \<longrightarrow> read64 (mem c') (regs c RDI) = regs c' RAX)"
proof -
  obtain p where r: "regs c RDI = p" by blast
  have fb: "p \<noteq> 0 \<Longrightarrow> apart st 32 p 8" using hook_frame_buffer [OF frame] r by simp
  have b: "mem c (st + 16) = 3"
    using mode state_at_reads(3) [OF st] by (simp add: MaskFrozen_def)
  show ?thesis
    using fb
    by (auto simp: machine_simps sep_simps r b state_at_reads [OF st] st returns_from_def)
qed

section \<open>The reference computations\<close>

lemma adv_timespec_total:
  "fst (adv_timespec (s, n) (os, on)) * second + snd (adv_timespec (s, n) (os, on)) =
     (s * second + n) + (os * second + on)"
  by (simp add: adv_timespec_def second_def)

lemma adv_timespec_normal:
  assumes "0 \<le> n" "n < second" "- second < on" "on < second"
  shows "0 \<le> snd (adv_timespec (s, n) (os, on))" "snd (adv_timespec (s, n) (os, on)) < second"
  using assms by (auto simp: adv_timespec_def second_def)

text \<open>So the pair is the normal form of the shifted instant.\<close>

lemma adv_timespec_instant:
  assumes "0 \<le> n" "n < second" "- second < on" "on < second"
  shows "adv_timespec (s, n) (os, on) =
    (let t = (s * second + n) + (os * second + on) in (time_Unix t, time_Nanosecond t))"
proof -
  obtain s' n' where sn: "adv_timespec (s, n) (os, on) = (s', n')" by fastforce
  then have n': "0 \<le> n'" "n' < second"
    and t: "s' * second + n' = (s * second + n) + (os * second + on)"
    using adv_timespec_normal [OF assms, of s os] adv_timespec_total [of s n os on] by auto
  from n' have "(s' * second + n') div second = s'" "(s' * second + n') mod second = n'"
    by (simp_all add: second_def)
  with sn t show ?thesis by (simp add: Let_def time_Unix_def time_Nanosecond_def)
qed

lemma adv_timeval_normal:
  assumes "0 \<le> u" "u < 1000000" "- second < on" "on < second"
  shows "0 \<le> snd (adv_timeval (s, u) (os, on))" "snd (adv_timeval (s, u) (os, on)) < 1000000"
  using assms sdiv_1000_range [of on] by (auto simp: adv_timeval_def second_def Let_def)

text \<open>
  gettimeofday truncates the reading and the offset separately (the offset towards zero), so
  it lies at most 1998 ns before and at most 999 ns after the shifted instant.
\<close>

lemma adv_timeval_error:
  fixes s n os on :: int
  defines "tv \<equiv> adv_timeval (s, n div 1000) (os, on)"
    and "exact \<equiv> (s * second + n) + (os * second + on)"
  shows "exact - 1998 \<le> (fst tv * 1000000 + snd tv) * 1000"
    and "(fst tv * 1000000 + snd tv) * 1000 \<le> exact + 999"
proof -
  have tot: "fst tv * 1000000 + snd tv = (s + os) * 1000000 + (n div 1000 + on sdiv 1000)"
    by (simp add: adv_timeval_def Let_def tv_def)
  have on: "\<bar>on sdiv 1000 * 1000 - on\<bar> \<le> 999"
    by (auto simp: signed_divide_int_def sgn_if abs_if)
  have n: "n div 1000 * 1000 \<le> n" "n - 999 \<le> n div 1000 * 1000" by presburger+
  show "exact - 1998 \<le> (fst tv * 1000000 + snd tv) * 1000"
    and "(fst tv * 1000000 + snd tv) * 1000 \<le> exact + 999"
    unfolding tot exact_def using on n by (simp_all add: second_def algebra_simps)
qed

end
