(* ===== verification/GoStrings.thy ===== *)
theory GoStrings
  imports Prelude
begin

text \<open>
  The functions of Go's \<open>strings\<close> and \<open>strconv\<close> packages that the program uses on
  /proc text and container IDs, on byte strings.
\<close>

definition is_space :: "char \<Rightarrow> bool" where
  "is_space ch \<longleftrightarrow> ch \<in> {CHR '' '', CHR 0x09, CHR 0x0A, CHR 0x0B, CHR 0x0C, CHR 0x0D}"

text \<open>\<open>strings.Fields\<close>: the maximal runs of non-space characters.\<close>

fun fields_acc :: "string \<Rightarrow> string \<Rightarrow> string list" where
  "fields_acc [] cur = (if cur = [] then [] else [rev cur])"
| "fields_acc (ch # cs) cur =
     (if is_space ch then (if cur = [] then fields_acc cs [] else rev cur # fields_acc cs [])
      else fields_acc cs (ch # cur))"

definition Fields :: "string \<Rightarrow> string list" where
  "Fields s = fields_acc s []"

text \<open>\<open>strings.IndexByte\<close> and \<open>strings.Index\<close>; \<open>None\<close> is -1.\<close>

fun IndexByte :: "string \<Rightarrow> char \<Rightarrow> nat option" where
  "IndexByte [] b = None"
| "IndexByte (ch # cs) b = (if ch = b then Some 0 else map_option Suc (IndexByte cs b))"

definition has_prefix :: "string \<Rightarrow> string \<Rightarrow> bool" where
  "has_prefix s p \<longleftrightarrow> take (length p) s = p"

fun Index :: "string \<Rightarrow> string \<Rightarrow> nat option" where
  "Index [] sub = (if sub = [] then Some 0 else None)"
| "Index (ch # cs) sub =
     (if has_prefix (ch # cs) sub then Some 0 else map_option Suc (Index cs sub))"

definition Contains :: "string \<Rightarrow> string \<Rightarrow> bool" where
  "Contains s sub \<longleftrightarrow> Index s sub \<noteq> None"

text \<open>
  \<open>strconv.ParseUint(s, 16, 64)\<close>: the value and the error; on a syntax error the value is 0,
  on overflow it is the largest uint64, as in the library.
\<close>

datatype num_error = ErrSyntax | ErrRange

definition hex_digit :: "char \<Rightarrow> nat option" where
  "hex_digit ch =
     (let n = (of_char ch :: nat) in
      if 48 \<le> n \<and> n \<le> 57 then Some (n - 48)
      else if 97 \<le> n \<and> n \<le> 102 then Some (n - 87)
      else if 65 \<le> n \<and> n \<le> 70 then Some (n - 55) else None)"

fun parse_hex_loop :: "string \<Rightarrow> nat \<Rightarrow> nat \<times> num_error option" where
  "parse_hex_loop [] n = (n, None)"
| "parse_hex_loop (ch # cs) n =
     (case hex_digit ch of
        None \<Rightarrow> (0, Some ErrSyntax)
      | Some d \<Rightarrow>
          if 2 ^ 60 \<le> n then (2 ^ 64 - 1, Some ErrRange) else parse_hex_loop cs (16 * n + d))"

definition ParseHex :: "string \<Rightarrow> nat \<times> num_error option" where
  "ParseHex s = (if s = [] then (0, Some ErrSyntax) else parse_hex_loop s 0)"

text \<open>\<open>strconv.Atoi\<close> on 64-bit int.\<close>

definition dec_digit :: "char \<Rightarrow> nat option" where
  "dec_digit ch = (let n = (of_char ch :: nat) in if 48 \<le> n \<and> n \<le> 57 then Some (n - 48) else None)"

fun parse_dec_loop :: "string \<Rightarrow> nat \<Rightarrow> nat option" where
  "parse_dec_loop [] n = Some n"
| "parse_dec_loop (ch # cs) n =
     (case dec_digit ch of None \<Rightarrow> None | Some d \<Rightarrow> parse_dec_loop cs (10 * n + d))"

definition Atoi :: "string \<Rightarrow> int option" where
  "Atoi s =
     (let neg = has_prefix s ''-''; body = (if neg \<or> has_prefix s ''+'' then drop 1 s else s) in
      if body = [] then None
      else case parse_dec_loop body 0 of
             None \<Rightarrow> None
           | Some n \<Rightarrow>
               let v = (if neg then - int n else int n) in
               if - (2 ^ 63) \<le> v \<and> v < 2 ^ 63 then Some v else None)"

section \<open>Laws\<close>

lemma fields_acc_nonempty: "f \<in> set (fields_acc s cur) \<Longrightarrow> f \<noteq> []"
  by (induction s cur rule: fields_acc.induct) (auto split: if_splits)

lemma IndexByte_Some:
  "IndexByte s b = Some i \<Longrightarrow> i < length s \<and> s ! i = b \<and> (\<forall>j < i. s ! j \<noteq> b)"
proof (induction s arbitrary: i)
  case Nil
  then show ?case by simp
next
  case (Cons ch cs)
  then show ?case by (cases i) (auto simp: less_Suc_eq_0_disj split: if_splits)
qed

lemma Index_Some: "Index s sub = Some i \<Longrightarrow> has_prefix (drop i s) sub"
proof (induction s arbitrary: i)
  case Nil
  then show ?case by (auto simp: has_prefix_def split: if_splits)
next
  case (Cons ch cs)
  then show ?case by (auto split: if_splits)
qed

lemma Index_None: "Index s sub = None \<Longrightarrow> i \<le> length s \<Longrightarrow> \<not> has_prefix (drop i s) sub"
proof (induction s arbitrary: i)
  case Nil
  then show ?case by (auto simp: has_prefix_def split: if_splits)
next
  case (Cons ch cs)
  then show ?case by (cases i) (auto split: if_splits)
qed

lemma Contains_iff: "Contains s sub \<longleftrightarrow> (\<exists>pre post. s = pre @ sub @ post)"
proof
  assume "Contains s sub"
  then obtain i where "Index s sub = Some i" by (auto simp: Contains_def)
  then have "has_prefix (drop i s) sub" by (rule Index_Some)
  then have "drop i s = sub @ drop (length sub) (drop i s)"
    by (metis append_take_drop_id has_prefix_def)
  then show "\<exists>pre post. s = pre @ sub @ post" by (metis append_take_drop_id)
next
  assume "\<exists>pre post. s = pre @ sub @ post"
  then obtain pre post where s: "s = pre @ sub @ post" by blast
  then have "has_prefix (drop (length pre) s) sub" by (simp add: has_prefix_def)
  with s show "Contains s sub"
    using Index_None [of s sub "length pre"] by (auto simp: Contains_def)
qed

lemma hex_digit_bound: "hex_digit ch = Some d \<Longrightarrow> d < 16"
  by (auto simp: hex_digit_def Let_def split: if_splits)

lemma parse_hex_loop_bound: "n < 2 ^ 64 \<Longrightarrow> fst (parse_hex_loop s n) < 2 ^ 64"
proof (induction s n rule: parse_hex_loop.induct)
  case (2 ch cs n)
  have "16 * n + d < 2 ^ 64" if "hex_digit ch = Some d" "\<not> 2 ^ 60 \<le> n" for d
    using hex_digit_bound [OF that(1)] that(2) by simp
  then show ?case using 2 by (auto split: option.splits)
qed simp

lemma ParseHex_bound: "fst (ParseHex s) < 2 ^ 64"
  using parse_hex_loop_bound [of 0 s] by (simp add: ParseHex_def)

end
