(* ===== verification/Kernel.thy ===== *)
theory Kernel
  imports X86
begin

text \<open>
  The operating system as the program sees it. Its behaviour is not part of the repository, so
  every operation is a field of a record that the definitions take as a parameter, over an
  abstract world \<open>'w\<close>. What the properties rely on is stated as named laws over such a record.
\<close>

section \<open>Registers and wait statuses\<close>

text \<open>\<open>unix.PtraceRegs\<close>: the registers the injector sets, and all the others.\<close>

record uregs =
  Rip :: "64 word"
  Rax :: "64 word"
  Rdi :: "64 word"
  Rsi :: "64 word"
  Rdx :: "64 word"
  R10 :: "64 word"
  r_R8 :: "64 word"
  r_R9 :: "64 word"
  other_regs :: "64 word list"

text \<open>The layout of a wait status: the accessors of \<open>syscall.WaitStatus\<close>.\<close>

type_synonym wait_status = "32 word"

unbundle bit_operations_syntax

definition ws_Exited :: "wait_status \<Rightarrow> bool" where
  "ws_Exited ws \<longleftrightarrow> ws AND 0x7F = 0"

definition ws_Signaled :: "wait_status \<Rightarrow> bool" where
  "ws_Signaled ws \<longleftrightarrow> ws AND 0x7F \<noteq> 0x7F \<and> ws AND 0x7F \<noteq> 0"

definition ws_Stopped :: "wait_status \<Rightarrow> bool" where
  "ws_Stopped ws \<longleftrightarrow> ws AND 0xFF = 0x7F"

definition ws_StopSignal :: "wait_status \<Rightarrow> int" where
  "ws_StopSignal ws = (if ws_Stopped ws then uint (drop_bit 8 ws AND 0xFF) else - 1)"

definition ws_event :: "wait_status \<Rightarrow> int" where
  "ws_event ws = uint (drop_bit 16 ws AND 0xFF)"

text \<open>A status of each kind: stopped by \<open>sig\<close> with a ptrace event, exited, killed.\<close>

definition stop_status :: "nat \<Rightarrow> nat \<Rightarrow> wait_status" where
  "stop_status ev sig = of_nat (ev * 65536 + sig * 256 + 127)"

definition SIGSTOP :: int where "SIGSTOP = 19"
definition SIGTRAP :: int where "SIGTRAP = 5"

definition PTRACE_EVENT_FORK :: int where "PTRACE_EVENT_FORK = 1"
definition PTRACE_EVENT_VFORK :: int where "PTRACE_EVENT_VFORK = 2"
definition PTRACE_EVENT_EXEC :: int where "PTRACE_EVENT_EXEC = 4"

text \<open>\<open>PTRACE_O_TRACEFORK | PTRACE_O_TRACEVFORK | PTRACE_O_TRACEEXEC\<close>.\<close>

definition trace_options :: int where "trace_options = 2 + 4 + 16"

definition WNOHANG :: int where "WNOHANG = 1"
definition WUNTRACED :: int where "WUNTRACED = 2"
definition WCONTINUED :: int where "WCONTINUED = 8"
definition WNOTHREAD :: int where "WNOTHREAD = 0x20000000"
definition WALL :: int where "WALL = 0x40000000"

definition errno_of_int :: "int \<Rightarrow> errno" where
  "errno_of_int n =
     (if n = 1 then EPERM else if n = 2 then ENOENT else if n = 3 then ESRCH
      else if n = 5 then EIO else if n = 9 then EBADF else if n = 10 then ECHILD
      else if n = 14 then EFAULT else if n = 17 then EEXIST else OtherErrno n)"

section \<open>Commands\<close>

text \<open>\<open>exec.Cmd\<close>: its resolved path and \<open>SysProcAttr.Ptrace\<close>.\<close>

record gocmd =
  cmd_path :: string
  cmd_ptrace :: bool

section \<open>The kernel interface\<close>

text \<open>
  \<open>k_now\<close> is \<open>time.Now\<close>; \<open>k_proc_dir\<close> lists /proc, \<open>k_cgroup\<close> reads
  /proc/<name>/cgroup, \<open>k_rand\<close> is \<open>crypto/rand.Read\<close> (whose failure ends the program).
\<close>

record 'w kernel =
  k_now :: "'w \<Rightarrow> int \<times> 'w"
  k_start :: "gocmd \<Rightarrow> 'w \<Rightarrow> (errno + pid) \<times> 'w"
  k_reap_cmd :: "gocmd \<Rightarrow> 'w \<Rightarrow> 'w"
  k_attach :: "pid \<Rightarrow> 'w \<Rightarrow> (errno + unit) \<times> 'w"
  k_seize :: "pid \<Rightarrow> 'w \<Rightarrow> (errno + unit) \<times> 'w"
  k_interrupt :: "pid \<Rightarrow> 'w \<Rightarrow> (errno + unit) \<times> 'w"
  k_detach :: "pid \<Rightarrow> 'w \<Rightarrow> (errno + unit) \<times> 'w"
  k_getregs :: "pid \<Rightarrow> 'w \<Rightarrow> (errno + uregs) \<times> 'w"
  k_setregs :: "pid \<Rightarrow> uregs \<Rightarrow> 'w \<Rightarrow> (errno + unit) \<times> 'w"
  k_singlestep :: "pid \<Rightarrow> 'w \<Rightarrow> (errno + unit) \<times> 'w"
  k_cont :: "pid \<Rightarrow> int \<Rightarrow> 'w \<Rightarrow> (errno + unit) \<times> 'w"
  k_poketext :: "pid \<Rightarrow> addr \<Rightarrow> byte list \<Rightarrow> 'w \<Rightarrow> (errno + unit) \<times> 'w"
  k_setoptions :: "pid \<Rightarrow> int \<Rightarrow> 'w \<Rightarrow> (errno + unit) \<times> 'w"
  k_geteventmsg :: "pid \<Rightarrow> 'w \<Rightarrow> (errno + nat) \<times> 'w"
  k_wait4 :: "int \<Rightarrow> int \<Rightarrow> 'w \<Rightarrow> (errno + pid \<times> wait_status) \<times> 'w"
  k_kill :: "pid \<Rightarrow> int \<Rightarrow> 'w \<Rightarrow> (errno + unit) \<times> 'w"
  k_vm_readv :: "pid \<Rightarrow> addr \<Rightarrow> nat \<Rightarrow> 'w \<Rightarrow> (errno + byte list) \<times> 'w"
  k_vm_writev :: "pid \<Rightarrow> addr \<Rightarrow> byte list \<Rightarrow> 'w \<Rightarrow> (errno + nat) \<times> 'w"
  k_maps :: "pid \<Rightarrow> 'w \<Rightarrow> (errno + string list) \<times> 'w"
  k_read_procmem :: "pid \<Rightarrow> addr \<Rightarrow> nat \<Rightarrow> 'w \<Rightarrow> (errno + byte list) \<times> 'w"
  k_exe :: "pid \<Rightarrow> 'w \<Rightarrow> (errno + string) \<times> 'w"
  k_proc_dir :: "'w \<Rightarrow> (errno + string list) \<times> 'w"
  k_cgroup :: "string \<Rightarrow> 'w \<Rightarrow> (errno + string) \<times> 'w"
  k_rand :: "nat \<Rightarrow> 'w \<Rightarrow> byte list \<times> 'w"

section \<open>Laws of the memory operations\<close>

text \<open>
  \<open>mem_laws K view\<close>: seen through \<open>view\<close> (the memory of each process), a successful
  \<open>process_vm_writev\<close> or \<open>PTRACE_POKETEXT\<close> writes exactly its bytes into exactly its
  process, a successful \<open>process_vm_readv\<close> of \<open>n\<close> bytes returns the first of them and
  changes nothing.
\<close>

definition mem_laws :: "'w kernel \<Rightarrow> ('w \<Rightarrow> pid \<Rightarrow> memory) \<Rightarrow> bool" where
  "mem_laws K view \<longleftrightarrow>
     (\<forall>p a bs w n w'. k_vm_writev K p a bs w = (Inr n, w') \<longrightarrow>
        view w' = (view w)(p := write_bytes (view w p) a bs)) \<and>
     (\<forall>p a bs w w'. k_poketext K p a bs w = (Inr (), w') \<longrightarrow>
        view w' = (view w)(p := write_bytes (view w p) a bs)) \<and>
     (\<forall>p a n w bs w'. k_vm_readv K p a n w = (Inr bs, w') \<longrightarrow>
        bs = read_bytes (view w p) a n \<and> view w' = view w)"

lemma mem_laws_writev:
  "mem_laws K view \<Longrightarrow> k_vm_writev K p a bs w = (Inr n, w') \<Longrightarrow>
     view w' = (view w)(p := write_bytes (view w p) a bs)"
  unfolding mem_laws_def by blast

lemma mem_laws_poketext:
  "mem_laws K view \<Longrightarrow> k_poketext K p a bs w = (Inr u, w') \<Longrightarrow>
     view w' = (view w)(p := write_bytes (view w p) a bs)"
  unfolding mem_laws_def by (cases u) blast

lemma mem_laws_readv:
  "mem_laws K view \<Longrightarrow> k_vm_readv K p a n w = (Inr bs, w') \<Longrightarrow>
     bs = read_bytes (view w p) a n \<and> view w' = view w"
  unfolding mem_laws_def by blast

lemma ws_stop_status [simp]:
  "ws_Stopped (stop_status 0 5)" "ws_StopSignal (stop_status 0 5) = 5"
  "ws_event (stop_status 1 5) = 1" "ws_Stopped (stop_status 1 5)" "ws_StopSignal (stop_status 1 5) = 5"
  "ws_event (stop_status 4 5) = 4" "ws_Stopped (stop_status 4 5)" "ws_StopSignal (stop_status 4 5) = 5"
  by (simp_all add: ws_Stopped_def ws_StopSignal_def ws_event_def stop_status_def)

text \<open>The three kinds of status exclude each other.\<close>

lemma ws_kinds:
  "ws_Stopped ws \<Longrightarrow> \<not> ws_Exited ws" "ws_Stopped ws \<Longrightarrow> \<not> ws_Signaled ws"
  "ws_Exited ws \<Longrightarrow> \<not> ws_Signaled ws"
proof -
  have "ws AND 0x7F = (ws AND 0xFF) AND 0x7F" by (simp add: and.assoc)
  then show "ws_Stopped ws \<Longrightarrow> \<not> ws_Exited ws" "ws_Stopped ws \<Longrightarrow> \<not> ws_Signaled ws"
    "ws_Exited ws \<Longrightarrow> \<not> ws_Signaled ws"
    by (auto simp: ws_Stopped_def ws_Exited_def ws_Signaled_def)
qed

end
