(* ===== verification/Procmem.thy ===== *)
theory Procmem
  imports Kernel
begin

text \<open>
  pkg/procmem/procmem.go: the Tracer (the pid its methods act on; the pinned OS thread that
  serialises the calls is the sequential order of the model) and the process_vm_* helpers.
  A method runs on the pair of the tracer and the world.
\<close>

record tracer =
  t_pid :: pid

definition NewTracer :: tracer where
  "NewTracer = \<lparr>t_pid = 0\<rparr>"

type_synonym 'w tw = "tracer \<times> 'w"

text \<open>
  A system call inside a method: the kernel's error number wrapped with the method's context
  text, the tracer as it was.
\<close>

definition syscall_as :: "string \<Rightarrow> ('w \<Rightarrow> (errno + 'a) \<times> 'w) \<Rightarrow> 'w tw \<Rightarrow> (goerr + 'a) \<times> 'w tw" where
  "syscall_as ctx m tw =
     (case tw of (t, w) \<Rightarrow>
        (case m w of (Inl e, w') \<Rightarrow> (Inl (Wrap ctx (Errno e)), (t, w'))
                   | (Inr a, w') \<Rightarrow> (Inr a, (t, w'))))"

text \<open>A step on the world alone, inside a method.\<close>

definition on_world :: "('w \<Rightarrow> 'r \<times> 'w) \<Rightarrow> 'w tw \<Rightarrow> 'r \<times> 'w tw" where
  "on_world m tw = (case tw of (t, w) \<Rightarrow> (case m w of (r, w') \<Rightarrow> (r, (t, w'))))"

lemma syscall_as_Inr_iff:
  "syscall_as ctx m (t, w) = (Inr a, tw') \<longleftrightarrow> (\<exists>w'. m w = (Inr a, w') \<and> tw' = (t, w'))"
  by (auto simp: syscall_as_def split: prod.splits sum.splits)

lemma syscall_as_Inl_iff:
  "syscall_as ctx m (t, w) = (Inl f, tw') \<longleftrightarrow>
     (\<exists>e w'. m w = (Inl e, w') \<and> f = Wrap ctx (Errno e) \<and> tw' = (t, w'))"
  by (auto simp: syscall_as_def split: prod.splits sum.splits)

lemma fst_snd_syscall_as [simp]: "fst (snd (syscall_as ctx m tw)) = fst tw"
  by (auto simp: syscall_as_def split: prod.splits sum.splits)

section \<open>Attaching\<close>

definition followChildLocked :: "'w kernel \<Rightarrow> pid \<Rightarrow> 'w tw \<Rightarrow> (goerr + unit) \<times> 'w tw" where
  "followChildLocked K pid tw =
     (case tw of (t, w) \<Rightarrow>
        (case k_wait4 K pid 0 w of
           (Inl e, w') \<Rightarrow> (Inl (Wrap ''procmem: wait for ptrace child'' (Errno e)), (t, w'))
         | (Inr (_, ws), w') \<Rightarrow>
             if \<not> ws_Stopped ws then
               (if ws_Exited ws then (Inl (Msg ''procmem: ptrace child exited before stopping''), (t, w'))
                else (Inl (Msg ''procmem: ptrace child did not stop as expected''), (t, w')))
             else (Inr (), (t\<lparr>t_pid := pid\<rparr>, w'))))"

definition FollowChild :: "'w kernel \<Rightarrow> pid \<Rightarrow> 'w tw \<Rightarrow> (goerr + unit) \<times> 'w tw" where
  "FollowChild K pid = followChildLocked K pid"

definition StartAndFollowChild :: "'w kernel \<Rightarrow> gocmd \<Rightarrow> 'w tw \<Rightarrow> (goerr + pid) \<times> 'w tw" where
  "StartAndFollowChild K cmd tw =
     (case tw of (t, w) \<Rightarrow>
        (case k_start K cmd w of
           (Inl e, w') \<Rightarrow> (Inl (Errno e), (t, w'))
         | (Inr pid, w') \<Rightarrow>
             attempt (followChildLocked K pid) (\<lambda>e. e) (\<lambda>_ tw. (Inr pid, tw)) (t, w')))"

definition Attach :: "'w kernel \<Rightarrow> pid \<Rightarrow> 'w tw \<Rightarrow> (goerr + unit) \<times> 'w tw" where
  "Attach K pid =
     attempt (syscall_as ''procmem: PTRACE_ATTACH'' (k_attach K pid)) (\<lambda>e. e) (\<lambda>_.
     attempt (syscall_as ''procmem: wait after PTRACE_ATTACH'' (k_wait4 K pid 0)) (\<lambda>e. e) (\<lambda>_ (t, w).
       (Inr (), (t\<lparr>t_pid := pid\<rparr>, w))))"

text \<open>
  \<open>Seize\<close>: when the interrupt or the wait fails the process is detached again before the
  error is returned.
\<close>

definition Seize :: "'w kernel \<Rightarrow> pid \<Rightarrow> 'w tw \<Rightarrow> (goerr + unit) \<times> 'w tw" where
  "Seize K pid tw =
     (case tw of (t, w) \<Rightarrow>
        (case k_seize K pid w of
           (Inl e, w1) \<Rightarrow> (Inl (Wrap ''procmem: PTRACE_SEIZE'' (Errno e)), (t, w1))
         | (Inr _, w1) \<Rightarrow>
             (case k_interrupt K pid w1 of
                (Inl e, w2) \<Rightarrow>
                  (Inl (Wrap ''procmem: PTRACE_INTERRUPT after SEIZE'' (Errno e)),
                   (t, ignore_err (k_detach K pid) w2))
              | (Inr _, w2) \<Rightarrow>
                  (case k_wait4 K pid 0 w2 of
                     (Inl e, w3) \<Rightarrow>
                       (Inl (Wrap ''procmem: wait after SEIZE+INTERRUPT'' (Errno e)),
                        (t, ignore_err (k_detach K pid) w3))
                   | (Inr _, w3) \<Rightarrow> (Inr (), (t\<lparr>t_pid := pid\<rparr>, w3))))))"

definition Detach :: "'w kernel \<Rightarrow> 'w tw \<Rightarrow> (goerr + unit) \<times> 'w tw" where
  "Detach K tw =
     attempt (syscall_as ''procmem: PTRACE_DETACH'' (k_detach K (t_pid (fst tw)))) (\<lambda>e. e)
       (\<lambda>_ (t, w). (Inr (), (t\<lparr>t_pid := 0\<rparr>, w))) tw"

section \<open>Requests on the current tracee\<close>

definition GetRegs :: "'w kernel \<Rightarrow> 'w tw \<Rightarrow> (goerr + uregs) \<times> 'w tw" where
  "GetRegs K tw = syscall_as ''procmem: PTRACE_GETREGS'' (k_getregs K (t_pid (fst tw))) tw"

definition SetRegs :: "'w kernel \<Rightarrow> uregs \<Rightarrow> 'w tw \<Rightarrow> (goerr + unit) \<times> 'w tw" where
  "SetRegs K r tw = syscall_as ''procmem: PTRACE_SETREGS'' (k_setregs K (t_pid (fst tw)) r) tw"

definition SingleStep :: "'w kernel \<Rightarrow> 'w tw \<Rightarrow> (goerr + unit) \<times> 'w tw" where
  "SingleStep K tw = syscall_as ''procmem: PTRACE_SINGLESTEP'' (k_singlestep K (t_pid (fst tw))) tw"

definition Cont :: "'w kernel \<Rightarrow> int \<Rightarrow> 'w tw \<Rightarrow> (goerr + unit) \<times> 'w tw" where
  "Cont K sig tw = syscall_as ''procmem: PTRACE_CONT'' (k_cont K (t_pid (fst tw)) sig) tw"

definition Wait :: "'w kernel \<Rightarrow> 'w tw \<Rightarrow> (goerr + wait_status) \<times> 'w tw" where
  "Wait K tw =
     attempt (syscall_as ''procmem: wait4'' (k_wait4 K (t_pid (fst tw)) 0)) (\<lambda>e. e)
       (\<lambda>(_, ws) tw. (Inr ws, tw)) tw"

definition PokeText :: "'w kernel \<Rightarrow> addr \<Rightarrow> byte list \<Rightarrow> 'w tw \<Rightarrow> (goerr + unit) \<times> 'w tw" where
  "PokeText K a buf tw =
     syscall_as ''procmem: PTRACE_POKETEXT'' (k_poketext K (t_pid (fst tw)) a buf) tw"

definition SetTracee :: "pid \<Rightarrow> 'w tw \<Rightarrow> 'w tw" where
  "SetTracee pid tw = (case tw of (t, w) \<Rightarrow> (t\<lparr>t_pid := pid\<rparr>, w))"

definition SetOptions :: "'w kernel \<Rightarrow> int \<Rightarrow> 'w tw \<Rightarrow> (goerr + unit) \<times> 'w tw" where
  "SetOptions K opts tw =
     syscall_as ''procmem: PTRACE_SETOPTIONS'' (k_setoptions K (t_pid (fst tw)) opts) tw"

section \<open>Requests on an arbitrary pid\<close>

definition SetOptionsPID :: "'w kernel \<Rightarrow> pid \<Rightarrow> int \<Rightarrow> 'w tw \<Rightarrow> (goerr + unit) \<times> 'w tw" where
  "SetOptionsPID K pid opts = syscall_as ''procmem: PTRACE_SETOPTIONS'' (k_setoptions K pid opts)"

definition WaitAnyNonBlocking :: "'w kernel \<Rightarrow> 'w tw \<Rightarrow> (goerr + pid \<times> wait_status) \<times> 'w tw" where
  "WaitAnyNonBlocking K =
     syscall_as ''procmem: wait4(-1, WNOHANG|WNOTHREAD)''
       (k_wait4 K (- 1) (WNOHANG + WNOTHREAD + WUNTRACED + WCONTINUED + WALL))"

text \<open>The second component is \<open>ok\<close>: an event of exactly this pid is reported.\<close>

definition WaitPIDNonBlocking :: "'w kernel \<Rightarrow> pid \<Rightarrow> 'w tw \<Rightarrow> (goerr + wait_status \<times> bool) \<times> 'w tw" where
  "WaitPIDNonBlocking K pid =
     attempt (syscall_as ''procmem: wait4(pid, WNOHANG)''
                (k_wait4 K pid (WNOHANG + WUNTRACED + WCONTINUED + WALL))) (\<lambda>e. e)
       (\<lambda>(p, ws) tw. (Inr (ws, p = pid), tw))"

definition GetEventMsgPID :: "'w kernel \<Rightarrow> pid \<Rightarrow> 'w tw \<Rightarrow> (goerr + nat) \<times> 'w tw" where
  "GetEventMsgPID K pid = syscall_as ''procmem: PTRACE_GETEVENTMSG'' (k_geteventmsg K pid)"

definition ContPID :: "'w kernel \<Rightarrow> pid \<Rightarrow> int \<Rightarrow> 'w tw \<Rightarrow> (goerr + unit) \<times> 'w tw" where
  "ContPID K pid sig = syscall_as ''procmem: PTRACE_CONT'' (k_cont K pid sig)"

section \<open>Interrupting and detaching\<close>

definition isNoProcess :: "goerr \<Rightarrow> bool" where
  "isNoProcess e = errors_Is e ESRCH"

text \<open>
  The common part of \<open>InterruptDetach\<close> and \<open>DetachAll\<close>: PTRACE_INTERRUPT, or SIGSTOP where
  that fails; wait for the stop; detach. The result is the detach error unless it is ESRCH.
\<close>

definition interrupt_detach_pid :: "'w kernel \<Rightarrow> pid \<Rightarrow> 'w \<Rightarrow> goerr option \<times> 'w" where
  "interrupt_detach_pid K pid w =
     (let w1 = (case k_interrupt K pid w of
                  (Inl _, w') \<Rightarrow> ignore_err (k_kill K pid SIGSTOP) w'
                | (Inr _, w') \<Rightarrow> w');
          w2 = ignore_err (k_wait4 K pid 0) w1
      in case k_detach K pid w2 of
           (Inl e, w3) \<Rightarrow>
             (if isNoProcess (Errno e) then None
              else Some (Wrap ''procmem: PTRACE_DETACH'' (Errno e)), w3)
         | (Inr _, w3) \<Rightarrow> (None, w3))"

definition InterruptDetach :: "'w kernel \<Rightarrow> 'w tw \<Rightarrow> goerr option \<times> 'w tw" where
  "InterruptDetach K tw =
     (case tw of (t, w) \<Rightarrow>
        (case interrupt_detach_pid K (t_pid t) w of (e, w') \<Rightarrow> (e, (t\<lparr>t_pid := 0\<rparr>, w'))))"

text \<open>\<open>err = errors.Join(err, e)\<close> accumulates; the join of nothing is nil.\<close>

fun detach_loop :: "'w kernel \<Rightarrow> pid list \<Rightarrow> goerr option \<Rightarrow> 'w \<Rightarrow> goerr option \<times> 'w" where
  "detach_loop K [] err w = (err, w)"
| "detach_loop K (p # ps) err w =
     (case interrupt_detach_pid K p w of
        (None, w') \<Rightarrow> detach_loop K ps err w'
      | (Some e, w') \<Rightarrow> detach_loop K ps (errors_Join [err, Some e]) w')"

definition DetachAll :: "'w kernel \<Rightarrow> pid list \<Rightarrow> 'w tw \<Rightarrow> goerr option \<times> 'w tw" where
  "DetachAll K pids = on_world (detach_loop K pids None)"

section \<open>process_vm_readv and process_vm_writev\<close>

text \<open>
  \<open>ReadMem\<close> gives the number of bytes read and the buffer afterwards: a short read leaves the
  rest of the (zeroed) buffer as it was.
\<close>

definition ReadMem :: "'w kernel \<Rightarrow> pid \<Rightarrow> addr \<Rightarrow> nat \<Rightarrow> 'w \<Rightarrow> (goerr + nat \<times> byte list) \<times> 'w" where
  "ReadMem K pid a n w =
     (if n = 0 then (Inr (0, []), w)
      else case k_vm_readv K pid a n w of
             (Inl e, w') \<Rightarrow> (Inl (Wrap ''procmem: process_vm_readv'' (Errno e)), w')
           | (Inr bs, w') \<Rightarrow> (Inr (length bs, bs @ replicate (n - length bs) 0), w'))"

definition WriteMem :: "'w kernel \<Rightarrow> pid \<Rightarrow> addr \<Rightarrow> byte list \<Rightarrow> 'w \<Rightarrow> (goerr + nat) \<times> 'w" where
  "WriteMem K pid a buf w =
     (if buf = [] then (Inr 0, w)
      else case k_vm_writev K pid a buf w of
             (Inl e, w') \<Rightarrow> (Inl (Wrap ''procmem: process_vm_writev'' (Errno e)), w')
           | (Inr n, w') \<Rightarrow> (Inr n, w'))"

section \<open>Lemmas\<close>

lemma WriteMem_Inr:
  assumes "mem_laws K view" and "WriteMem K pid a buf w = (Inr n, w')"
  shows "view w' = (view w)(pid := write_bytes (view w pid) a buf)"
proof (cases "buf = []")
  case True
  then have "write_bytes (view w pid) a buf = view w pid"
    by (simp add: write_bytes_def)
  with assms(2) True show ?thesis by (simp add: WriteMem_def)
next
  case False
  with assms(2) have "k_vm_writev K pid a buf w = (Inr n, w')"
    by (auto simp: WriteMem_def split: prod.splits sum.splits)
  then show ?thesis by (rule mem_laws_writev [OF assms(1)])
qed

lemma ReadMem_Inr:
  assumes "mem_laws K view" and "ReadMem K pid a n w = (Inr (k, bs), w')"
  shows "bs = read_bytes (view w pid) a n \<and> view w' = view w"
proof (cases "n = 0")
  case True
  with assms(2) show ?thesis by (simp add: ReadMem_def read_bytes_def)
next
  case False
  with assms(2) obtain bs' where r: "k_vm_readv K pid a n w = (Inr bs', w')"
    and bs: "bs = bs' @ replicate (n - length bs') 0"
    by (auto simp: ReadMem_def split: prod.splits sum.splits)
  from mem_laws_readv [OF assms(1) r] bs show ?thesis by simp
qed

lemma PokeText_Inr:
  assumes "mem_laws K view" and "PokeText K a buf (t, w) = (Inr u, (t', w'))"
  shows "t' = t \<and> view w' = (view w)(t_pid t := write_bytes (view w (t_pid t)) a buf)"
  using assms(2) mem_laws_poketext [OF assms(1)]
  by (auto simp: PokeText_def syscall_as_Inr_iff)

text \<open>A failed attach leaves the tracer's pid as it was; a successful one sets it.\<close>

lemma Seize_pid:
  "Seize K pid (t, w) = (Inr u, (t', w')) \<Longrightarrow> t_pid t' = pid"
  "Seize K pid (t, w) = (Inl e, (t', w')) \<Longrightarrow> t' = t"
  by (auto simp: Seize_def split: prod.splits sum.splits)

lemma followChild_pid:
  "followChildLocked K pid (t, w) = (Inr u, (t', w')) \<Longrightarrow> t_pid t' = pid"
  "followChildLocked K pid (t, w) = (Inl e, (t', w')) \<Longrightarrow> t' = t"
  by (auto simp: followChildLocked_def split: prod.splits sum.splits if_splits)

lemma InterruptDetach_pid: "t_pid (fst (snd (InterruptDetach K tw))) = 0"
  by (simp add: InterruptDetach_def split: prod.splits)

lemma WaitPIDNonBlocking_exact:
  assumes "WaitPIDNonBlocking K pid (t, w) = (Inr (ws, True), tw')"
  shows "\<exists>w'. k_wait4 K pid (WNOHANG + WUNTRACED + WCONTINUED + WALL) w = (Inr (pid, ws), w')"
  using assms
  by (auto simp: WaitPIDNonBlocking_def syscall_as_Inr_iff elim!: attempt_InrE)

lemma errors_Join_Some_left: "errors_Join [Some a, Some b] = Some (Joined [a, b])"
  "errors_Join [None, Some b] = Some (Joined [b])"
  by (simp_all add: errors_Join_def List.map_filter_simps)

lemma detach_loop_acc: "err \<noteq> None \<Longrightarrow> fst (detach_loop K ps err w) \<noteq> None"
proof (induction ps arbitrary: err w)
  case (Cons p ps)
  then show ?case
    by (cases err) (auto simp: errors_Join_Some_left split: prod.splits option.splits)
qed simp

end
