(* ===== verification/Vdso.thy ===== *)
theory Vdso
  imports GoStrings Procmem
begin

text \<open>
  pkg/vdso/vdso.go: finding the [vdso] mapping in /proc/<pid>/maps and resolving the three
  wall-clock functions in its dynamic symbol table. Decoding the ELF image (debug/elf) is a
  parameter: from the bytes it gives the dynamic symbols, name and value.
\<close>

record VDSOInfo =
  v_Start :: addr
  v_End :: addr
  ClockGettimeAddr :: addr
  GettimeofdayAddr :: addr
  TimeAddr :: addr

type_synonym elf_reader = "byte list \<Rightarrow> goerr + (string \<times> 64 word) list"

section \<open>The maps file\<close>

text \<open>One line: \<open>None\<close> when it is not the [vdso] line, else the parsed range or the error.\<close>

definition vdso_line :: "string \<Rightarrow> (goerr + addr \<times> addr) option" where
  "vdso_line line =
     (let fs = Fields line in
      if length fs < 6 \<or> fs ! 5 \<noteq> ''[vdso]'' then None
      else Some (case IndexByte (fs ! 0) CHR ''-'' of
          None \<Rightarrow> Inl (Msg ''vdso: malformed address range'')
        | Some dash \<Rightarrow>
            (case ParseHex (take dash (fs ! 0)) of
               (s, Some e) \<Rightarrow> Inl (Msg ''vdso: parsing start address'')
             | (s, None) \<Rightarrow>
                 (case ParseHex (drop (dash + 1) (fs ! 0)) of
                    (e, Some _) \<Rightarrow> Inl (Msg ''vdso: parsing end address'')
                  | (e, None) \<Rightarrow> Inr (of_nat s, of_nat e)))))"

fun scan_vdso :: "string list \<Rightarrow> goerr + addr \<times> addr" where
  "scan_vdso [] = Inl (Msg ''vdso: no [vdso] mapping found'')"
| "scan_vdso (line # rest) = (case vdso_line line of None \<Rightarrow> scan_vdso rest | Some r \<Rightarrow> r)"

definition findVDSORange :: "'w kernel \<Rightarrow> pid \<Rightarrow> 'w \<Rightarrow> (goerr + addr \<times> addr) \<times> 'w" where
  "findVDSORange K pid w =
     (case k_maps K pid w of
        (Inl e, w') \<Rightarrow> (Inl (Wrap ''vdso: opening maps'' (Errno e)), w')
      | (Inr ls, w') \<Rightarrow> (scan_vdso ls, w'))"

definition readProcMem :: "'w kernel \<Rightarrow> pid \<Rightarrow> addr \<Rightarrow> addr \<Rightarrow> 'w \<Rightarrow> (goerr + byte list) \<times> 'w" where
  "readProcMem K pid a sz w =
     (case k_read_procmem K pid a (unat sz) w of
        (Inl e, w') \<Rightarrow> (Inl (Wrap ''vdso: reading mem'' (Errno e)), w')
      | (Inr buf, w') \<Rightarrow>
          if length buf \<noteq> unat sz then (Inl (Msg ''vdso: short read''), w') else (Inr buf, w'))"

section \<open>Symbols\<close>

text \<open>
  The loop keeps the last value seen under each of the two names; the preferred name wins.
\<close>

fun resolve_loop :: "string \<Rightarrow> string \<Rightarrow> (string \<times> 64 word) list \<Rightarrow> 64 word option \<Rightarrow> 64 word option
    \<Rightarrow> 64 word option \<times> 64 word option" where
  "resolve_loop pname fname [] p f = (p, f)"
| "resolve_loop pname fname ((n, v) # syms) p f =
     (if n = pname then resolve_loop pname fname syms (Some v) f
      else if n = fname then resolve_loop pname fname syms p (Some v)
      else resolve_loop pname fname syms p f)"

definition resolveSymbol :: "(string \<times> 64 word) list \<Rightarrow> string \<Rightarrow> string \<Rightarrow> goerr + 64 word" where
  "resolveSymbol syms preferredName fallbackName =
     (case resolve_loop preferredName fallbackName syms None None of
        (Some v, _) \<Rightarrow> Inr v
      | (None, Some v) \<Rightarrow> Inr v
      | (None, None) \<Rightarrow> Inl (Msg ''vdso: symbol not found in dynamic symbol table''))"

definition in_range :: "addr \<Rightarrow> addr \<Rightarrow> addr \<Rightarrow> bool" where
  "in_range start end a \<longleftrightarrow> start \<le> a \<and> a < end"

text \<open>From the symbols of the image to the absolute addresses.\<close>

definition resolve_all :: "addr \<Rightarrow> addr \<Rightarrow> (string \<times> 64 word) list \<Rightarrow> goerr + VDSOInfo" where
  "resolve_all start end syms =
     (case resolveSymbol syms ''clock_gettime'' ''__vdso_clock_gettime'' of
        Inl e \<Rightarrow> Inl e
      | Inr cgtVal \<Rightarrow>
     (case resolveSymbol syms ''gettimeofday'' ''__vdso_gettimeofday'' of
        Inl e \<Rightarrow> Inl e
      | Inr gtodVal \<Rightarrow>
     (case resolveSymbol syms ''time'' ''__vdso_time'' of
        Inl e \<Rightarrow> Inl e
      | Inr timeVal \<Rightarrow>
          let cgtAddr = start + cgtVal; gtodAddr = start + gtodVal; timeAddr = start + timeVal in
          if \<not> (in_range start end cgtAddr \<and> in_range start end gtodAddr \<and> in_range start end timeAddr)
          then Inl (Msg ''vdso: symbol produces address outside vDSO'')
          else Inr \<lparr>v_Start = start, v_End = end, ClockGettimeAddr = cgtAddr,
                    GettimeofdayAddr = gtodAddr, TimeAddr = timeAddr\<rparr>)))"

definition Locate :: "'w kernel \<Rightarrow> elf_reader \<Rightarrow> pid \<Rightarrow> 'w \<Rightarrow> (goerr + VDSOInfo) \<times> 'w" where
  "Locate K elf pid =
     attempt (findVDSORange K pid) (\<lambda>e. e) (\<lambda>(start, end).
     attempt (readProcMem K pid start (end - start)) (\<lambda>e. e) (\<lambda>data w.
       (case elf data of
          Inl e \<Rightarrow> (Inl (Wrap ''vdso: parsing ELF'' e), w)
        | Inr syms \<Rightarrow> (resolve_all start end syms, w))))"

section \<open>Lemmas\<close>

text \<open>The last binding of a name in the table.\<close>

definition last_sym :: "string \<Rightarrow> (string \<times> 64 word) list \<Rightarrow> 64 word option" where
  "last_sym n syms = map_of (rev syms) n"

lemma resolve_loop_eq:
  assumes "pname \<noteq> fname"
  shows "resolve_loop pname fname syms p f =
    ((case last_sym pname syms of None \<Rightarrow> p | Some v \<Rightarrow> Some v),
     (case last_sym fname syms of None \<Rightarrow> f | Some v \<Rightarrow> Some v))"
proof (induction syms arbitrary: p f)
  case Nil
  then show ?case by (simp add: last_sym_def)
next
  case (Cons nv syms)
  obtain n v where nv: "nv = (n, v)" by fastforce
  from assms show ?case
    by (auto simp: nv Cons.IH last_sym_def map_add_def split: option.splits)
qed

lemma resolveSymbol_eq:
  "pname \<noteq> fname \<Longrightarrow>
   resolveSymbol syms pname fname =
     (case last_sym pname syms of
        Some v \<Rightarrow> Inr v
      | None \<Rightarrow> (case last_sym fname syms of
          Some v \<Rightarrow> Inr v
        | None \<Rightarrow> Inl (Msg ''vdso: symbol not found in dynamic symbol table'')))"
  by (simp add: resolveSymbol_def resolve_loop_eq split: option.splits)

lemma resolve_all_Inr:
  assumes "resolve_all start end syms = Inr info"
  shows "v_Start info = start" "v_End info = end"
    "in_range start end (ClockGettimeAddr info)"
    "in_range start end (GettimeofdayAddr info)"
    "in_range start end (TimeAddr info)"
  using assms by (auto simp: resolve_all_def Let_def split: sum.splits if_splits)

lemma scan_vdso_first:
  "(\<forall>l \<in> set pre. vdso_line l = None) \<Longrightarrow> vdso_line l = Some r \<Longrightarrow>
     scan_vdso (pre @ l # post) = r"
  by (induction pre) auto

end
