(* ===== verification/NearbyGap.thy ===== *)
theory NearbyGap
  imports Vdso
begin

text \<open>
  findNearbyGap of pkg/inject/inject.go: the search in /proc/<pid>/maps for a free page within
  2 GB of the vDSO entry point, on 64-bit addresses with their wrap-around, and its
  correctness: the result is free, in the window, and the lowest such page.
\<close>

definition window :: addr where "window = 2 ^ 31"
definition pageSize :: addr where "pageSize = 4096"

text \<open>\<open>parseHexAddr\<close> ignores the parse error: 0 on bad syntax, the maximum on overflow.\<close>

definition parseHexAddr :: "string \<Rightarrow> addr" where
  "parseHexAddr s = of_nat (fst (ParseHex s))"

definition parse_span :: "string \<Rightarrow> (addr \<times> addr) option" where
  "parse_span line =
     (case Fields line of
        [] \<Rightarrow> None
      | f # _ \<Rightarrow>
          (case IndexByte f CHR ''-'' of
             None \<Rightarrow> None
           | Some dash \<Rightarrow> Some (parseHexAddr (take dash f), parseHexAddr (drop (dash + 1) f))))"

definition gap_lo :: "addr \<Rightarrow> addr" where
  "gap_lo near = (let lo = near - window in if lo > near then pageSize else lo)"

definition gap_hi :: "addr \<Rightarrow> addr" where
  "gap_hi near = (let hi = near + window in if hi < near then NOT 0 - pageSize else hi)"

definition align_up :: "addr \<Rightarrow> addr" where
  "align_up x = (x + pageSize - 1) AND NOT (pageSize - 1)"

text \<open>The check after the loop: the gap behind the last span.\<close>

definition gap_last :: "addr \<Rightarrow> addr \<Rightarrow> addr \<Rightarrow> goerr + addr" where
  "gap_last lo hi prev =
     (let gapStart = align_up (if prev < lo then lo else prev) in
      if gapStart \<ge> lo \<and> gapStart + pageSize \<le> hi then Inr gapStart
      else Inl (Msg ''findNearbyGap: no free page within 2 GB''))"

fun gap_scan :: "addr \<Rightarrow> addr \<Rightarrow> addr \<Rightarrow> (addr \<times> addr) list \<Rightarrow> goerr + addr" where
  "gap_scan lo hi prev [] = gap_last lo hi prev"
| "gap_scan lo hi prev ((s, e) # rest) =
     (if e \<le> lo then gap_scan lo hi e rest
      else if s \<ge> hi then gap_last lo hi prev
      else
        let gapStart = (if prev < lo then lo else prev);
            gapEnd = (if s > hi then hi else s);
            gapStart = align_up gapStart
        in if gapStart + pageSize \<le> gapEnd then Inr gapStart
           else gap_scan lo hi (if e > prev then e else prev) rest)"

definition findNearbyGap :: "'w kernel \<Rightarrow> pid \<Rightarrow> addr \<Rightarrow> 'w \<Rightarrow> (goerr + addr) \<times> 'w" where
  "findNearbyGap K pid near w =
     (case k_maps K pid w of
        (Inl e, w') \<Rightarrow> (Inl (Wrap ''findNearbyGap: open maps'' (Errno e)), w')
      | (Inr ls, w') \<Rightarrow>
          (gap_scan (gap_lo near) (gap_hi near) (gap_lo near) (List.map_filter parse_span ls), w'))"

section \<open>Alignment\<close>

lemma and_not_mask_nat:
  fixes x :: addr
  shows "unat (x AND NOT (mask n)) = unat x div 2 ^ n * 2 ^ n"
proof -
  have "x AND NOT (mask n) = push_bit n (drop_bit n x)"
    by (rule bit_word_eqI) (auto simp: bit_simps)
  also have "\<dots> = x - take_bit n x"
    by (metis add_diff_cancel_right' bits_ident)
  finally have eq: "x AND NOT (mask n) = x - take_bit n x" .
  have t: "unat (take_bit n x) = unat x mod 2 ^ n"
    by (simp add: unsigned_take_bit_eq take_bit_nat_def)
  then have "take_bit n x \<le> x" by (simp add: word_le_nat_alt)
  then show ?thesis
    unfolding eq by (simp add: unat_sub t minus_mod_eq_div_mult)
qed

definition addr_limit :: nat where
  "addr_limit = 2 ^ 64 - 8192"

definition align_nat :: "nat \<Rightarrow> nat" where
  "align_nat x = (x + 4095) div 4096 * 4096"

lemma align_up_unat:
  assumes "unat x \<le> addr_limit"
  shows "unat (align_up x) = align_nat (unat x)"
    and "unat (align_up x + pageSize) = align_nat (unat x) + 4096"
proof -
  have lim: "unat x + 4095 < 2 ^ 64" using assms by (simp add: addr_limit_def)
  have "unat (x + 4095) = unat x + 4095"
    by (subst unat_add_lem [THEN iffD1]) (use lim in simp_all)
  moreover have "align_up x = (x + 4095) AND NOT (mask 12)"
    by (simp add: align_up_def pageSize_def mask_eq_exp_minus_1 algebra_simps)
  ultimately show u: "unat (align_up x) = align_nat (unat x)"
    by (simp only: and_not_mask_nat align_nat_def) simp
  have "align_nat (unat x) \<le> unat x + 4095" by (simp add: align_nat_def)
  then have "align_nat (unat x) + 4096 < 2 ^ 64" using assms by (simp add: addr_limit_def)
  then show "unat (align_up x + pageSize) = align_nat (unat x) + 4096"
    by (subst unat_add_lem [THEN iffD1]) (use u in \<open>simp_all add: pageSize_def\<close>)
qed

lemma align_nat_ge: "x \<le> align_nat x"
proof -
  have "x + 4095 = (x + 4095) div 4096 * 4096 + (x + 4095) mod 4096" by simp
  moreover have "(x + 4095) mod 4096 < 4096" by simp
  ultimately show ?thesis unfolding align_nat_def by linarith
qed

lemma align_nat_dvd: "4096 dvd align_nat x"
  by (simp add: align_nat_def)

lemma align_nat_least:
  assumes "4096 dvd r" and "x \<le> r"
  shows "align_nat x \<le> r"
proof -
  obtain k where "r = 4096 * k" using assms(1) by (elim dvdE)
  with assms(2) have "(x + 4095) div 4096 \<le> k" by simp
  with \<open>r = 4096 * k\<close> show ?thesis by (simp add: align_nat_def)
qed

section \<open>Correctness of the scan\<close>

text \<open>
  What the kernel guarantees of the maps file: spans in increasing order, not overlapping;
  and no address in the topmost two pages (so that the alignment cannot wrap).
\<close>

definition span_before :: "addr \<times> addr \<Rightarrow> addr \<times> addr \<Rightarrow> bool" where
  "span_before a b \<longleftrightarrow> snd a \<le> fst b"

definition spans_ok :: "(addr \<times> addr) list \<Rightarrow> bool" where
  "spans_ok spans \<longleftrightarrow>
     sorted_wrt span_before spans \<and>
     (\<forall>(s, e) \<in> set spans. s < e \<and> unat e \<le> addr_limit)"

text \<open>A page \<open>[r, r + 4096)\<close> is aligned, inside \<open>[lo, hi)\<close> and touches no span.\<close>

definition free_page :: "nat \<Rightarrow> nat \<Rightarrow> (addr \<times> addr) list \<Rightarrow> nat \<Rightarrow> bool" where
  "free_page lo hi spans r \<longleftrightarrow>
     4096 dvd r \<and> lo \<le> r \<and> r + 4096 \<le> hi \<and>
     (\<forall>(s, e) \<in> set spans. r + 4096 \<le> unat s \<or> unat e \<le> r)"

lemma spans_ok_Cons:
  "spans_ok ((s, e) # rest) \<longleftrightarrow>
     s < e \<and> unat e \<le> addr_limit \<and> (\<forall>(s', e') \<in> set rest. e \<le> s') \<and> spans_ok rest"
  by (auto simp: spans_ok_def span_before_def)

lemma gap_last_unat:
  assumes "unat prev \<le> addr_limit" and "unat lo \<le> addr_limit"
  shows "gap_last lo hi prev =
    (if align_nat (max (unat prev) (unat lo)) + 4096 \<le> unat hi
     then Inr (align_up (if prev < lo then lo else prev))
     else Inl (Msg ''findNearbyGap: no free page within 2 GB''))"
proof -
  let ?g = "if prev < lo then lo else prev"
  have g: "unat ?g = max (unat prev) (unat lo)"
    by (auto simp: word_less_nat_alt)
  then have lim: "unat ?g \<le> addr_limit" using assms by simp
  note al = align_up_unat [OF lim, unfolded g]
  have "lo \<le> align_up ?g"
    using align_nat_ge [of "max (unat prev) (unat lo)"] al by (simp add: word_le_nat_alt)
  then show ?thesis
    by (simp only: gap_last_def Let_def word_le_nat_alt al simp_thms)
qed

lemma gap_scan_sound:
  assumes "spans_ok spans" and "unat prev \<le> addr_limit" and "unat lo \<le> addr_limit"
    and "\<forall>(s, e) \<in> set spans. e \<le> lo \<longrightarrow> prev \<le> lo"
    and "gap_scan lo hi prev spans = Inr r"
  shows "prev \<le> r \<and> free_page (unat lo) (unat hi) spans (unat r)"
  using assms
proof (induction spans arbitrary: prev)
  case Nil
  let ?x = "max (unat prev) (unat lo)"
  from Nil.prems have r: "r = align_up (if prev < lo then lo else prev)"
    and hi: "align_nat ?x + 4096 \<le> unat hi"
    by (auto simp: gap_last_unat split: if_splits)
  have "unat r = align_nat ?x"
    unfolding r by (subst align_up_unat) (use Nil.prems in \<open>auto simp: word_less_nat_alt max_def\<close>)
  then show ?case
    using hi align_nat_ge [of ?x] by (simp add: free_page_def align_nat_dvd word_le_nat_alt)
next
  case (Cons se rest)
  obtain s e where se: "se = (s, e)" by fastforce
  have ok: "s < e" "unat e \<le> addr_limit" "\<forall>(s', e') \<in> set rest. e \<le> s'" "spans_ok rest"
    using Cons.prems(1) by (simp_all add: se spans_ok_Cons)
  have rest_above: "e < e'" if "(s', e') \<in> set rest" for s' e'
    using that ok(3,4) by (fastforce simp: spans_ok_def)
  let ?g = "if prev < lo then lo else prev"
  let ?x = "max (unat prev) (unat lo)"
  have g: "unat ?g = ?x" by (auto simp: word_less_nat_alt)
  have al: "unat (align_up ?g) = align_nat ?x" "unat (align_up ?g + pageSize) = align_nat ?x + 4096"
    using align_up_unat [of ?g] g Cons.prems(2,3) by simp_all
  consider (below) "e \<le> lo" | (above) "\<not> e \<le> lo" "hi \<le> s"
    | (hit) "\<not> e \<le> lo" "\<not> hi \<le> s" "align_up ?g + pageSize \<le> s"
    | (miss) "\<not> e \<le> lo" "\<not> hi \<le> s" "\<not> align_up ?g + pageSize \<le> s"
    by blast
  then show ?case
  proof cases
    case below
    with Cons.prems have "gap_scan lo hi e rest = Inr r" "prev \<le> lo" by (auto simp: se)
    moreover have "\<forall>(s', e') \<in> set rest. e' \<le> lo \<longrightarrow> e \<le> lo" using below by auto
    ultimately have "e \<le> r \<and> free_page (unat lo) (unat hi) rest (unat r)"
      using Cons.IH [of e] ok Cons.prems(3) by blast
    then show ?thesis
      using \<open>prev \<le> lo\<close> by (auto simp: se free_page_def word_le_nat_alt)
  next
    case above
    with Cons.prems have r: "r = align_up ?g" and hi: "align_nat ?x + 4096 \<le> unat hi"
      by (auto simp: se gap_last_unat split: if_splits)
    have "align_nat ?x + 4096 \<le> unat s'" if "(s', e') \<in> set (se # rest)" for s' e'
      using that above(2) hi ok(1,3) by (fastforce simp: se word_le_nat_alt word_less_nat_alt)
    then show ?thesis
      using hi al align_nat_ge [of ?x]
      by (auto simp: r free_page_def align_nat_dvd word_le_nat_alt)
  next
    case hit
    with Cons.prems have r: "r = align_up ?g" by (auto simp: se Let_def split: if_splits)
    have "align_nat ?x + 4096 \<le> unat s'" if "(s', e') \<in> set (se # rest)" for s' e'
      using that hit(3) ok(1,3) al by (fastforce simp: se word_le_nat_alt word_less_nat_alt)
    moreover have "align_nat ?x + 4096 \<le> unat hi"
      using hit al by (simp add: word_le_nat_alt)
    ultimately show ?thesis
      using al align_nat_ge [of ?x]
      by (auto simp: r free_page_def align_nat_dvd word_le_nat_alt)
  next
    case miss
    let ?p = "if e > prev then e else prev"
    from miss Cons.prems have "gap_scan lo hi ?p rest = Inr r"
      by (auto simp: se Let_def split: if_splits)
    moreover have "\<forall>(s', e') \<in> set rest. e' \<le> lo \<longrightarrow> ?p \<le> lo"
      using miss(1) rest_above by fastforce
    moreover have "unat ?p \<le> addr_limit" using ok(2) Cons.prems(2) by simp
    ultimately have "?p \<le> r \<and> free_page (unat lo) (unat hi) rest (unat r)"
      using Cons.IH ok(4) Cons.prems(3) by blast
    then show ?thesis
      by (auto simp: se free_page_def word_le_nat_alt word_less_nat_alt split: if_splits)
  qed
qed

lemma gap_scan_complete:
  assumes "spans_ok spans" and "unat prev \<le> addr_limit" and "unat lo \<le> addr_limit"
    and "free_page (unat lo) (unat hi) spans r'" and "unat prev \<le> r'"
  shows "\<exists>r. gap_scan lo hi prev spans = Inr r \<and> unat r \<le> r'"
  using assms
proof (induction spans arbitrary: prev)
  case Nil
  let ?x = "max (unat prev) (unat lo)"
  have "align_nat ?x \<le> r'"
    using Nil.prems by (intro align_nat_least) (auto simp: free_page_def)
  then show ?case
    using Nil.prems by (auto simp: gap_last_unat free_page_def align_up_unat word_less_nat_alt max_def
        split: if_splits)
next
  case (Cons se rest)
  obtain s e where se: "se = (s, e)" by fastforce
  have ok: "s < e" "unat e \<le> addr_limit" "spans_ok rest"
    using Cons.prems(1) by (simp_all add: se spans_ok_Cons)
  have free: "free_page (unat lo) (unat hi) rest r'" "unat lo \<le> r'" "r' + 4096 \<le> unat hi"
    "r' + 4096 \<le> unat s \<or> unat e \<le> r'" "4096 dvd r'"
    using Cons.prems(4) by (auto simp: se free_page_def)
  let ?g = "if prev < lo then lo else prev"
  let ?x = "max (unat prev) (unat lo)"
  have g: "unat ?g = ?x" by (auto simp: word_less_nat_alt)
  have al: "unat (align_up ?g) = align_nat ?x" "unat (align_up ?g + pageSize) = align_nat ?x + 4096"
    using align_up_unat [of ?g] g Cons.prems(2,3) by simp_all
  have least: "align_nat ?x \<le> r'"
    using free Cons.prems(5) by (intro align_nat_least) auto
  consider (below) "e \<le> lo" | (above) "\<not> e \<le> lo" "hi \<le> s"
    | (hit) "\<not> e \<le> lo" "\<not> hi \<le> s" "align_up ?g + pageSize \<le> s"
    | (miss) "\<not> e \<le> lo" "\<not> hi \<le> s" "\<not> align_up ?g + pageSize \<le> s"
    by blast
  then show ?case
  proof cases
    case below
    then have "unat e \<le> r'" using free(2) by (simp add: word_le_nat_alt)
    with below show ?thesis
      using Cons.IH [of e] ok Cons.prems(3) free(1) by (auto simp: se)
  next
    case above
    with least free(3) Cons.prems(2,3) al show ?thesis by (auto simp: se gap_last_unat)
  next
    case hit
    with least al show ?thesis by (auto simp: se Let_def)
  next
    case miss
    let ?p = "if e > prev then e else prev"
    have "\<not> r' + 4096 \<le> unat s"
      using miss(3) least al by (simp add: word_le_nat_alt)
    then have "unat ?p \<le> r'" using free(4) Cons.prems(5) by simp
    moreover have "unat ?p \<le> addr_limit" using ok(2) Cons.prems(2) by simp
    ultimately have "\<exists>r. gap_scan lo hi ?p rest = Inr r \<and> unat r \<le> r'"
      using Cons.IH ok(3) Cons.prems(3) free(1) by blast
    moreover have "\<not> s > hi" using miss(2) by simp
    ultimately show ?thesis using miss by (simp add: se Let_def)
  qed
qed

end
