(* ===== verification/Inject.thy ===== *)
theory Inject
  imports Hooks NearbyGap
begin

text \<open>
  pkg/inject/inject.go: the injection sequence (a free page near the vDSO, a remote mmap, the
  payload, three five-byte jumps) and the handle that rewrites the state struct afterwards.
\<close>

section \<open>Handles\<close>

record patchedHook =
  ph_addr :: addr
  ph_orig :: "byte list"

record inj_handle =
  ih_PID :: pid
  ih_StateAddr :: addr
  ih_patched :: "patchedHook list"
  ih_gen :: "32 word"

text \<open>\<open>diffSecNsec\<close>: Go's \<open>/\<close> and \<open>%\<close> truncate towards zero, so nsec may be negative.\<close>

definition diffSecNsec :: "gotime \<Rightarrow> gotime \<Rightarrow> int \<times> int" where
  "diffSecNsec target base = (let d = time_Sub target base in (d sdiv second, d smod second))"

text \<open>
  \<open>writeState\<close>: the generation is incremented first and reverted when the write fails. The
  first component is the error, nil as \<open>None\<close>.
\<close>

definition writeState :: "'w kernel \<Rightarrow> inj_handle \<Rightarrow> int \<Rightarrow> int \<Rightarrow> 64 word \<Rightarrow> 'w
    \<Rightarrow> goerr option \<times> inj_handle \<times> 'w" where
  "writeState K h sec nsec msk w =
     (let h1 = h\<lparr>ih_gen := ih_gen h + 1\<rparr>;
          encoded = EncodeState sec nsec msk (ih_gen h1)
      in case WriteMem K (ih_PID h1) (ih_StateAddr h1) encoded w of
           (Inl e, w') \<Rightarrow> (Some (Wrap ''inject: writeState'' e), h1\<lparr>ih_gen := ih_gen h1 - 1\<rparr>, w')
         | (Inr _, w') \<Rightarrow> (None, h1, w'))"

definition SetTime :: "'w kernel \<Rightarrow> inj_handle \<Rightarrow> gotime \<Rightarrow> 'w \<Rightarrow> goerr option \<times> inj_handle \<times> 'w" where
  "SetTime K h target w =
     (case k_now K w of (now, w1) \<Rightarrow>
        (case diffSecNsec target now of (sec, nsec) \<Rightarrow> writeState K h sec nsec MaskEnabled w1))"

definition Freeze :: "'w kernel \<Rightarrow> inj_handle \<Rightarrow> gotime \<Rightarrow> 'w \<Rightarrow> goerr option \<times> inj_handle \<times> 'w" where
  "Freeze K h target w = writeState K h (time_Unix target) (time_Nanosecond target) MaskFrozen w"

definition Generation :: "inj_handle \<Rightarrow> 32 word" where
  "Generation h = ih_gen h"

text \<open>The zero value of the omitted \<open>gen\<close> field is 0.\<close>

definition ChildHandle :: "inj_handle \<Rightarrow> pid \<Rightarrow> inj_handle" where
  "ChildHandle parent childPID =
     \<lparr>ih_PID = childPID, ih_StateAddr = ih_StateAddr parent, ih_patched = ih_patched parent,
      ih_gen = 0\<rparr>"

section \<open>The remote mmap\<close>

record mmapAttempt =
  ma_flags :: "64 word"
  ma_addr :: "64 word"

definition MAP_PRIVATE :: "64 word" where "MAP_PRIVATE = 0x02"
definition MAP_ANONYMOUS :: "64 word" where "MAP_ANONYMOUS = 0x20"
definition MAP_FIXED :: "64 word" where "MAP_FIXED = 0x10"
definition MAP_FIXED_NOREPLACE :: "64 word" where "MAP_FIXED_NOREPLACE = 0x100000"
definition SYS_MMAP :: "64 word" where "SYS_MMAP = 9"
definition PROT_RWX :: "64 word" where "PROT_RWX = 7"

definition mmap_list :: "addr \<Rightarrow> mmapAttempt list" where
  "mmap_list fixedAddr =
     (let base = MAP_PRIVATE OR MAP_ANONYMOUS in
      if fixedAddr \<noteq> 0
      then [\<lparr>ma_flags = base OR MAP_FIXED_NOREPLACE, ma_addr = fixedAddr\<rparr>,
            \<lparr>ma_flags = base OR MAP_FIXED, ma_addr = fixedAddr\<rparr>]
      else [\<lparr>ma_flags = base, ma_addr = 0\<rparr>])"

definition mmap_regs :: "uregs \<Rightarrow> addr \<Rightarrow> mmapAttempt \<Rightarrow> uregs" where
  "mmap_regs origRegs patchAddr att =
     origRegs\<lparr>Rip := patchAddr, Rax := SYS_MMAP, Rdi := ma_addr att, Rsi := 4096,
       Rdx := PROT_RWX, R10 := ma_flags att, r_R8 := NOT 0, r_R9 := 0\<rparr>"

text \<open>The bytes of \<open>syscall; int3\<close>.\<close>

definition syscall_int3 :: "byte list" where
  "syscall_int3 = [0x0F, 0x05, 0xCC]"

text \<open>
  The loop over the attempts; on success it has put the text and the registers back itself.
\<close>

fun mmap_attempts :: "'w kernel \<Rightarrow> addr \<Rightarrow> uregs \<Rightarrow> byte list \<Rightarrow> mmapAttempt list \<Rightarrow> 'w tw
    \<Rightarrow> (goerr + addr) \<times> 'w tw" where
  "mmap_attempts K patchAddr origRegs origBytes [] tw =
     (Inl (Msg ''remoteMmap: all mmap attempts exhausted''), tw)"
| "mmap_attempts K patchAddr origRegs origBytes (att # rest) tw =
     attempt (SetRegs K (mmap_regs origRegs patchAddr att)) (Wrap ''remoteMmap: SetRegs'') (\<lambda>_.
     attempt (Cont K 0) (Wrap ''remoteMmap: Cont'') (\<lambda>_.
     attempt (Wait K) (Wrap ''remoteMmap: Wait'') (\<lambda>ws tw.
       if \<not> ws_Stopped ws \<or> ws_StopSignal ws \<noteq> SIGTRAP
       then (Inl (Msg ''remoteMmap: expected SIGTRAP''), tw)
       else attempt (GetRegs K) (Wrap ''remoteMmap: GetRegs post'') (\<lambda>postRegs tw.
         let result = Rax postRegs in
         if 0 \<le> sint result then
           attempt (PokeText K patchAddr origBytes) (Wrap ''remoteMmap: restore bytes'') (\<lambda>_.
           attempt (SetRegs K origRegs) (Wrap ''remoteMmap: restore regs'') (\<lambda>_ tw.
             (Inr result, tw))) tw
         else
           let mmapErr = errno_of_int (- sint result) in
           if rest \<noteq> [] \<and> (mmapErr = EBADF \<or> mmapErr = EEXIST)
           then mmap_attempts K patchAddr origRegs origBytes rest tw
           else (Inl (Wrap ''remoteMmap: mmap failed'' (Errno mmapErr)), tw)) tw))) tw"

text \<open>The deferred closure: runs on every return before \<open>restored = true\<close>.\<close>

definition unless_restored :: "('w tw \<Rightarrow> 'w tw) \<Rightarrow> ('w tw \<Rightarrow> (goerr + 'a) \<times> 'w tw) \<Rightarrow> 'w tw \<Rightarrow> (goerr + 'a) \<times> 'w tw"
  where
  "unless_restored cleanup m tw =
     (case m tw of (Inl e, tw') \<Rightarrow> (Inl e, cleanup tw') | (Inr a, tw') \<Rightarrow> (Inr a, tw'))"

definition restore_tracee :: "'w kernel \<Rightarrow> addr \<Rightarrow> uregs \<Rightarrow> byte list \<Rightarrow> 'w tw \<Rightarrow> 'w tw" where
  "restore_tracee K patchAddr origRegs origBytes tw =
     ignore_err (SetRegs K origRegs) (ignore_err (PokeText K patchAddr origBytes) tw)"

definition remoteMmap :: "'w kernel \<Rightarrow> pid \<Rightarrow> addr \<Rightarrow> addr \<Rightarrow> 'w tw \<Rightarrow> (goerr + addr) \<times> 'w tw" where
  "remoteMmap K pid patchAddr fixedAddr =
     attempt (GetRegs K) (Wrap ''remoteMmap: GetRegs'') (\<lambda>origRegs.
     attempt (on_world (ReadMem K pid patchAddr 8)) (Wrap ''remoteMmap: save original bytes'')
       (\<lambda>(_, origBytes).
     unless_restored (restore_tracee K patchAddr origRegs origBytes)
       (attempt (PokeText K patchAddr syscall_int3) (Wrap ''remoteMmap: poke trampoline'') (\<lambda>_.
          mmap_attempts K patchAddr origRegs origBytes (mmap_list fixedAddr)))))"

section \<open>Patching the three entry points\<close>

record hook_spec =
  hk_name :: string
  hk_addr :: addr
  hk_off :: nat

definition hook_table :: "VDSOInfo \<Rightarrow> hook_spec list" where
  "hook_table info =
     [\<lparr>hk_name = ''clock_gettime'', hk_addr = ClockGettimeAddr info, hk_off = ClockGettimeEntryOffset\<rparr>,
      \<lparr>hk_name = ''gettimeofday'', hk_addr = GettimeofdayAddr info, hk_off = GettimeofdayEntryOffset\<rparr>,
      \<lparr>hk_name = ''time'', hk_addr = TimeAddr info, hk_off = TimeEntryOffset\<rparr>]"

text \<open>\<open>int64(target) - int64(vdsoAddr+5)\<close> and \<open>int32(disp)\<close>.\<close>

definition jmp_disp :: "addr \<Rightarrow> addr \<Rightarrow> int" where
  "jmp_disp vdsoAddr target = wrap64 (sint target - sint (vdsoAddr + 5))"

definition as_int32 :: "int \<Rightarrow> int" where
  "as_int32 d = sint (word_of_int d :: 32 word)"

definition jmp_bytes :: "int \<Rightarrow> byte list" where
  "jmp_bytes disp = 0xE9 # to_le 4 (word_of_int (as_int32 disp) :: 32 word)"

fun patch_hooks :: "'w kernel \<Rightarrow> pid \<Rightarrow> addr \<Rightarrow> hook_spec list \<Rightarrow> 'w tw
    \<Rightarrow> (goerr + patchedHook list) \<times> 'w tw" where
  "patch_hooks K pid newPage [] tw = (Inr [], tw)"
| "patch_hooks K pid newPage (hk # rest) tw =
     (let target = newPage + of_nat (hk_off hk);
          disp = jmp_disp (hk_addr hk) target
      in if disp \<noteq> as_int32 disp
         then (Inl (Msg ''inject: JMP rel32 displacement overflows int32''), tw)
         else
           attempt (on_world (ReadMem K pid (hk_addr hk) 5))
             (Wrap ''inject: save original vDSO bytes'') (\<lambda>(_, orig).
           attempt (PokeText K (hk_addr hk) (jmp_bytes disp)) (Wrap ''inject: PokeText JMP'') (\<lambda>_.
           attempt (patch_hooks K pid newPage rest) (\<lambda>e. e) (\<lambda>phs tw.
             (Inr (\<lparr>ph_addr = hk_addr hk, ph_orig = orig\<rparr> # phs), tw)))) tw)"

definition injectWithTracer :: "'w kernel \<Rightarrow> pid \<Rightarrow> VDSOInfo \<Rightarrow> int \<Rightarrow> int \<Rightarrow> 64 word \<Rightarrow> 'w tw
    \<Rightarrow> (goerr + inj_handle) \<times> 'w tw" where
  "injectWithTracer K pid info sec nsec msk =
     attempt (on_world (findNearbyGap K pid (ClockGettimeAddr info)))
       (Wrap ''inject: findNearbyGap'') (\<lambda>fixedAddr.
     attempt (remoteMmap K pid (ClockGettimeAddr info) fixedAddr)
       (Wrap ''inject: remoteMmap'') (\<lambda>newPage.
     attempt (on_world (WriteMem K pid newPage (payload_with_state sec nsec msk)))
       (Wrap ''inject: write payload'') (\<lambda>_.
     attempt (patch_hooks K pid newPage (hook_table info)) (\<lambda>e. e) (\<lambda>patched tw.
       (Inr \<lparr>ih_PID = pid, ih_StateAddr = newPage + of_nat StateOffset, ih_patched = patched,
             ih_gen = 0\<rparr>, tw)))))"

section \<open>Entry points\<close>

text \<open>\<open>defer d\<close> after which the body runs.\<close>

definition deferring :: "('w \<Rightarrow> 'w) \<Rightarrow> ('w \<Rightarrow> 'r \<times> 'w) \<Rightarrow> 'w \<Rightarrow> 'r \<times> 'w" where
  "deferring d m w = (case m w of (r, w') \<Rightarrow> (r, d w'))"

text \<open>A function that makes its own tracer and drops it on return.\<close>

definition with_new_tracer :: "('w tw \<Rightarrow> 'r \<times> 'w tw) \<Rightarrow> 'w \<Rightarrow> 'r \<times> 'w" where
  "with_new_tracer m w = (case m (NewTracer, w) of (r, (_, w')) \<Rightarrow> (r, w'))"

definition injectCore :: "'w kernel \<Rightarrow> elf_reader \<Rightarrow> pid \<Rightarrow> int \<Rightarrow> int \<Rightarrow> 64 word \<Rightarrow> 'w
    \<Rightarrow> (goerr + inj_handle) \<times> 'w" where
  "injectCore K elf pid sec nsec msk =
     with_new_tracer
       (attempt (Seize K pid) (Wrap ''inject: Seize pid'') (\<lambda>_.
        deferring (ignore_err (Detach K))
          (attempt (on_world (Locate K elf pid)) (Wrap ''inject: vdso.Locate'') (\<lambda>info.
             injectWithTracer K pid info sec nsec msk))))"

definition injectFollowChild :: "'w kernel \<Rightarrow> elf_reader \<Rightarrow> gocmd \<Rightarrow> int \<Rightarrow> int \<Rightarrow> 64 word \<Rightarrow> 'w
    \<Rightarrow> (goerr + inj_handle) \<times> 'w" where
  "injectFollowChild K elf cmd sec nsec msk =
     with_new_tracer
       (attempt (StartAndFollowChild K cmd) (Wrap ''inject: StartAndFollowChild'') (\<lambda>pid.
        deferring (ignore_err (Detach K))
          (attempt (on_world (Locate K elf pid)) (Wrap ''inject: vdso.Locate'') (\<lambda>info.
             injectWithTracer K pid info sec nsec msk))))"

text \<open>
  What the two KeepTracer paths share once the tracer is attached: locate, inject, trace forks
  and execs, resume; every error detaches.
\<close>

definition inject_and_resume :: "'w kernel \<Rightarrow> elf_reader \<Rightarrow> pid \<Rightarrow> int \<Rightarrow> int \<Rightarrow> 64 word \<Rightarrow> 'w tw
    \<Rightarrow> (goerr + inj_handle) \<times> 'w tw" where
  "inject_and_resume K elf pid sec nsec msk =
     unless_restored (ignore_err (Detach K))
       (attempt (on_world (Locate K elf pid)) (Wrap ''inject: vdso.Locate'') (\<lambda>info.
        attempt (injectWithTracer K pid info sec nsec msk) (\<lambda>e. e) (\<lambda>h.
        attempt (SetOptions K trace_options) (Wrap ''inject: SetOptions'') (\<lambda>_.
        attempt (Cont K 0) (Wrap ''inject: Cont parent'') (\<lambda>_ tw. (Inr h, tw))))))"

definition keeping_tracer :: "('w tw \<Rightarrow> (goerr + 'a) \<times> 'w tw) \<Rightarrow> 'w \<Rightarrow> (goerr + 'a \<times> tracer) \<times> 'w" where
  "keeping_tracer m w =
     (case m (NewTracer, w) of
        (Inl e, (_, w')) \<Rightarrow> (Inl e, w') | (Inr a, (t, w')) \<Rightarrow> (Inr (a, t), w'))"

definition injectCoreKeepTracer :: "'w kernel \<Rightarrow> elf_reader \<Rightarrow> pid \<Rightarrow> int \<Rightarrow> int \<Rightarrow> 64 word \<Rightarrow> 'w
    \<Rightarrow> (goerr + inj_handle \<times> tracer) \<times> 'w" where
  "injectCoreKeepTracer K elf pid sec nsec msk =
     keeping_tracer
       (attempt (Seize K pid) (Wrap ''inject: Seize pid'') (\<lambda>_.
          inject_and_resume K elf pid sec nsec msk))"

definition injectFollowChildKeepTracer :: "'w kernel \<Rightarrow> elf_reader \<Rightarrow> gocmd \<Rightarrow> int \<Rightarrow> int \<Rightarrow> 64 word
    \<Rightarrow> 'w \<Rightarrow> (goerr + inj_handle \<times> tracer) \<times> 'w" where
  "injectFollowChildKeepTracer K elf cmd sec nsec msk =
     keeping_tracer
       (attempt (StartAndFollowChild K cmd) (Wrap ''inject: StartAndFollowChild'') (\<lambda>pid.
          inject_and_resume K elf pid sec nsec msk))"

text \<open>The two modes: an advancing offset from now, or the frozen instant itself.\<close>

definition at_time :: "'w kernel \<Rightarrow> gotime \<Rightarrow> (int \<Rightarrow> int \<Rightarrow> 64 word \<Rightarrow> 'w \<Rightarrow> 'r \<times> 'w) \<Rightarrow> 'w \<Rightarrow> 'r \<times> 'w"
  where
  "at_time K target f w =
     (case k_now K w of (now, w1) \<Rightarrow>
        (case diffSecNsec target now of (sec, nsec) \<Rightarrow> f sec nsec MaskEnabled w1))"

definition frozen_at :: "gotime \<Rightarrow> (int \<Rightarrow> int \<Rightarrow> 64 word \<Rightarrow> 'w \<Rightarrow> 'r \<times> 'w) \<Rightarrow> 'w \<Rightarrow> 'r \<times> 'w" where
  "frozen_at target f w = f (time_Unix target) (time_Nanosecond target) MaskFrozen w"

definition InjectAtTime :: "'w kernel \<Rightarrow> elf_reader \<Rightarrow> pid \<Rightarrow> gotime \<Rightarrow> 'w
    \<Rightarrow> (goerr + inj_handle) \<times> 'w" where
  "InjectAtTime K elf pid target = at_time K target (injectCore K elf pid)"

definition InjectFrozen :: "'w kernel \<Rightarrow> elf_reader \<Rightarrow> pid \<Rightarrow> gotime \<Rightarrow> 'w
    \<Rightarrow> (goerr + inj_handle) \<times> 'w" where
  "InjectFrozen K elf pid target = frozen_at target (injectCore K elf pid)"

definition InjectAtTimeFollowChild :: "'w kernel \<Rightarrow> elf_reader \<Rightarrow> gocmd \<Rightarrow> gotime \<Rightarrow> 'w
    \<Rightarrow> (goerr + inj_handle) \<times> 'w" where
  "InjectAtTimeFollowChild K elf cmd target = at_time K target (injectFollowChild K elf cmd)"

definition InjectFrozenFollowChild :: "'w kernel \<Rightarrow> elf_reader \<Rightarrow> gocmd \<Rightarrow> gotime \<Rightarrow> 'w
    \<Rightarrow> (goerr + inj_handle) \<times> 'w" where
  "InjectFrozenFollowChild K elf cmd target = frozen_at target (injectFollowChild K elf cmd)"

definition InjectAtTimeFollowChildKeepTracer :: "'w kernel \<Rightarrow> elf_reader \<Rightarrow> gocmd \<Rightarrow> gotime \<Rightarrow> 'w
    \<Rightarrow> (goerr + inj_handle \<times> tracer) \<times> 'w" where
  "InjectAtTimeFollowChildKeepTracer K elf cmd target =
     at_time K target (injectFollowChildKeepTracer K elf cmd)"

definition InjectFrozenFollowChildKeepTracer :: "'w kernel \<Rightarrow> elf_reader \<Rightarrow> gocmd \<Rightarrow> gotime \<Rightarrow> 'w
    \<Rightarrow> (goerr + inj_handle \<times> tracer) \<times> 'w" where
  "InjectFrozenFollowChildKeepTracer K elf cmd target =
     frozen_at target (injectFollowChildKeepTracer K elf cmd)"

definition InjectAtTimeKeepTracer :: "'w kernel \<Rightarrow> elf_reader \<Rightarrow> pid \<Rightarrow> gotime \<Rightarrow> 'w
    \<Rightarrow> (goerr + inj_handle \<times> tracer) \<times> 'w" where
  "InjectAtTimeKeepTracer K elf pid target = at_time K target (injectCoreKeepTracer K elf pid)"

definition InjectFrozenKeepTracer :: "'w kernel \<Rightarrow> elf_reader \<Rightarrow> pid \<Rightarrow> gotime \<Rightarrow> 'w
    \<Rightarrow> (goerr + inj_handle \<times> tracer) \<times> 'w" where
  "InjectFrozenKeepTracer K elf pid target = frozen_at target (injectCoreKeepTracer K elf pid)"

text \<open>After an exec: the tracee is switched for the injection and always switched back.\<close>

definition reInjectAfterExec :: "'w kernel \<Rightarrow> elf_reader \<Rightarrow> pid \<Rightarrow> pid \<Rightarrow> int \<Rightarrow> int \<Rightarrow> 64 word \<Rightarrow> 'w tw
    \<Rightarrow> (goerr + inj_handle) \<times> 'w tw" where
  "reInjectAfterExec K elf parentPID pid sec nsec msk tw =
     deferring (SetTracee parentPID)
       (attempt (on_world (Locate K elf pid)) (Wrap ''inject: vdso.Locate after exec'') (\<lambda>info.
          injectWithTracer K pid info sec nsec msk))
       (SetTracee pid tw)"

definition ReInjectAtTimeAfterExec :: "'w kernel \<Rightarrow> elf_reader \<Rightarrow> pid \<Rightarrow> pid \<Rightarrow> gotime \<Rightarrow> 'w tw
    \<Rightarrow> (goerr + inj_handle) \<times> 'w tw" where
  "ReInjectAtTimeAfterExec K elf parentPID pid target tw =
     (case on_world (k_now K) tw of (now, tw1) \<Rightarrow>
        (case diffSecNsec target now of (sec, nsec) \<Rightarrow>
           reInjectAfterExec K elf parentPID pid sec nsec MaskEnabled tw1))"

definition ReInjectFrozenAfterExec :: "'w kernel \<Rightarrow> elf_reader \<Rightarrow> pid \<Rightarrow> pid \<Rightarrow> gotime \<Rightarrow> 'w tw
    \<Rightarrow> (goerr + inj_handle) \<times> 'w tw" where
  "ReInjectFrozenAfterExec K elf parentPID pid target tw =
     reInjectAfterExec K elf parentPID pid (time_Unix target) (time_Nanosecond target) MaskFrozen tw"

section \<open>The offset\<close>

lemma diffSecNsec_total:
  "diffSecNsec target base = (s, n) \<Longrightarrow> s * second + n = time_Sub target base"
  by (auto simp: diffSecNsec_def Let_def sdiv_mult_smod_eq)

lemma diffSecNsec_nsec:
  assumes "diffSecNsec target base = (s, n)"
  shows "- second < n" "n < second"
proof -
  have "n = time_Sub target base smod second"
    using assms by (simp add: diffSecNsec_def Let_def)
  then show "- second < n" "n < second"
    using abs_mod_less [of second "\<bar>time_Sub target base\<bar>"] second_pos
    by (auto simp: signed_modulo_int_def sgn_if abs_if second_def split: if_splits)
qed

lemma diffSecNsec_sec:
  assumes "diffSecNsec target base = (s, n)"
  shows "in_int64 s"
  using diffSecNsec_total [OF assms] diffSecNsec_nsec [OF assms] in_int64_time_Sub [of target base]
  by (simp add: second_def in_int64_def min_duration_def max_duration_def)

section \<open>The jump\<close>

text \<open>Where a five-byte \<open>JMP rel32\<close> at \<open>a\<close> goes.\<close>

definition is_jmp_to :: "byte list \<Rightarrow> addr \<Rightarrow> addr \<Rightarrow> bool" where
  "is_jmp_to bs a target \<longleftrightarrow>
     length bs = 5 \<and> hd bs = 0xE9 \<and> a + 5 + scast (of_le (tl bs) :: 32 word) = target"

lemma word_of_int_sint64 [simp]: "(word_of_int (sint w) :: 'a::len word) = w"
  by (metis scast_eq scast_id)

lemma word_of_int_wrap64 [simp]: "(word_of_int (wrap64 x) :: 64 word) = word_of_int x"
  by (metis sint_word_of_int64_wrap word_of_int_sint64)

lemma length_jmp_bytes [simp]: "length (jmp_bytes d) = 5"
  by (simp add: jmp_bytes_def)

lemma jmp_bytes_target:
  assumes "jmp_disp a target = as_int32 (jmp_disp a target)"
  shows "is_jmp_to (jmp_bytes (jmp_disp a target)) a target"
proof -
  let ?d = "jmp_disp a target"
  have "scast (word_of_int (as_int32 ?d) :: 32 word) = (word_of_int (as_int32 ?d) :: 64 word)"
    unfolding as_int32_def word_of_int_sint64 by (rule scast_eq)
  also have "\<dots> = word_of_int ?d" using assms by simp
  also have "\<dots> = word_of_int (sint target) - word_of_int (sint (a + 5))"
    unfolding jmp_disp_def word_of_int_wrap64 by (rule wi_hom_sub [symmetric])
  also have "\<dots> = target - (a + 5)" by (simp only: word_of_int_sint64)
  finally show ?thesis by (simp add: is_jmp_to_def jmp_bytes_def)
qed

section \<open>What the sequence leaves in the target's memory\<close>

definition apply_hook :: "addr \<Rightarrow> hook_spec \<Rightarrow> memory \<Rightarrow> memory" where
  "apply_hook newPage hk m =
     write_bytes m (hk_addr hk) (jmp_bytes (jmp_disp (hk_addr hk) (newPage + of_nat (hk_off hk))))"

definition in_reach :: "addr \<Rightarrow> hook_spec \<Rightarrow> bool" where
  "in_reach newPage hk \<longleftrightarrow>
     (let d = jmp_disp (hk_addr hk) (newPage + of_nat (hk_off hk)) in d = as_int32 d)"

lemma on_world_Inr_iff:
  "on_world m (t, w) = (r, tw') \<longleftrightarrow> (\<exists>w'. m w = (r, w') \<and> tw' = (t, w'))"
  by (auto simp: on_world_def split: prod.splits)

lemma patch_hooks_memory:
  assumes laws: "mem_laws K view" and pid: "t_pid t = pid"
  shows "patch_hooks K pid newPage hks (t, w) = (Inr phs, (t', w')) \<Longrightarrow>
    t' = t \<and> map ph_addr phs = map hk_addr hks \<and> list_all (in_reach newPage) hks \<and>
    view w' = (view w)(pid := fold (apply_hook newPage) hks (view w pid))"
proof (induction hks arbitrary: w phs)
  case Nil
  then show ?case by simp
next
  case (Cons hk hks)
  then obtain k orig w1 u t2 w2 phs'
    where reach: "in_reach newPage hk"
      and rd: "ReadMem K pid (hk_addr hk) 5 w = (Inr (k, orig), w1)"
      and pk: "PokeText K (hk_addr hk) (jmp_bytes (jmp_disp (hk_addr hk) (newPage + of_nat (hk_off hk))))
                 (t, w1) = (Inr u, (t2, w2))"
      and rest: "patch_hooks K pid newPage hks (t2, w2) = (Inr phs', (t', w'))"
      and phs: "phs = \<lparr>ph_addr = hk_addr hk, ph_orig = orig\<rparr> # phs'"
    by (auto simp: Let_def in_reach_def on_world_Inr_iff elim!: attempt_InrE split: if_splits)
  have "view w1 = view w" using ReadMem_Inr [OF laws rd] by simp
  moreover have "t2 = t" "view w2 = (view w1)(pid := apply_hook newPage hk (view w1 pid))"
    using PokeText_Inr [OF laws pk] pid by (simp_all add: apply_hook_def)
  moreover have "t' = t \<and> map ph_addr phs' = map hk_addr hks \<and> list_all (in_reach newPage) hks \<and>
      view w' = (view w2)(pid := fold (apply_hook newPage) hks (view w2 pid))"
    using Cons.IH rest \<open>t2 = t\<close> by blast
  ultimately show ?case
    using phs reach
    by (simp only: list.map list.pred_inject fold_simps fun_upd_upd fun_upd_same simp_thms patchedHook.simps)
qed

text \<open>
  The whole sequence: whatever the remote mmap did, the payload and then the three jumps are
  the last writes into the target.
\<close>

lemma unless_restored_Inr:
  "unless_restored c m tw = (Inr a, tw') \<longleftrightarrow> m tw = (Inr a, tw')"
  by (auto simp: unless_restored_def split: prod.splits sum.splits)

lemma tracer_step_pid [simp]:
  "SetRegs K r (t, w) = (x, (t', w')) \<Longrightarrow> t' = t"
  "GetRegs K (t, w) = (y, (t', w')) \<Longrightarrow> t' = t"
  "Cont K s (t, w) = (z, (t', w')) \<Longrightarrow> t' = t"
  "PokeText K a bs (t, w) = (z, (t', w')) \<Longrightarrow> t' = t"
  by (auto simp: SetRegs_def GetRegs_def Cont_def PokeText_def syscall_as_def split: prod.splits sum.splits)

lemma Wait_pid [simp]: "Wait K (t, w) = (x, (t', w')) \<Longrightarrow> t' = t"
  by (auto simp: Wait_def syscall_as_def attempt_def split: prod.splits sum.splits)

lemma mmap_attempts_pid:
  "mmap_attempts K a r b atts (t, w) = (Inr p, (t', w')) \<Longrightarrow> t' = t"
proof (induction atts arbitrary: t w)
  case Nil
  then show ?case by simp
next
  case (Cons att atts)
  from Cons.prems show ?case
    by (auto simp: Let_def elim!: attempt_InrE dest!: tracer_step_pid Wait_pid Cons.IH
        split: if_splits)
qed

lemma remoteMmap_pid:
  "remoteMmap K pid a f (t, w) = (Inr p, (t', w')) \<Longrightarrow> t' = t"
  by (auto simp: remoteMmap_def on_world_Inr_iff unless_restored_Inr elim!: attempt_InrE
      dest!: tracer_step_pid mmap_attempts_pid)

lemma injectWithTracer_memory:
  assumes laws: "mem_laws K view" and pid: "t_pid t = pid"
    and ok: "injectWithTracer K pid info sec nsec msk (t, w) = (Inr h, (t', w'))"
  obtains newPage m where
    "view w' pid = fold (apply_hook newPage) (hook_table info)
       (write_bytes m newPage (payload_with_state sec nsec msk))"
    and "list_all (in_reach newPage) (hook_table info)"
    and "ih_PID h = pid" "ih_StateAddr h = newPage + of_nat StateOffset" "ih_gen h = 0"
    and "map ph_addr (ih_patched h) = map hk_addr (hook_table info)" and "t' = t"
proof -
  from ok obtain fixedAddr w1 newPage t2 w2 n w3 phs
    where mm: "remoteMmap K pid (ClockGettimeAddr info) fixedAddr (t, w1) = (Inr newPage, (t2, w2))"
      and wr: "WriteMem K pid newPage (payload_with_state sec nsec msk) w2 = (Inr n, w3)"
      and pt: "patch_hooks K pid newPage (hook_table info) (t2, w3) = (Inr phs, (t', w'))"
      and h: "h = \<lparr>ih_PID = pid, ih_StateAddr = newPage + of_nat StateOffset, ih_patched = phs,
                   ih_gen = 0\<rparr>"
    by (auto simp: injectWithTracer_def on_world_Inr_iff elim!: attempt_InrE)
  have "t2 = t" by (rule remoteMmap_pid [OF mm])
  with pid have t2: "t_pid t2 = pid" by simp
  show thesis
    by (rule that [of newPage "view w2 pid"])
      (use WriteMem_Inr [OF laws wr] patch_hooks_memory [OF laws t2 pt] h \<open>t2 = t\<close> in simp_all)
qed

section \<open>Reading the patched memory back\<close>

lemma read_fold_apart:
  "(\<And>hk. hk \<in> set hks \<Longrightarrow> apart a n (hk_addr hk) 5) \<Longrightarrow>
     read_bytes (fold (apply_hook newPage) hks m) a n = read_bytes m a n"
proof (induction hks arbitrary: m)
  case Nil
  then show ?case by simp
next
  case (Cons hk hks)
  then have "read_bytes (fold (apply_hook newPage) hks (apply_hook newPage hk m)) a n =
      read_bytes (apply_hook newPage hk m) a n" by simp
  also have "\<dots> = read_bytes m a n"
    using Cons.prems [of hk] by (simp add: apply_hook_def read_bytes_write_apart)
  finally show ?case by simp
qed

definition entries_apart :: "hook_spec list \<Rightarrow> bool" where
  "entries_apart hks \<longleftrightarrow> sorted_wrt (\<lambda>h k. apart (hk_addr h) 5 (hk_addr k) 5) hks"

lemma read_fold_hook:
  "entries_apart hks \<Longrightarrow> list_all (in_reach newPage) hks \<Longrightarrow> hk \<in> set hks \<Longrightarrow>
     is_jmp_to (read_bytes (fold (apply_hook newPage) hks m) (hk_addr hk) 5) (hk_addr hk)
       (newPage + of_nat (hk_off hk))"
proof (induction hks arbitrary: m)
  case Nil
  then show ?case by simp
next
  case (Cons k hks)
  show ?case
  proof (cases "hk \<in> set hks")
    case True
    with Cons show ?thesis by (simp add: entries_apart_def)
  next
    case False
    with Cons.prems have hk: "hk = k" by simp
    have "read_bytes (fold (apply_hook newPage) hks (apply_hook newPage k m)) (hk_addr hk) 5 =
        read_bytes (apply_hook newPage k m) (hk_addr hk) 5"
      by (rule read_fold_apart) (use Cons.prems(1) hk in \<open>auto simp: entries_apart_def\<close>)
    also have "\<dots> = jmp_bytes (jmp_disp (hk_addr k) (newPage + of_nat (hk_off k)))"
      using read_bytes_write_same [of "jmp_bytes (jmp_disp (hk_addr k) (newPage + of_nat (hk_off k)))"]
      by (simp add: apply_hook_def hk)
    finally show ?thesis
      using Cons.prems(2) jmp_bytes_target by (simp add: hk in_reach_def Let_def)
  qed
qed

text \<open>
  The address-space facts the injector relies on: the three entries (5 bytes each) do not
  overlap one another or the trampoline page.
\<close>

definition hook_layout :: "VDSOInfo \<Rightarrow> addr \<Rightarrow> bool" where
  "hook_layout info newPage \<longleftrightarrow>
     entries_apart (hook_table info) \<and>
     (\<forall>hk \<in> set (hook_table info). apart newPage 4096 (hk_addr hk) 5)"

lemma injected_memory_reads:
  fixes m :: memory
  defines "m' \<equiv> \<lambda>info newPage sec nsec msk.
      fold (apply_hook newPage) (hook_table info) (write_bytes m newPage (payload_with_state sec nsec msk))"
  assumes lay: "hook_layout info newPage" and reach: "list_all (in_reach newPage) (hook_table info)"
  shows "\<forall>hk \<in> set (hook_table info).
      is_jmp_to (read_bytes (m' info newPage sec nsec msk) (hk_addr hk) 5) (hk_addr hk)
        (newPage + of_nat (hk_off hk))"
    and "read_bytes (m' info newPage sec nsec msk) newPage 468 = payload_with_state sec nsec msk"
    and "state_at (m' info newPage sec nsec msk) (newPage + of_nat StateOffset)
      \<lparr>offsetSec = sec, offsetNsec = nsec, enabledMask = msk, generation = 0\<rparr>"
proof -
  show "\<forall>hk \<in> set (hook_table info).
      is_jmp_to (read_bytes (m' info newPage sec nsec msk) (hk_addr hk) 5) (hk_addr hk)
        (newPage + of_nat (hk_off hk))"
    unfolding m'_def using lay reach read_fold_hook by (simp add: hook_layout_def)
  have ap: "apart newPage 468 (hk_addr hk) 5" if "hk \<in> set (hook_table info)" for hk
    using that lay apart_sub [of newPage 4096 "hk_addr hk" 5 0 468 0 5]
    by (simp add: hook_layout_def)
  have len: "length (payload_with_state sec nsec msk) = 468"
    by (simp add: StateOffset_def StateSize_def)
  show page: "read_bytes (m' info newPage sec nsec msk) newPage 468 = payload_with_state sec nsec msk"
    unfolding m'_def
    using read_bytes_write_same [of "payload_with_state sec nsec msk" m newPage, unfolded len]
    by (simp add: read_fold_apart ap)
  have "read_bytes (m' info newPage sec nsec msk) (newPage + of_nat StateOffset) StateSize =
      slice StateOffset StateSize (read_bytes (m' info newPage sec nsec msk) newPage 468)"
    by (rule read_bytes_slice [symmetric]) (simp add: StateOffset_def StateSize_def)
  then show "state_at (m' info newPage sec nsec msk) (newPage + of_nat StateOffset)
      \<lparr>offsetSec = sec, offsetNsec = nsec, enabledMask = msk, generation = 0\<rparr>"
    by (simp add: page payload_state_slice state_at_def encode_state_def)
qed

section \<open>Rewriting the state\<close>

lemma writeState_ok:
  assumes laws: "mem_laws K view" and ok: "writeState K h sec nsec msk w = (None, h', w')"
  shows "h' = h\<lparr>ih_gen := ih_gen h + 1\<rparr>"
    and "state_at (view w' (ih_PID h)) (ih_StateAddr h)
       \<lparr>offsetSec = sec, offsetNsec = nsec, enabledMask = msk, generation = ih_gen h + 1\<rparr>"
    and "p \<noteq> ih_PID h \<Longrightarrow> view w' p = view w p"
proof -
  from ok obtain n
    where wr: "WriteMem K (ih_PID h) (ih_StateAddr h) (EncodeState sec nsec msk (ih_gen h + 1)) w = (Inr n, w')"
      and h': "h' = h\<lparr>ih_gen := ih_gen h + 1\<rparr>"
    by (auto simp: writeState_def Let_def split: prod.splits sum.splits)
  show "h' = h\<lparr>ih_gen := ih_gen h + 1\<rparr>" by (rule h')
  have v: "view w' = (view w)(ih_PID h := write_bytes (view w (ih_PID h)) (ih_StateAddr h)
      (EncodeState sec nsec msk (ih_gen h + 1)))"
    by (rule WriteMem_Inr [OF laws wr])
  show "state_at (view w' (ih_PID h)) (ih_StateAddr h)
       \<lparr>offsetSec = sec, offsetNsec = nsec, enabledMask = msk, generation = ih_gen h + 1\<rparr>"
    using read_bytes_write_same [of "EncodeState sec nsec msk (ih_gen h + 1)"]
    by (simp add: v state_at_def encode_state_def StateSize_def)
  show "p \<noteq> ih_PID h \<Longrightarrow> view w' p = view w p" by (simp add: v)
qed

text \<open>A failed write leaves the handle exactly as it was, the generation included.\<close>

lemma writeState_error:
  "writeState K h sec nsec msk w = (Some e, h', w') \<Longrightarrow>
     h' = h \<and> (\<exists>e0. e = Wrap ''inject: writeState'' (Wrap ''procmem: process_vm_writev'' (Errno e0)))"
  by (auto simp: writeState_def Let_def WriteMem_def split: prod.splits sum.splits if_splits)

lemma writeState_identity:
  "writeState K h sec nsec msk w = (e, h', w') \<Longrightarrow>
     ih_PID h' = ih_PID h \<and> ih_StateAddr h' = ih_StateAddr h \<and> ih_patched h' = ih_patched h"
  by (auto simp: writeState_def Let_def split: prod.splits sum.splits)

section \<open>The remote mmap puts the text back\<close>

text \<open>
  Requests that only read memory or move registers leave the memory as it is, whether they
  succeed or not.
\<close>

definition quiet_laws :: "'w kernel \<Rightarrow> ('w \<Rightarrow> pid \<Rightarrow> memory) \<Rightarrow> bool" where
  "quiet_laws K view \<longleftrightarrow>
     (\<forall>p w. view (snd (k_getregs K p w)) = view w) \<and>
     (\<forall>p r w. view (snd (k_setregs K p r w)) = view w) \<and>
     (\<forall>p a n w. view (snd (k_vm_readv K p a n w)) = view w)"

text \<open>Pokes never fail (the tracee is stopped and the text page is mapped).\<close>

definition pokes_succeed :: "'w kernel \<Rightarrow> bool" where
  "pokes_succeed K \<longleftrightarrow> (\<forall>p a bs w. \<exists>w'. k_poketext K p a bs w = (Inr (), w'))"

abbreviation text_at :: "('w \<Rightarrow> pid \<Rightarrow> memory) \<Rightarrow> pid \<Rightarrow> addr \<Rightarrow> 'w tw \<Rightarrow> byte list" where
  "text_at view pid a tw \<equiv> read_bytes (view (snd tw) pid) a 8"

lemma syscall_as_world:
  "syscall_as ctx m tw = (x, tw') \<Longrightarrow> fst tw' = fst tw \<and> snd tw' = snd (m (snd tw))"
  by (auto simp: syscall_as_def split: prod.splits sum.splits)

lemma SetRegs_view:
  assumes "quiet_laws K view" and "SetRegs K r tw = (x, tw')"
  shows "view (snd tw') = view (snd tw) \<and> fst tw' = fst tw"
  using syscall_as_world [OF assms(2) [unfolded SetRegs_def]] assms(1)
  unfolding quiet_laws_def by presburger

lemma GetRegs_view:
  assumes "quiet_laws K view" and "GetRegs K tw = (x, tw')"
  shows "view (snd tw') = view (snd tw) \<and> fst tw' = fst tw"
  using syscall_as_world [OF assms(2) [unfolded GetRegs_def]] assms(1)
  unfolding quiet_laws_def by presburger

lemma ReadMem_view:
  assumes q: "quiet_laws K view" and r: "on_world (ReadMem K p a n) tw = (x, tw')"
  shows "view (snd tw') = view (snd tw) \<and> fst tw' = fst tw"
proof -
  have "snd (ReadMem K p a n w) = (if n = 0 then w else snd (k_vm_readv K p a n w))" for w
    by (auto simp: ReadMem_def split: prod.splits sum.splits)
  then have "view (snd (ReadMem K p a n w)) = view w" for w
    using q unfolding quiet_laws_def by presburger
  then show ?thesis
    using arg_cong [OF r, of "\<lambda>z. fst (snd z)"] arg_cong [OF r, of "\<lambda>z. snd (snd z)"]
    by (cases tw) (auto simp: on_world_def split: prod.splits, metis snd_conv)
qed

lemma Cont_fst: "Cont K s tw = (x, tw') \<Longrightarrow> fst tw' = fst tw"
  by (auto simp: Cont_def dest: syscall_as_world)

lemma Wait_fst: "Wait K tw = (x, tw') \<Longrightarrow> fst tw' = fst tw"
  by (cases tw; cases tw') (auto dest: Wait_pid)

lemma PokeText_sure:
  assumes "mem_laws K view" and "pokes_succeed K" and "PokeText K a bs tw = (x, tw')"
  shows "fst tw' = fst tw \<and> view (snd tw') =
    (view (snd tw))(t_pid (fst tw) := write_bytes (view (snd tw) (t_pid (fst tw))) a bs)"
proof -
  obtain t w where tw: "tw = (t, w)" by fastforce
  obtain w' where "k_poketext K (t_pid t) a bs w = (Inr (), w')"
    using assms(2) unfolding pokes_succeed_def by blast
  with assms(3) mem_laws_poketext [OF assms(1) this] show ?thesis
    by (auto simp: tw PokeText_def syscall_as_def)
qed

text \<open>Every path through the attempts either puts the text back itself or returns an error.\<close>

lemma mmap_attempts_restores:
  assumes laws: "mem_laws K view" "quiet_laws K view" and sure: "pokes_succeed K"
    and len: "length orig = 8"
  shows "mmap_attempts K a r orig atts tw = (x, tw') \<Longrightarrow>
    fst tw' = fst tw \<and> (\<forall>p. x = Inr p \<longrightarrow> text_at view (t_pid (fst tw)) a tw' = orig)"
proof (induction atts arbitrary: tw)
  case Nil
  then show ?case by auto
next
  case (Cons att atts)
  obtain t w where tw: "tw = (t, w)" by fastforce
  have refill: "read_bytes (write_bytes m a orig) a 8 = orig" for m
    using read_bytes_write_same [of orig m a] len by simp
  note steps = SetRegs_view [OF laws(2)] Cont_fst Wait_fst GetRegs_view [OF laws(2)]
    PokeText_sure [OF laws(1) sure]
  show ?case
  proof (cases x)
    case (Inl e)
    with Cons.prems show ?thesis
      by (auto simp: Let_def elim!: attempt_InlE attempt_InrE dest!: steps split: if_splits)
        (metis Cons.IH fst_conv)+
  next
    case (Inr p)
    with Cons.prems show ?thesis
      by (auto simp: Let_def refill elim!: attempt_InrE dest!: steps split: if_splits)
        (metis Cons.IH fst_conv)+
  qed
qed

lemma remoteMmap_text:
  assumes laws: "mem_laws K view" "quiet_laws K view" and sure: "pokes_succeed K"
    and run: "remoteMmap K (t_pid t) a f (t, w) = (x, tw')"
  shows "fst tw' = t \<and> text_at view (t_pid t) a tw' = read_bytes (view w (t_pid t)) a 8"
proof -
  note quiet = GetRegs_view [OF laws(2)] ReadMem_view [OF laws(2)]
  note set_regs = SetRegs_view [OF laws(2)] and poke = PokeText_sure [OF laws(1) sure]
  let ?orig = "read_bytes (view w (t_pid t)) a 8"
  obtain x1 tw1 where g: "GetRegs K (t, w) = (x1, tw1)" by (rule prod.exhaust)
  obtain x2 tw2 where r: "on_world (ReadMem K (t_pid t) a 8) tw1 = (x2, tw2)"
    by (rule prod.exhaust)
  note v = quiet(1) [OF g] quiet(2) [OF r]
  show ?thesis
  proof (cases "\<exists>e. x1 = Inl e \<or> x2 = Inl e")
    case True
    with run g r v show ?thesis
      by (cases x1; cases x2) (auto simp: remoteMmap_def attempt_def)
  next
    case False
    then obtain regs k orig where x: "x1 = Inr regs" "x2 = Inr (k, orig)"
      by (cases x1; cases x2) auto
    have orig: "orig = ?orig"
      using r v(1) by (cases tw1) (auto simp: x on_world_def dest: ReadMem_Inr [OF laws(1)] split: prod.splits)
    have len: "length orig = 8" by (simp add: orig)
    have refill: "read_bytes (write_bytes m a orig) a 8 = orig" for m
      using read_bytes_write_same [of orig m a] len by simp
    let ?body = "attempt (PokeText K a syscall_int3) (Wrap ''remoteMmap: poke trampoline'')
      (\<lambda>_. mmap_attempts K a regs orig (mmap_list f))"
    obtain y tw3 where body: "?body tw2 = (y, tw3)" by (rule prod.exhaust)
    have t3: "fst tw3 = t" and ok: "\<forall>p. y = Inr p \<longrightarrow> text_at view (t_pid t) a tw3 = orig"
      using body v
      by (auto simp: attempt_def dest!: poke mmap_attempts_restores [OF laws sure len]
          split: prod.splits sum.splits)
    have restored: "fst (restore_tracee K a regs orig tw3) = t"
      "text_at view (t_pid t) a (restore_tracee K a regs orig tw3) = orig"
    proof -
      obtain z tw4 where p4: "PokeText K a orig tw3 = (z, tw4)" by (rule prod.exhaust)
      obtain z' tw5 where p5: "SetRegs K regs tw4 = (z', tw5)" by (rule prod.exhaust)
      show "fst (restore_tracee K a regs orig tw3) = t"
        "text_at view (t_pid t) a (restore_tracee K a regs orig tw3) = orig"
        using poke [OF p4] set_regs [OF p5] t3 by (simp_all add: restore_tracee_def ignore_err_def p4 p5 refill)
    qed
    from run have "unless_restored (restore_tracee K a regs orig) ?body tw2 = (x, tw')"
      by (simp add: remoteMmap_def attempt_def [of "GetRegs K"] attempt_def [of "on_world m" for m] g r x)
    then show ?thesis
      using restored t3 ok unfolding unless_restored_def body orig [symmetric]
      by (cases y) auto
  qed
qed

end
