(* ===== verification/Clock.thy ===== *)
theory Clock
  imports GoTime
begin

text \<open>
  The contract shared by everything in the program that carries a shifted clock: a process
  handle, a session and a controller timeshift each store an offset, a frozen instant and a
  mode, and each can be set, frozen and advanced. Reading the wall clock is explicit: the
  first argument of \<open>eff\<close> is the instant of the reading, and \<open>set_time\<close> takes the
  reading from which it computes the offset.
\<close>

locale shiftable_clock =
  fixes eff :: "gotime \<Rightarrow> 's \<Rightarrow> gotime"
    and frozen :: "'s \<Rightarrow> bool"
    and set_time :: "gotime \<Rightarrow> gotime \<Rightarrow> 's \<Rightarrow> 's"
    and freeze :: "gotime \<Rightarrow> 's \<Rightarrow> 's"
  assumes eff_set: "in_int64 (t - now) \<Longrightarrow> eff now' (set_time t now s) = now' + (t - now)"
    and frozen_set: "\<not> frozen (set_time t now s)"
    and eff_freeze: "eff now (freeze t s) = t"
    and frozen_freeze: "frozen (freeze t s)"
begin

text \<open>At the instant of the reading a clock that was set shows its target, later it moves on.\<close>

lemma eff_set_now: "in_int64 (t - now) \<Longrightarrow> eff now (set_time t now s) = t"
  by (simp add: eff_set)

lemma eff_set_elapsed:
  "in_int64 (t - now) \<Longrightarrow> eff (now + d) (set_time t now s) = t + d"
  by (simp add: eff_set)

lemma reset_real: "eff now' (set_time now now s) = now'"
  using eff_set [of now now now' s] by (simp add: in_int64_def min_duration_def max_duration_def)

lemma last_write_wins:
  "in_int64 (t - now) \<Longrightarrow> eff n (set_time t now s) = eff n (set_time t now s')"
  "eff n (freeze t s) = eff n (freeze t s')"
  by (simp_all add: eff_set eff_freeze)

text \<open>A frozen clock that is set to what it shows starts to move from there.\<close>

lemma thaw:
  "in_int64 (t - now) \<Longrightarrow> eff (now + d) (set_time (eff now (freeze t s)) now s') = t + d"
  by (simp add: eff_freeze eff_set)

end

text \<open>With the program's advance: the mode is kept, the target is the present reading plus d.\<close>

locale advancing_clock = shiftable_clock +
  fixes advance :: "duration \<Rightarrow> gotime \<Rightarrow> gotime \<Rightarrow> 's \<Rightarrow> 's"
  assumes advance_eq: "advance d now0 now1 s =
    (if frozen s then freeze (eff now0 s + d) s else set_time (eff now0 s + d) now1 s)"
begin

lemma advance_mode: "frozen (advance d now0 now1 s) = frozen s"
  by (simp add: advance_eq frozen_freeze frozen_set)

lemma advance_frozen: "frozen s \<Longrightarrow> eff n (advance d now0 now1 s) = eff now0 s + d"
  by (simp add: advance_eq eff_freeze)

lemma advance_running:
  "\<not> frozen s \<Longrightarrow> in_int64 (eff now0 s + d - now1) \<Longrightarrow>
     eff n (advance d now0 now1 s) = eff now0 s + d + (n - now1)"
  by (simp add: advance_eq eff_set)

text \<open>In both modes: read at the instant of the write, the clock moved by exactly \<open>d\<close>.\<close>

lemma advance_at_write:
  "frozen s \<or> in_int64 (eff now0 s + d - now1) \<Longrightarrow>
     eff now1 (advance d now0 now1 s) = eff now0 s + d"
  by (cases "frozen s") (simp_all add: advance_frozen advance_running)

lemma advance_twice:
  assumes "frozen s \<or> in_int64 (eff n0 s + d - n0)" and "frozen s \<or> in_int64 (eff n0 s + d + e - n0)"
  shows "eff n0 (advance e n0 n0 (advance d n0 n0 s)) = eff n0 s + d + e"
  using assms advance_at_write [of s n0 d n0] advance_at_write [of "advance d n0 n0 s" n0 e n0]
  by (auto simp: advance_mode)

end

end
