(* ===== verification/FakeHandle.thy ===== *)
theory FakeHandle
  imports Inject Clock
begin

text \<open>
  pkg/faketime/faketime.go, the Handle of one process: the injector's handle with a local
  record of the clock it was given, its constructors and its SetTime, Freeze, Advance, Reset.
\<close>

record fhandle =
  fh_h :: inj_handle
  fh_offset :: duration
  fh_frozenAt :: gotime
  fh_frozen :: bool

definition newAdvancingHandle :: "'w kernel \<Rightarrow> inj_handle \<Rightarrow> gotime \<Rightarrow> 'w \<Rightarrow> fhandle \<times> 'w" where
  "newAdvancingHandle K h target w =
     (case k_now K w of (now, w') \<Rightarrow>
        (\<lparr>fh_h = h, fh_offset = time_Until now target, fh_frozenAt = zero_time, fh_frozen = False\<rparr>, w'))"

definition newFrozenHandle :: "inj_handle \<Rightarrow> gotime \<Rightarrow> fhandle" where
  "newFrozenHandle h target =
     \<lparr>fh_h = h, fh_offset = 0, fh_frozenAt = target, fh_frozen = True\<rparr>"

text \<open>The value of \<open>effectiveTime\<close> when \<open>time.Now()\<close> reads \<open>now\<close>.\<close>

definition fh_eff :: "gotime \<Rightarrow> fhandle \<Rightarrow> gotime" where
  "fh_eff now h = (if fh_frozen h then fh_frozenAt h else time_Add now (fh_offset h))"

definition effectiveTime :: "'w kernel \<Rightarrow> fhandle \<Rightarrow> 'w \<Rightarrow> gotime \<times> 'w" where
  "effectiveTime K h w =
     (if fh_frozen h then (fh_frozenAt h, w)
      else case k_now K w of (now, w') \<Rightarrow> (time_Add now (fh_offset h), w'))"

definition fh_PID :: "fhandle \<Rightarrow> pid" where
  "fh_PID h = ih_PID (fh_h h)"

definition fh_IsFrozen :: "fhandle \<Rightarrow> bool" where
  "fh_IsFrozen h = fh_frozen h"

definition fh_IsAlive :: "'w kernel \<Rightarrow> fhandle \<Rightarrow> 'w \<Rightarrow> bool \<times> 'w" where
  "fh_IsAlive K h w =
     (case k_kill K (ih_PID (fh_h h)) 0 w of (Inl _, w') \<Rightarrow> (False, w') | (Inr _, w') \<Rightarrow> (True, w'))"

definition fh_EffectiveTime :: "'w kernel \<Rightarrow> fhandle \<Rightarrow> 'w \<Rightarrow> gotime \<times> 'w" where
  "fh_EffectiveTime K h = effectiveTime K h"

section \<open>Constructors\<close>

text \<open>
  The start variants share their shape: ptrace is requested, and when the injection fails after
  the process has been started it is killed and waited for.
\<close>

definition start_with :: "'w kernel \<Rightarrow> (gocmd \<Rightarrow> 'w \<Rightarrow> (goerr + 'a) \<times> 'w) \<Rightarrow> string
    \<Rightarrow> ('a \<Rightarrow> 'w \<Rightarrow> 'h \<times> 'w) \<Rightarrow> gocmd \<Rightarrow> 'w \<Rightarrow> (goerr + 'h) \<times> 'w" where
  "start_with K inject_fn ctx mk cmd w =
     (let cmd1 = cmd\<lparr>cmd_ptrace := True\<rparr> in
      case inject_fn cmd1 w of
        (Inl e, w1) \<Rightarrow> (Inl (Wrap ctx e), k_reap_cmd K cmd1 w1)
      | (Inr a, w1) \<Rightarrow> (case mk a w1 of (h, w2) \<Rightarrow> (Inr h, w2)))"

definition fh_Start :: "'w kernel \<Rightarrow> elf_reader \<Rightarrow> gocmd \<Rightarrow> gotime \<Rightarrow> 'w \<Rightarrow> (goerr + fhandle) \<times> 'w" where
  "fh_Start K elf cmd target =
     start_with K (\<lambda>c. InjectAtTimeFollowChild K elf c target) ''faketime: inject''
       (\<lambda>ih. newAdvancingHandle K ih target) cmd"

definition fh_StartFrozen :: "'w kernel \<Rightarrow> elf_reader \<Rightarrow> gocmd \<Rightarrow> gotime \<Rightarrow> 'w
    \<Rightarrow> (goerr + fhandle) \<times> 'w" where
  "fh_StartFrozen K elf cmd target =
     start_with K (\<lambda>c. InjectFrozenFollowChild K elf c target) ''faketime: inject frozen''
       (\<lambda>ih w. (newFrozenHandle ih target, w)) cmd"

definition fh_Attach :: "'w kernel \<Rightarrow> elf_reader \<Rightarrow> pid \<Rightarrow> gotime \<Rightarrow> 'w \<Rightarrow> (goerr + fhandle) \<times> 'w" where
  "fh_Attach K elf pid target =
     attempt (InjectAtTime K elf pid target) (Wrap ''faketime: Attach pid'') (\<lambda>ih w.
       case newAdvancingHandle K ih target w of (h, w') \<Rightarrow> (Inr h, w'))"

definition fh_AttachFrozen :: "'w kernel \<Rightarrow> elf_reader \<Rightarrow> pid \<Rightarrow> gotime \<Rightarrow> 'w
    \<Rightarrow> (goerr + fhandle) \<times> 'w" where
  "fh_AttachFrozen K elf pid target =
     attempt (InjectFrozen K elf pid target) (Wrap ''faketime: AttachFrozen pid'') (\<lambda>ih w.
       (Inr (newFrozenHandle ih target), w))"

section \<open>Changing the clock\<close>

text \<open>The bookkeeping of a successful write, under the handle's mutex.\<close>

definition fh_mark_set :: "gotime \<Rightarrow> gotime \<Rightarrow> fhandle \<Rightarrow> fhandle" where
  "fh_mark_set target now h =
     h\<lparr>fh_offset := time_Until now target, fh_frozenAt := zero_time, fh_frozen := False\<rparr>"

definition fh_mark_frozen :: "gotime \<Rightarrow> fhandle \<Rightarrow> fhandle" where
  "fh_mark_frozen target h = h\<lparr>fh_frozenAt := target, fh_offset := 0, fh_frozen := True\<rparr>"

text \<open>
  The result of a method is the error (nil as \<open>None\<close>), the handle and the world afterwards.
  When the write fails the clock fields stay as they were.
\<close>

definition fh_SetTime :: "'w kernel \<Rightarrow> gotime \<Rightarrow> fhandle \<Rightarrow> 'w \<Rightarrow> goerr option \<times> fhandle \<times> 'w" where
  "fh_SetTime K target h w =
     (case SetTime K (fh_h h) target w of
        (Some e, ih, w1) \<Rightarrow> (Some e, h\<lparr>fh_h := ih\<rparr>, w1)
      | (None, ih, w1) \<Rightarrow>
          (case k_now K w1 of (now, w2) \<Rightarrow> (None, fh_mark_set target now (h\<lparr>fh_h := ih\<rparr>), w2)))"

definition fh_Freeze :: "'w kernel \<Rightarrow> gotime \<Rightarrow> fhandle \<Rightarrow> 'w \<Rightarrow> goerr option \<times> fhandle \<times> 'w" where
  "fh_Freeze K target h w =
     (case Freeze K (fh_h h) target w of
        (Some e, ih, w1) \<Rightarrow> (Some e, h\<lparr>fh_h := ih\<rparr>, w1)
      | (None, ih, w1) \<Rightarrow> (None, fh_mark_frozen target (h\<lparr>fh_h := ih\<rparr>), w1))"

definition fh_Advance :: "'w kernel \<Rightarrow> duration \<Rightarrow> fhandle \<Rightarrow> 'w \<Rightarrow> goerr option \<times> fhandle \<times> 'w" where
  "fh_Advance K d h w =
     (case effectiveTime K h w of (t, w1) \<Rightarrow>
        let target = time_Add t d in
        if fh_frozen h then fh_Freeze K target h w1 else fh_SetTime K target h w1)"

definition fh_Reset :: "'w kernel \<Rightarrow> fhandle \<Rightarrow> 'w \<Rightarrow> goerr option \<times> fhandle \<times> 'w" where
  "fh_Reset K h w = (case k_now K w of (now, w1) \<Rightarrow> fh_SetTime K now h w1)"

section \<open>The handle is a shiftable clock\<close>

text \<open>Its advance as a function of the two clock readings.\<close>

definition fh_mark_advanced :: "duration \<Rightarrow> gotime \<Rightarrow> gotime \<Rightarrow> fhandle \<Rightarrow> fhandle" where
  "fh_mark_advanced d now0 now1 h =
     (if fh_frozen h then fh_mark_frozen (fh_eff now0 h + d) h
      else fh_mark_set (fh_eff now0 h + d) now1 h)"

interpretation handle_clock: advancing_clock fh_eff fh_frozen fh_mark_set fh_mark_frozen
  fh_mark_advanced
  by unfold_locales
    (simp_all add: fh_eff_def fh_mark_set_def fh_mark_frozen_def fh_mark_advanced_def time_Add_def)

lemma effectiveTime_eq:
  "effectiveTime K h w = (t, w') \<Longrightarrow> \<exists>now. t = fh_eff now h \<and> (fh_frozen h \<or> k_now K w = (now, w'))"
  by (auto simp: effectiveTime_def fh_eff_def split: prod.splits if_splits)

lemma fh_SetTime_None:
  assumes "fh_SetTime K target h w = (None, h', w')"
  obtains ih w1 now where "SetTime K (fh_h h) target w = (None, ih, w1)" "k_now K w1 = (now, w')"
    "h' = fh_mark_set target now (h\<lparr>fh_h := ih\<rparr>)"
  using assms by (auto simp: fh_SetTime_def split: prod.splits option.splits)

lemma fh_Freeze_None:
  assumes "fh_Freeze K target h w = (None, h', w')"
  obtains ih where "Freeze K (fh_h h) target w = (None, ih, w')"
    "h' = fh_mark_frozen target (h\<lparr>fh_h := ih\<rparr>)"
  using assms by (auto simp: fh_Freeze_def split: prod.splits option.splits)

text \<open>A failed write changes no field at all: the injector's handle reverts its generation.\<close>

lemma fh_SetTime_error: "fh_SetTime K target h w = (Some e, h', w') \<Longrightarrow> h' = h"
  by (auto simp: fh_SetTime_def SetTime_def dest: writeState_error split: prod.splits option.splits)

lemma fh_Freeze_error: "fh_Freeze K target h w = (Some e, h', w') \<Longrightarrow> h' = h"
  by (auto simp: fh_Freeze_def Freeze_def dest: writeState_error split: prod.splits option.splits)

lemma fh_eff_inj [simp]: "fh_eff now (h\<lparr>fh_h := ih\<rparr>) = fh_eff now h"
  by (simp add: fh_eff_def)

lemma fh_Advance_None:
  assumes "fh_Advance K d h w = (None, h', w')"
  shows "fh_frozen h' = fh_frozen h"
    and "fh_frozen h \<Longrightarrow> fh_eff n h' = fh_eff n h + d"
    and "\<not> fh_frozen h \<Longrightarrow> \<exists>now0 w0 now1 w1. k_now K w = (now0, w0) \<and> k_now K w1 = (now1, w') \<and>
      (in_int64 (fh_eff now0 h + d - now1) \<longrightarrow> fh_eff n h' = fh_eff now0 h + d + (n - now1))"
proof -
  obtain t w1 where e: "effectiveTime K h w = (t, w1)" by (rule prod.exhaust)
  show "fh_frozen h' = fh_frozen h"
    using assms by (auto simp: fh_Advance_def e Let_def handle_clock.frozen_freeze
        handle_clock.frozen_set split: if_splits elim!: fh_SetTime_None fh_Freeze_None)
  show "fh_frozen h \<Longrightarrow> fh_eff n h' = fh_eff n h + d"
    using assms e by (auto simp: fh_Advance_def Let_def handle_clock.eff_freeze effectiveTime_def
        fh_eff_def time_Add_def fh_mark_frozen_def elim!: fh_Freeze_None)
  assume r: "\<not> fh_frozen h"
  then obtain now0 where n0: "k_now K w = (now0, w1)" and t: "t = fh_eff now0 h"
    using e by (auto simp: effectiveTime_def fh_eff_def split: prod.splits)
  from assms r obtain ih w2 now1 where n1: "k_now K w2 = (now1, w')"
    and h': "h' = fh_mark_set (t + d) now1 (h\<lparr>fh_h := ih\<rparr>)"
    by (auto simp: fh_Advance_def e Let_def time_Add_def elim!: fh_SetTime_None)
  show "\<exists>now0 w0 now1 w1. k_now K w = (now0, w0) \<and> k_now K w1 = (now1, w') \<and>
      (in_int64 (fh_eff now0 h + d - now1) \<longrightarrow> fh_eff n h' = fh_eff now0 h + d + (n - now1))"
    using n0 n1 handle_clock.eff_set [of "t + d" now1 n "h\<lparr>fh_h := ih\<rparr>"]
    by (intro exI conjI) (auto simp: h' t)
qed

end
