(* ===== verification/ChildTracker.thy ===== *)
theory ChildTracker
  imports FakeHandle
begin

text \<open>
  pkg/faketime/faketime.go, the ChildTracker: handles live in a heap, because the tracker, the
  session and the caller share them by pointer; the tracker's maps are association lists in
  iteration order; the goroutine's loop body is one step, between which the exported methods
  run. A nil dereference is the result \<open>None\<close>.
\<close>

section \<open>The heap of handles\<close>

type_synonym href = nat

record 'w fenv =
  fe_heap :: "href \<Rightarrow> fhandle"
  fe_next :: href
  fe_world :: 'w

definition new_ref :: "fhandle \<Rightarrow> 'w fenv \<Rightarrow> href \<times> 'w fenv" where
  "new_ref h s = (fe_next s, s\<lparr>fe_heap := (fe_heap s)(fe_next s := h), fe_next := fe_next s + 1\<rparr>)"

text \<open>A method call on the handle at \<open>r\<close>, and a step on the world alone.\<close>

definition on_handle :: "(fhandle \<Rightarrow> 'w \<Rightarrow> 'e \<times> fhandle \<times> 'w) \<Rightarrow> href \<Rightarrow> 'w fenv \<Rightarrow> 'e \<times> 'w fenv" where
  "on_handle f r s =
     (case f (fe_heap s r) (fe_world s) of (e, h', w') \<Rightarrow>
        (e, s\<lparr>fe_heap := (fe_heap s)(r := h'), fe_world := w'\<rparr>))"

definition in_world :: "('w \<Rightarrow> 'r \<times> 'w) \<Rightarrow> 'w fenv \<Rightarrow> 'r \<times> 'w fenv" where
  "in_world m s = (case m (fe_world s) of (r, w') \<Rightarrow> (r, s\<lparr>fe_world := w'\<rparr>))"

section \<open>The tracker\<close>

record ctracker =
  c_Handle :: href
  c_tracer :: tracer
  c_parentPID :: pid
  c_parentGone :: bool
  c_children :: "(pid, href) gomap"
  c_pendingStop :: "(pid, bool) gomap"
  c_done :: bool
  c_running :: bool
  c_loopErr :: "goerr option"

type_synonym 'w cts = "ctracker \<times> 'w fenv"

text \<open>A request through the tracker's tracer.\<close>

definition with_tracer :: "('w tw \<Rightarrow> 'r \<times> 'w tw) \<Rightarrow> 'w cts \<Rightarrow> 'r \<times> 'w cts" where
  "with_tracer m cs =
     (case cs of (c, s) \<Rightarrow>
        (case m (c_tracer c, fe_world s) of (r, (t', w')) \<Rightarrow>
           (r, (c\<lparr>c_tracer := t'\<rparr>, s\<lparr>fe_world := w'\<rparr>))))"

definition newChildTracker :: "href \<Rightarrow> tracer \<Rightarrow> pid \<Rightarrow> ctracker" where
  "newChildTracker r tr parentPID =
     \<lparr>c_Handle = r, c_tracer = tr, c_parentPID = parentPID, c_parentGone = False, c_children = [],
      c_pendingStop = [], c_done = False, c_running = True, c_loopErr = None\<rparr>"

definition ct_IsFrozen :: "'w cts \<Rightarrow> bool" where
  "ct_IsFrozen cs = (case cs of (c, s) \<Rightarrow> fh_frozen (fe_heap s (c_Handle c)))"

definition ct_PIDs :: "ctracker \<Rightarrow> pid list" where
  "ct_PIDs c = c_parentPID c # keys (c_children c)"

definition ct_Children :: "ctracker \<Rightarrow> href list" where
  "ct_Children c = map snd (c_children c)"

definition trackedPIDs :: "ctracker \<Rightarrow> pid list" where
  "trackedPIDs c = (if c_parentGone c then [] else [c_parentPID c]) @ keys (c_children c)"

definition ct_Err :: "ctracker \<Rightarrow> goerr option" where
  "ct_Err c = c_loopErr c"

section \<open>Changing the clocks of the tree\<close>

definition clear_esrch :: "goerr option \<Rightarrow> goerr option" where
  "clear_esrch e = (case e of None \<Rightarrow> None | Some x \<Rightarrow> if errors_Is x ESRCH then None else Some x)"

definition is_esrch :: "goerr option \<Rightarrow> bool" where
  "is_esrch e = (case e of None \<Rightarrow> False | Some x \<Rightarrow> errors_Is x ESRCH)"

definition ct_applyAll :: "(fhandle \<Rightarrow> 'w \<Rightarrow> goerr option \<times> fhandle \<times> 'w) \<Rightarrow> 'w cts
    \<Rightarrow> goerr option \<times> 'w cts" where
  "ct_applyAll fn cs =
     (case cs of (c, s) \<Rightarrow>
        (case map_step (on_handle fn) (c_Handle c # ct_Children c) s of (errs, s') \<Rightarrow>
           let dead = map fst (filter (\<lambda>(p, e). is_esrch e) (zip (keys (c_children c)) (tl errs)));
               c' = c\<lparr>c_children := filter (\<lambda>(p, r). p \<notin> set dead) (c_children c)\<rparr>
           in (errors_Join (map clear_esrch errs), (c', s'))))"

definition ct_SetTime :: "'w kernel \<Rightarrow> gotime \<Rightarrow> 'w cts \<Rightarrow> goerr option \<times> 'w cts" where
  "ct_SetTime K target = ct_applyAll (fh_SetTime K target)"

definition ct_Freeze :: "'w kernel \<Rightarrow> gotime \<Rightarrow> 'w cts \<Rightarrow> goerr option \<times> 'w cts" where
  "ct_Freeze K target = ct_applyAll (fh_Freeze K target)"

definition ct_Advance :: "'w kernel \<Rightarrow> duration \<Rightarrow> 'w cts \<Rightarrow> goerr option \<times> 'w cts" where
  "ct_Advance K d cs =
     (case cs of (c, s) \<Rightarrow>
        let h = fe_heap s (c_Handle c) in
        (case in_world (effectiveTime K h) s of (t, s1) \<Rightarrow>
           let target = time_Add t d in
           if fh_frozen h then ct_Freeze K target (c, s1) else ct_SetTime K target (c, s1)))"

definition ct_Reset :: "'w kernel \<Rightarrow> 'w cts \<Rightarrow> goerr option \<times> 'w cts" where
  "ct_Reset K = ct_applyAll (fh_Reset K)"

section \<open>Events\<close>

definition set_loop_err_once :: "goerr \<Rightarrow> ctracker \<Rightarrow> ctracker" where
  "set_loop_err_once e c = (if c_loopErr c = None then c\<lparr>c_loopErr := Some e\<rparr> else c)"

definition cont_ignored :: "'w kernel \<Rightarrow> pid \<Rightarrow> int \<Rightarrow> 'w cts \<Rightarrow> 'w cts" where
  "cont_ignored K pid sg = ignore_err (with_tracer (ContPID K pid sg))"

text \<open>
  \<open>handleExec\<close>: the handle of the process is looked up before and again after the injection;
  the second lookup is not checked for nil.
\<close>

definition handleExec :: "'w kernel \<Rightarrow> elf_reader \<Rightarrow> pid \<Rightarrow> 'w cts \<Rightarrow> 'w cts option" where
  "handleExec K elf pid cs =
     (case cs of (c, s) \<Rightarrow>
        let found = (if pid = c_parentPID c then Some (c_Handle c) else map_of (c_children c) pid) in
        (case found of
           None \<Rightarrow> Some (cont_ignored K pid 0 cs)
         | Some r \<Rightarrow>
             let h = fe_heap s r; frozen = fh_frozen h in
             (case in_world (effectiveTime K h) s of (target, s1) \<Rightarrow>
             (case with_tracer
                     (if frozen then ReInjectFrozenAfterExec K elf (c_parentPID c) pid target
                      else ReInjectAtTimeAfterExec K elf (c_parentPID c) pid target) (c, s1) of
                (Inl e, (c2, s2)) \<Rightarrow>
                  Some (cont_ignored K pid 0
                    (set_loop_err_once (Wrap ''faketime: re-inject after exec'' e) c2, s2))
              | (Inr newIH, (c2, s2)) \<Rightarrow>
                  let again = (if pid = c_parentPID c2 then Some (c_Handle c2)
                               else map_of (c_children c2) pid)
                  in case again of
                       None \<Rightarrow> None
                     | Some r2 \<Rightarrow>
                         Some (cont_ignored K pid 0
                           (c2, s2\<lparr>fe_heap := (fe_heap s2)(r2 := (fe_heap s2 r2)\<lparr>fh_h := newIH\<rparr>)\<rparr>))))))"

definition handleExit :: "pid \<Rightarrow> ctracker \<Rightarrow> ctracker" where
  "handleExit pid c =
     (let c1 = c\<lparr>c_children := AList.delete pid (c_children c),
                 c_pendingStop := AList.delete pid (c_pendingStop c)\<rparr>
      in if pid = c_parentPID c1
         then set_loop_err_once (Msg ''faketime: parent process exited unexpectedly'')
                (c1\<lparr>c_parentGone := True\<rparr>)
         else c1)"

text \<open>The handle of a forked child is built from the handle of the process that forked.\<close>

definition fork_source :: "pid \<Rightarrow> ctracker \<Rightarrow> href" where
  "fork_source pid c =
     (if pid = c_parentPID c then c_Handle c
      else case map_of (c_children c) pid of Some r \<Rightarrow> r | None \<Rightarrow> c_Handle c)"

definition fork_child :: "'w kernel \<Rightarrow> fhandle \<Rightarrow> pid \<Rightarrow> 'w \<Rightarrow> fhandle \<times> 'w" where
  "fork_child K parentH childPID w =
     (let childIH = ChildHandle (fh_h parentH) childPID in
      if fh_frozen parentH then (newFrozenHandle childIH (fh_frozenAt parentH), w)
      else case effectiveTime K parentH w of (t, w1) \<Rightarrow> newAdvancingHandle K childIH t w1)"

definition handleFork :: "'w kernel \<Rightarrow> pid \<Rightarrow> 'w cts \<Rightarrow> 'w cts" where
  "handleFork K pid cs =
     (case with_tracer (GetEventMsgPID K pid) cs of
        (Inl _, cs1) \<Rightarrow> cont_ignored K pid 0 cs1
      | (Inr msg, (c, s)) \<Rightarrow>
          let childPID = int msg in
          (case in_world (fork_child K (fe_heap s (fork_source pid c)) childPID) s of (childH, s1) \<Rightarrow>
          (case new_ref childH s1 of (r, s2) \<Rightarrow>
             cont_ignored K pid 0
               (c\<lparr>c_children := AList.update childPID r (c_children c),
                  c_pendingStop := AList.update childPID True (c_pendingStop c)\<rparr>, s2))))"

definition is_fork_event :: "wait_status \<Rightarrow> bool" where
  "is_fork_event ws \<longleftrightarrow> ws_StopSignal ws = SIGTRAP \<and>
     (ws_event ws = PTRACE_EVENT_FORK \<or> ws_event ws = PTRACE_EVENT_VFORK)"

definition is_exec_event :: "wait_status \<Rightarrow> bool" where
  "is_exec_event ws \<longleftrightarrow> ws_StopSignal ws = SIGTRAP \<and> ws_event ws = PTRACE_EVENT_EXEC"

definition handleEvent :: "'w kernel \<Rightarrow> elf_reader \<Rightarrow> pid \<Rightarrow> wait_status \<Rightarrow> 'w cts \<Rightarrow> 'w cts option" where
  "handleEvent K elf pid ws cs =
     (case cs of (c, s) \<Rightarrow>
        if ws_Exited ws \<or> ws_Signaled ws then Some (handleExit pid c, s)
        else if \<not> ws_Stopped ws then Some cs
        else if is_fork_event ws then Some (handleFork K pid cs)
        else if is_exec_event ws then handleExec K elf pid cs
        else if map_of (c_pendingStop c) pid = Some True then
          let cs1 = (c\<lparr>c_pendingStop := AList.delete pid (c_pendingStop c)\<rparr>, s);
              cs2 = ignore_err (with_tracer (SetOptionsPID K pid trace_options)) cs1
          in Some (cont_ignored K pid 0 cs2)
        else
          Some (cont_ignored K pid (if ws_StopSignal ws \<noteq> SIGTRAP then ws_StopSignal ws else 0) cs))"

section \<open>The loop\<close>

text \<open>One pass over the snapshot of pids; the flag tells whether an event was found.\<close>

fun poll_pids :: "'w kernel \<Rightarrow> elf_reader \<Rightarrow> pid list \<Rightarrow> bool \<Rightarrow> 'w cts \<Rightarrow> (bool \<times> 'w cts) option" where
  "poll_pids K elf [] found cs = Some (found, cs)"
| "poll_pids K elf (pid # pids) found cs =
     (case with_tracer (WaitPIDNonBlocking K pid) cs of
        (Inl e, (c, s)) \<Rightarrow>
          if errors_Is e ECHILD then poll_pids K elf pids found (c, s)
          else poll_pids K elf pids found (c\<lparr>c_loopErr := Some e\<rparr>, s)
      | (Inr (ws, ok), cs1) \<Rightarrow>
          if \<not> ok then poll_pids K elf pids found cs1
          else case handleEvent K elf pid ws cs1 of
                 None \<Rightarrow> None
               | Some cs2 \<Rightarrow> poll_pids K elf pids True cs2)"

definition cleanup :: "'w kernel \<Rightarrow> 'w cts \<Rightarrow> 'w cts" where
  "cleanup K cs =
     (case cs of (c, s) \<Rightarrow>
        let s1 = snd (map_step (on_handle (fh_Reset K)) (ct_Children c) s)
        in ignore_err (with_tracer (InterruptDetach K))
             (ignore_err (with_tracer (DetachAll K (keys (c_children c)))) (c, s1)))"

definition finish :: "'w kernel \<Rightarrow> 'w cts \<Rightarrow> 'w cts" where
  "finish K cs = (case cleanup K cs of (c, s) \<Rightarrow> (c\<lparr>c_running := False\<rparr>, s))"

text \<open>
  One turn of \<open>watchLoop\<close>: it ends (cleanup, then \<open>wg.Done\<close>) when the done channel is
  closed or nothing is left to observe. The sleep between idle turns has no effect here.
\<close>

definition watch_turn :: "'w kernel \<Rightarrow> elf_reader \<Rightarrow> 'w cts \<Rightarrow> 'w cts option" where
  "watch_turn K elf cs =
     (case cs of (c, s) \<Rightarrow>
        if \<not> c_running c then Some cs
        else if c_done c then Some (finish K cs)
        else if trackedPIDs c = [] then Some (finish K cs)
        else map_option snd (poll_pids K elf (trackedPIDs c) False cs))"

fun watchLoop :: "'w kernel \<Rightarrow> elf_reader \<Rightarrow> nat \<Rightarrow> 'w cts \<Rightarrow> 'w cts option" where
  "watchLoop K elf 0 cs = Some cs"
| "watchLoop K elf (Suc n) cs =
     (case watch_turn K elf cs of None \<Rightarrow> None | Some cs' \<Rightarrow> watchLoop K elf n cs')"

text \<open>
  \<open>Close\<close>: closing a closed channel panics (\<open>None\<close>); otherwise the goroutine, which is
  between two turns, sees the closed channel at its next turn and finishes.
\<close>

definition ct_Close :: "'w kernel \<Rightarrow> 'w cts \<Rightarrow> (goerr option \<times> 'w cts) option" where
  "ct_Close K cs =
     (case cs of (c, s) \<Rightarrow>
        if c_done c then None
        else let cs1 = (c\<lparr>c_done := True\<rparr>, s);
                 cs2 = (if c_running c then finish K cs1 else cs1)
             in Some (c_loopErr (fst cs2), cs2))"

section \<open>Constructors\<close>

definition tracker_from :: "('w \<Rightarrow> fhandle \<times> 'w) \<Rightarrow> tracer \<Rightarrow> pid \<Rightarrow> 'w fenv \<Rightarrow> 'w cts" where
  "tracker_from mk tr pid s =
     (case in_world mk s of (h, s1) \<Rightarrow>
        (case new_ref h s1 of (r, s2) \<Rightarrow> (newChildTracker r tr pid, s2)))"

definition attach_tracking :: "('w \<Rightarrow> (goerr + inj_handle \<times> tracer) \<times> 'w) \<Rightarrow> string
    \<Rightarrow> (inj_handle \<Rightarrow> 'w \<Rightarrow> fhandle \<times> 'w) \<Rightarrow> pid \<Rightarrow> 'w fenv \<Rightarrow> (goerr + ctracker) \<times> 'w fenv" where
  "attach_tracking inject_fn ctx mk pid s =
     (case in_world inject_fn s of
        (Inl e, s1) \<Rightarrow> (Inl (Wrap ctx e), s1)
      | (Inr (ih, tr), s1) \<Rightarrow> (case tracker_from (mk ih) tr pid s1 of (c, s2) \<Rightarrow> (Inr c, s2)))"

definition AttachWithTracking :: "'w kernel \<Rightarrow> elf_reader \<Rightarrow> pid \<Rightarrow> gotime \<Rightarrow> 'w fenv
    \<Rightarrow> (goerr + ctracker) \<times> 'w fenv" where
  "AttachWithTracking K elf pid target =
     attach_tracking (InjectAtTimeKeepTracer K elf pid target) ''faketime: AttachWithTracking pid''
       (\<lambda>ih. newAdvancingHandle K ih target) pid"

definition AttachFrozenWithTracking :: "'w kernel \<Rightarrow> elf_reader \<Rightarrow> pid \<Rightarrow> gotime \<Rightarrow> 'w fenv
    \<Rightarrow> (goerr + ctracker) \<times> 'w fenv" where
  "AttachFrozenWithTracking K elf pid target =
     attach_tracking (InjectFrozenKeepTracer K elf pid target)
       ''faketime: AttachFrozenWithTracking pid'' (\<lambda>ih w. (newFrozenHandle ih target, w)) pid"

text \<open>
  The start variants kill and reap the command when the injection fails; \<open>cmd.Process.Pid\<close> is
  the pid that the injection ran on.
\<close>

definition start_tracking :: "'w kernel \<Rightarrow> (gocmd \<Rightarrow> 'w \<Rightarrow> (goerr + inj_handle \<times> tracer) \<times> 'w)
    \<Rightarrow> string \<Rightarrow> (inj_handle \<Rightarrow> 'w \<Rightarrow> fhandle \<times> 'w) \<Rightarrow> gocmd \<Rightarrow> 'w fenv
    \<Rightarrow> (goerr + ctracker) \<times> 'w fenv" where
  "start_tracking K inject_fn ctx mk cmd s =
     (let cmd1 = cmd\<lparr>cmd_ptrace := True\<rparr> in
      case in_world (inject_fn cmd1) s of
        (Inl e, s1) \<Rightarrow> (Inl (Wrap ctx e), s1\<lparr>fe_world := k_reap_cmd K cmd1 (fe_world s1)\<rparr>)
      | (Inr (ih, tr), s1) \<Rightarrow>
          (case tracker_from (mk ih) tr (ih_PID ih) s1 of (c, s2) \<Rightarrow> (Inr c, s2)))"

definition StartWithTracking :: "'w kernel \<Rightarrow> elf_reader \<Rightarrow> gocmd \<Rightarrow> gotime \<Rightarrow> 'w fenv
    \<Rightarrow> (goerr + ctracker) \<times> 'w fenv" where
  "StartWithTracking K elf cmd target =
     start_tracking K (\<lambda>c. InjectAtTimeFollowChildKeepTracer K elf c target)
       ''faketime: StartWithTracking'' (\<lambda>ih. newAdvancingHandle K ih target) cmd"

definition StartFrozenWithTracking :: "'w kernel \<Rightarrow> elf_reader \<Rightarrow> gocmd \<Rightarrow> gotime \<Rightarrow> 'w fenv
    \<Rightarrow> (goerr + ctracker) \<times> 'w fenv" where
  "StartFrozenWithTracking K elf cmd target =
     start_tracking K (\<lambda>c. InjectFrozenFollowChildKeepTracer K elf c target)
       ''faketime: StartFrozenWithTracking'' (\<lambda>ih w. (newFrozenHandle ih target, w)) cmd"

end
