(* ===== verification/TrackerInv.thy ===== *)
theory TrackerInv
  imports ChildTracker
begin

text \<open>
  The child tracker as a state machine: its step relation (turns of the loop interleaved with
  the exported methods), the invariant that every tracked handle writes into its own process
  and no two entries share a handle, and what each kind of event does.
\<close>

section \<open>The invariant\<close>

definition tracker_ok :: "ctracker \<Rightarrow> 'w fenv \<Rightarrow> bool" where
  "tracker_ok c s \<longleftrightarrow>
     wf_map (c_children c) \<and> distinct (c_Handle c # ct_Children c) \<and>
     (\<forall>r \<in> set (c_Handle c # ct_Children c). r < fe_next s) \<and>
     fh_PID (fe_heap s (c_Handle c)) = c_parentPID c \<and>
     (\<forall>(p, r) \<in> set (c_children c). fh_PID (fe_heap s r) = p)"

definition tracker_inv :: "'w cts \<Rightarrow> bool" where
  "tracker_inv cs = (case cs of (c, s) \<Rightarrow> tracker_ok c s)"

lemma tracker_inv_pair: "tracker_inv (c, s) \<longleftrightarrow> tracker_ok c s"
  by (simp add: tracker_inv_def)

lemma tracker_ok_irrelevant [simp]:
  "tracker_ok (c\<lparr>c_tracer := t\<rparr>) s = tracker_ok c s"
  "tracker_ok (c\<lparr>c_loopErr := e\<rparr>) s = tracker_ok c s"
  "tracker_ok (c\<lparr>c_parentGone := b\<rparr>) s = tracker_ok c s"
  "tracker_ok (c\<lparr>c_pendingStop := m\<rparr>) s = tracker_ok c s"
  "tracker_ok (c\<lparr>c_done := b\<rparr>) s = tracker_ok c s"
  "tracker_ok (c\<lparr>c_running := b\<rparr>) s = tracker_ok c s"
  "tracker_ok c (s\<lparr>fe_world := w\<rparr>) = tracker_ok c s"
  by (simp_all add: tracker_ok_def ct_Children_def)

lemma tracker_ok_once [simp]: "tracker_ok (set_loop_err_once e c) s = tracker_ok c s"
  by (simp add: set_loop_err_once_def)

text \<open>Writing a handle back with the same pid, at any address.\<close>

lemma tracker_ok_heap:
  assumes "tracker_ok c s" and "fh_PID h' = fh_PID (fe_heap s r)"
  shows "tracker_ok c (s\<lparr>fe_heap := (fe_heap s)(r := h')\<rparr>)"
  using assms by (auto simp: tracker_ok_def)

lemma tracker_ok_fewer:
  assumes "tracker_ok c s" and "set m \<subseteq> set (c_children c)" and "wf_map m" and "distinct (map snd m)"
  shows "tracker_ok (c\<lparr>c_children := m\<rparr>) s"
  using assms by (auto simp: tracker_ok_def ct_Children_def)

lemma tracker_ok_filter: "tracker_ok c s \<Longrightarrow> tracker_ok (c\<lparr>c_children := filter P (c_children c)\<rparr>) s"
  by (rule tracker_ok_fewer) (auto simp: tracker_ok_def ct_Children_def distinct_map_filter)

lemma delete_filter: "AList.delete k m = filter (\<lambda>(k', _). k \<noteq> k') m"
  by (simp add: AList.delete_eq case_prod_beta')

lemma tracker_ok_delete: "tracker_ok c s \<Longrightarrow> tracker_ok (c\<lparr>c_children := AList.delete k (c_children c)\<rparr>) s"
  unfolding delete_filter by (rule tracker_ok_filter)

section \<open>Steps that keep it\<close>

lemma with_tracer_shape:
  assumes "with_tracer m (c, s) = (r, cs')"
  obtains t w where "cs' = (c\<lparr>c_tracer := t\<rparr>, s\<lparr>fe_world := w\<rparr>)"
  using assms by (auto simp: with_tracer_def split: prod.splits)

lemma with_tracer_inv [law_intros]:
  "tracker_inv cs \<Longrightarrow> with_tracer m cs = (r, cs') \<Longrightarrow> tracker_inv cs'"
  by (cases cs) (auto simp: tracker_inv_def elim!: with_tracer_shape)

lemma ignored_tracer_inv [law_intros]:
  "tracker_inv cs \<Longrightarrow> tracker_inv (ignore_err (with_tracer m) cs)"
  unfolding ignore_err_def by (rule with_tracer_inv [OF _ prod.collapse [symmetric]])

lemma cont_ignored_inv [law_intros]: "tracker_inv cs \<Longrightarrow> tracker_inv (cont_ignored K pid sg cs)"
  unfolding cont_ignored_def by (rule ignored_tracer_inv)

lemma in_world_ok: "tracker_ok c s \<Longrightarrow> in_world m s = (r, s') \<Longrightarrow> tracker_ok c s'"
  by (auto simp: in_world_def split: prod.splits)

text \<open>Methods of a handle that keep its pid.\<close>

definition keeps_pid :: "(fhandle \<Rightarrow> 'w \<Rightarrow> 'e \<times> fhandle \<times> 'w) \<Rightarrow> bool" where
  "keeps_pid fn \<longleftrightarrow> (\<forall>h w e h' w'. fn h w = (e, h', w') \<longrightarrow> fh_PID h' = fh_PID h)"

lemma keeps_pidD: "keeps_pid fn \<Longrightarrow> fn h w = (e, h', w') \<Longrightarrow> fh_PID h' = fh_PID h"
  unfolding keeps_pid_def by blast

lemma keeps_pid_SetTime: "keeps_pid (fh_SetTime K t)"
  by (auto simp: keeps_pid_def fh_SetTime_def SetTime_def fh_mark_set_def fh_PID_def
      dest!: writeState_identity split: prod.splits option.splits)

lemma keeps_pid_Freeze: "keeps_pid (fh_Freeze K t)"
  by (auto simp: keeps_pid_def fh_Freeze_def Freeze_def fh_mark_frozen_def fh_PID_def
      dest!: writeState_identity split: prod.splits option.splits)

lemma keeps_pid_Reset: "keeps_pid (fh_Reset K)"
  by (auto simp: keeps_pid_def [of "fh_Reset K"] fh_Reset_def dest: keeps_pidD [OF keeps_pid_SetTime]
      split: prod.splits)

lemma on_handle_ok:
  assumes "keeps_pid fn" and "tracker_ok c s" and "on_handle fn r s = (e, s')"
  shows "tracker_ok c s'"
proof -
  obtain h' w' where "fn (fe_heap s r) (fe_world s) = (e, h', w')"
    and s': "s' = s\<lparr>fe_heap := (fe_heap s)(r := h'), fe_world := w'\<rparr>"
    using assms(3) by (auto simp: on_handle_def split: prod.splits)
  then have "fh_PID h' = fh_PID (fe_heap s r)" using keeps_pidD [OF assms(1)] by blast
  from tracker_ok_heap [OF assms(2) this] show ?thesis by (simp add: s')
qed

lemma map_handles_ok:
  assumes "keeps_pid fn" and "tracker_ok c s" and "map_step (on_handle fn) rs s = (es, s')"
  shows "tracker_ok c s'"
  using map_step_invariant [of "tracker_ok c", OF _ assms(3,2)] on_handle_ok [OF assms(1)] by blast

lemma ct_applyAll_inv:
  assumes "keeps_pid fn" and "tracker_inv cs" and run: "ct_applyAll fn cs = (e, cs')"
  shows "tracker_inv cs'"
proof -
  obtain c s where cs: "cs = (c, s)" by fastforce
  obtain es s1 where m: "map_step (on_handle fn) (c_Handle c # ct_Children c) s = (es, s1)"
    by (rule prod.exhaust)
  have "tracker_ok c s1"
    using map_handles_ok [OF assms(1) _ m] assms(2) by (simp add: cs tracker_inv_pair)
  moreover have "\<exists>P. cs' = (c\<lparr>c_children := filter P (c_children c)\<rparr>, s1)"
    using run unfolding cs ct_applyAll_def prod.case m Let_def by blast
  ultimately show ?thesis by (auto simp: tracker_inv_pair intro: tracker_ok_filter)
qed

lemma cleanup_inv:
  assumes "tracker_inv cs"
  shows "tracker_inv (cleanup K cs)"
proof -
  obtain c s where cs: "cs = (c, s)" by fastforce
  obtain es s1 where m: "map_step (on_handle (fh_Reset K)) (ct_Children c) s = (es, s1)"
    by (rule prod.exhaust)
  have "tracker_inv (c, s1)"
    using map_handles_ok [OF keeps_pid_Reset _ m] assms by (simp add: cs tracker_inv_pair)
  then show ?thesis by (simp add: cs cleanup_def m ignored_tracer_inv)
qed

lemma finish_inv: "tracker_inv cs \<Longrightarrow> tracker_inv (finish K cs)"
  using cleanup_inv [of cs K] by (auto simp: finish_def tracker_inv_def split: prod.splits)

text \<open>A handle injected after an exec belongs to the process that called exec.\<close>

lemma injectWithTracer_pid:
  "injectWithTracer K pid info sec nsec msk tw = (Inr h, tw') \<Longrightarrow> ih_PID h = pid"
  by (auto simp: injectWithTracer_def elim!: attempt_InrE)

lemma reInject_pid:
  "reInjectAfterExec K elf parent pid sec nsec msk tw = (Inr h, tw') \<Longrightarrow> ih_PID h = pid"
  by (auto simp: reInjectAfterExec_def deferring_def elim!: attempt_InrE
      dest: injectWithTracer_pid split: prod.splits)

lemma handleExec_inv:
  assumes inv: "tracker_inv cs" and run: "handleExec K elf pid cs = Some cs'"
  shows "tracker_inv cs'"
proof -
  obtain c s where cs: "cs = (c, s)" by fastforce
  let ?found = "if pid = c_parentPID c then Some (c_Handle c) else map_of (c_children c) pid"
  show ?thesis
  proof (cases ?found)
    case None
    with run inv show ?thesis by (auto simp: cs handleExec_def Let_def intro: cont_ignored_inv)
  next
    case (Some r)
    have pid: "fh_PID (fe_heap s r) = pid"
      using inv Some by (auto simp: cs tracker_inv_def tracker_ok_def split: if_splits dest: map_of_SomeD)
    let ?h = "fe_heap s r"
    obtain target s1 where e: "in_world (effectiveTime K ?h) s = (target, s1)" by (rule prod.exhaust)
    then have s1: "fe_heap s1 = fe_heap s" "tracker_ok c s1"
      using inv by (auto simp: cs tracker_inv_def in_world_def split: prod.splits)
    let ?m = "if fh_frozen ?h then ReInjectFrozenAfterExec K elf (c_parentPID c) pid target
      else ReInjectAtTimeAfterExec K elf (c_parentPID c) pid target"
    obtain x c2 s2 where t: "with_tracer ?m (c, s1) = (x, (c2, s2))" by (metis prod.exhaust)
    then obtain tr w where c2: "c2 = c\<lparr>c_tracer := tr\<rparr>" "s2 = s1\<lparr>fe_world := w\<rparr>"
      by (auto elim!: with_tracer_shape)
    show ?thesis
    proof (cases x)
      case (Inl err)
      then have "cs' = cont_ignored K pid 0
          (set_loop_err_once (Wrap ''faketime: re-inject after exec'' err) c2, s2)"
        using run Some e t by (simp add: cs handleExec_def Let_def)
      then show ?thesis
        using s1 c2 by (simp add: cont_ignored_inv tracker_inv_pair)
    next
      case (Inr ih)
      have "ih_PID ih = pid"
        using t Inr by (auto simp: with_tracer_def ReInjectFrozenAfterExec_def
            ReInjectAtTimeAfterExec_def dest: reInject_pid split: prod.splits if_splits)
      then have "fh_PID ((fe_heap s2 r)\<lparr>fh_h := ih\<rparr>) = fh_PID (fe_heap s2 r)"
        using pid s1 by (simp add: fh_PID_def c2)
      then have "tracker_inv (c2, s2\<lparr>fe_heap := (fe_heap s2)(r := (fe_heap s2 r)\<lparr>fh_h := ih\<rparr>)\<rparr>)"
        using tracker_ok_heap [of c2 s2 "(fe_heap s2 r)\<lparr>fh_h := ih\<rparr>" r] s1 c2
        by (simp add: tracker_inv_pair)
      moreover have "cs' = cont_ignored K pid 0
          (c2, s2\<lparr>fe_heap := (fe_heap s2)(r := (fe_heap s2 r)\<lparr>fh_h := ih\<rparr>)\<rparr>)"
        using run Some e t Inr by (auto simp: cs handleExec_def Let_def c2 split: if_splits)
      ultimately show ?thesis by (simp add: cont_ignored_inv)
    qed
  qed
qed

text \<open>A fresh handle for a forked child.\<close>

lemma fork_child_pid: "fork_child K h p w = (h', w') \<Longrightarrow> fh_PID h' = p"
  by (auto simp: fork_child_def Let_def newFrozenHandle_def newAdvancingHandle_def fh_PID_def
      ChildHandle_def split: if_splits prod.splits)

lemma distinct_snd_update:
  assumes "distinct (map snd m)" and "r \<notin> snd ` set m" and "wf_map m"
  shows "distinct (map snd (AList.update k r m))"
  using assms by (induction m) (auto simp: wf_map_def set_update_alist [unfolded wf_map_def])

lemma tracker_ok_fork:
  assumes ok: "tracker_ok c s" and h: "fh_PID h = p" and new: "new_ref h s = (r, s')"
  shows "tracker_ok (c\<lparr>c_children := AList.update p r (c_children c),
    c_pendingStop := AList.update p True (c_pendingStop c)\<rparr>) s'"
proof -
  have r: "r = fe_next s" and s': "fe_next s' = r + 1" "fe_heap s' = (fe_heap s)(r := h)"
    using new by (auto simp: new_ref_def)
  have wf: "wf_map (c_children c)" using ok by (simp add: tracker_ok_def)
  have old: "\<forall>r' \<in> set (c_Handle c # ct_Children c). r' < r"
    using ok r by (simp add: tracker_ok_def)
  then have fresh: "r \<notin> snd ` set (c_children c)" "c_Handle c \<noteq> r"
    by (auto simp: ct_Children_def)
  have unused: "(a, r) \<notin> set (c_children c)" for a using fresh(1) by force
  have "distinct (map snd (AList.update p r (c_children c)))"
    by (rule distinct_snd_update) (use ok fresh wf in \<open>simp_all add: tracker_ok_def ct_Children_def\<close>)
  moreover have "c_Handle c \<notin> snd ` set (AList.update p r (c_children c))"
    using ok fresh by (auto simp: set_update_alist [OF wf] tracker_ok_def ct_Children_def)
  moreover have "\<forall>x \<in> set (AList.update p r (c_children c)). snd x < r + 1"
    using old by (auto simp: set_update_alist [OF wf] ct_Children_def)
  moreover have "\<forall>(q, x) \<in> set (AList.update p r (c_children c)). fh_PID (fe_heap s' x) = q"
    using ok unused h by (auto simp: set_update_alist [OF wf] s' tracker_ok_def)
  ultimately show ?thesis
    using ok fresh(2) old by (auto simp: tracker_ok_def ct_Children_def s')
qed

lemma handleFork_inv:
  assumes "tracker_inv cs"
  shows "tracker_inv (handleFork K pid cs)"
proof -
  obtain x c s where t: "with_tracer (GetEventMsgPID K pid) cs = (x, (c, s))" by (metis prod.exhaust)
  have ok: "tracker_ok c s" using with_tracer_inv [OF assms t] by (simp add: tracker_inv_def)
  show ?thesis
  proof (cases x)
    case (Inl e)
    with ok show ?thesis by (simp add: handleFork_def t cont_ignored_inv tracker_inv_pair)
  next
    case (Inr msg)
    let ?src = "fe_heap s (fork_source pid c)"
    obtain h s1 where f: "in_world (fork_child K ?src (int msg)) s = (h, s1)" by (rule prod.exhaust)
    obtain r s2 where n: "new_ref h s1 = (r, s2)" by (rule prod.exhaust)
    have "fh_PID h = int msg"
      using f by (auto simp: in_world_def dest: fork_child_pid split: prod.splits)
    from tracker_ok_fork [OF in_world_ok [OF ok f] this n] show ?thesis
      by (simp add: handleFork_def t Inr f n Let_def cont_ignored_inv tracker_inv_pair)
  qed
qed

lemma handleExit_inv: "tracker_ok c s \<Longrightarrow> tracker_ok (handleExit pid c) s"
  by (simp add: handleExit_def Let_def tracker_ok_delete)

lemma handleEvent_inv:
  assumes "tracker_inv cs" and "handleEvent K elf pid ws cs = Some cs'"
  shows "tracker_inv cs'"
proof -
  obtain c s where cs: "cs = (c, s)" by fastforce
  have ok: "tracker_ok c s" using assms(1) by (simp add: cs tracker_inv_pair)
  have pending: "tracker_inv (c\<lparr>c_pendingStop := m\<rparr>, s)" for m
    using ok by (simp add: tracker_inv_pair)
  have exit: "tracker_inv (handleExit pid c, s)" using handleExit_inv [OF ok] by (simp add: tracker_inv_pair)
  note others = handleFork_inv [OF assms(1), of K pid] handleExec_inv [OF assms(1)]
    cont_ignored_inv [OF assms(1)]
  show ?thesis
    using assms(2) exit others assms(1)
    by (simp add: cs handleEvent_def Let_def split: if_splits)
      (auto intro!: cont_ignored_inv ignored_tracer_inv pending)
qed

lemma poll_pids_inv:
  "tracker_inv cs \<Longrightarrow> poll_pids K elf pids found cs = Some (found', cs') \<Longrightarrow> tracker_inv cs'"
proof (induction pids arbitrary: found cs)
  case Nil
  then show ?case by simp
next
  case (Cons pid pids)
  obtain x c s where t: "with_tracer (WaitPIDNonBlocking K pid) cs = (x, (c, s))" by (metis prod.exhaust)
  have ok: "tracker_inv (c, s)" by (rule with_tracer_inv [OF Cons.prems(1) t])
  then have ok': "tracker_inv (c\<lparr>c_loopErr := e\<rparr>, s)" for e by (simp add: tracker_inv_def)
  show ?case
    using Cons.prems(2) Cons.IH ok ok' handleEvent_inv [OF ok]
    by (auto simp: t split: sum.splits if_splits option.splits prod.splits) blast+
qed

lemma watch_turn_inv:
  "tracker_inv cs \<Longrightarrow> watch_turn K elf cs = Some cs' \<Longrightarrow> tracker_inv cs'"
  by (auto simp: watch_turn_def intro: finish_inv poll_pids_inv split: prod.splits if_splits)

section \<open>The step relation\<close>

inductive tracker_step :: "'w kernel \<Rightarrow> elf_reader \<Rightarrow> 'w cts \<Rightarrow> 'w cts \<Rightarrow> bool"
  for K :: "'w kernel" and elf :: elf_reader where
  turn: "watch_turn K elf cs = Some cs' \<Longrightarrow> tracker_step K elf cs cs'"
| set_time: "ct_SetTime K target cs = (e, cs') \<Longrightarrow> tracker_step K elf cs cs'"
| freeze: "ct_Freeze K target cs = (e, cs') \<Longrightarrow> tracker_step K elf cs cs'"
| advance: "ct_Advance K d cs = (e, cs') \<Longrightarrow> tracker_step K elf cs cs'"
| reset: "ct_Reset K cs = (e, cs') \<Longrightarrow> tracker_step K elf cs cs'"
| close: "ct_Close K cs = Some (e, cs') \<Longrightarrow> tracker_step K elf cs cs'"

inductive_cases tracker_stepE: "tracker_step K elf cs cs'"

lemma ct_Advance_inv:
  assumes "tracker_inv cs" and "ct_Advance K d cs = (e, cs')"
  shows "tracker_inv cs'"
proof -
  obtain c s where cs: "cs = (c, s)" by fastforce
  let ?h = "fe_heap s (c_Handle c)"
  obtain t s1 where e: "in_world (effectiveTime K ?h) s = (t, s1)" by (rule prod.exhaust)
  have "tracker_inv (c, s1)"
    using in_world_ok [OF _ e] assms(1) by (simp add: cs tracker_inv_def)
  with assms(2) show ?thesis
    by (auto simp: cs ct_Advance_def Let_def e ct_Freeze_def ct_SetTime_def
        intro: ct_applyAll_inv [OF keeps_pid_SetTime] ct_applyAll_inv [OF keeps_pid_Freeze]
        split: if_splits)
qed

lemma ct_Close_inv: "tracker_inv cs \<Longrightarrow> ct_Close K cs = Some (e, cs') \<Longrightarrow> tracker_inv cs'"
  using finish_inv [of "(c\<lparr>c_done := True\<rparr>, s)" K for c s]
  by (auto simp: ct_Close_def Let_def tracker_inv_def [of "(c, s)" for c s] split: prod.splits if_splits)

lemma tracker_step_inv:
  assumes "tracker_step K elf cs cs'" and "tracker_inv cs"
  shows "tracker_inv cs'"
  using assms
proof (cases rule: tracker_step.cases)
  case turn
  then show ?thesis using assms(2) by (blast intro: watch_turn_inv)
next
  case set_time
  then show ?thesis
    using ct_applyAll_inv [OF keeps_pid_SetTime assms(2)] unfolding ct_SetTime_def by blast
next
  case freeze
  then show ?thesis
    using ct_applyAll_inv [OF keeps_pid_Freeze assms(2)] unfolding ct_Freeze_def by blast
next
  case advance
  then show ?thesis using assms(2) by (blast intro: ct_Advance_inv)
next
  case reset
  then show ?thesis
    using ct_applyAll_inv [OF keeps_pid_Reset assms(2)] unfolding ct_Reset_def by blast
next
  case close
  then show ?thesis using assms(2) by (blast intro: ct_Close_inv)
qed

lemma tracker_reachable_inv:
  "(tracker_step K elf)\<^sup>*\<^sup>* cs cs' \<Longrightarrow> tracker_inv cs \<Longrightarrow> tracker_inv cs'"
  by (induction rule: rtranclp_induct) (auto intro: tracker_step_inv)

text \<open>The process that a tracker is made for never changes.\<close>

lemma with_tracer_parent [simp]:
  "c_parentPID (fst (snd (with_tracer m cs))) = c_parentPID (fst cs)"
  by (simp add: with_tracer_def split: prod.splits)

lemma with_tracer_parent': "with_tracer m cs = (r, cs') \<Longrightarrow> c_parentPID (fst cs') = c_parentPID (fst cs)"
  using with_tracer_parent [of m cs] by simp

lemma cont_ignored_parent [simp]: "c_parentPID (fst (cont_ignored K pid sg cs)) = c_parentPID (fst cs)"
  by (simp add: cont_ignored_def ignore_err_def)

lemma set_loop_err_once_parent [simp]: "c_parentPID (set_loop_err_once e c) = c_parentPID c"
  by (simp add: set_loop_err_once_def)

lemma handleFork_parent [simp]: "c_parentPID (fst (handleFork K pid cs)) = c_parentPID (fst cs)"
  by (auto simp: handleFork_def Let_def dest!: with_tracer_parent' split: prod.splits sum.splits)

lemma handleExec_parent: "handleExec K elf pid cs = Some cs' \<Longrightarrow> c_parentPID (fst cs') = c_parentPID (fst cs)"
  by (auto simp: handleExec_def Let_def dest!: with_tracer_parent'
      split: prod.splits sum.splits option.splits if_splits)

lemma handleEvent_parent:
  "handleEvent K elf pid ws cs = Some cs' \<Longrightarrow> c_parentPID (fst cs') = c_parentPID (fst cs)"
  by (auto simp: handleEvent_def handleExit_def Let_def ignore_err_def dest: handleExec_parent
      split: prod.splits if_splits)

lemma poll_pids_parent:
  "poll_pids K elf pids found cs = Some (found', cs') \<Longrightarrow> c_parentPID (fst cs') = c_parentPID (fst cs)"
proof (induction pids arbitrary: found cs)
  case Nil
  then show ?case by simp
next
  case (Cons pid pids)
  obtain x c s where t: "with_tracer (WaitPIDNonBlocking K pid) cs = (x, (c, s))" by (metis prod.exhaust)
  then have "c_parentPID c = c_parentPID (fst cs)" using with_tracer_parent' by fastforce
  then show ?case
    using Cons.prems Cons.IH
    by (fastforce simp: t dest: handleEvent_parent split: sum.splits if_splits option.splits prod.splits)
qed

lemma finish_parent [simp]: "c_parentPID (fst (finish K cs)) = c_parentPID (fst cs)"
  by (simp add: finish_def cleanup_def Let_def ignore_err_def case_prod_beta)

lemma watch_turn_parent: "watch_turn K elf cs = Some cs' \<Longrightarrow> c_parentPID (fst cs') = c_parentPID (fst cs)"
  by (auto simp: watch_turn_def dest: poll_pids_parent split: prod.splits if_splits)

lemma ct_applyAll_parent: "ct_applyAll fn cs = (e, cs') \<Longrightarrow> c_parentPID (fst cs') = c_parentPID (fst cs)"
  by (auto simp: ct_applyAll_def Let_def split: prod.splits)

lemma ct_Advance_parent: "ct_Advance K d cs = (e, cs') \<Longrightarrow> c_parentPID (fst cs') = c_parentPID (fst cs)"
  by (auto simp: ct_Advance_def ct_Freeze_def ct_SetTime_def Let_def dest: ct_applyAll_parent
      split: prod.splits if_splits)

lemma ct_Close_parent: "ct_Close K cs = Some (e, cs') \<Longrightarrow> c_parentPID (fst cs') = c_parentPID (fst cs)"
  by (auto simp: ct_Close_def Let_def split: prod.splits if_splits)

lemma tracker_step_parent: "tracker_step K elf cs cs' \<Longrightarrow> c_parentPID (fst cs') = c_parentPID (fst cs)"
  by (elim tracker_stepE)
    (auto simp: ct_SetTime_def ct_Freeze_def ct_Reset_def
      dest: watch_turn_parent ct_applyAll_parent ct_Advance_parent ct_Close_parent)

lemma tracker_reachable_parent:
  "(tracker_step K elf)\<^sup>*\<^sup>* cs cs' \<Longrightarrow> c_parentPID (fst cs') = c_parentPID (fst cs)"
  by (induction rule: rtranclp_induct) (auto dest: tracker_step_parent)

section \<open>Where the invariant starts\<close>

lemma tracker_from_inv:
  assumes run: "tracker_from mk tr pid s = (c, s')"
    and mk: "\<And>w h w'. mk w = (h, w') \<Longrightarrow> fh_PID h = pid"
  shows "tracker_inv (c, s')"
proof -
  obtain h s1 r s2 where m: "in_world mk s = (h, s1)" and n: "new_ref h s1 = (r, s2)"
    and c: "c = newChildTracker r tr pid" "s' = s2"
    using run by (auto simp: tracker_from_def split: prod.splits)
  have "fh_PID h = pid" using m by (auto simp: in_world_def split: prod.splits dest: mk)
  with n show ?thesis
    by (auto simp: c tracker_inv_pair tracker_ok_def newChildTracker_def new_ref_def ct_Children_def)
qed

lemma newAdvancingHandle_pid: "newAdvancingHandle K ih t w = (h, w') \<Longrightarrow> fh_PID h = ih_PID ih"
  by (auto simp: newAdvancingHandle_def fh_PID_def split: prod.splits)

lemma inject_and_resume_pid:
  "inject_and_resume K elf pid sec nsec msk tw = (Inr h, tw') \<Longrightarrow> ih_PID h = pid"
  by (auto simp: inject_and_resume_def unless_restored_Inr elim!: attempt_InrE dest: injectWithTracer_pid)

lemma injectCoreKeepTracer_pid:
  "injectCoreKeepTracer K elf pid sec nsec msk w = (Inr (h, t), w') \<Longrightarrow> ih_PID h = pid"
  by (auto simp: injectCoreKeepTracer_def keeping_tracer_def elim!: attempt_InrE
      dest: inject_and_resume_pid split: prod.splits sum.splits)

lemma attach_keep_pid:
  "InjectAtTimeKeepTracer K elf pid target w = (Inr (h, t), w') \<Longrightarrow> ih_PID h = pid"
  "InjectFrozenKeepTracer K elf pid target w = (Inr (h, t), w') \<Longrightarrow> ih_PID h = pid"
  by (auto simp: InjectAtTimeKeepTracer_def InjectFrozenKeepTracer_def at_time_def frozen_at_def
      dest: injectCoreKeepTracer_pid split: prod.splits)

text \<open>A command is injected under the pid that the kernel gave it when it was started.\<close>

lemma StartAndFollowChild_pid:
  "StartAndFollowChild K cmd (t, w) = (Inr pid, tw') \<Longrightarrow> \<exists>w1. k_start K cmd w = (Inr pid, w1)"
  by (auto simp: StartAndFollowChild_def elim!: attempt_InrE split: prod.splits sum.splits)

lemma follow_keep_pid:
  assumes "injectFollowChildKeepTracer K elf cmd sec nsec msk w = (Inr (h, t), w')"
  shows "\<exists>w1. k_start K cmd w = (Inr (ih_PID h), w1)"
proof -
  from assms obtain tw1 pid tw2 where "StartAndFollowChild K cmd (NewTracer, w) = (Inr pid, tw1)"
    "inject_and_resume K elf pid sec nsec msk tw1 = (Inr h, tw2)"
    by (auto simp: injectFollowChildKeepTracer_def keeping_tracer_def elim!: attempt_InrE
        split: prod.splits sum.splits)
  with StartAndFollowChild_pid inject_and_resume_pid show ?thesis by metis
qed

lemma start_keep_pid:
  "InjectAtTimeFollowChildKeepTracer K elf cmd target w = (Inr (h, t), w') \<Longrightarrow>
     k_start K cmd (snd (k_now K w)) = (Inr p, w1) \<Longrightarrow> ih_PID h = p"
  "InjectFrozenFollowChildKeepTracer K elf cmd target w = (Inr (h, t), w') \<Longrightarrow>
     k_start K cmd w = (Inr p, w1) \<Longrightarrow> ih_PID h = p"
  by (auto simp: InjectAtTimeFollowChildKeepTracer_def InjectFrozenFollowChildKeepTracer_def at_time_def
      frozen_at_def dest!: follow_keep_pid split: prod.splits)

text \<open>The four ways in which a tracker comes into being, and the process it is made for.\<close>

inductive tracker_created :: "'w kernel \<Rightarrow> elf_reader \<Rightarrow> pid \<Rightarrow> 'w cts \<Rightarrow> bool"
  for K :: "'w kernel" and elf :: elf_reader where
  attach: "AttachWithTracking K elf p target s0 = (Inr c, s) \<Longrightarrow> tracker_created K elf p (c, s)"
| attach_frozen: "AttachFrozenWithTracking K elf p target s0 = (Inr c, s) \<Longrightarrow> tracker_created K elf p (c, s)"
| start: "StartWithTracking K elf cmd target s0 = (Inr c, s) \<Longrightarrow>
    k_start K (cmd\<lparr>cmd_ptrace := True\<rparr>) (snd (k_now K (fe_world s0))) = (Inr p, w1) \<Longrightarrow>
    tracker_created K elf p (c, s)"
| start_frozen: "StartFrozenWithTracking K elf cmd target s0 = (Inr c, s) \<Longrightarrow>
    k_start K (cmd\<lparr>cmd_ptrace := True\<rparr>) (fe_world s0) = (Inr p, w1) \<Longrightarrow> tracker_created K elf p (c, s)"

lemma tracker_from_created:
  assumes run: "tracker_from mk tr pid s = (c, s')"
    and mk: "\<And>w h w'. mk w = (h, w') \<Longrightarrow> fh_PID h = pid"
  shows "tracker_inv (c, s') \<and> c_parentPID c = pid"
  using tracker_from_inv [OF run mk] run by (auto simp: tracker_from_def newChildTracker_def split: prod.splits)

lemma newFrozenHandle_pid [simp]: "fh_PID (newFrozenHandle ih t) = ih_PID ih"
  by (simp add: newFrozenHandle_def fh_PID_def)

lemma attach_tracking_created:
  assumes "attach_tracking inject_fn ctx mk pid s = (Inr c, s')"
    and "\<And>w ih tr w'. inject_fn w = (Inr (ih, tr), w') \<Longrightarrow> ih_PID ih = pid"
    and "\<And>ih w h w'. mk ih w = (h, w') \<Longrightarrow> fh_PID h = ih_PID ih"
  shows "tracker_inv (c, s') \<and> c_parentPID c = pid"
proof -
  from assms(1) obtain ih tr s1 where i: "in_world inject_fn s = (Inr (ih, tr), s1)"
    and f: "tracker_from (mk ih) tr pid s1 = (c, s')"
    by (auto simp: attach_tracking_def split: prod.splits sum.splits)
  have "ih_PID ih = pid" using i assms(2) by (auto simp: in_world_def split: prod.splits)
  with tracker_from_created [OF f] assms(3) show ?thesis by metis
qed

lemma start_tracking_created:
  assumes "start_tracking K inject_fn ctx mk cmd s = (Inr c, s')"
    and "\<And>ih tr w'. inject_fn (cmd\<lparr>cmd_ptrace := True\<rparr>) (fe_world s) = (Inr (ih, tr), w') \<Longrightarrow> ih_PID ih = pid"
    and "\<And>ih w h w'. mk ih w = (h, w') \<Longrightarrow> fh_PID h = ih_PID ih"
  shows "tracker_inv (c, s') \<and> c_parentPID c = pid"
proof -
  from assms(1) obtain ih tr s1 where i: "in_world (inject_fn (cmd\<lparr>cmd_ptrace := True\<rparr>)) s = (Inr (ih, tr), s1)"
    and f: "tracker_from (mk ih) tr (ih_PID ih) s1 = (c, s')"
    by (auto simp: start_tracking_def Let_def split: prod.splits sum.splits)
  have "ih_PID ih = pid" using i assms(2) by (auto simp: in_world_def split: prod.splits)
  with tracker_from_created [OF f] assms(3) show ?thesis by metis
qed

lemma tracker_created_inv: "tracker_created K elf p cs \<Longrightarrow> tracker_inv cs \<and> c_parentPID (fst cs) = p"
proof (induction rule: tracker_created.induct)
  case (attach p target s0 c s)
  from attach_tracking_created [OF attach [unfolded AttachWithTracking_def]] show ?case
    by (simp add: attach_keep_pid newAdvancingHandle_pid)
next
  case (attach_frozen p target s0 c s)
  from attach_tracking_created [OF attach_frozen [unfolded AttachFrozenWithTracking_def]] show ?case
    by (auto simp: attach_keep_pid)
next
  case (start cmd target s0 c s p w1)
  from start_tracking_created [OF start(1) [unfolded StartWithTracking_def], of p] show ?case
    using start_keep_pid(1) [OF _ start(2)] by (simp add: newAdvancingHandle_pid)
next
  case (start_frozen cmd target s0 c s p w1)
  from start_tracking_created [OF start_frozen(1) [unfolded StartFrozenWithTracking_def], of p] show ?case
    using start_keep_pid(2) [OF _ start_frozen(2)] by auto
qed

section \<open>What the events do\<close>

lemma cont_ignored_shape: "\<exists>t w. cont_ignored K pid sg (c, s) = (c\<lparr>c_tracer := t\<rparr>, s\<lparr>fe_world := w\<rparr>)"
  by (auto simp: cont_ignored_def ignore_err_def with_tracer_def split: prod.splits)

text \<open>
  Fork: the new entry shares the forking process's trampoline page and its mode; a frozen
  clock is copied, a running one differs by the time between the two readings.
\<close>

lemma fork_child_inherits:
  assumes "fork_child K h p w = (h', w')"
  shows "fh_PID h' = p \<and> ih_StateAddr (fh_h h') = ih_StateAddr (fh_h h) \<and>
    ih_patched (fh_h h') = ih_patched (fh_h h) \<and> fh_frozen h' = fh_frozen h \<and>
    (fh_frozen h \<longrightarrow> fh_frozenAt h' = fh_frozenAt h) \<and>
    (\<not> fh_frozen h \<longrightarrow> (\<exists>n1 w1 n2. k_now K w = (n1, w1) \<and> k_now K w1 = (n2, w') \<and>
       (in_int64 (n1 + fh_offset h - n2) \<longrightarrow> fh_offset h' = fh_offset h - (n2 - n1))))"
  using assms
  by (auto simp: fork_child_def ChildHandle_def newFrozenHandle_def newAdvancingHandle_def fh_PID_def
      effectiveTime_def time_Add_def Let_def split: prod.splits if_splits)

lemma handleFork_entry:
  assumes msg: "with_tracer (GetEventMsgPID K pid) (c, s) = (Inr msg, (c1, s1))"
    and run: "handleFork K pid (c, s) = (c', s')"
  obtains h w where "fork_child K (fe_heap s (fork_source pid c)) (int msg) (fe_world s1) = (h, w)"
    and "map_of (c_children c') = (map_of (c_children c))(int msg \<mapsto> fe_next s)"
    and "fe_heap s' = (fe_heap s)(fe_next s := h)"
    and "map_of (c_pendingStop c') (int msg) = Some True"
proof -
  obtain t w1 where c1: "c1 = c\<lparr>c_tracer := t\<rparr>" "s1 = s\<lparr>fe_world := w1\<rparr>"
    using msg by (auto elim: with_tracer_shape)
  obtain h w2 where f: "fork_child K (fe_heap s (fork_source pid c)) (int msg) w1 = (h, w2)"
    by (rule prod.exhaust)
  let ?c2 = "c1\<lparr>c_children := AList.update (int msg) (fe_next s) (c_children c),
    c_pendingStop := AList.update (int msg) True (c_pendingStop c)\<rparr>"
  let ?s2 = "s1\<lparr>fe_world := w2, fe_heap := (fe_heap s)(fe_next s := h), fe_next := fe_next s + 1\<rparr>"
  obtain t' w' where k: "cont_ignored K pid 0 (?c2, ?s2) = (?c2\<lparr>c_tracer := t'\<rparr>, ?s2\<lparr>fe_world := w'\<rparr>)"
    using cont_ignored_shape by metis
  have "fork_source pid c1 = fork_source pid c" by (simp add: c1 fork_source_def split: option.splits)
  then have "handleFork K pid (c, s) = cont_ignored K pid 0 (?c2, ?s2)"
    using f by (simp add: handleFork_def msg c1 in_world_def new_ref_def Let_def)
  with run k have "(c', s') = (?c2\<lparr>c_tracer := t'\<rparr>, ?s2\<lparr>fe_world := w'\<rparr>)" by simp
  with f show thesis by (intro that [of h w2]) (auto simp: c1)
qed

text \<open>The second lookup of \<open>handleExec\<close> finds the handle: the loop never dereferences nil.\<close>

lemma handleExec_total: "handleExec K elf pid cs \<noteq> None"
proof -
  obtain c s where cs: "cs = (c, s)" by fastforce
  have same: "c_parentPID c2 = c_parentPID c \<and> c_Handle c2 = c_Handle c \<and> c_children c2 = c_children c"
    if "with_tracer m (c, s1) = (x, (c2, s2))" for m :: "'a tw \<Rightarrow> (goerr + inj_handle) \<times> 'a tw"
      and x c2 s1 s2
    using that by (auto elim!: with_tracer_shape)
  show ?thesis
    by (auto simp: cs handleExec_def Let_def dest: same split: option.splits prod.splits sum.splits if_splits)
qed

lemma handleEvent_total: "handleEvent K elf pid ws cs \<noteq> None"
  by (cases cs) (simp add: handleEvent_def Let_def handleExec_total del: not_None_eq)

lemma poll_pids_total: "poll_pids K elf pids found cs \<noteq> None"
proof (induction pids arbitrary: found cs)
  case Nil
  then show ?case by simp
next
  case (Cons pid pids)
  obtain x c s where t: "with_tracer (WaitPIDNonBlocking K pid) cs = (x, (c, s))" by (metis prod.exhaust)
  show ?case
  proof (cases x)
    case (Inl e)
    with Cons.IH show ?thesis by (simp add: t del: not_None_eq)
  next
    case (Inr r)
    obtain ws ok where r: "r = (ws, ok)" by fastforce
    obtain cs2 where "handleEvent K elf pid ws (c, s) = Some cs2"
      using handleEvent_total [of K elf pid ws "(c, s)"] by blast
    with Cons.IH show ?thesis by (simp add: t Inr r del: not_None_eq)
  qed
qed

lemma watch_turn_total: "watch_turn K elf cs \<noteq> None"
  by (cases cs) (simp add: watch_turn_def poll_pids_total del: not_None_eq)

lemma watchLoop_total: "watchLoop K elf n cs \<noteq> None"
  using watch_turn_total by (induction n arbitrary: cs) (auto split: option.splits)

text \<open>A process that can no longer be waited for (ECHILD) stays in the tracked set.\<close>

definition echild_kernel :: "'w kernel \<Rightarrow> bool" where
  "echild_kernel K \<longleftrightarrow> (\<forall>p fl w. fst (k_wait4 K p fl w) = Inl ECHILD)"

lemma wait_echild:
  assumes "echild_kernel K"
  shows "\<exists>e t w. with_tracer (WaitPIDNonBlocking K pid) (c, s) = (Inl e, (c\<lparr>c_tracer := t\<rparr>, s\<lparr>fe_world := w\<rparr>)) \<and>
    errors_Is e ECHILD"
proof -
  obtain w' where "k_wait4 K pid (WNOHANG + WUNTRACED + WCONTINUED + WALL) (fe_world s) = (Inl ECHILD, w')"
    using assms unfolding echild_kernel_def by (metis prod.collapse)
  then have "with_tracer (WaitPIDNonBlocking K pid) (c, s) =
      (Inl (Wrap ''procmem: wait4(pid, WNOHANG)'' (Errno ECHILD)),
       (c\<lparr>c_tracer := c_tracer c\<rparr>, s\<lparr>fe_world := w'\<rparr>))"
    by (simp add: with_tracer_def WaitPIDNonBlocking_def attempt_def syscall_as_def)
  moreover have "errors_Is (Wrap ''procmem: wait4(pid, WNOHANG)'' (Errno ECHILD)) ECHILD" by simp
  ultimately show ?thesis by blast
qed

lemma poll_echild:
  assumes "echild_kernel K"
  shows "\<exists>t w. poll_pids K elf pids found (c, s) = Some (found, (c\<lparr>c_tracer := t\<rparr>, s\<lparr>fe_world := w\<rparr>))"
proof (induction pids arbitrary: c s)
  case Nil
  have "c = c\<lparr>c_tracer := c_tracer c\<rparr>" "s = s\<lparr>fe_world := fe_world s\<rparr>" by simp_all
  then show ?case by (metis poll_pids.simps(1))
next
  case (Cons pid pids)
  obtain e t w where wt: "with_tracer (WaitPIDNonBlocking K pid) (c, s) =
      (Inl e, (c\<lparr>c_tracer := t\<rparr>, s\<lparr>fe_world := w\<rparr>))" "errors_Is e ECHILD"
    using wait_echild [OF assms] by blast
  show ?case
    using Cons.IH [of "c\<lparr>c_tracer := t\<rparr>" "s\<lparr>fe_world := w\<rparr>"] by (simp add: wt)
qed

text \<open>Closing twice panics; after the first close the goroutine is gone.\<close>

lemma ct_Close_once:
  assumes "ct_Close K cs = Some (e, cs')"
  shows "c_running (fst cs') = False \<and> ct_Close K cs' = None"
proof -
  obtain c s where cs: "cs = (c, s)" by fastforce
  have done_kept: "c_done (fst (cleanup K (c1, s1))) = c_done c1" for c1 and s1 :: "'a fenv"
    by (auto simp: cleanup_def Let_def ignore_err_def with_tracer_def split: prod.splits)
  have fin: "c_done (fst (finish K (c1, s1))) = c_done c1 \<and> c_running (fst (finish K (c1, s1))) = False"
    for c1 and s1 :: "'a fenv"
    using done_kept [of c1 s1] by (simp add: finish_def case_prod_beta)
  let ?c1 = "c\<lparr>c_done := True\<rparr>"
  have cs': "cs' = (if c_running c then finish K (?c1, s) else (?c1, s))"
    using assms by (simp add: cs ct_Close_def Let_def split: if_splits)
  have "c_running (fst cs') = False \<and> c_done (fst cs')"
    using fin [of ?c1 s] by (simp add: cs')
  then show ?thesis by (simp add: ct_Close_def case_prod_beta)
qed

end
