(* ===== verification/Session.thy ===== *)
theory Session
  imports TrackerInv
begin

text \<open>
  pkg/faketime/faketime.go, the Session: a group of processes with one clock. Handles are shared
  with the trackers by reference; the goroutines of one update run one after another (each
  touches its own handle and its own process).
\<close>

record session =
  ss_handles :: "href list"
  ss_cmds :: "gocmd list"
  ss_offset :: duration
  ss_frozenAt :: gotime
  ss_frozen :: bool
  ss_tracking :: bool
  ss_trackingFilter :: "(string \<Rightarrow> bool) option"
  ss_fakeTimeFilter :: "(string \<Rightarrow> bool) option"
  ss_trackers :: "ctracker list"

type_synonym 'w sst = "session \<times> 'w fenv"

section \<open>Options and construction\<close>

type_synonym session_option = "session \<Rightarrow> session"

definition WithTracking :: session_option where
  "WithTracking ss = ss\<lparr>ss_tracking := True\<rparr>"

definition WithTrackingFilter :: "(string \<Rightarrow> bool) \<Rightarrow> session_option" where
  "WithTrackingFilter f ss = ss\<lparr>ss_trackingFilter := Some f\<rparr>"

definition WithFakeTimeFilter :: "(string \<Rightarrow> bool) \<Rightarrow> session_option" where
  "WithFakeTimeFilter f ss = ss\<lparr>ss_fakeTimeFilter := Some f\<rparr>"

definition NewSession :: "'w kernel \<Rightarrow> gotime \<Rightarrow> session_option list \<Rightarrow> 'w fenv \<Rightarrow> 'w sst" where
  "NewSession K target opts s =
     (case in_world (k_now K) s of (now, s1) \<Rightarrow>
        (fold (\<lambda>o' ss. o' ss) opts
           \<lparr>ss_handles = [], ss_cmds = [], ss_offset = time_Until now target, ss_frozenAt = zero_time,
            ss_frozen = False, ss_tracking = False, ss_trackingFilter = None, ss_fakeTimeFilter = None,
            ss_trackers = []\<rparr>, s1))"

definition ss_eff :: "gotime \<Rightarrow> session \<Rightarrow> gotime" where
  "ss_eff now ss = (if ss_frozen ss then ss_frozenAt ss else time_Add now (ss_offset ss))"

definition effectiveTarget :: "'w kernel \<Rightarrow> session \<Rightarrow> 'w fenv \<Rightarrow> gotime \<times> 'w fenv" where
  "effectiveTarget K ss s =
     (if ss_frozen ss then (ss_frozenAt ss, s)
      else case in_world (k_now K) s of (now, s1) \<Rightarrow> (time_Add now (ss_offset ss), s1))"

text \<open>\<open>readBinaryPath\<close>: the empty string when the link cannot be read.\<close>

definition readBinaryPath :: "'w kernel \<Rightarrow> pid \<Rightarrow> 'w \<Rightarrow> string \<times> 'w" where
  "readBinaryPath K pid w = (case k_exe K pid w of (Inl _, w') \<Rightarrow> ([], w') | (Inr p, w') \<Rightarrow> (p, w'))"

section \<open>Adding processes\<close>

definition refused :: "(string \<Rightarrow> bool) option \<Rightarrow> string \<Rightarrow> bool" where
  "refused flt path = (case flt of None \<Rightarrow> False | Some f \<Rightarrow> \<not> f path)"

definition tracking_for :: "session \<Rightarrow> string \<Rightarrow> bool" where
  "tracking_for ss path =
     (case ss_trackingFilter ss of None \<Rightarrow> ss_tracking ss | Some f \<Rightarrow> f path)"

definition add_tracker :: "ctracker \<Rightarrow> session \<Rightarrow> session" where
  "add_tracker ct ss =
     ss\<lparr>ss_handles := ss_handles ss @ [c_Handle ct], ss_trackers := ss_trackers ss @ [ct]\<rparr>"

definition add_handle :: "fhandle \<Rightarrow> session \<Rightarrow> 'w fenv \<Rightarrow> 'w sst" where
  "add_handle h ss s =
     (case new_ref h s of (r, s1) \<Rightarrow> (ss\<lparr>ss_handles := ss_handles ss @ [r]\<rparr>, s1))"

definition add_cmd :: "gocmd \<Rightarrow> session \<Rightarrow> session" where
  "add_cmd cmd ss = ss\<lparr>ss_cmds := ss_cmds ss @ [cmd]\<rparr>"

definition ss_Start :: "'w kernel \<Rightarrow> elf_reader \<Rightarrow> gocmd \<Rightarrow> 'w sst \<Rightarrow> goerr option \<times> 'w sst" where
  "ss_Start K elf cmd st =
     (case st of (ss, s) \<Rightarrow>
     (case effectiveTarget K ss s of (target, s1) \<Rightarrow>
        if refused (ss_fakeTimeFilter ss) (cmd_path cmd) then
          (case in_world (k_start K cmd) s1 of
             (Inl e, s2) \<Rightarrow> (Some (Wrap ''faketime: Session.Start'' (Errno e)), (ss, s2))
           | (Inr _, s2) \<Rightarrow> (None, (add_cmd cmd ss, s2)))
        else if tracking_for ss (cmd_path cmd) then
          (case (if ss_frozen ss then StartFrozenWithTracking K elf cmd target
                 else StartWithTracking K elf cmd target) s1 of
             (Inl e, s2) \<Rightarrow> (Some e, (ss, s2))
           | (Inr ct, s2) \<Rightarrow> (None, (add_cmd cmd (add_tracker ct ss), s2)))
        else
          (case in_world (if ss_frozen ss then fh_StartFrozen K elf cmd target
                          else fh_Start K elf cmd target) s1 of
             (Inl e, s2) \<Rightarrow> (Some e, (ss, s2))
           | (Inr h, s2) \<Rightarrow>
               (case add_handle h ss s2 of (ss', s3) \<Rightarrow> (None, (add_cmd cmd ss', s3))))))"

definition ss_Attach :: "'w kernel \<Rightarrow> elf_reader \<Rightarrow> pid \<Rightarrow> 'w sst \<Rightarrow> goerr option \<times> 'w sst" where
  "ss_Attach K elf pid st =
     (case st of (ss, s) \<Rightarrow>
     (case effectiveTarget K ss s of (target, s1) \<Rightarrow>
     (case (if ss_trackingFilter ss \<noteq> None \<or> ss_fakeTimeFilter ss \<noteq> None
            then in_world (readBinaryPath K pid) s1 else ([], s1)) of (path, s2) \<Rightarrow>
        if refused (ss_fakeTimeFilter ss) path then (None, (ss, s2))
        else if tracking_for ss path then
          (case (if ss_frozen ss then AttachFrozenWithTracking K elf pid target
                 else AttachWithTracking K elf pid target) s2 of
             (Inl e, s3) \<Rightarrow> (Some e, (ss, s3))
           | (Inr ct, s3) \<Rightarrow> (None, (add_tracker ct ss, s3)))
        else
          (case in_world (if ss_frozen ss then fh_AttachFrozen K elf pid target
                          else fh_Attach K elf pid target) s2 of
             (Inl e, s3) \<Rightarrow> (Some e, (ss, s3))
           | (Inr h, s3) \<Rightarrow> (None, add_handle h ss s3)))))"

section \<open>Changing the clock\<close>

text \<open>
  \<open>applyAll\<close>: every handle of the session and every child of its trackers is updated; dead
  primary handles are dropped; the session's own clock is committed only without errors.
\<close>

definition ss_all :: "session \<Rightarrow> href list" where
  "ss_all ss = ss_handles ss @ concat (map ct_Children (ss_trackers ss))"

definition dead_handles :: "href list \<Rightarrow> goerr option list \<Rightarrow> href list" where
  "dead_handles primary errs = map fst (filter (\<lambda>(r, e). is_esrch e) (zip primary errs))"

definition ss_applyAll :: "(fhandle \<Rightarrow> 'w \<Rightarrow> goerr option \<times> fhandle \<times> 'w)
    \<Rightarrow> (session \<Rightarrow> 'w fenv \<Rightarrow> 'w sst) \<Rightarrow> 'w sst \<Rightarrow> goerr option \<times> 'w sst" where
  "ss_applyAll fn updateState st =
     (case st of (ss, s) \<Rightarrow>
     (case map_step (on_handle fn) (ss_all ss) s of (errs, s1) \<Rightarrow>
        let dead = dead_handles (ss_handles ss) errs;
            ss1 = ss\<lparr>ss_handles := filter (\<lambda>r. r \<notin> set dead) (ss_handles ss)\<rparr>
        in case errors_Join (map clear_esrch errs) of
             Some e \<Rightarrow> (Some (Wrap ''faketime: applyAll'' e), (ss1, s1))
           | None \<Rightarrow> (None, updateState ss1 s1)))"

definition ss_mark_set :: "gotime \<Rightarrow> gotime \<Rightarrow> session \<Rightarrow> session" where
  "ss_mark_set target now ss =
     ss\<lparr>ss_offset := time_Until now target, ss_frozenAt := zero_time, ss_frozen := False\<rparr>"

definition ss_mark_frozen :: "gotime \<Rightarrow> session \<Rightarrow> session" where
  "ss_mark_frozen target ss = ss\<lparr>ss_frozenAt := target, ss_offset := 0, ss_frozen := True\<rparr>"

definition ss_SetTime :: "'w kernel \<Rightarrow> gotime \<Rightarrow> 'w sst \<Rightarrow> goerr option \<times> 'w sst" where
  "ss_SetTime K target =
     ss_applyAll (fh_SetTime K target)
       (\<lambda>ss s. case in_world (k_now K) s of (now, s1) \<Rightarrow> (ss_mark_set target now ss, s1))"

definition ss_Freeze :: "'w kernel \<Rightarrow> gotime \<Rightarrow> 'w sst \<Rightarrow> goerr option \<times> 'w sst" where
  "ss_Freeze K target =
     ss_applyAll (fh_Freeze K target) (\<lambda>ss s. (ss_mark_frozen target ss, s))"

definition ss_Advance :: "'w kernel \<Rightarrow> duration \<Rightarrow> 'w sst \<Rightarrow> goerr option \<times> 'w sst" where
  "ss_Advance K d st =
     (case st of (ss, s) \<Rightarrow>
     (case effectiveTarget K ss s of (t, s1) \<Rightarrow>
        let target = time_Add t d in
        if ss_frozen ss then ss_Freeze K target (ss, s1) else ss_SetTime K target (ss, s1)))"

definition ss_Reset :: "'w kernel \<Rightarrow> 'w sst \<Rightarrow> goerr option \<times> 'w sst" where
  "ss_Reset K st =
     (case st of (ss, s) \<Rightarrow>
     (case in_world (k_now K) s of (now, s1) \<Rightarrow> ss_SetTime K now (ss, s1)))"

definition ss_IsFrozen :: "session \<Rightarrow> bool" where "ss_IsFrozen ss = ss_frozen ss"

definition ss_EffectiveTime :: "'w kernel \<Rightarrow> 'w sst \<Rightarrow> gotime \<times> 'w sst" where
  "ss_EffectiveTime K st =
     (case st of (ss, s) \<Rightarrow> (case effectiveTarget K ss s of (t, s1) \<Rightarrow> (t, (ss, s1))))"

definition ss_Len :: "session \<Rightarrow> nat" where "ss_Len ss = length (ss_handles ss)"

definition ss_PIDs :: "'w sst \<Rightarrow> pid list" where
  "ss_PIDs st = (case st of (ss, s) \<Rightarrow> map (\<lambda>r. fh_PID (fe_heap s r)) (ss_handles ss))"

section \<open>Closing and pruning\<close>

text \<open>Closing trackers one after another; \<open>None\<close> is the panic of a second close.\<close>

fun close_all :: "'w kernel \<Rightarrow> ctracker list \<Rightarrow> 'w fenv
    \<Rightarrow> (goerr option list \<times> ctracker list \<times> 'w fenv) option" where
  "close_all K [] s = Some ([], [], s)"
| "close_all K (ct # cts) s =
     (case ct_Close K (ct, s) of
        None \<Rightarrow> None
      | Some (e, (ct', s1)) \<Rightarrow>
          (case close_all K cts s1 of
             None \<Rightarrow> None
           | Some (es, cts', s2) \<Rightarrow> Some (e # es, ct' # cts', s2)))"

definition ss_Close :: "'w kernel \<Rightarrow> 'w sst \<Rightarrow> (goerr option \<times> 'w sst) option" where
  "ss_Close K st =
     (case st of (ss, s) \<Rightarrow>
        if ss_trackers ss = [] then Some (None, st)
        else case close_all K (ss_trackers ss) s of
               None \<Rightarrow> None
             | Some (errs, cts, s1) \<Rightarrow> Some (errors_Join errs, (ss\<lparr>ss_trackers := cts\<rparr>, s1)))"

text \<open>\<open>IsAlive\<close> of the handle at a reference.\<close>

definition ref_alive :: "'w kernel \<Rightarrow> href \<Rightarrow> 'w fenv \<Rightarrow> bool \<times> 'w fenv" where
  "ref_alive K r s = in_world (fh_IsAlive K (fe_heap s r)) s"

fun split_alive :: "'w kernel \<Rightarrow> ctracker list \<Rightarrow> 'w fenv \<Rightarrow> (ctracker list \<times> ctracker list) \<times> 'w fenv" where
  "split_alive K [] s = (([], []), s)"
| "split_alive K (ct # cts) s =
     (case ref_alive K (c_Handle ct) s of (b, s1) \<Rightarrow>
     (case split_alive K cts s1 of ((live, dead), s2) \<Rightarrow>
        if b then ((ct # live, dead), s2) else ((live, ct # dead), s2)))"

fun sweep_handles :: "'w kernel \<Rightarrow> href list \<Rightarrow> href list \<Rightarrow> href list \<Rightarrow> 'w fenv
    \<Rightarrow> (href list \<times> nat) \<times> 'w fenv" where
  "sweep_handles K dead live [] s = (([], 0), s)"
| "sweep_handles K dead live (r # rs) s =
     (if r \<in> set dead then sweep_handles K dead live rs s
      else if r \<in> set live then
        (case sweep_handles K dead live rs s of ((hs, n), s1) \<Rightarrow> ((r # hs, n), s1))
      else
        (case ref_alive K r s of (b, s1) \<Rightarrow>
        (case sweep_handles K dead live rs s1 of ((hs, n), s2) \<Rightarrow>
           if b then ((r # hs, n), s2) else ((hs, n + 1), s2))))"

definition ss_Prune :: "'w kernel \<Rightarrow> 'w sst \<Rightarrow> (nat \<times> 'w sst) option" where
  "ss_Prune K st =
     (case st of (ss, s) \<Rightarrow>
     (case split_alive K (ss_trackers ss) s of ((liveT, deadT), s1) \<Rightarrow>
     (case sweep_handles K (map c_Handle deadT) (map c_Handle liveT) (ss_handles ss) s1 of
        ((live, n), s2) \<Rightarrow>
          (case close_all K deadT s2 of
             None \<Rightarrow> None
           | Some (_, _, s3) \<Rightarrow>
               Some (length deadT + n, (ss\<lparr>ss_trackers := liveT, ss_handles := live\<rparr>, s3))))))"

section \<open>The session is a shiftable clock\<close>

definition ss_mark_advanced :: "duration \<Rightarrow> gotime \<Rightarrow> gotime \<Rightarrow> session \<Rightarrow> session" where
  "ss_mark_advanced d now0 now1 ss =
     (if ss_frozen ss then ss_mark_frozen (ss_eff now0 ss + d) ss
      else ss_mark_set (ss_eff now0 ss + d) now1 ss)"

interpretation session_clock: advancing_clock ss_eff ss_frozen ss_mark_set ss_mark_frozen
  ss_mark_advanced
  by unfold_locales
    (simp_all add: ss_eff_def ss_mark_set_def ss_mark_frozen_def ss_mark_advanced_def time_Add_def)

section \<open>Lemmas\<close>

text \<open>
  A predicate of a handle that a method establishes when it succeeds and keeps when it is run
  again (on any handle) holds afterwards of every handle whose call succeeded.
\<close>

lemma on_handle_other: "on_handle f r s = (e, s') \<Longrightarrow> r' \<noteq> r \<Longrightarrow> fe_heap s' r' = fe_heap s r'"
  by (auto simp: on_handle_def split: prod.splits)

lemma on_handle_self:
  "on_handle f r s = (e, s') \<Longrightarrow> \<exists>w'. f (fe_heap s r) (fe_world s) = (e, fe_heap s' r, w')"
  by (auto simp: on_handle_def split: prod.splits)

lemma map_handles_keep:
  assumes keep: "\<And>h w e h' w'. P h \<Longrightarrow> f h w = (e, h', w') \<Longrightarrow> P h'"
    and "map_step (on_handle f) rs s = (es, s')" and "P (fe_heap s q)"
  shows "P (fe_heap s' q)"
proof (rule map_step_invariant [OF _ assms(2), of "\<lambda>s. P (fe_heap s q)"])
  fix r s1 e s2
  assume p: "P (fe_heap s1 q)" and o': "on_handle f r s1 = (e, s2)"
  show "P (fe_heap s2 q)"
  proof (cases "q = r")
    case True
    with p on_handle_self [OF o'] keep show ?thesis by blast
  next
    case False
    with p on_handle_other [OF o'] show ?thesis by simp
  qed
qed (use assms(3) in simp)

lemma map_handles_establish:
  assumes est: "\<And>h w h' w'. f h w = (None, h', w') \<Longrightarrow> P h'"
    and keep: "\<And>h w e h' w'. P h \<Longrightarrow> f h w = (e, h', w') \<Longrightarrow> P h'"
  shows "map_step (on_handle f) rs s = (es, s') \<Longrightarrow> i < length rs \<Longrightarrow> es ! i = None \<Longrightarrow>
    P (fe_heap s' (rs ! i))"
proof (induction rs arbitrary: s es i)
  case Nil
  then show ?case by simp
next
  case (Cons r rs)
  from Cons.prems(1) obtain e s1 es' where o': "on_handle f r s = (e, s1)"
    and m: "map_step (on_handle f) rs s1 = (es', s')" and es: "es = e # es'"
    unfolding map_step_Cons_eq by blast
  show ?case
  proof (cases i)
    case 0
    with Cons.prems(3) es o' have "P (fe_heap s1 r)" using on_handle_self [OF o'] est by auto
    from map_handles_keep [where P = P, OF keep m this] show ?thesis by (simp add: 0)
  next
    case (Suc j)
    with Cons.IH [OF m, of j] Cons.prems(2,3) es show ?thesis by simp
  qed
qed

definition frozen_here :: "gotime \<Rightarrow> fhandle \<Rightarrow> bool" where
  "frozen_here t h \<longleftrightarrow> fh_frozen h \<and> fh_frozenAt h = t"

lemma freeze_establishes: "fh_Freeze K t h w = (None, h', w') \<Longrightarrow> frozen_here t h'"
  by (auto simp: frozen_here_def fh_mark_frozen_def elim!: fh_Freeze_None)

lemma freeze_keeps: "frozen_here t h \<Longrightarrow> fh_Freeze K t h w = (e, h', w') \<Longrightarrow> frozen_here t h'"
  by (cases e) (auto intro: freeze_establishes dest: fh_Freeze_error)

text \<open>Without an error of the whole update, each handle either succeeded or its process is gone.\<close>

lemma clear_esrch_None: "clear_esrch e = None \<longleftrightarrow> e = None \<or> is_esrch e"
  by (auto simp: clear_esrch_def is_esrch_def split: option.splits)

lemma ss_applyAll_None:
  assumes "ss_applyAll fn upd (ss, s) = (None, st')"
  obtains errs s1 where "map_step (on_handle fn) (ss_all ss) s = (errs, s1)"
    and "\<forall>e \<in> set errs. e = None \<or> is_esrch e"
    and "st' = upd (ss\<lparr>ss_handles := filter (\<lambda>r. r \<notin> set (dead_handles (ss_handles ss) errs)) (ss_handles ss)\<rparr>) s1"
proof -
  obtain errs s1 where m: "map_step (on_handle fn) (ss_all ss) s = (errs, s1)" by (rule prod.exhaust)
  have "errors_Join (map clear_esrch errs) = None"
    using assms by (simp add: ss_applyAll_def m Let_def split: option.splits)
  then have "\<forall>e \<in> set errs. e = None \<or> is_esrch e"
    by (auto simp: errors_Join_None_iff clear_esrch_None)
  moreover have "st' = upd (ss\<lparr>ss_handles := filter (\<lambda>r. r \<notin> set (dead_handles (ss_handles ss) errs)) (ss_handles ss)\<rparr>) s1"
    using assms by (simp add: ss_applyAll_def m Let_def split: option.splits)
  ultimately show thesis using m that by blast
qed

text \<open>A handle that survives the pruning of an update had no ESRCH.\<close>

lemma survivor_index:
  assumes "r \<in> set (filter (\<lambda>r. r \<notin> set (dead_handles primary errs)) primary)"
    and "length primary \<le> length errs" and "\<forall>e \<in> set errs. e = None \<or> is_esrch e"
  shows "\<exists>i < length primary. primary ! i = r \<and> errs ! i = None"
proof -
  from assms(1) obtain i where i: "i < length primary" "primary ! i = r"
    by (auto simp: in_set_conv_nth)
  have "\<not> is_esrch (errs ! i)"
  proof
    assume e: "is_esrch (errs ! i)"
    have "(primary ! i, errs ! i) \<in> set (zip primary errs)"
      using i assms(2) by (auto simp: set_zip)
    with e have "r \<in> set (dead_handles primary errs)"
      unfolding dead_handles_def by (force simp: i)
    with assms(1) show False by simp
  qed
  moreover have "errs ! i \<in> set errs" using i assms(2) by simp
  ultimately show ?thesis using assms(3) i by blast
qed

text \<open>When every close succeeds the closed trackers cannot be closed again.\<close>

lemma close_all_done: "close_all K cts s = Some (es, cts', s') \<Longrightarrow> list_all c_done cts' \<and> map c_Handle cts' = map c_Handle cts"
proof (induction cts arbitrary: s es cts')
  case Nil
  then show ?case by simp
next
  case (Cons ct cts)
  from Cons.prems obtain e ct1 s1 es1 cts1 where c: "ct_Close K (ct, s) = Some (e, (ct1, s1))"
    and r: "close_all K cts s1 = Some (es1, cts1, s')" and "cts' = ct1 # cts1"
    by (auto split: option.splits)
  have "c_done ct1"
    using ct_Close_once [OF c] by (auto simp: ct_Close_def Let_def split: if_splits)
  moreover have "c_Handle ct1 = c_Handle ct"
    using c by (auto simp: ct_Close_def Let_def finish_def cleanup_def ignore_err_def with_tracer_def
        split: if_splits prod.splits)
  ultimately show ?case using Cons.IH [OF r] \<open>cts' = ct1 # cts1\<close> by simp
qed

lemma close_all_panics: "ct \<in> set cts \<Longrightarrow> c_done ct \<Longrightarrow> close_all K cts s = None"
proof (induction cts arbitrary: s)
  case Nil
  then show ?case by simp
next
  case (Cons ct' cts)
  have closed: "ct_Close K (ct, s1) = None" if "c_done ct" for ct s1
    using that by (simp add: ct_Close_def)
  show ?case
  proof (cases "c_done ct'")
    case True
    then show ?thesis by (simp add: closed)
  next
    case False
    with Cons.prems have "ct \<in> set cts" by auto
    with Cons.IH Cons.prems(2) show ?thesis by (simp split: option.splits prod.splits)
  qed
qed

text \<open>The pruning keeps exactly what is alive; the partition of the trackers.\<close>

lemma split_alive_dead:
  "split_alive K cts s = ((live, dead), s') \<Longrightarrow> set cts = set live \<union> set dead \<and>
     length cts = length live + length dead"
  by (induction cts arbitrary: s live dead) (auto split: prod.splits if_splits)

text \<open>
  The worlds that liveness checks lead to, of whatever processes. A process is gone when each of
  them reports it dead; nothing is said of the other processes.
\<close>

definition probed :: "'w kernel \<Rightarrow> 'w \<Rightarrow> 'w \<Rightarrow> bool" where
  "probed K = (\<lambda>w w'. \<exists>q. w' = snd (k_kill K q 0 w))\<^sup>*\<^sup>*"

definition process_gone :: "'w kernel \<Rightarrow> pid \<Rightarrow> 'w \<Rightarrow> bool" where
  "process_gone K p w \<longleftrightarrow> (\<forall>v. probed K w v \<longrightarrow> isl (fst (k_kill K p 0 v)))"

lemma process_gone_now: "process_gone K p w \<Longrightarrow> isl (fst (k_kill K p 0 w))"
  by (simp add: process_gone_def probed_def)

lemma process_gone_probe: "process_gone K p w \<Longrightarrow> process_gone K p (snd (k_kill K q 0 w))"
  using converse_rtranclp_into_rtranclp [of "\<lambda>w w'. \<exists>q. w' = snd (k_kill K q 0 w)" w "snd (k_kill K q 0 w)"]
  unfolding process_gone_def probed_def by blast

lemma ref_alive_probe:
  assumes "ref_alive K r s = (b, s1)"
  shows "fe_heap s1 = fe_heap s \<and> fe_world s1 = snd (k_kill K (fh_PID (fe_heap s r)) 0 (fe_world s)) \<and>
    (b \<longleftrightarrow> \<not> isl (fst (k_kill K (fh_PID (fe_heap s r)) 0 (fe_world s))))"
  using assms by (auto simp: ref_alive_def in_world_def fh_IsAlive_def fh_PID_def split: prod.splits sum.splits)

lemma split_alive_gone:
  assumes "process_gone K (fh_PID (fe_heap s (c_Handle ct))) (fe_world s)" and "ct \<in> set cts"
    and "split_alive K cts s = ((live, dead), s')"
  shows "ct \<in> set dead"
  using assms
proof (induction cts arbitrary: s live dead s')
  case Nil
  then show ?case by simp
next
  case (Cons ct' cts)
  obtain b s1 where b: "ref_alive K (c_Handle ct') s = (b, s1)" by (rule prod.exhaust)
  obtain live1 dead1 s2 where r: "split_alive K cts s1 = ((live1, dead1), s2)" by (metis prod.exhaust)
  note probe = ref_alive_probe [OF b]
  show ?case
  proof (cases "ct = ct'")
    case True
    with probe process_gone_now [OF Cons.prems(1)] have "\<not> b" by simp
    with Cons.prems(3) True show ?thesis by (auto simp: b r)
  next
    case False
    have "process_gone K (fh_PID (fe_heap s1 (c_Handle ct))) (fe_world s1)"
      using process_gone_probe [OF Cons.prems(1)] probe by simp
    with False Cons.prems(2) Cons.IH [OF _ _ r] have "ct \<in> set dead1" by simp
    with Cons.prems(3) show ?thesis by (auto simp: b r split: if_splits)
  qed
qed

end
