(* ===== verification/Demo.thy ===== *)
theory Demo
  imports Session
begin

text \<open>
  A small operating system that satisfies the laws the properties rely on. It is not part of
  the program: the witnesses apply the properties to it at concrete inputs.
\<close>

record demo =
  d_now :: int
  d_mem :: "pid \<Rightarrow> memory"

definition demo_page :: addr where "demo_page = 0x7FFF77FC2000"

definition demo_regs :: uregs where
  "demo_regs = \<lparr>Rip = 0, Rax = demo_page, Rdi = 0, Rsi = 0, Rdx = 0, R10 = 0, r_R8 = 0, r_R9 = 0,
     other_regs = []\<rparr>"

definition demo_maps :: "string list" where
  "demo_maps = [''7ffff7fc1000-7ffff7fc3000 r-xp 00000000 00:00 0 [vdso]'']"

text \<open>
  Every process exists, is stopped, and its mmap gives \<open>demo_page\<close>. Two readings of the clock are
  less than 292 years apart.
\<close>

definition demo_kernel :: "demo kernel" where
  "demo_kernel =
     \<lparr>k_now = (\<lambda>w. (d_now w mod 2 ^ 62, w)),
      k_start = (\<lambda>c w. (Inr 42, w)),
      k_reap_cmd = (\<lambda>c w. w),
      k_attach = (\<lambda>p w. (Inr (), w)),
      k_seize = (\<lambda>p w. (Inr (), w)),
      k_interrupt = (\<lambda>p w. (Inr (), w)),
      k_detach = (\<lambda>p w. (Inr (), w)),
      k_getregs = (\<lambda>p w. (Inr demo_regs, w)),
      k_setregs = (\<lambda>p r w. (Inr (), w)),
      k_singlestep = (\<lambda>p w. (Inr (), w)),
      k_cont = (\<lambda>p s w. (Inr (), w)),
      k_poketext = (\<lambda>p a bs w. (Inr (), w\<lparr>d_mem := (d_mem w)(p := write_bytes (d_mem w p) a bs)\<rparr>)),
      k_setoptions = (\<lambda>p opts w. (Inr (), w)),
      k_geteventmsg = (\<lambda>p w. (Inr 43, w)),
      k_wait4 = (\<lambda>p fl w. (Inr (p, stop_status 0 5), w)),
      k_kill = (\<lambda>p s w. (Inr (), w)),
      k_vm_readv = (\<lambda>p a n w. (Inr (read_bytes (d_mem w p) a n), w)),
      k_vm_writev = (\<lambda>p a bs w. (Inr (length bs), w\<lparr>d_mem := (d_mem w)(p := write_bytes (d_mem w p) a bs)\<rparr>)),
      k_maps = (\<lambda>p w. (Inr demo_maps, w)),
      k_read_procmem = (\<lambda>p a n w. (Inr (read_bytes (d_mem w p) a n), w)),
      k_exe = (\<lambda>p w. (Inr ''/bin/demo'', w)),
      k_proc_dir = (\<lambda>w. (Inr [''1'', ''77'', ''42'', ''self''], w)),
      k_cgroup = (\<lambda>n w. (Inr ''0::/kubepods/pod1/0123456789abcdef0123456789'', w)),
      k_rand = (\<lambda>n w. (replicate n 0, w))\<rparr>"

lemma demo_mem_laws: "mem_laws demo_kernel d_mem"
  by (auto simp: mem_laws_def demo_kernel_def)

lemma demo_quiet_laws: "quiet_laws demo_kernel d_mem"
  by (auto simp: quiet_laws_def demo_kernel_def)

lemma demo_pokes_succeed: "pokes_succeed demo_kernel"
  by (auto simp: pokes_succeed_def demo_kernel_def)

text \<open>A process with empty memory, the wall clock at 1 000 000 000 s.\<close>

definition demo_world :: demo where
  "demo_world = \<lparr>d_now = 1000000000 * second, d_mem = (\<lambda>_ _. 0)\<rparr>"

lemma demo_reading [simp]: "1000000000 * second mod 4611686018427387904 = 1000000000 * second"
  by (simp add: second_def)

definition demo_handle :: inj_handle where
  "demo_handle = \<lparr>ih_PID = 42, ih_StateAddr = demo_page + 436, ih_patched = [], ih_gen = 0\<rparr>"

text \<open>The register file of a caller: rdi, rsi and rsp as given.\<close>

definition demo_cpu :: "64 word \<Rightarrow> 64 word \<Rightarrow> 64 word \<Rightarrow> memory \<Rightarrow> cpu" where
  "demo_cpu di si sp m =
     \<lparr>regs = (\<lambda>r. if r = RDI then di else if r = RSI then si else if r = RSP then sp else 0),
      mem = m, zf = False, lt = False\<rparr>"

definition demo_info :: VDSOInfo where
  "demo_info = \<lparr>v_Start = 0x7FFFF7FC1000, v_End = 0x7FFFF7FC3000,
     ClockGettimeAddr = 0x7FFFF7FC1900, GettimeofdayAddr = 0x7FFFF7FC1600,
     TimeAddr = 0x7FFFF7FC18D0\<rparr>"

lemma demo_spans: "List.map_filter parse_span demo_maps = [(0x7FFFF7FC1000, 0x7FFFF7FC3000)]"
  by (simp add: demo_maps_def parse_span_def Fields_def is_space_def parseHexAddr_def ParseHex_def
      hex_digit_def Let_def List.map_filter_simps)

lemma demo_scan:
  "gap_scan (gap_lo 0x7FFFF7FC1900) (gap_hi 0x7FFFF7FC1900) (gap_lo 0x7FFFF7FC1900)
     (List.map_filter parse_span demo_maps) = Inr demo_page"
  "gap_scan (gap_lo 0x7FFFF7FC1C00) (gap_hi 0x7FFFF7FC1C00) (gap_lo 0x7FFFF7FC1C00)
     (List.map_filter parse_span demo_maps) = Inr demo_page"
  by (simp_all add: demo_spans gap_lo_def gap_hi_def window_def align_up_def pageSize_def Let_def
      demo_page_def)

lemma demo_gap:
  "findNearbyGap demo_kernel p 0x7FFFF7FC1900 w = (Inr demo_page, w)"
  "findNearbyGap demo_kernel p 0x7FFFF7FC1C00 w = (Inr demo_page, w)"
  by (simp_all add: findNearbyGap_def demo_kernel_def demo_scan)

text \<open>The tracer's requests on this system.\<close>

definition poke :: "pid \<Rightarrow> addr \<Rightarrow> byte list \<Rightarrow> demo \<Rightarrow> demo" where
  "poke p a bs w = w\<lparr>d_mem := (d_mem w)(p := write_bytes (d_mem w p) a bs)\<rparr>"

lemma d_mem_poke [simp]: "d_mem (poke p a bs w) = (d_mem w)(p := write_bytes (d_mem w p) a bs)"
  by (simp add: poke_def)

lemma demo_steps:
  "GetRegs demo_kernel (t, w) = (Inr demo_regs, (t, w))"
  "SetRegs demo_kernel r (t, w) = (Inr (), (t, w))"
  "Cont demo_kernel sg (t, w) = (Inr (), (t, w))"
  "Wait demo_kernel (t, w) = (Inr (stop_status 0 5), (t, w))"
  "PokeText demo_kernel a bs (t, w) = (Inr (), (t, poke (t_pid t) a bs w))"
  "on_world (ReadMem demo_kernel p a 8) (t, w) = (Inr (8, read_bytes (d_mem w p) a 8), (t, w))"
  "on_world (ReadMem demo_kernel p a 5) (t, w) = (Inr (5, read_bytes (d_mem w p) a 5), (t, w))"
  "bs \<noteq> [] \<Longrightarrow> on_world (WriteMem demo_kernel p a bs) (t, w) = (Inr (length bs), (t, poke p a bs w))"
    and demo_write: "bs \<noteq> [] \<Longrightarrow> WriteMem demo_kernel p a bs w = (Inr (length bs), poke p a bs w)"
  by (simp_all add: GetRegs_def SetRegs_def Cont_def Wait_def PokeText_def ReadMem_def WriteMem_def
      syscall_as_def on_world_def attempt_def demo_kernel_def poke_def)

lemma demo_mmap:
  "remoteMmap demo_kernel p a f (t, w) =
     (Inr demo_page, (t, poke (t_pid t) a (read_bytes (d_mem w p) a 8) (poke (t_pid t) a syscall_int3 w)))"
  by (simp add: remoteMmap_def attempt_def demo_steps unless_restored_def mmap_list_def Let_def
      SIGTRAP_def demo_regs_def demo_page_def)

text \<open>The whole sequence with every entry in reach.\<close>

lemma payload_nonempty [simp]: "payload_with_state sec nsec msk \<noteq> []"
  by (simp add: StateOffset_def flip: length_greater_0_conv)

lemma demo_patch_fail:
  "\<not> in_reach demo_page hk \<Longrightarrow> patch_hooks demo_kernel p demo_page (hk # hks) (t, w) =
     (Inl (Msg ''inject: JMP rel32 displacement overflows int32''), (t, w))"
  by (simp add: Let_def in_reach_def)

lemma demo_patch_step:
  "in_reach demo_page hk \<Longrightarrow>
   patch_hooks demo_kernel p demo_page hks
     (t, poke (t_pid t) (hk_addr hk) (jmp_bytes (jmp_disp (hk_addr hk) (demo_page + of_nat (hk_off hk)))) w) =
       (Inl e, tw') \<Longrightarrow>
   patch_hooks demo_kernel p demo_page (hk # hks) (t, w) = (Inl e, tw')"
  by (simp add: Let_def in_reach_def attempt_def demo_steps)

lemma demo_patch:
  "list_all (in_reach demo_page) hks \<Longrightarrow>
     \<exists>phs w'. patch_hooks demo_kernel p demo_page hks (t, w) = (Inr phs, (t, w'))"
proof (induction hks arbitrary: w)
  case Nil
  then show ?case by simp
next
  case (Cons hk hks)
  then show ?case
    using Cons.IH by (simp add: Let_def in_reach_def attempt_def demo_steps split: prod.splits sum.splits)
      (metis Pair_inject sum.distinct(1) sum.inject(2))
qed

lemma demo_inject:
  "\<exists>h w'. injectWithTracer demo_kernel p demo_info sec nsec msk (t, w) = (Inr h, (t, w')) \<and>
     ih_StateAddr h = demo_page + of_nat StateOffset"
proof -
  have reach: "list_all (in_reach demo_page) (hook_table demo_info)"
    by (simp add: hook_table_def in_reach_def demo_info_def demo_page_def jmp_disp_def as_int32_def
        Let_def wrap64_def ClockGettimeEntryOffset_def GettimeofdayEntryOffset_def TimeEntryOffset_def)
  let ?w = "poke p demo_page (payload_with_state sec nsec msk)
    (poke (t_pid t) 0x7FFFF7FC1900 (read_bytes (d_mem w p) 0x7FFFF7FC1900 8)
      (poke (t_pid t) 0x7FFFF7FC1900 syscall_int3 w))"
  obtain phs w' where "patch_hooks demo_kernel p demo_page (hook_table demo_info) (t, ?w) =
      (Inr phs, (t, w'))"
    using demo_patch [OF reach] by blast
  moreover have "ClockGettimeAddr demo_info = 0x7FFFF7FC1900" by (simp add: demo_info_def)
  ultimately show ?thesis
    by (simp add: injectWithTracer_def attempt_def on_world_def demo_gap demo_mmap demo_write)
qed

text \<open>The vDSO of every process.\<close>

definition demo_elf :: elf_reader where
  "demo_elf data = Inr [(''clock_gettime'', 0x900), (''gettimeofday'', 0x600), (''__vdso_time'', 0x8D0)]"

lemma demo_vdso_range: "findVDSORange demo_kernel p w = (Inr (0x7FFFF7FC1000, 0x7FFFF7FC3000), w)"
  by (simp add: findVDSORange_def demo_kernel_def demo_maps_def vdso_line_def Fields_def is_space_def
      ParseHex_def hex_digit_def Let_def)

lemma demo_locate: "Locate demo_kernel demo_elf p w = (Inr demo_info, w)"
proof -
  have "readProcMem demo_kernel p 0x7FFFF7FC1000 0x2000 w =
      (Inr (read_bytes (d_mem w p) 0x7FFFF7FC1000 0x2000), w)"
    by (simp add: readProcMem_def demo_kernel_def)
  then show ?thesis
    by (simp add: Locate_def attempt_def demo_vdso_range demo_elf_def resolve_all_def resolveSymbol_def
        in_range_def Let_def demo_info_def)
qed

lemma demo_inject_pid:
  "\<exists>h w'. InjectAtTime demo_kernel demo_elf p t w = (Inr h, w')"
  "\<exists>h w'. InjectFrozen demo_kernel demo_elf p t w = (Inr h, w')"
proof -
  let ?t = "NewTracer\<lparr>t_pid := p\<rparr>"
  have seize: "Seize demo_kernel p (NewTracer, w) = (Inr (), (?t, w))"
    by (simp add: Seize_def demo_kernel_def)
  have core: "\<exists>h w'. injectCore demo_kernel demo_elf p sec nsec msk w = (Inr h, w')" for sec nsec msk
  proof -
    obtain h w' where "injectWithTracer demo_kernel p demo_info sec nsec msk (?t, w) = (Inr h, (?t, w'))"
      using demo_inject by blast
    then show ?thesis
      by (simp add: injectCore_def with_new_tracer_def attempt_def seize deferring_def on_world_def
          demo_locate split: prod.splits)
  qed
  then show "\<exists>h w'. InjectFrozen demo_kernel demo_elf p t w = (Inr h, w')"
    by (simp add: InjectFrozen_def frozen_at_def)
  obtain s n where "diffSecNsec t (d_now w mod 2 ^ 62) = (s, n)" by (rule prod.exhaust)
  with core show "\<exists>h w'. InjectAtTime demo_kernel demo_elf p t w = (Inr h, w')"
    by (simp add: InjectAtTime_def at_time_def demo_kernel_def)
qed

end
