(* ===== verification/InjectClaims.thy ===== *)
theory InjectClaims
  imports Demo
begin

text \<open>
  What a process with an injected trampoline reads from its clocks, and what the injection
  sequence leaves in its memory: the properties of trampoline, procmem, vdso and inject together.
\<close>

section \<open>What a hooked process reads\<close>

text \<open>
  C6. After a successful \<open>SetTime(target)\<close>, a call of the hooked \<open>clock_gettime\<close> for
  CLOCK_REALTIME (or its coarse variant) in the target process succeeds within four basic
  blocks and stores the normalised instant \<open>target\<close> plus the real time that has passed since
  the injector read its clock.
\<close>

theorem set_time_clock_gettime:
  fixes K :: "'w kernel"
  assumes laws: "mem_laws K view"
    and set: "SetTime K h target w = (None, h', w')"
    and now: "k_now K w = (now, w1)" and range: "in_int64 (target - now)"
    and m: "mem c = view w' (ih_PID h)"
    and frame: "hook_frame (ih_StateAddr h) (regs c RSI) (regs c RSP)" "regs c RSI \<noteq> 0"
    and clk: "ucast (regs c RDI) \<in> {0, 5 :: 32 word}"
    and kern: "kernel_clock sc rd" "rd (ucast (regs c RDI)) = (rs, rn)" "0 \<le> rn" "rn < second"
  shows "\<exists>c'. run hook sc (ih_StateAddr h) 4 Cgt_entry c = Some c' \<and> regs c' RAX = 0 \<and>
    (let t = target + (rs * second + rn - now)
     in stores_pair (regs c RSI) (time_Unix t, time_Nanosecond t) c')"
proof -
  obtain s n where d: "diffSecNsec target now = (s, n)" by (rule prod.exhaust)
  have wr: "writeState K h s n MaskEnabled w1 = (None, h', w')"
    using set by (simp add: SetTime_def now d)
  note st = writeState_ok(2) [OF laws wr, folded m]
  note n = diffSecNsec_nsec [OF d] and tot = diffSecNsec_total [OF d]
  have "s * second + n = target - now" using tot range by simp
  then have eq: "rs * second + rn + (s * second + n) = target + (rs * second + rn - now)"
    by linarith
  have "adv_timespec (rs, rn) (s, n) =
      (let t = target + (rs * second + rn - now) in (time_Unix t, time_Nanosecond t))"
    using adv_timespec_instant [of rn n rs s] kern(3,4) n unfolding eq by simp
  with cgt_advancing_run [OF frame st _ clk kern(1,2)] kern(3,4) n show ?thesis
    by (auto simp: Let_def second_def)
qed

theorem set_time_clock_gettime_witness:
  "\<exists>h' w' c'. SetTime demo_kernel demo_handle (2000000000 * second) demo_world = (None, h', w') \<and>
     run hook (fixed_kernel (1000000005, 7)) (demo_page + 436) 4 Cgt_entry
       (demo_cpu 0 0x1000 0x2000 (d_mem w' 42)) = Some c' \<and>
     stores_pair 0x1000 (2000000005, 7) c'"
proof -
  obtain e h' w' where s: "SetTime demo_kernel demo_handle (2000000000 * second) demo_world = (e, h', w')"
    by (metis prod.exhaust)
  then have e: "e = None"
    by (auto simp: SetTime_def demo_kernel_def writeState_def WriteMem_def Let_def
        split: prod.splits if_splits)
  have now: "k_now demo_kernel demo_world = (1000000000 * second, demo_world)"
    by (simp add: demo_kernel_def demo_world_def)
  have "\<exists>c'. run hook (fixed_kernel (1000000005, 7)) (ih_StateAddr demo_handle) 4 Cgt_entry
       (demo_cpu 0 0x1000 0x2000 (d_mem w' 42)) = Some c' \<and>
     regs c' RAX = 0 \<and>
     (let t = 2000000000 * second + (1000000005 * second + 7 - 1000000000 * second)
      in stores_pair (regs (demo_cpu 0 0x1000 0x2000 (d_mem w' 42)) RSI)
           (time_Unix t, time_Nanosecond t) c')"
    by (rule set_time_clock_gettime [OF demo_mem_laws s [unfolded e] now])
      (simp_all add: demo_cpu_def demo_handle_def demo_page_def hook_frame_def apart_def second_def
        in_int64_def min_duration_def max_duration_def)
  with s e show ?thesis
    by (auto simp: demo_handle_def demo_cpu_def second_def time_Unix_def time_Nanosecond_def)
qed


text \<open>
  C7. After a successful \<open>Freeze(target)\<close>, every call of the hooked \<open>clock_gettime\<close> for a
  wall clock stores exactly \<open>target\<close>, whatever the kernel's clock reads.
\<close>

theorem freeze_clock_gettime:
  fixes K :: "'w kernel"
  assumes laws: "mem_laws K view"
    and frz: "Freeze K h target w = (None, h', w')"
    and m: "mem c = view w' (ih_PID h)"
    and frame: "hook_frame (ih_StateAddr h) (regs c RSI) (regs c RSP)" "regs c RSI \<noteq> 0"
    and clk: "ucast (regs c RDI) \<in> {0, 5 :: 32 word}"
  shows "\<exists>c'. run hook sc (ih_StateAddr h) 4 Cgt_entry c = Some c' \<and> regs c' RAX = 0 \<and>
    stores_pair (regs c RSI) (time_Unix target, time_Nanosecond target) c'"
proof -
  note st = writeState_ok(2) [OF laws frz [unfolded Freeze_def], folded m]
  show ?thesis using cgt_frozen_run [OF frame st _ clk] by auto
qed

theorem freeze_clock_gettime_witness:
  "\<exists>h' w' c'. Freeze demo_kernel demo_handle (2000000000 * second + 5) demo_world = (None, h', w') \<and>
     run hook (fixed_kernel (1000000005, 7)) (demo_page + 436) 4 Cgt_entry
       (demo_cpu 5 0x1000 0x2000 (d_mem w' 42)) = Some c' \<and>
     stores_pair 0x1000 (2000000000, 5) c'"
proof -
  obtain e h' w' where s: "Freeze demo_kernel demo_handle (2000000000 * second + 5) demo_world = (e, h', w')"
    by (metis prod.exhaust)
  then have e: "e = None"
    by (auto simp: Freeze_def demo_kernel_def writeState_def WriteMem_def Let_def
        split: prod.splits if_splits)
  have "\<exists>c'. run hook (fixed_kernel (1000000005, 7)) (ih_StateAddr demo_handle) 4 Cgt_entry
       (demo_cpu 5 0x1000 0x2000 (d_mem w' 42)) = Some c' \<and> regs c' RAX = 0 \<and>
     stores_pair (regs (demo_cpu 5 0x1000 0x2000 (d_mem w' 42)) RSI)
       (time_Unix (2000000000 * second + 5), time_Nanosecond (2000000000 * second + 5)) c'"
    by (rule freeze_clock_gettime [OF demo_mem_laws s [unfolded e]])
      (simp_all add: demo_cpu_def demo_handle_def demo_page_def hook_frame_def apart_def)
  with s e show ?thesis
    by (auto simp: demo_handle_def demo_cpu_def second_def time_Unix_def time_Nanosecond_def)
qed

text \<open>
  C15. In one mode and at one reading of the kernel's clock, the hooked \<open>time\<close> returns exactly
  the seconds that the hooked \<open>clock_gettime\<close> stores, and stores them through its pointer
  unless that is NULL; the carry and the borrow of the nanoseconds are included.
\<close>

theorem time_agrees_with_clock_gettime:
  assumes st: "state_at (mem c) st s" "state_at (mem d) st s"
    and mode: "enabledMask s \<in> {MaskEnabled, MaskFrozen}"
    and on: "- second < offsetNsec s" "offsetNsec s < second"
    and frames: "hook_frame st (regs c RSI) (regs c RSP)" "regs c RSI \<noteq> 0" "regs c RDI = 0"
      "hook_frame st (regs d RDI) (regs d RSP)"
    and kern: "kernel_clock sc rd" "rd 0 = (rs, rn)" "0 \<le> rn" "rn < second"
  shows "\<exists>c' d'. run hook sc st 4 Cgt_entry c = Some c' \<and> run hook sc st 4 Time_entry d = Some d' \<and>
    regs d' RAX = read64 (mem c') (regs c RSI) \<and>
    (regs d RDI \<noteq> 0 \<longrightarrow> read64 (mem d') (regs d RDI) = regs d' RAX)"
proof (cases "enabledMask s = MaskEnabled")
  case True
  have clk: "ucast (regs c RDI) \<in> {0, 5 :: 32 word}" "rd (ucast (regs c RDI)) = (rs, rn)"
    using frames(3) kern(2) by simp_all
  note bounds = kern(3,4) [unfolded second_def] on [unfolded second_def]
  obtain c' where "run hook sc st 4 Cgt_entry c = Some c'"
      "stores_pair (regs c RSI) (adv_timespec (rs, rn) (offsetSec s, offsetNsec s)) c'"
    using cgt_advancing_run [OF frames(1,2) st(1) True clk(1) kern(1) clk(2) bounds] by blast
  moreover obtain d' where "run hook sc st 4 Time_entry d = Some d'"
      "regs d' RAX = word_of_int (fst (adv_timespec (rs, rn) (offsetSec s, offsetNsec s)))"
      "regs d RDI \<noteq> 0 \<longrightarrow> read64 (mem d') (regs d RDI) = regs d' RAX"
    using time_advancing_run [OF frames(4) st(2) True kern(1,2) bounds] by blast
  ultimately show ?thesis by (auto simp: stores_pair_def)
next
  case False
  with mode have frozen: "enabledMask s = MaskFrozen" by simp
  have clk: "ucast (regs c RDI) \<in> {0, 5 :: 32 word}" using frames(3) by simp
  show ?thesis
    using cgt_frozen_run [OF frames(1,2) st(1) frozen clk, of sc]
      time_frozen_run [OF frames(4) st(2) frozen, of sc]
    by (auto simp: stores_pair_def)
qed

definition demo_state :: tramp_state where
  "demo_state = \<lparr>offsetSec = 0, offsetNsec = 500, enabledMask = MaskEnabled, generation = 0\<rparr>"

definition demo_memory :: memory where
  "demo_memory = write_bytes (\<lambda>_. 0) 0x9000 (encode_state demo_state)"

lemma demo_memory_state: "state_at demo_memory 0x9000 demo_state"
  using read_bytes_write_same [of "encode_state demo_state"]
  by (simp add: state_at_def demo_memory_def encode_state_def StateSize_def)

theorem time_agrees_with_clock_gettime_witness:
  "\<exists>c' d'. run hook (fixed_kernel (1000, 999999500)) 0x9000 4 Cgt_entry
      (demo_cpu 0 0x1000 0x2000 demo_memory) = Some c' \<and>
    run hook (fixed_kernel (1000, 999999500)) 0x9000 4 Time_entry
      (demo_cpu 0 0 0x2000 demo_memory) = Some d' \<and>
    regs d' RAX = read64 (mem c') 0x1000"
  using time_agrees_with_clock_gettime [where c = "demo_cpu 0 0x1000 0x2000 demo_memory"
      and st = "0x9000" and s = demo_state and d = "demo_cpu 0 0 0x2000 demo_memory"
      and sc = "fixed_kernel (1000, 999999500)" and rd = "\<lambda>_. (1000, 999999500)"]
  by (simp add: demo_cpu_def demo_memory_state hook_frame_def apart_def)
    (simp add: demo_state_def second_def)

text \<open>
  C26. The hooked \<open>gettimeofday\<close> truncates the kernel's reading and the offset to microseconds
  separately: what it stores is normalised and lies at most 1998 ns before and 999 ns after
  \<open>target\<close> plus the time that has passed since the injector read its clock.
\<close>

theorem set_time_gettimeofday:
  fixes K :: "'w kernel"
  assumes laws: "mem_laws K view"
    and set: "SetTime K h target w = (None, h', w')"
    and now: "k_now K w = (now, w1)" and range: "in_int64 (target - now)"
    and m: "mem c = view w' (ih_PID h)"
    and frame: "hook_frame (ih_StateAddr h) (regs c RDI) (regs c RSP)" "regs c RDI \<noteq> 0"
      "regs c RSI = 0"
    and kern: "kernel_tod sc (rs, rn div 1000)" "0 \<le> rn" "rn < second"
  shows "\<exists>c' ts tu. run hook sc (ih_StateAddr h) 4 Gtod_entry c = Some c' \<and> regs c' RAX = 0 \<and>
    stores_pair (regs c RDI) (ts, tu) c' \<and> 0 \<le> tu \<and> tu < 1000000 \<and>
    (let t = target + (rs * second + rn - now)
     in t - 1998 \<le> (ts * 1000000 + tu) * 1000 \<and> (ts * 1000000 + tu) * 1000 \<le> t + 999)"
proof -
  obtain s n where d: "diffSecNsec target now = (s, n)" by (rule prod.exhaust)
  have wr: "writeState K h s n MaskEnabled w1 = (None, h', w')"
    using set by (simp add: SetTime_def now d)
  note st = writeState_ok(2) [OF laws wr, folded m]
  note n = diffSecNsec_nsec [OF d] and tot = diffSecNsec_total [OF d]
  have us: "0 \<le> rn div 1000" "rn div 1000 < 1000000" using kern(2,3) by (simp_all add: second_def)
  have "s * second + n = target - now" using tot range by simp
  then have eq: "rs * second + rn + (s * second + n) = target + (rs * second + rn - now)"
    by linarith
  obtain c' where "run hook sc (ih_StateAddr h) 4 Gtod_entry c = Some c'" "regs c' RAX = 0"
    "stores_pair (regs c RDI) (adv_timeval (rs, rn div 1000) (s, n)) c'"
    using gtod_advancing_run [OF frame st _ kern(1) us] n by (auto simp: second_def)
  then show ?thesis
    using adv_timeval_normal [OF us n, of rs s] adv_timeval_error [of rs rn s n] unfolding eq
    by (intro exI [of _ c'] exI [of _ "fst (adv_timeval (rs, rn div 1000) (s, n))"]
        exI [of _ "snd (adv_timeval (rs, rn div 1000) (s, n))"]) (simp add: Let_def)
qed

theorem set_time_gettimeofday_witness:
  "\<exists>h' w' c' ts tu. SetTime demo_kernel demo_handle (2000000000 * second) demo_world = (None, h', w') \<and>
     run hook (fixed_kernel (1000000005, 7500)) (demo_page + 436) 4 Gtod_entry
       (demo_cpu 0x1000 0 0x2000 (d_mem w' 42)) = Some c' \<and> stores_pair 0x1000 (ts, tu) c' \<and>
     (ts * 1000000 + tu) * 1000 \<le> 2000000005 * second + 8499"
proof -
  obtain e h' w' where s: "SetTime demo_kernel demo_handle (2000000000 * second) demo_world = (e, h', w')"
    by (metis prod.exhaust)
  then have e: "e = None"
    by (auto simp: SetTime_def demo_kernel_def writeState_def WriteMem_def Let_def
        split: prod.splits if_splits)
  have now: "k_now demo_kernel demo_world = (1000000000 * second, demo_world)"
    by (simp add: demo_kernel_def demo_world_def)
  have tod: "kernel_tod (fixed_kernel (1000000005, 7500)) (1000000005, 7500 div 1000)"
    using kernel_tod_fixed [of "(1000000005, 7500)"] by simp
  show ?thesis
    using set_time_gettimeofday [OF demo_mem_laws s [unfolded e] now _ _ _ _ _ tod,
        of "demo_cpu 0x1000 0 0x2000 (d_mem w' 42)"] s e
    by (simp add: demo_cpu_def demo_handle_def demo_page_def hook_frame_def apart_def second_def
        in_int64_def min_duration_def max_duration_def Let_def) blast
qed

text \<open>
  The three hooks do not always agree to the second: with an offset of 500 ns and a real
  clock at 999 999 500 ns past second 1000, \<open>clock_gettime\<close> stores (1001, 0), \<open>gettimeofday\<close>
  still stores second 1000.
\<close>

theorem gettimeofday_disagrees_with_clock_gettime:
  "\<exists>c' d'. run hook (fixed_kernel (1000, 999999500)) 0x9000 4 Cgt_entry
      (demo_cpu 0 0x1000 0x2000 demo_memory) = Some c' \<and> stores_pair 0x1000 (1001, 0) c' \<and>
    run hook (fixed_kernel (1000, 999999500)) 0x9000 4 Gtod_entry
      (demo_cpu 0x1000 0 0x2000 demo_memory) = Some d' \<and> stores_pair 0x1000 (1000, 999999) d'"
proof -
  have st: "state_at (mem (demo_cpu a b 0x2000 demo_memory)) 0x9000 demo_state" for a b
    by (simp add: demo_cpu_def demo_memory_state)
  have frame: "hook_frame 0x9000 0x1000 0x2000" by (simp add: hook_frame_def apart_def)
  have c: "adv_timespec (1000, 999999500) (offsetSec demo_state, offsetNsec demo_state) = (1001, 0)"
    "adv_timeval (1000, 999999) (offsetSec demo_state, offsetNsec demo_state) = (1000, 999999)"
    by (simp_all add: adv_timespec_def adv_timeval_def demo_state_def Let_def signed_divide_int_def)
  have tod: "kernel_tod (fixed_kernel (1000, 999999500)) (1000, 999999)"
    using kernel_tod_fixed [of "(1000, 999999500)"] by simp
  have 1: "\<exists>c'. run hook (fixed_kernel (1000, 999999500)) 0x9000 4 Cgt_entry
      (demo_cpu 0 0x1000 0x2000 demo_memory) = Some c' \<and> stores_pair 0x1000 (1001, 0) c'"
    using cgt_advancing_run [OF _ _ st [of 0 "0x1000"] _ _ kernel_clock_fixed,
        where rs = 1000 and rn = 999999500] frame
    by (simp add: demo_cpu_def c) (auto simp: demo_state_def)
  have 2: "\<exists>d'. run hook (fixed_kernel (1000, 999999500)) 0x9000 4 Gtod_entry
      (demo_cpu 0x1000 0 0x2000 demo_memory) = Some d' \<and> stores_pair 0x1000 (1000, 999999) d'"
    using gtod_advancing_run [OF _ _ _ st [of "0x1000" 0] _ tod] frame
    by (simp add: demo_cpu_def c) (auto simp: demo_state_def)
  from 1 2 show ?thesis by blast
qed

section \<open>What an injection leaves behind\<close>

text \<open>
  C8. When the injection sequence succeeds, each of the three vDSO entry points starts with a
  five-byte jump to its stub in the trampoline page, the page holds the payload with the initial
  state encoded in it, and the returned handle names that page's state struct with generation 0;
  the layout hypothesis is that the three entries and the page do not overlap one another.
\<close>

theorem injection_patches_all_hooks:
  fixes K :: "'w kernel"
  assumes laws: "mem_laws K view" and pid: "t_pid t = pid"
    and ok: "injectWithTracer K pid info sec nsec msk (t, w) = (Inr h, (t', w'))"
    and layout: "hook_layout info (ih_StateAddr h - of_nat StateOffset)"
  shows "\<exists>page. ih_StateAddr h = page + of_nat StateOffset \<and> ih_PID h = pid \<and> ih_gen h = 0 \<and>
      map ph_addr (ih_patched h) = [ClockGettimeAddr info, GettimeofdayAddr info, TimeAddr info] \<and>
      is_jmp_to (read_bytes (view w' pid) (ClockGettimeAddr info) 5) (ClockGettimeAddr info)
        (page + of_nat ClockGettimeEntryOffset) \<and>
      is_jmp_to (read_bytes (view w' pid) (GettimeofdayAddr info) 5) (GettimeofdayAddr info)
        (page + of_nat GettimeofdayEntryOffset) \<and>
      is_jmp_to (read_bytes (view w' pid) (TimeAddr info) 5) (TimeAddr info)
        (page + of_nat TimeEntryOffset) \<and>
      read_bytes (view w' pid) page 468 = payload_with_state sec nsec msk \<and>
      state_at (view w' pid) (ih_StateAddr h)
        \<lparr>offsetSec = sec, offsetNsec = nsec, enabledMask = msk, generation = 0\<rparr>"
proof (rule injectWithTracer_memory [OF laws pid ok])
  fix page m
  assume view: "view w' pid = fold (apply_hook page) (hook_table info)
      (write_bytes m page (payload_with_state sec nsec msk))"
    and reach: "list_all (in_reach page) (hook_table info)"
    and h: "ih_PID h = pid" "ih_StateAddr h = page + of_nat StateOffset" "ih_gen h = 0"
      "map ph_addr (ih_patched h) = map hk_addr (hook_table info)"
  have "hook_layout info page" using layout by (simp add: h(2))
  note reads = injected_memory_reads [OF this reach, of m sec nsec msk, folded view]
  show ?thesis
    using reads h by (intro exI [of _ page]) (simp add: hook_table_def)
qed

theorem injection_patches_all_hooks_witness:
  "\<exists>h t' w'. injectWithTracer demo_kernel 42 demo_info 7 8 MaskEnabled (\<lparr>t_pid = 42\<rparr>, demo_world) =
      (Inr h, (t', w')) \<and>
    is_jmp_to (read_bytes (d_mem w' 42) 0x7FFFF7FC18D0 5) 0x7FFFF7FC18D0 (demo_page + 306)"
proof -
  obtain h t' w' where ok: "injectWithTracer demo_kernel 42 demo_info 7 8 MaskEnabled
      (\<lparr>t_pid = 42\<rparr>, demo_world) = (Inr h, (t', w'))"
    and h: "ih_StateAddr h = demo_page + of_nat StateOffset"
    using demo_inject by blast
  have "hook_layout demo_info (ih_StateAddr h - of_nat StateOffset)"
    by (simp add: h hook_layout_def entries_apart_def hook_table_def demo_info_def demo_page_def
        apart_def)
  from injection_patches_all_hooks [OF demo_mem_laws _ ok this] h ok show ?thesis
    by (auto simp: demo_info_def TimeEntryOffset_def)
qed

text \<open>
  C9. Whatever happens during the remote mmap, the eight bytes of vDSO text that it overwrites
  with the syscall stub are afterwards what they were before, on success and on every error
  path, provided that text pokes succeed.
\<close>

theorem remote_mmap_restores_text:
  fixes K :: "'w kernel"
  assumes "mem_laws K view" and "quiet_laws K view" and "pokes_succeed K"
    and "remoteMmap K (t_pid t) a fixedAddr (t, w) = (r, (t', w'))"
  shows "read_bytes (view w' (t_pid t)) a 8 = read_bytes (view w (t_pid t)) a 8 \<and> t' = t"
  using remoteMmap_text [OF assms] by simp

theorem remote_mmap_restores_text_witness:
  "\<exists>r t' w'. remoteMmap demo_kernel 42 0x7FFFF7FC1900 0 (\<lparr>t_pid = 42\<rparr>, demo_world) = (r, (t', w')) \<and>
     read_bytes (d_mem w' 42) 0x7FFFF7FC1900 8 = read_bytes (d_mem demo_world 42) 0x7FFFF7FC1900 8"
proof -
  obtain r t' w' where
    "remoteMmap demo_kernel 42 0x7FFFF7FC1900 0 (\<lparr>t_pid = 42\<rparr>, demo_world) = (r, (t', w'))"
    by (metis prod.exhaust)
  with remote_mmap_restores_text [OF demo_mem_laws demo_quiet_laws demo_pokes_succeed,
      of "\<lparr>t_pid = 42\<rparr>" "0x7FFFF7FC1900" 0 demo_world r t' w']
  show ?thesis by auto
qed

text \<open>
  C12. On a well-formed maps file the search for a page near the vDSO returns the lowest free
  aligned page inside the window whenever there is one, and an error exactly when there is none.
  The vDSO lies in the lower half of the address space, as user memory does.
\<close>

theorem find_nearby_gap_lowest_free:
  assumes maps: "k_maps K pid w = (Inr ls, w')"
    and spans: "spans_ok (List.map_filter parse_span ls)" and near: "unat near < 2 ^ 63"
  shows "case findNearbyGap K pid near w of
      (Inr r, _) \<Rightarrow>
        free_page (unat (gap_lo near)) (unat (gap_hi near)) (List.map_filter parse_span ls) (unat r) \<and>
        (\<forall>r'. free_page (unat (gap_lo near)) (unat (gap_hi near)) (List.map_filter parse_span ls) r' \<longrightarrow>
          unat r \<le> r')
    | (Inl e, _) \<Rightarrow>
        (\<forall>r'. \<not> free_page (unat (gap_lo near)) (unat (gap_hi near)) (List.map_filter parse_span ls) r')"
proof -
  let ?lo = "gap_lo near" and ?hi = "gap_hi near" and ?sp = "List.map_filter parse_span ls"
  have "?lo \<le> near \<or> ?lo = pageSize" by (auto simp: gap_lo_def Let_def)
  then have lim: "unat ?lo \<le> addr_limit"
    using near by (auto simp: addr_limit_def pageSize_def word_le_nat_alt)
  have run: "findNearbyGap K pid near w = (gap_scan ?lo ?hi ?lo ?sp, w')"
    using maps by (simp add: findNearbyGap_def)
  have complete: "\<exists>r. gap_scan ?lo ?hi ?lo ?sp = Inr r \<and> unat r \<le> r'"
    if "free_page (unat ?lo) (unat ?hi) ?sp r'" for r'
    using gap_scan_complete [OF spans lim lim that] that by (simp add: free_page_def)
  show ?thesis
  proof (cases "gap_scan ?lo ?hi ?lo ?sp")
    case (Inl e)
    with complete show ?thesis unfolding run by auto
  next
    case (Inr r)
    have "free_page (unat ?lo) (unat ?hi) ?sp (unat r)"
      using gap_scan_sound [OF spans lim lim _ Inr] by auto
    with Inr complete show ?thesis unfolding run by auto
  qed
qed

theorem find_nearby_gap_lowest_free_witness:
  "findNearbyGap demo_kernel 42 0x7FFFF7FC1900 demo_world = (Inr demo_page, demo_world) \<and>
   free_page (unat (gap_lo 0x7FFFF7FC1900)) (unat (gap_hi 0x7FFFF7FC1900))
     (List.map_filter parse_span demo_maps) (unat demo_page)"
proof -
  have "k_maps demo_kernel 42 demo_world = (Inr demo_maps, demo_world)"
    by (simp add: demo_kernel_def)
  from find_nearby_gap_lowest_free [OF this, of "0x7FFFF7FC1900"] show ?thesis
    by (simp add: demo_gap demo_spans spans_ok_def addr_limit_def)
qed

definition spread_info :: VDSOInfo where
  "spread_info = \<lparr>v_Start = 0x7FFFF7FC1000, v_End = 0x7FFFF7FC3000,
     ClockGettimeAddr = 0x7FFFF7FC1C00, GettimeofdayAddr = 0x7FFFF7FC1600,
     TimeAddr = 0x7FFFF7FC2800\<rparr>"

text \<open>
  Being in the window around one entry point does not put a page within reach of the other
  two: with the entries 3072 bytes apart the lowest page of the window is out of the jump range
  of \<open>time\<close>, the injection fails, and the jump already written over \<open>clock_gettime\<close> stays.
\<close>

theorem partial_patch_left_behind:
  "\<exists>e w'. injectWithTracer demo_kernel 42 spread_info 7 8 MaskEnabled (\<lparr>t_pid = 42\<rparr>, demo_world) =
      (Inl e, (\<lparr>t_pid = 42\<rparr>, w')) \<and>
    e = Msg ''inject: JMP rel32 displacement overflows int32'' \<and>
    is_jmp_to (read_bytes (d_mem w' 42) 0x7FFFF7FC1C00 5) 0x7FFFF7FC1C00 demo_page"
proof -
  let ?jmp = "jmp_bytes (jmp_disp 0x7FFFF7FC1C00 demo_page)"
  have reach: "in_reach demo_page (hook_table spread_info ! 0)"
    "in_reach demo_page (hook_table spread_info ! 1)"
    "\<not> in_reach demo_page (hook_table spread_info ! 2)"
    by (simp_all add: in_reach_def Let_def hook_table_def spread_info_def jmp_disp_def as_int32_def
        demo_page_def wrap64_def ClockGettimeEntryOffset_def GettimeofdayEntryOffset_def
        TimeEntryOffset_def)
  let ?w0 = "poke 42 demo_page (payload_with_state 7 8 MaskEnabled)
    (poke 42 0x7FFFF7FC1C00 (read_bytes (d_mem demo_world 42) 0x7FFFF7FC1C00 8)
      (poke 42 0x7FFFF7FC1C00 syscall_int3 demo_world))"
  let ?w1 = "poke 42 0x7FFFF7FC1C00 ?jmp ?w0"
  let ?w2 = "poke 42 0x7FFFF7FC1600 (jmp_bytes (jmp_disp 0x7FFFF7FC1600 (demo_page + 141))) ?w1"
  have table: "hook_table spread_info =
      [hook_table spread_info ! 0, hook_table spread_info ! 1, hook_table spread_info ! 2]"
    by (simp add: hook_table_def)
  have patch: "patch_hooks demo_kernel 42 demo_page (hook_table spread_info) (\<lparr>t_pid = 42\<rparr>, ?w0) =
      (Inl (Msg ''inject: JMP rel32 displacement overflows int32''), (\<lparr>t_pid = 42\<rparr>, ?w2))"
    by (subst table, rule demo_patch_step [OF reach(1)], rule demo_patch_step [OF reach(2)],
        subst demo_patch_fail [OF reach(3)])
      (simp add: hook_table_def spread_info_def ClockGettimeEntryOffset_def
        GettimeofdayEntryOffset_def)
  have run: "injectWithTracer demo_kernel 42 spread_info 7 8 MaskEnabled (\<lparr>t_pid = 42\<rparr>, demo_world) =
      (Inl (Msg ''inject: JMP rel32 displacement overflows int32''), (\<lparr>t_pid = 42\<rparr>, ?w2))"
  proof -
    have "ClockGettimeAddr spread_info = 0x7FFFF7FC1C00" by (simp add: spread_info_def)
    with patch show ?thesis
      by (simp add: injectWithTracer_def attempt_def on_world_def demo_gap demo_mmap demo_write)
  qed
  have "apart 0x7FFFF7FC1C00 5 0x7FFFF7FC1600 5" by (simp add: apart_def)
  then have "read_bytes (d_mem ?w2 42) 0x7FFFF7FC1C00 5 = ?jmp"
    using read_bytes_write_same [of ?jmp "d_mem ?w0 42" "0x7FFFF7FC1C00"]
    by (simp add: read_bytes_write_apart)
  moreover have "is_jmp_to ?jmp 0x7FFFF7FC1C00 demo_page"
    using reach(1) jmp_bytes_target [of "0x7FFFF7FC1C00" demo_page]
    by (simp add: in_reach_def Let_def hook_table_def spread_info_def ClockGettimeEntryOffset_def)
  ultimately show ?thesis using run by simp
qed

end
