(* ===== verification/TrackerClaims.thy ===== *)
theory TrackerClaims
  imports Demo
begin

text \<open>
  The properties of the faketime package: the process handle and the child tracker.
\<close>

section \<open>The process handle\<close>

text \<open>
  C34. Advancing a handle keeps its mode; a frozen clock moves by exactly the given duration, a
  running one shows, at any later instant, its old reading plus the duration plus the real time
  since the write.
\<close>

theorem handle_advance:
  assumes "fh_Advance K d h w = (None, h', w')"
  shows "fh_frozen h' = fh_frozen h \<and>
    (if fh_frozen h then fh_eff n h' = fh_eff n h + d
     else \<exists>now0 w0 now1 w1. k_now K w = (now0, w0) \<and> k_now K w1 = (now1, w') \<and>
        (in_int64 (fh_eff now0 h + d - now1) \<longrightarrow> fh_eff n h' = fh_eff now0 h + d + (n - now1)))"
  using fh_Advance_None(1) [OF assms] fh_Advance_None(2,3) [OF assms, of n] by auto

definition demo_fhandle :: fhandle where
  "demo_fhandle = \<lparr>fh_h = demo_handle, fh_offset = 0, fh_frozenAt = 5 * second, fh_frozen = True\<rparr>"

theorem handle_advance_witness:
  "\<exists>h' w'. fh_Advance demo_kernel (3 * second) demo_fhandle demo_world = (None, h', w') \<and>
     fh_frozen h' \<and> fh_eff 0 h' = 8 * second"
proof -
  obtain e h' w' where r: "fh_Advance demo_kernel (3 * second) demo_fhandle demo_world = (e, h', w')"
    by (metis prod.exhaust)
  then have "e = None"
    by (auto simp: fh_Advance_def effectiveTime_def demo_fhandle_def Let_def fh_Freeze_def Freeze_def
        writeState_def WriteMem_def demo_kernel_def split: prod.splits if_splits)
  with r handle_advance [of demo_kernel "3 * second" demo_fhandle demo_world h' w' 0]
  show ?thesis by (auto simp: demo_fhandle_def fh_eff_def split: if_splits)
qed

text \<open>
  After a successful \<open>SetTime\<close> the clock that the handle reports lags the clock that the
  process sees by exactly the time between the two readings that the method takes: one for the
  injected offset, one for its own record.
\<close>

theorem handle_reports_injected_clock:
  fixes K :: "'w kernel"
  assumes laws: "mem_laws K view" and set: "fh_SetTime K target h w = (None, h', w')"
    and now1: "k_now K w = (now1, w1)" and range: "in_int64 (target - now1)"
  shows "\<exists>w2 now2 s. k_now K w2 = (now2, w') \<and>
    state_at (view w2 (fh_PID h)) (ih_StateAddr (fh_h h)) s \<and> enabledMask s = MaskEnabled \<and>
    now1 + (offsetSec s * second + offsetNsec s) = target \<and>
    (in_int64 (target - now2) \<longrightarrow>
       fh_eff n h' = n + (offsetSec s * second + offsetNsec s) - (now2 - now1))"
proof -
  from set obtain ih w2 now2 where st: "SetTime K (fh_h h) target w = (None, ih, w2)"
    and n2: "k_now K w2 = (now2, w')" and h': "h' = fh_mark_set target now2 (h\<lparr>fh_h := ih\<rparr>)"
    by (rule fh_SetTime_None)
  obtain sec ns where d: "diffSecNsec target now1 = (sec, ns)" by (rule prod.exhaust)
  have wr: "writeState K (fh_h h) sec ns MaskEnabled w1 = (None, ih, w2)"
    using st by (simp add: SetTime_def now1 d)
  have tot: "sec * second + ns = target - now1" using diffSecNsec_total [OF d] range by simp
  show ?thesis
    using n2 writeState_ok(2) [OF laws wr] tot handle_clock.eff_set [of target now2 n "h\<lparr>fh_h := ih\<rparr>"]
    by (intro exI [of _ w2] exI [of _ now2]
        exI [of _ "\<lparr>offsetSec = sec, offsetNsec = ns, enabledMask = MaskEnabled,
          generation = ih_gen (fh_h h) + 1\<rparr>"])
      (auto simp: fh_PID_def h')
qed

theorem handle_reports_injected_clock_witness:
  "\<exists>h' w' s. fh_SetTime demo_kernel (2000000000 * second) demo_fhandle demo_world = (None, h', w') \<and>
     state_at (d_mem w' 42) (demo_page + 436) s \<and>
     1000000000 * second + (offsetSec s * second + offsetNsec s) = 2000000000 * second"
proof -
  obtain e h' w' where r: "fh_SetTime demo_kernel (2000000000 * second) demo_fhandle demo_world = (e, h', w')"
    by (metis prod.exhaust)
  then have e: "e = None"
    by (auto simp: fh_SetTime_def SetTime_def demo_kernel_def writeState_def WriteMem_def Let_def
        split: prod.splits if_splits)
  have now: "k_now demo_kernel demo_world = (1000000000 * second, demo_world)"
    and same: "\<And>w now w'. k_now demo_kernel w = (now, w') \<Longrightarrow> w' = w"
    by (simp_all add: demo_kernel_def demo_world_def)
  from handle_reports_injected_clock [OF demo_mem_laws r [unfolded e] now, of 0] obtain w2 now2 s where
    "k_now demo_kernel w2 = (now2, w')"
    "state_at (d_mem w2 (fh_PID demo_fhandle)) (ih_StateAddr (fh_h demo_fhandle)) s"
    "1000000000 * second + (offsetSec s * second + offsetNsec s) = 2000000000 * second"
    by (auto simp: in_int64_def min_duration_def max_duration_def second_def)
  with r e same show ?thesis
    by (auto simp: demo_fhandle_def demo_handle_def fh_PID_def)
qed

section \<open>The child tracker\<close>

definition demo_env :: "demo fenv" where
  "demo_env = \<lparr>fe_heap = (\<lambda>_. demo_fhandle), fe_next = 0, fe_world = demo_world\<rparr>"

lemma demo_attach:
  "\<exists>c s. AttachWithTracking demo_kernel demo_elf 42 (2000000000 * second) demo_env = (Inr c, s)"
proof -
  let ?t = "NewTracer\<lparr>t_pid := 42\<rparr>"
  obtain sec ns where d: "diffSecNsec (2000000000 * second) (1000000000 * second) = (sec, ns)"
    by (rule prod.exhaust)
  have seize: "Seize demo_kernel 42 (NewTracer, demo_world) = (Inr (), (?t, demo_world))"
    by (simp add: Seize_def demo_kernel_def)
  obtain h w' where inj: "injectWithTracer demo_kernel 42 demo_info sec ns MaskEnabled (?t, demo_world) =
      (Inr h, (?t, w'))"
    using demo_inject by blast
  have opts: "SetOptions demo_kernel o' (t, w) = (Inr (), (t, w))" for o' t w
    by (simp add: SetOptions_def syscall_as_def demo_kernel_def)
  have now: "k_now demo_kernel demo_world = (1000000000 * second, demo_world)"
    by (simp add: demo_kernel_def demo_world_def)
  have "InjectAtTimeKeepTracer demo_kernel demo_elf 42 (2000000000 * second) demo_world =
      (Inr (h, ?t), w')"
    by (simp add: InjectAtTimeKeepTracer_def at_time_def now d injectCoreKeepTracer_def
        keeping_tracer_def attempt_def seize inject_and_resume_def unless_restored_def
        on_world_def demo_locate inj opts demo_steps)
  then show ?thesis
    by (auto simp: AttachWithTracking_def attach_tracking_def in_world_def demo_env_def
        split: prod.splits)
qed

text \<open>
  C27. In every state that a tracker can reach from its creation, by any of AttachWithTracking,
  AttachFrozenWithTracking, StartWithTracking and StartFrozenWithTracking, and through any
  interleaving of turns of its event loop with SetTime, Freeze, Advance, Reset and Close, the
  parent's handle addresses the process that it was created for (the given pid, or the one the
  kernel gave to the started command), every child's handle addresses exactly the process it is
  filed under, and no two entries share a handle.
\<close>

theorem tracked_handles_address_their_process:
  assumes "tracker_created K elf p (c0, s1)"
    and "(tracker_step K elf)\<^sup>*\<^sup>* (c0, s1) (c, s)"
  shows "c_parentPID c = p \<and> fh_PID (fe_heap s (c_Handle c)) = p \<and>
    (\<forall>q r. map_of (c_children c) q = Some r \<longrightarrow> fh_PID (fe_heap s r) = q) \<and>
    distinct (c_Handle c # ct_Children c)"
proof -
  have "tracker_ok c s" "c_parentPID c = p"
    using tracker_reachable_inv [OF assms(2)] tracker_created_inv [OF assms(1)]
      tracker_reachable_parent [OF assms(2)]
    by (simp_all add: tracker_inv_pair)
  then show ?thesis by (auto simp: tracker_ok_def dest: map_of_SomeD)
qed

theorem tracked_handles_address_their_process_witness:
  "\<exists>c0 s1 e c s. tracker_created demo_kernel demo_elf 42 (c0, s1) \<and>
     ct_Freeze demo_kernel (5 * second) (c0, s1) = (e, (c, s)) \<and> fh_PID (fe_heap s (c_Handle c)) = 42"
proof -
  obtain c0 s1 where "AttachWithTracking demo_kernel demo_elf 42 (2000000000 * second) demo_env = (Inr c0, s1)"
    using demo_attach by blast
  then have a: "tracker_created demo_kernel demo_elf 42 (c0, s1)" by (rule tracker_created.attach)
  obtain e c s where f: "ct_Freeze demo_kernel (5 * second) (c0, s1) = (e, (c, s))"
    by (metis prod.exhaust)
  then have "(tracker_step demo_kernel demo_elf)\<^sup>*\<^sup>* (c0, s1) (c, s)"
    by (blast intro: tracker_step.freeze)
  from tracked_handles_address_their_process [OF a this] a f show ?thesis by blast
qed

text \<open>
  C28. When a fork event is handled, the new child is tracked with a handle of its own that
  addresses the state struct of the process that forked (its current one, also after an exec),
  in the same mode; a frozen child shows the same instant, a running child's offset falls short
  by the time between the two clock readings. No other handle changes.
\<close>

theorem forked_child_inherits_clock:
  assumes msg: "with_tracer (GetEventMsgPID K pid) (c, s) = (Inr msg, (c1, s1))"
    and run: "handleFork K pid (c, s) = (c', s')"
  shows "\<exists>r. map_of (c_children c') = (map_of (c_children c))(int msg \<mapsto> r) \<and> r = fe_next s \<and>
    (\<forall>q. q \<noteq> r \<longrightarrow> fe_heap s' q = fe_heap s q) \<and>
    (let parent = fe_heap s (fork_source pid c); child = fe_heap s' r in
       fh_PID child = int msg \<and> ih_StateAddr (fh_h child) = ih_StateAddr (fh_h parent) \<and>
       fh_frozen child = fh_frozen parent \<and>
       (fh_frozen parent \<longrightarrow> fh_frozenAt child = fh_frozenAt parent) \<and>
       (\<not> fh_frozen parent \<longrightarrow>
         (\<exists>w0 n1 w1 n2 w2. k_now K w0 = (n1, w1) \<and> k_now K w1 = (n2, w2) \<and>
           (in_int64 (n1 + fh_offset parent - n2) \<longrightarrow>
              fh_offset child = fh_offset parent - (n2 - n1)))))"
proof (rule handleFork_entry [OF msg run])
  fix h w
  assume f: "fork_child K (fe_heap s (fork_source pid c)) (int msg) (fe_world s1) = (h, w)"
    and e: "map_of (c_children c') = (map_of (c_children c))(int msg \<mapsto> fe_next s)"
      "fe_heap s' = (fe_heap s)(fe_next s := h)"
  show ?thesis
    using fork_child_inherits [OF f] e unfolding Let_def
    by (intro exI [of _ "fe_next s"]) (auto simp del: map_of_update; blast)
qed

theorem forked_child_inherits_clock_witness:
  "\<exists>c' s'. handleFork demo_kernel 42 (newChildTracker 0 \<lparr>t_pid = 42\<rparr> 42, demo_env\<lparr>fe_next := 1\<rparr>) = (c', s') \<and>
     map_of (c_children c') 43 = Some 1 \<and> fh_PID (fe_heap s' 1) = 43 \<and>
     ih_StateAddr (fh_h (fe_heap s' 1)) = demo_page + 436"
proof -
  let ?cs = "(newChildTracker 0 \<lparr>t_pid = 42\<rparr> 42, demo_env\<lparr>fe_next := 1\<rparr>)"
  obtain c' s' where r: "handleFork demo_kernel 42 ?cs = (c', s')" by (rule prod.exhaust)
  have m: "with_tracer (GetEventMsgPID demo_kernel 42) ?cs =
      (Inr 43, (newChildTracker 0 \<lparr>t_pid = 42\<rparr> 42, demo_env\<lparr>fe_next := 1\<rparr>))"
    by (simp add: with_tracer_def GetEventMsgPID_def syscall_as_def demo_kernel_def newChildTracker_def
        demo_env_def)
  from forked_child_inherits_clock [OF m r] r show ?thesis
    by (auto simp: Let_def newChildTracker_def demo_env_def fork_source_def demo_fhandle_def
        demo_handle_def)
qed

text \<open>
  Run alone, the event loop never dereferences a missing handle, whatever events the kernel
  reports: the unchecked second lookup in \<open>handleExec\<close> always finds the handle.
\<close>

theorem watch_loop_never_panics: "watchLoop K elf n cs \<noteq> None"
  by (rule watchLoop_total)

text \<open>
  Once \<open>wait4\<close> answers ECHILD for the tracked processes, the loop never drops them: after
  any number of turns the same pids are still tracked and the loop is still running.
\<close>

theorem echild_pids_never_dropped:
  assumes "echild_kernel K" and "c_running c" and "\<not> c_done c" and "trackedPIDs c \<noteq> []"
  shows "\<exists>c' s'. watchLoop K elf n (c, s) = Some (c', s') \<and> trackedPIDs c' = trackedPIDs c \<and>
    c_running c' \<and> c_loopErr c' = c_loopErr c"
  using assms(2-4)
proof (induction n arbitrary: c s)
  case 0
  then show ?case by simp
next
  case (Suc n)
  obtain t w where "poll_pids K elf (trackedPIDs c) False (c, s) =
      Some (False, (c\<lparr>c_tracer := t\<rparr>, s\<lparr>fe_world := w\<rparr>))"
    using poll_echild [OF assms(1)] by blast
  then have turn: "watch_turn K elf (c, s) = Some (c\<lparr>c_tracer := t\<rparr>, s\<lparr>fe_world := w\<rparr>)"
    using Suc.prems by (simp add: watch_turn_def)
  have same: "trackedPIDs (c\<lparr>c_tracer := t\<rparr>) = trackedPIDs c" by (simp add: trackedPIDs_def)
  show ?case
    using Suc.IH [of "c\<lparr>c_tracer := t\<rparr>" "s\<lparr>fe_world := w\<rparr>"] Suc.prems by (simp add: turn same)
qed

theorem echild_pids_never_dropped_witness:
  "\<exists>c' s'. watchLoop (demo_kernel\<lparr>k_wait4 := (\<lambda>p fl w. (Inl ECHILD, w))\<rparr>) demo_elf 1000
     (newChildTracker 0 \<lparr>t_pid = 42\<rparr> 42, demo_env) = Some (c', s') \<and> trackedPIDs c' = [42] \<and> c_running c'"
proof -
  let ?K = "demo_kernel\<lparr>k_wait4 := (\<lambda>p fl w. (Inl ECHILD, w))\<rparr>"
  let ?c = "newChildTracker 0 \<lparr>t_pid = 42\<rparr> 42"
  have "echild_kernel ?K" by (simp add: echild_kernel_def)
  moreover have "c_running ?c" "\<not> c_done ?c" "trackedPIDs ?c = [42]"
    by (simp_all add: newChildTracker_def trackedPIDs_def)
  ultimately show ?thesis
    using echild_pids_never_dropped [of ?K ?c demo_elf 1000 demo_env] by fastforce
qed

text \<open>
  \<open>Close\<close> stops the loop, and a second \<open>Close\<close> panics (the channel is closed twice).
\<close>

theorem tracker_close_once:
  assumes "ct_Close K cs = Some (e, cs')"
  shows "\<not> c_running (fst cs') \<and> ct_Close K cs' = None"
  using ct_Close_once [OF assms] by simp

theorem tracker_close_once_witness:
  "\<exists>e cs'. ct_Close demo_kernel (newChildTracker 0 \<lparr>t_pid = 42\<rparr> 42, demo_env) = Some (e, cs') \<and>
     ct_Close demo_kernel cs' = None"
proof -
  obtain e cs' where c: "ct_Close demo_kernel (newChildTracker 0 \<lparr>t_pid = 42\<rparr> 42, demo_env) = Some (e, cs')"
    by (simp add: ct_Close_def newChildTracker_def Let_def)
  from tracker_close_once [OF c] c show ?thesis by blast
qed

text \<open>
  A later wait error replaces the recorded one: with an error already recorded, one turn in
  which \<open>wait4\<close> fails with EPERM makes \<open>Err\<close> report the new error.
\<close>

theorem loop_error_is_not_the_first:
  "\<exists>cs'. watch_turn (demo_kernel\<lparr>k_wait4 := (\<lambda>p fl w. (Inl EPERM, w))\<rparr>) elf
      ((newChildTracker 0 \<lparr>t_pid = 42\<rparr> 42)\<lparr>c_loopErr := Some (Msg ''first'')\<rparr>, s) = Some cs' \<and>
    ct_Err (fst cs') = Some (Wrap ''procmem: wait4(pid, WNOHANG)'' (Errno EPERM))"
  by (simp add: watch_turn_def newChildTracker_def trackedPIDs_def with_tracer_def
      WaitPIDNonBlocking_def attempt_def syscall_as_def ct_Err_def)

end
