(* ===== verification/SessionClaims.thy ===== *)
theory SessionClaims
  imports Demo
begin

text \<open>The properties of the session: one clock for a group of processes.\<close>

definition demo_session :: session where
  "demo_session = \<lparr>ss_handles = [0], ss_cmds = [], ss_offset = 0, ss_frozenAt = 7 * second,
     ss_frozen = True, ss_tracking = False, ss_trackingFilter = None, ss_fakeTimeFilter = None,
     ss_trackers = []\<rparr>"

definition demo_session_env :: "demo fenv" where
  "demo_session_env =
     \<lparr>fe_heap = (\<lambda>_. \<lparr>fh_h = demo_handle, fh_offset = 0, fh_frozenAt = 7 * second, fh_frozen = True\<rparr>),
      fe_next = 1, fe_world = demo_world\<rparr>"

lemma demo_freeze_step:
  "\<exists>s'. on_handle (fh_Freeze demo_kernel t) r s = (None, s')"
  by (auto simp: on_handle_def fh_Freeze_def Freeze_def writeState_def WriteMem_def demo_kernel_def
      Let_def split: prod.splits)

lemma demo_freeze_session:
  "\<exists>st'. ss_Freeze demo_kernel t (demo_session, demo_session_env) = (None, st')"
proof -
  obtain s' where o': "on_handle (fh_Freeze demo_kernel t) 0 demo_session_env = (None, s')"
    using demo_freeze_step by blast
  show ?thesis
    by (simp add: ss_Freeze_def ss_applyAll_def ss_all_def demo_session_def o' dead_handles_def
        is_esrch_def clear_esrch_def errors_Join_def List.map_filter_simps Let_def)
qed

text \<open>
  C35. When a session is frozen without error, every process that stays in the session is
  recorded as frozen at exactly that instant, and so is the session; no handle is added and the
  trackers are kept.
\<close>

theorem session_freeze_is_uniform:
  assumes run: "ss_Freeze K t (ss, s) = (None, (ss', s'))"
  shows "(\<forall>r \<in> set (ss_handles ss'). fh_frozen (fe_heap s' r) \<and> fh_frozenAt (fe_heap s' r) = t) \<and>
    ss_eff now ss' = t \<and> set (ss_handles ss') \<subseteq> set (ss_handles ss) \<and>
    ss_trackers ss' = ss_trackers ss"
proof -
  from run obtain errs where m: "map_step (on_handle (fh_Freeze K t)) (ss_all ss) s = (errs, s')"
    and ok: "\<forall>e \<in> set errs. e = None \<or> is_esrch e"
    and ss': "ss' = ss_mark_frozen t
      (ss\<lparr>ss_handles := filter (\<lambda>r. r \<notin> set (dead_handles (ss_handles ss) errs)) (ss_handles ss)\<rparr>)"
    unfolding ss_Freeze_def by (elim ss_applyAll_None) auto
  have len: "length errs = length (ss_all ss)" by (rule length_map_step [OF m])
  have "frozen_here t (fe_heap s' r)" if "r \<in> set (ss_handles ss')" for r
  proof -
    from that have "r \<in> set (filter (\<lambda>r. r \<notin> set (dead_handles (ss_handles ss) errs)) (ss_handles ss))"
      by (simp add: ss' ss_mark_frozen_def)
    then obtain i where i: "i < length (ss_handles ss)" "ss_handles ss ! i = r" "errs ! i = None"
      using survivor_index [OF _ _ ok, of r "ss_handles ss"] len by (force simp: ss_all_def)
    have "frozen_here t (fe_heap s' (ss_all ss ! i))"
      by (rule map_handles_establish [OF freeze_establishes freeze_keeps m])
        (use i in \<open>simp_all add: ss_all_def\<close>)
    with i show ?thesis by (simp add: ss_all_def nth_append)
  qed
  then show ?thesis
    using session_clock.eff_freeze [of now t]
    by (auto simp: frozen_here_def ss' ss_mark_frozen_def)
qed

theorem session_freeze_is_uniform_witness:
  "\<exists>ss' s'. ss_Freeze demo_kernel (9 * second) (demo_session, demo_session_env) = (None, (ss', s')) \<and>
     ss_eff 0 ss' = 9 * second"
proof -
  obtain ss' s' where r: "ss_Freeze demo_kernel (9 * second) (demo_session, demo_session_env) = (None, (ss', s'))"
    using demo_freeze_session by (metis prod.exhaust)
  from session_freeze_is_uniform [OF r, of 0] r show ?thesis by blast
qed

text \<open>
  An update that reports an error does not change the session's own clock: new processes
  still join at the old target; only handles of dead processes are dropped.
\<close>

theorem session_failed_update_keeps_clock:
  assumes "ss_SetTime K t (ss, s) = (Some e, (ss', s')) \<or> ss_Freeze K t (ss, s) = (Some e, (ss', s'))"
  shows "ss_offset ss' = ss_offset ss \<and> ss_frozenAt ss' = ss_frozenAt ss \<and>
    ss_frozen ss' = ss_frozen ss \<and> ss_eff now ss' = ss_eff now ss \<and>
    set (ss_handles ss') \<subseteq> set (ss_handles ss)"
  using assms
  by (auto simp: ss_SetTime_def ss_Freeze_def ss_applyAll_def Let_def ss_eff_def
      split: prod.splits option.splits)

theorem session_failed_update_keeps_clock_witness:
  "\<exists>e ss' s'. ss_Freeze (demo_kernel\<lparr>k_vm_writev := (\<lambda>p a bs w. (Inl EPERM, w))\<rparr>) (9 * second)
      (demo_session, demo_session_env) = (Some e, (ss', s')) \<and> ss_eff 0 ss' = 7 * second"
proof -
  let ?K = "demo_kernel\<lparr>k_vm_writev := (\<lambda>p a bs w. (Inl EPERM, w))\<rparr>"
  have "EncodeState a b m g \<noteq> []" for a b m g
    by (simp add: StateSize_def flip: length_greater_0_conv)
  then obtain e ss' s' where r: "ss_Freeze ?K (9 * second) (demo_session, demo_session_env) = (Some e, (ss', s'))"
    by (simp add: ss_Freeze_def ss_applyAll_def ss_all_def demo_session_def on_handle_def fh_Freeze_def
        Freeze_def writeState_def WriteMem_def Let_def clear_esrch_def errors_Join_def
        List.map_filter_simps)
  with session_failed_update_keeps_clock [of ?K "9 * second" demo_session demo_session_env e ss' s' 0]
  show ?thesis by (auto simp: demo_session_def ss_eff_def)
qed

text \<open>
  A process attached to a frozen session (without filters or tracking) joins it frozen at
  the session's instant, as the last handle of the session.
\<close>

theorem session_attach_joins_clock:
  assumes run: "ss_Attach K elf pid (ss, s) = (None, (ss', s'))" and "ss_frozen ss"
    and "ss_trackingFilter ss = None" "ss_fakeTimeFilter ss = None" "\<not> ss_tracking ss"
  shows "\<exists>r. ss_handles ss' = ss_handles ss @ [r] \<and> fh_frozen (fe_heap s' r) \<and>
    fh_frozenAt (fe_heap s' r) = ss_frozenAt ss \<and> ss_frozen ss' \<and> ss_frozenAt ss' = ss_frozenAt ss \<and>
    fh_PID (fe_heap s' r) = pid"
proof -
  have pid: "InjectFrozen K elf pid t w = (Inr ih, w') \<Longrightarrow> ih_PID ih = pid" for t w ih w'
    by (auto simp: InjectFrozen_def frozen_at_def injectCore_def with_new_tracer_def deferring_def
        dest: injectWithTracer_pid elim!: attempt_InrE split: prod.splits)
  from assms show ?thesis
    by (auto simp: ss_Attach_def effectiveTarget_def refused_def tracking_for_def in_world_def
        fh_AttachFrozen_def add_handle_def new_ref_def newFrozenHandle_def fh_PID_def
        elim!: attempt_InrE dest: pid split: prod.splits sum.splits)
qed

lemma demo_attach_frozen:
  "\<exists>h w'. fh_AttachFrozen demo_kernel elf 42 t demo_world = (Inr h, w')"
  if "elf = (\<lambda>d. Inr [(''clock_gettime'', 0x900), (''gettimeofday'', 0x600), (''time'', 0x8D0)])"
proof -
  let ?t = "NewTracer\<lparr>t_pid := 42\<rparr>"
  have range: "findVDSORange demo_kernel 42 w = (Inr (0x7FFFF7FC1000, 0x7FFFF7FC3000), w)" for w
    by (simp add: findVDSORange_def demo_kernel_def demo_maps_def vdso_line_def Fields_def is_space_def
        ParseHex_def hex_digit_def Let_def)
  have read: "readProcMem demo_kernel 42 0x7FFFF7FC1000 0x2000 w =
      (Inr (read_bytes (d_mem w 42) 0x7FFFF7FC1000 0x2000), w)" for w
    by (simp add: readProcMem_def demo_kernel_def)
  have loc: "Locate demo_kernel elf 42 w = (Inr demo_info, w)" for w
    by (simp add: Locate_def attempt_def range read that resolve_all_def resolveSymbol_def
        in_range_def Let_def demo_info_def)
  have seize: "Seize demo_kernel 42 (NewTracer, demo_world) = (Inr (), (?t, demo_world))"
    by (simp add: Seize_def demo_kernel_def)
  obtain h w' where inj: "injectWithTracer demo_kernel 42 demo_info (time_Unix t) (time_Nanosecond t)
      MaskFrozen (?t, demo_world) = (Inr h, (?t, w'))"
    using demo_inject by blast
  show ?thesis
    by (simp add: fh_AttachFrozen_def attempt_def InjectFrozen_def frozen_at_def injectCore_def
        with_new_tracer_def seize deferring_def on_world_def loc inj split: prod.splits)
qed

theorem session_attach_joins_clock_witness:
  "\<exists>elf ss' s' r. ss_Attach demo_kernel elf 42 (demo_session, demo_session_env) = (None, (ss', s')) \<and>
     ss_handles ss' = [0, r] \<and> fh_frozenAt (fe_heap s' r) = 7 * second"
proof -
  define elf :: elf_reader where
    "elf = (\<lambda>d. Inr [(''clock_gettime'', 0x900), (''gettimeofday'', 0x600), (''time'', 0x8D0)])"
  obtain h w' where a: "fh_AttachFrozen demo_kernel elf 42 (7 * second) demo_world = (Inr h, w')"
    using demo_attach_frozen [OF elf_def] by blast
  obtain ss' s' where r: "ss_Attach demo_kernel elf 42 (demo_session, demo_session_env) = (None, (ss', s'))"
    by (simp add: ss_Attach_def effectiveTarget_def demo_session_def refused_def tracking_for_def
        in_world_def demo_session_env_def a add_handle_def new_ref_def)
  from session_attach_joins_clock [OF r] r show ?thesis
    by (auto simp: demo_session_def)
qed

text \<open>
  C38. After the trackers of a session have been closed, \<open>Prune\<close> panics as soon as the process of
  one tracker is gone, whatever has become of the other processes and of the world meanwhile: the
  dead tracker is closed a second time.
\<close>

theorem prune_after_close_panics:
  assumes close: "ss_Close K (ss, s) = Some (e, (ss', s'))" and ct: "ct \<in> set (ss_trackers ss')"
    and gone: "process_gone K (fh_PID (fe_heap s' (c_Handle ct))) w"
  shows "ss_Prune K (ss', s'\<lparr>fe_world := w\<rparr>) = None"
proof -
  have "ss_trackers ss \<noteq> []" using close ct by (auto simp: ss_Close_def)
  then obtain es cts where c: "close_all K (ss_trackers ss) s = Some (es, cts, s')"
    and ss': "ss' = ss\<lparr>ss_trackers := cts\<rparr>"
    using close by (auto simp: ss_Close_def split: option.splits)
  have done': "c_done ct" using close_all_done [OF c] ct ss' by (auto simp: list_all_iff)
  obtain live dead s1 where sp: "split_alive K (ss_trackers ss') (s'\<lparr>fe_world := w\<rparr>) = ((live, dead), s1)"
    by (metis prod.exhaust)
  have "ct \<in> set dead" by (rule split_alive_gone [OF _ ct sp]) (simp add: gone)
  then have "close_all K dead s2 = None" for s2 by (rule close_all_panics [OF _ done'])
  then show ?thesis by (simp add: ss_Prune_def sp split: prod.splits)
qed

text \<open>Two tracked processes: 42, whose process is gone after the close, and 43, which lives.\<close>

definition one_dead :: "demo kernel" where
  "one_dead = demo_kernel\<lparr>k_kill := (\<lambda>p sg w. (if p = 42 then Inl ESRCH else Inr (), w))\<rparr>"

definition two_handles :: "demo fenv" where
  "two_handles = demo_session_env\<lparr>fe_next := 2,
     fe_heap := (\<lambda>r. (fe_heap demo_session_env 0)\<lparr>fh_h := demo_handle\<lparr>ih_PID := (if r = 0 then 42 else 43)\<rparr>\<rparr>)\<rparr>"

lemma childless_close:
  assumes "ct_Close K (newChildTracker r tr p, s) = Some (e, (ct, s'))"
  shows "c_Handle ct = r \<and> fe_heap s' = fe_heap s"
  using assms
  by (auto simp: ct_Close_def finish_def cleanup_def ignore_err_def with_tracer_def newChildTracker_def
      ct_Children_def Let_def split: prod.splits)

theorem prune_after_close_panics_witness:
  "\<exists>e ss' s'. ss_Close one_dead (demo_session\<lparr>ss_handles := [0, 1], ss_trackers :=
      [newChildTracker 0 \<lparr>t_pid = 42\<rparr> 42, newChildTracker 1 \<lparr>t_pid = 43\<rparr> 43]\<rparr>, two_handles) = Some (e, (ss', s')) \<and>
    ss_Prune one_dead (ss', s') = None \<and> fst (ref_alive one_dead 1 s')"
proof -
  let ?ss = "demo_session\<lparr>ss_handles := [0, 1], ss_trackers :=
      [newChildTracker 0 \<lparr>t_pid = 42\<rparr> 42, newChildTracker 1 \<lparr>t_pid = 43\<rparr> 43]\<rparr>"
  have open': "\<exists>e ct s1. ct_Close one_dead (newChildTracker r tr p, s) = Some (e, (ct, s1))" for r tr p s
    by (simp add: ct_Close_def newChildTracker_def Let_def prod_eq_iff)
  obtain e1 ct1 s1 where c1: "ct_Close one_dead (newChildTracker 0 \<lparr>t_pid = 42\<rparr> 42, two_handles) = Some (e1, (ct1, s1))"
    using open' by blast
  obtain e2 ct2 s2 where c2: "ct_Close one_dead (newChildTracker 1 \<lparr>t_pid = 43\<rparr> 43, s1) = Some (e2, (ct2, s2))"
    using open' by blast
  have cl: "ss_Close one_dead (?ss, two_handles) = Some (errors_Join [e1, e2], (?ss\<lparr>ss_trackers := [ct1, ct2]\<rparr>, s2))"
    using c2 by (simp add: ss_Close_def c1)
  have heap: "fe_heap s2 = fe_heap two_handles" and "c_Handle ct1 = 0"
    using childless_close [OF c1] childless_close [OF c2] by simp_all
  then have gone: "process_gone one_dead (fh_PID (fe_heap s2 (c_Handle ct1))) (fe_world s2)"
    by (simp add: process_gone_def one_dead_def two_handles_def fh_PID_def)
  have "ss_Prune one_dead (?ss\<lparr>ss_trackers := [ct1, ct2]\<rparr>, s2) = None"
    using prune_after_close_panics [OF cl _ gone] by simp
  moreover have "fst (ref_alive one_dead 1 s2)"
    by (simp add: ref_alive_def in_world_def fh_IsAlive_def heap one_dead_def two_handles_def)
  ultimately show ?thesis using cl by blast
qed

end
