(* ===== verification/K8sresolve.thy ===== *)
theory K8sresolve
  imports GoStrings Kernel
begin

text \<open>
  pkg/k8sresolve/k8sresolve.go: the init process of a container is the lowest pid whose cgroup
  file mentions the container id.
\<close>

definition stripRuntimePrefix :: "string \<Rightarrow> string" where
  "stripRuntimePrefix cid =
     (case Index cid ''://'' of Some i \<Rightarrow> drop (i + 3) cid | None \<Rightarrow> cid)"

definition displayID :: "string \<Rightarrow> string" where
  "displayID cid = (if 12 < length cid then take 12 cid @ ''...'' else cid)"

text \<open>The loop over the entries of /proc.\<close>

fun matching_pids :: "'w kernel \<Rightarrow> string \<Rightarrow> string list \<Rightarrow> 'w \<Rightarrow> pid list \<times> 'w" where
  "matching_pids K prefix [] w = ([], w)"
| "matching_pids K prefix (name # names) w =
     (case Atoi name of
        None \<Rightarrow> matching_pids K prefix names w
      | Some pid \<Rightarrow>
          if pid \<le> 1 then matching_pids K prefix names w
          else case k_cgroup K name w of
                 (Inl _, w1) \<Rightarrow> matching_pids K prefix names w1
               | (Inr cgroup, w1) \<Rightarrow>
                   (case matching_pids K prefix names w1 of (pids, w2) \<Rightarrow>
                      (if Contains cgroup prefix then pid # pids else pids, w2)))"

definition LookupPID :: "'w kernel \<Rightarrow> string \<Rightarrow> 'w \<Rightarrow> (goerr + pid) \<times> 'w" where
  "LookupPID K containerID w =
     (let cid = stripRuntimePrefix containerID in
      if length cid < 8 then (Inl (Msg ''k8sresolve: container ID too short''), w)
      else let prefix = (if 20 < length cid then take 20 cid else cid) in
        case k_proc_dir K w of
          (Inl e, w1) \<Rightarrow> (Inl (Wrap ''k8sresolve: ReadDir /proc'' (Errno e)), w1)
        | (Inr entries, w1) \<Rightarrow>
            (case matching_pids K prefix entries w1 of
               ([], w2) \<Rightarrow> (Inl (Msg (''k8sresolve: no process found for container '' @ displayID cid)), w2)
             | (pids, w2) \<Rightarrow> (Inr (hd (sort pids)), w2)))"

section \<open>Lemmas\<close>

lemma Index_scheme:
  "CHR '':'' \<notin> set scheme \<Longrightarrow> Index (scheme @ ''://'' @ cid) ''://'' = Some (length scheme)"
  by (induction scheme) (auto simp: has_prefix_def)

lemma stripRuntimePrefix_scheme:
  "CHR '':'' \<notin> set scheme \<Longrightarrow> stripRuntimePrefix (scheme @ ''://'' @ cid) = cid"
  using Index_scheme [of scheme cid] by (simp add: stripRuntimePrefix_def)

text \<open>With a /proc that does not change during the scan the result is the set of matches.\<close>

definition stable_cgroups :: "'w kernel \<Rightarrow> (string \<Rightarrow> errno + string) \<Rightarrow> bool" where
  "stable_cgroups K cg \<longleftrightarrow> (\<forall>n w. k_cgroup K n w = (cg n, w))"

definition is_match :: "(string \<Rightarrow> errno + string) \<Rightarrow> string \<Rightarrow> string \<Rightarrow> pid \<Rightarrow> bool" where
  "is_match cg prefix name pid \<longleftrightarrow>
     Atoi name = Some pid \<and> 1 < pid \<and> (\<exists>txt. cg name = Inr txt \<and> Contains txt prefix)"

lemma matching_pids_set:
  assumes "stable_cgroups K cg"
  shows "snd (matching_pids K prefix names w) = w \<and>
    set (fst (matching_pids K prefix names w)) = {pid. \<exists>name \<in> set names. is_match cg prefix name pid}"
proof (induction names)
  case Nil
  then show ?case by simp
next
  case (Cons name names)
  have cg: "k_cgroup K name w = (cg name, w)" using assms by (simp add: stable_cgroups_def)
  obtain pids where m: "matching_pids K prefix names w = (pids, w)"
    using Cons.IH by (metis prod.collapse)
  show ?case
    using Cons.IH by (cases "cg name") (auto simp: m cg is_match_def split: option.splits)
qed

lemma hd_sort_Min: "xs \<noteq> [] \<Longrightarrow> hd (sort xs) = Min (set (xs :: int list))"
proof -
  assume "xs \<noteq> []"
  then have "sort xs \<noteq> []" by (metis length_0_conv length_sort)
  then have "hd (sort xs) = Min (set (sort xs))"
    using sorted_sort [of xs] by (cases "sort xs") (auto intro!: Min_eqI [symmetric])
  then show ?thesis by simp
qed

end
