(* ===== verification/Agent.thy ===== *)
theory Agent
  imports K8sresolve FakeHandle
begin

text \<open>
  cmd/agent/main.go: the per-node gRPC server. It keeps a map from random handle ids to injected
  processes; the injection itself is the injector's, the container's pid comes from k8sresolve.
\<close>

record agent_entry =
  ae_handle :: inj_handle
  ae_lastTarget :: gotime
  ae_containerID :: string

record agent_server =
  as_handles :: "(string, agent_entry) gomap"

definition newServer :: agent_server where
  "newServer = \<lparr>as_handles = []\<rparr>"

type_synonym 'w node = "agent_server \<times> 'w"

section \<open>Handle ids\<close>

definition hex_char :: "nat \<Rightarrow> char" where
  "hex_char n = ''0123456789abcdef'' ! n"

definition hex_encode :: "byte list \<Rightarrow> string" where
  "hex_encode bs = concat (map (\<lambda>b. [hex_char (unat b div 16), hex_char (unat b mod 16)]) bs)"

definition newHandleID :: "'w kernel \<Rightarrow> 'w \<Rightarrow> string \<times> 'w" where
  "newHandleID K w = (case k_rand K 16 w of (b, w') \<Rightarrow> (hex_encode b, w'))"

definition lookupHandle :: "agent_server \<Rightarrow> string \<Rightarrow> goerr + agent_entry" where
  "lookupHandle srv hid =
     (case map_of (as_handles srv) hid of
        None \<Rightarrow> Inl (Status NotFound ''handle not found'')
      | Some e \<Rightarrow> Inr e)"

definition set_entry :: "string \<Rightarrow> agent_entry \<Rightarrow> agent_server \<Rightarrow> agent_server" where
  "set_entry hid e srv = srv\<lparr>as_handles := AList.update hid e (as_handles srv)\<rparr>"

section \<open>The four methods\<close>

text \<open>A missing timestamp in a request is \<open>None\<close>.\<close>

definition agent_Inject :: "'w kernel \<Rightarrow> elf_reader \<Rightarrow> string \<Rightarrow> gotime option \<Rightarrow> bool \<Rightarrow> 'w node
    \<Rightarrow> (goerr + string) \<times> 'w node" where
  "agent_Inject K elf cid tgt freeze st =
     (case st of (srv, w) \<Rightarrow>
        if cid = [] then (Inl (Status InvalidArgument ''container_id is required''), st)
        else (case tgt of
            None \<Rightarrow> (Inl (Status InvalidArgument ''target_time is required''), st)
          | Some target \<Rightarrow>
              (case LookupPID K cid w of
                 (Inl e, w1) \<Rightarrow> (Inl (Status NotFound ''resolve container''), (srv, w1))
               | (Inr pid, w1) \<Rightarrow>
                   (case (if freeze then InjectFrozen K elf pid target
                          else InjectAtTime K elf pid target) w1 of
                      (Inl e, w2) \<Rightarrow> (Inl (Status Internal ''inject pid''), (srv, w2))
                    | (Inr h, w2) \<Rightarrow>
                        (case newHandleID K w2 of (hid, w3) \<Rightarrow>
                           (Inr hid,
                            (set_entry hid \<lparr>ae_handle = h, ae_lastTarget = target,
                               ae_containerID = cid\<rparr> srv, w3)))))))"

text \<open>
  The injector's handle is updated in place, also when the write fails; the recorded target
  only after a success.
\<close>

definition agent_SetTime :: "'w kernel \<Rightarrow> string \<Rightarrow> gotime option \<Rightarrow> bool \<Rightarrow> 'w node
    \<Rightarrow> (goerr + unit) \<times> 'w node" where
  "agent_SetTime K hid tgt freeze st =
     (case st of (srv, w) \<Rightarrow>
        if hid = [] then (Inl (Status InvalidArgument ''handle_id is required''), st)
        else (case tgt of
            None \<Rightarrow> (Inl (Status InvalidArgument ''target_time is required''), st)
          | Some target \<Rightarrow>
              (case lookupHandle srv hid of
                 Inl e \<Rightarrow> (Inl e, st)
               | Inr entry \<Rightarrow>
                   (case (if freeze then Freeze K (ae_handle entry) target
                          else SetTime K (ae_handle entry) target) w of
                      (Some e, h, w1) \<Rightarrow>
                        (Inl (Status Internal ''SetTime''),
                         (set_entry hid (entry\<lparr>ae_handle := h\<rparr>) srv, w1))
                    | (None, h, w1) \<Rightarrow>
                        (Inr (),
                         (set_entry hid (entry\<lparr>ae_handle := h, ae_lastTarget := target\<rparr>) srv, w1))))))"

definition agent_Reset :: "'w kernel \<Rightarrow> string \<Rightarrow> 'w node \<Rightarrow> (goerr + unit) \<times> 'w node" where
  "agent_Reset K hid st =
     (case st of (srv, w) \<Rightarrow>
        if hid = [] then (Inl (Status InvalidArgument ''handle_id is required''), st)
        else (case lookupHandle srv hid of
            Inl e \<Rightarrow> (Inl e, st)
          | Inr entry \<Rightarrow>
              (case k_now K w of (now, w1) \<Rightarrow>
              (case SetTime K (ae_handle entry) now w1 of
                 (Some e, h, w2) \<Rightarrow>
                   (Inl (Status Internal ''Reset''), (set_entry hid (entry\<lparr>ae_handle := h\<rparr>) srv, w2))
               | (None, h, w2) \<Rightarrow>
                   (Inr (), (set_entry hid (entry\<lparr>ae_handle := h, ae_lastTarget := now\<rparr>) srv, w2))))))"

text \<open>The state address is sent as text.\<close>

fun hex_digits :: "nat \<Rightarrow> string" where
  "hex_digits n = (if n < 16 then [hex_char n] else hex_digits (n div 16) @ [hex_char (n mod 16)])"

declare hex_digits.simps [simp del]

record status_response =
  sr_HandleId :: string
  sr_LastTarget :: gotime
  sr_StateAddr :: string
  sr_Generation :: "32 word"
  sr_Pid :: int

definition agent_Status :: "string \<Rightarrow> 'w node \<Rightarrow> (goerr + status_response) \<times> 'w node" where
  "agent_Status hid st =
     (case st of (srv, w) \<Rightarrow>
        if hid = [] then (Inl (Status InvalidArgument ''handle_id is required''), st)
        else (case lookupHandle srv hid of
            Inl e \<Rightarrow> (Inl e, st)
          | Inr entry \<Rightarrow>
              (Inr \<lparr>sr_HandleId = hid, sr_LastTarget = ae_lastTarget entry,
                    sr_StateAddr = ''0x'' @ hex_digits (unat (ih_StateAddr (ae_handle entry))),
                    sr_Generation = Generation (ae_handle entry),
                    sr_Pid = as_int32 (ih_PID (ae_handle entry))\<rparr>, st)))"

section \<open>Shutdown\<close>

text \<open>\<open>resetNow\<close> without the override that only tests install.\<close>

definition resetNow :: "'w kernel \<Rightarrow> agent_entry \<Rightarrow> 'w \<Rightarrow> goerr option \<times> agent_entry \<times> 'w" where
  "resetNow K entry w =
     (case k_now K w of (now, w1) \<Rightarrow>
     (case SetTime K (ae_handle entry) now w1 of (e, h, w2) \<Rightarrow> (e, entry\<lparr>ae_handle := h\<rparr>, w2)))"

text \<open>The loop of \<open>drain\<close>: it stops when the context has ended, errors do not stop it.\<close>

fun drain_loop :: "'w kernel \<Rightarrow> ('w \<Rightarrow> bool) \<Rightarrow> (string \<times> agent_entry) list \<Rightarrow> 'w node \<Rightarrow> 'w node" where
  "drain_loop K ctx_done [] st = st"
| "drain_loop K ctx_done ((hid, entry) # rest) st =
     (case st of (srv, w) \<Rightarrow>
        if ctx_done w then st
        else case resetNow K entry w of (_, entry', w1) \<Rightarrow>
          drain_loop K ctx_done rest (set_entry hid entry' srv, w1))"

definition drain :: "'w kernel \<Rightarrow> ('w \<Rightarrow> bool) \<Rightarrow> 'w node \<Rightarrow> 'w node" where
  "drain K ctx_done st = drain_loop K ctx_done (as_handles (fst st)) st"

section \<open>Lemmas\<close>

definition known :: "agent_server \<Rightarrow> string \<Rightarrow> bool" where
  "known srv hid \<longleftrightarrow> map_of (as_handles srv) hid \<noteq> None"

lemma known_set_entry [simp]: "known (set_entry hid e srv) hid' \<longleftrightarrow> hid' = hid \<or> known srv hid'"
  by (auto simp: known_def set_entry_def)

lemma wf_set_entry [law_intros]: "wf_map (as_handles srv) \<Longrightarrow> wf_map (as_handles (set_entry hid e srv))"
  by (simp add: set_entry_def)

text \<open>A handle once issued stays known whatever is called: nothing removes an entry.\<close>

lemma agent_Inject_known: "agent_Inject K elf cid tgt fr (srv, w) = (r, (srv', w')) \<Longrightarrow> known srv hid \<Longrightarrow> known srv' hid"
  by (auto simp: agent_Inject_def known_def [of srv] split: if_splits option.splits prod.splits sum.splits)
    (auto simp: known_def set_entry_def)

lemma agent_SetTime_known: "agent_SetTime K h tgt fr (srv, w) = (r, (srv', w')) \<Longrightarrow> known srv hid \<Longrightarrow> known srv' hid"
  by (auto simp: agent_SetTime_def known_def set_entry_def split: if_splits option.splits prod.splits sum.splits)

lemma agent_Reset_known: "agent_Reset K h (srv, w) = (r, (srv', w')) \<Longrightarrow> known srv hid \<Longrightarrow> known srv' hid"
  by (auto simp: agent_Reset_def known_def set_entry_def split: if_splits option.splits prod.splits sum.splits)

text \<open>An id is found again right after it was issued; it has 32 characters.\<close>

lemma length_hex_encode: "length (hex_encode bs) = 2 * length bs"
  by (induction bs) (simp_all add: hex_encode_def)

lemma agent_Inject_issues:
  "agent_Inject K elf cid tgt fr (srv, w) = (Inr hid, (srv', w')) \<Longrightarrow> known srv' hid"
  by (auto simp: agent_Inject_def split: if_splits option.splits prod.splits sum.splits)

text \<open>A successful SetTime was for a known id.\<close>

lemma agent_SetTime_Inr_known: "agent_SetTime K h tgt fr (srv, w) = (Inr u, (srv', w')) \<Longrightarrow> known srv' h"
  by (auto simp: agent_SetTime_def lookupHandle_def split: if_splits option.splits prod.splits sum.splits)

text \<open>NOT_FOUND from SetTime and Reset means exactly that the id is unknown.\<close>

lemma agent_SetTime_not_found:
  "hid \<noteq> [] \<Longrightarrow> (\<exists>s. fst (agent_SetTime K hid (Some t) fr (srv, w)) = Inl (Status NotFound s)) \<longleftrightarrow> \<not> known srv hid"
  by (auto simp: agent_SetTime_def lookupHandle_def known_def split: option.splits prod.splits)

lemma agent_Reset_not_found:
  "hid \<noteq> [] \<Longrightarrow> (\<exists>s. fst (agent_Reset K hid (srv, w)) = Inl (Status NotFound s)) \<longleftrightarrow> \<not> known srv hid"
  by (auto simp: agent_Reset_def lookupHandle_def known_def split: option.splits prod.splits)

end
