(* ===== verification/Rfc3339.thy ===== *)
theory Rfc3339
  imports GoTime GoStrings
begin

text \<open>
  Go's \<open>Time.UTC().Format(time.RFC3339)\<close> and \<open>time.Parse(time.RFC3339, s)\<close>: the civil calendar,
  the printer, and the parser with the latitude of the library (one-digit hours, a fraction after
  a period or comma, zone offsets up to 24:60). Reading what was printed gives the time back at
  whole seconds.
\<close>

section \<open>The civil calendar\<close>

definition is_leap :: "int \<Rightarrow> bool" where
  "is_leap y \<longleftrightarrow> y mod 4 = 0 \<and> (y mod 100 \<noteq> 0 \<or> y mod 400 = 0)"

text \<open>Days from January 1 of year 1 to January 1 of year \<open>y\<close>.\<close>

definition year_days :: "int \<Rightarrow> int" where
  "year_days y = (let p = y - 1 in 365 * p + p div 4 - p div 100 + p div 400)"

definition month_start :: "bool \<Rightarrow> int \<Rightarrow> int" where
  "month_start leap m =
     (let l = (if leap then 1 else 0) in
      if m = 1 then 0 else if m = 2 then 31 else if m = 3 then 59 + l else if m = 4 then 90 + l
      else if m = 5 then 120 + l else if m = 6 then 151 + l else if m = 7 then 181 + l
      else if m = 8 then 212 + l else if m = 9 then 243 + l else if m = 10 then 273 + l
      else if m = 11 then 304 + l else 334 + l)"

definition days_in :: "bool \<Rightarrow> int \<Rightarrow> int" where
  "days_in leap m =
     (if m = 2 then (if leap then 29 else 28)
      else if m = 4 \<or> m = 6 \<or> m = 9 \<or> m = 11 then 30 else 31)"

text \<open>January 1, 1970 is day 719162.\<close>

definition epoch_days :: "int \<Rightarrow> int \<Rightarrow> int \<Rightarrow> int" where
  "epoch_days y m d = year_days y + month_start (is_leap y) m + d - 1 - 719162"

text \<open>Year and day of the year by 400, 100, 4 and 1 year cycles, as \<open>time\<close> computes them.\<close>

definition civil_year :: "int \<Rightarrow> int \<times> int" where
  "civil_year days =
     (let d0 = days + 719162;
          a = d0 div 146097; d1 = d0 - 146097 * a;
          b0 = d1 div 36524; b = b0 - b0 div 4; d2 = d1 - 36524 * b;
          c = d2 div 1461; d3 = d2 - 1461 * c;
          e0 = d3 div 365; e = e0 - e0 div 4; d4 = d3 - 365 * e
      in (400 * a + 100 * b + 4 * c + e + 1, d4))"

definition month_of :: "bool \<Rightarrow> int \<Rightarrow> int" where
  "month_of leap yday =
     (let l = (if leap then 1 else 0) in
      if yday < 31 then 1 else if yday < 59 + l then 2 else if yday < 90 + l then 3
      else if yday < 120 + l then 4 else if yday < 151 + l then 5 else if yday < 181 + l then 6
      else if yday < 212 + l then 7 else if yday < 243 + l then 8 else if yday < 273 + l then 9
      else if yday < 304 + l then 10 else if yday < 334 + l then 11 else 12)"

definition civil_date :: "int \<Rightarrow> int \<times> int \<times> int" where
  "civil_date days =
     (case civil_year days of (y, yday) \<Rightarrow>
        let m = month_of (is_leap y) yday
        in (y, m, yday - month_start (is_leap y) m + 1))"

section \<open>The printer\<close>

definition dec_char :: "nat \<Rightarrow> char" where
  "dec_char n = ''0123456789'' ! n"

definition pad2 :: "int \<Rightarrow> string" where
  "pad2 n = [dec_char (nat n div 10), dec_char (nat n mod 10)]"

fun dec_digits :: "nat \<Rightarrow> string" where
  "dec_digits n = (if n < 10 then [dec_char n] else dec_digits (n div 10) @ [dec_char (n mod 10)])"

declare dec_digits.simps [simp del]

text \<open>\<open>appendInt\<close> with a minimal width.\<close>

definition pad_int :: "nat \<Rightarrow> int \<Rightarrow> string" where
  "pad_int width n =
     (let ds = dec_digits (nat \<bar>n\<bar>)
      in (if n < 0 then ''-'' else []) @ replicate (width - length ds) (CHR ''0'') @ ds)"

definition fmt_rfc3339 :: "gotime \<Rightarrow> string" where
  "fmt_rfc3339 t =
     (let s = time_Unix t; days = s div 86400; sod = s mod 86400
      in case civil_date days of (y, m, d) \<Rightarrow>
           pad_int 4 y @ ''-'' @ pad2 m @ ''-'' @ pad2 d @ ''T'' @ pad2 (sod div 3600) @ '':''
           @ pad2 (sod mod 3600 div 60) @ '':'' @ pad2 (sod mod 60) @ ''Z'')"

section \<open>The parser\<close>

text \<open>\<open>getnum\<close>: two digits, or one when \<open>fixed\<close> is not set. \<open>None\<close> is a syntax error.\<close>

fun getnum :: "bool \<Rightarrow> string \<Rightarrow> (int \<times> string) option" where
  "getnum fixed [] = None"
| "getnum fixed [a] =
     (case dec_digit a of None \<Rightarrow> None | Some x \<Rightarrow> if fixed then None else Some (int x, []))"
| "getnum fixed (a # b # cs) =
     (case dec_digit a of None \<Rightarrow> None
      | Some x \<Rightarrow> (case dec_digit b of
            None \<Rightarrow> if fixed then None else Some (int x, b # cs)
          | Some y \<Rightarrow> Some (int (10 * x + y), cs)))"

definition get_year :: "string \<Rightarrow> (int \<times> string) option" where
  "get_year s =
     (if length s < 4 then None
      else map_option (\<lambda>n. (int n, drop 4 s)) (parse_dec_loop (take 4 s) 0))"

definition skip :: "char \<Rightarrow> string \<Rightarrow> string option" where
  "skip ch s = (case s of [] \<Rightarrow> None | c # cs \<Rightarrow> if c = ch then Some cs else None)"

text \<open>A number with its range, in sequence.\<close>

definition field :: "(string \<Rightarrow> (int \<times> string) option) \<Rightarrow> int \<Rightarrow> int \<Rightarrow> string \<Rightarrow> (int \<times> string) option" where
  "field get lo hi s =
     (case get s of None \<Rightarrow> None | Some (n, r) \<Rightarrow> if lo \<le> n \<and> n \<le> hi then Some (n, r) else None)"

text \<open>The fraction: at most nine digits count, the rest is skipped.\<close>

definition is_dec :: "char \<Rightarrow> bool" where
  "is_dec ch \<longleftrightarrow> dec_digit ch \<noteq> None"

definition get_fraction :: "string \<Rightarrow> int \<times> string" where
  "get_fraction s =
     (case s of
        c # d # cs \<Rightarrow>
          if (c = CHR ''.'' \<or> c = CHR '','') \<and> is_dec d
          then let ds = takeWhile is_dec (d # cs); us = take 9 ds
               in (case parse_dec_loop us 0 of
                     Some n \<Rightarrow> (int n * 10 ^ (9 - length us), dropWhile is_dec (d # cs))
                   | None \<Rightarrow> (0, s))
          else (0, s)
      | _ \<Rightarrow> (0, s))"

text \<open>The zone offset in seconds east of UTC.\<close>

definition get_zone :: "string \<Rightarrow> (int \<times> string) option" where
  "get_zone s =
     (case s of
        [] \<Rightarrow> None
      | c # cs \<Rightarrow>
          if c = CHR ''Z'' then Some (0, cs)
          else if length s < 6 \<or> s ! 3 \<noteq> CHR '':'' then None
          else (case (field (getnum True) 0 24 (take 2 cs), field (getnum True) 0 60 (take 2 (drop 3 cs))) of
              (Some (h, _), Some (mi, _)) \<Rightarrow>
                let off = (h * 60 + mi) * 60 in
                if c = CHR ''+'' then Some (off, drop 6 s)
                else if c = CHR ''-'' then Some (- off, drop 6 s)
                else None
            | _ \<Rightarrow> None))"

definition bind_field :: "('x \<times> string) option \<Rightarrow> ('x \<Rightarrow> string \<Rightarrow> 'b option) \<Rightarrow> 'b option" where
  "bind_field p k = (case p of None \<Rightarrow> None | Some (x, s) \<Rightarrow> k x s)"

definition then_skip :: "char \<Rightarrow> string \<Rightarrow> (string \<Rightarrow> 'b option) \<Rightarrow> 'b option" where
  "then_skip ch s k = (case skip ch s of None \<Rightarrow> None | Some r \<Rightarrow> k r)"

definition scan_rfc3339 :: "string \<Rightarrow> gotime option" where
  "scan_rfc3339 s0 =
     bind_field (get_year s0) (\<lambda>y s. then_skip (CHR ''-'') s (\<lambda>s.
     bind_field (field (getnum True) 1 12 s) (\<lambda>mo s. then_skip (CHR ''-'') s (\<lambda>s.
     bind_field (getnum True s) (\<lambda>d s. then_skip (CHR ''T'') s (\<lambda>s.
     bind_field (field (getnum False) 0 23 s) (\<lambda>h s. then_skip (CHR '':'') s (\<lambda>s.
     bind_field (field (getnum True) 0 59 s) (\<lambda>mi s. then_skip (CHR '':'') s (\<lambda>s.
     bind_field (field (getnum True) 0 59 s) (\<lambda>sec s.
     (case get_fraction s of (ns, s) \<Rightarrow>
     bind_field (get_zone s) (\<lambda>off s.
       if s \<noteq> [] \<or> d < 1 \<or> days_in (is_leap y) mo < d then None
       else Some ((epoch_days y mo d * 86400 + h * 3600 + mi * 60 + sec - off) * second + ns))))))))))))))"

definition time_Parse :: "string \<Rightarrow> goerr + gotime" where
  "time_Parse s = (case scan_rfc3339 s of None \<Rightarrow> Inl (Msg ''parsing time'') | Some t \<Rightarrow> Inr t)"

section \<open>The calendar round trip\<close>

text \<open>A cycle of four equal parts and one day more.\<close>

lemma four_parts:
  fixes x n :: int
  assumes "0 \<le> x" "x \<le> 4 * n" "0 < n" and q: "q = x div n - x div n div 4"
  shows "0 \<le> q" "q \<le> 3" "0 \<le> x - n * q" "x - n * q < (if q = 3 then n + 1 else n)"
    "x - n * q = n \<Longrightarrow> x = 4 * n"
proof -
  have "x div n \<le> 4 * n div n" using assms(2,3) by (intro zdiv_mono1) auto
  then have "x div n \<le> 4" using assms(3) by simp
  moreover have "0 \<le> x div n" using assms(1,3) by (simp add: pos_imp_zdiv_nonneg_iff)
  ultimately have k: "x div n = 0 \<or> x div n = 1 \<or> x div n = 2 \<or> x div n = 3 \<or> x div n = 4" by auto
  have x: "x = n * (x div n) + x mod n" "0 \<le> x mod n" "x mod n < n" using assms(3) by simp_all
  show "0 \<le> q" "q \<le> 3" "0 \<le> x - n * q" "x - n * q < (if q = 3 then n + 1 else n)"
    "x - n * q = n \<Longrightarrow> x = 4 * n"
    using k x assms(2) unfolding q by (elim disjE; simp)+
qed

lemma civil_year_inverse:
  assumes "civil_year days = (y, yday)"
  shows "year_days y + yday = days + 719162" and "0 \<le> yday"
    and "yday < (if is_leap y then 366 else 365)"
proof -
  define d0 where "d0 = days + 719162"
  define a where "a = d0 div 146097"
  define d1 where "d1 = d0 - 146097 * a"
  define b where "b = d1 div 36524 - d1 div 36524 div 4"
  define d2 where "d2 = d1 - 36524 * b"
  define c where "c = d2 div 1461"
  define d3 where "d3 = d2 - 1461 * c"
  define e where "e = d3 div 365 - d3 div 365 div 4"
  have y: "y = 400 * a + 100 * b + 4 * c + e + 1" and yday: "yday = d3 - 365 * e"
    using assms [unfolded civil_year_def Let_def, folded d0_def, folded a_def, folded d1_def,
        folded b_def, folded d2_def, folded c_def, folded d3_def, folded e_def] by simp_all
  have d1: "0 \<le> d1" "d1 < 146097" by (simp_all add: d1_def a_def minus_mult_div_eq_mod)
  have "d1 \<le> 4 * 36524" using d1(2) by simp
  then have b: "0 \<le> b" "b \<le> 3" "0 \<le> d2" "d2 < (if b = 3 then 36525 else 36524)"
    using four_parts [OF d1(1) _ _ b_def] by (auto simp: d2_def split: if_splits)
  have c: "0 \<le> c" "c \<le> 24" "0 \<le> d3" "d3 < 1461" "c = 24 \<Longrightarrow> b \<noteq> 3 \<Longrightarrow> d3 < 1460"
  proof -
    have m: "d3 = d2 mod 1461" unfolding d3_def c_def by (simp add: minus_mult_div_eq_mod)
    show d3: "0 \<le> d3" "d3 < 1461" by (simp_all add: m)
    show "0 \<le> c" unfolding c_def using b(3) by (simp add: pos_imp_zdiv_nonneg_iff)
    show "c \<le> 24" using b(4) d3 unfolding d3_def by (auto split: if_splits)
    show "d3 < 1460" if "c = 24" "b \<noteq> 3" using b(4) that unfolding d3_def by simp
  qed
  have "d3 \<le> 4 * 365" using c(4) by simp
  then have e: "0 \<le> e" "e \<le> 3" "0 \<le> yday" "yday < (if e = 3 then 366 else 365)"
    "yday = 365 \<Longrightarrow> d3 = 1460"
    using four_parts [OF c(3) _ _ e_def] by (auto simp: yday split: if_splits)
  have p: "(y - 1) div 4 = 100 * a + 25 * b + c" "(y - 1) div 100 = 4 * a + b" "(y - 1) div 400 = a"
  proof -
    show "(y - 1) div 4 = 100 * a + 25 * b + c" by (rule int_div_pos_eq [where r = e]) (use e in \<open>simp_all add: y\<close>)
    show "(y - 1) div 100 = 4 * a + b" by (rule int_div_pos_eq [where r = "4 * c + e"]) (use c e in \<open>simp_all add: y\<close>)
    show "(y - 1) div 400 = a" by (rule int_div_pos_eq [where r = "100 * b + 4 * c + e"]) (use b c e in \<open>simp_all add: y\<close>)
  qed
  show "year_days y + yday = days + 719162"
    unfolding year_days_def p Let_def by (simp add: y yday d3_def d2_def d1_def d0_def)
  show "0 \<le> yday" by (rule e(3))
  have "is_leap y" if "yday = 365"
  proof -
    have "e = 3" "c \<noteq> 24 \<or> b = 3" using e(4,5) that c(5) by (auto split: if_splits)
    have y4: "y = 4 * c + 4 + (4 * a + b) * 100" using \<open>e = 3\<close> by (simp add: y)
    then have "y = (100 * a + 25 * b + c + 1) * 4" by simp
    then have "y mod 4 = 0" by (metis mod_mult_self2_is_0)
    moreover have "y mod 100 \<noteq> 0" if "c \<noteq> 24"
    proof -
      have "y mod 100 = (4 * c + 4) mod 100" unfolding y4 by (rule mod_mult_self1)
      also have "\<dots> = 4 * c + 4" using c(1,2) that by simp
      finally have "y mod 100 = 4 * c + 4" .
      then show ?thesis using c(1) by simp
    qed
    moreover have "y mod 400 = 0" if "c = 24" "b = 3"
    proof -
      have "y = (a + 1) * 400" using that by (simp add: y4)
      then show ?thesis by (metis mod_mult_self2_is_0)
    qed
    ultimately show ?thesis using \<open>c \<noteq> 24 \<or> b = 3\<close> unfolding is_leap_def by metis
  qed
  then have "yday \<noteq> 365" if "\<not> is_leap y" using that by blast
  moreover have "yday < 366" using e(4) by (simp split: if_splits)
  ultimately show "yday < (if is_leap y then 366 else 365)" by fastforce
qed

lemma month_of_inverse:
  assumes "0 \<le> yday" and "yday < (if leap then 366 else 365)"
  shows "1 \<le> month_of leap yday \<and> month_of leap yday \<le> 12 \<and>
    0 \<le> yday - month_start leap (month_of leap yday) \<and>
    yday - month_start leap (month_of leap yday) < days_in leap (month_of leap yday)"
  using assms by (cases leap) (simp_all add: month_of_def month_start_def days_in_def Let_def)

lemma civil_date_inverse:
  assumes "civil_date days = (y, m, d)"
  shows "epoch_days y m d = days" "1 \<le> m" "m \<le> 12" "1 \<le> d" "d \<le> days_in (is_leap y) m"
proof -
  obtain y1 yday where cy: "civil_year days = (y1, yday)" by (rule prod.exhaust)
  from assms cy have y: "y1 = y" and m: "m = month_of (is_leap y) yday"
    and d: "d = yday - month_start (is_leap y) m + 1"
    by (auto simp: civil_date_def Let_def)
  from civil_year_inverse [OF cy] y month_of_inverse [of yday "is_leap y"]
  show "epoch_days y m d = days" "1 \<le> m" "m \<le> 12" "1 \<le> d" "d \<le> days_in (is_leap y) m"
    by (auto simp: epoch_days_def m d)
qed

section \<open>Fields read back\<close>

lemma dec_digit_char [simp]: "n < 10 \<Longrightarrow> dec_digit (dec_char n) = Some n"
  by (simp add: dec_char_def less_Suc_eq numeral_eq_Suc dec_digit_def Let_def) auto

lemma getnum_pad2 [simp]:
  assumes "0 \<le> n" "n < 100"
  shows "getnum fixed (pad2 n @ s) = Some (n, s)"
  using assms by (simp add: pad2_def)

lemma field_pad2 [simp]:
  "0 \<le> n \<Longrightarrow> n < 100 \<Longrightarrow> lo \<le> n \<Longrightarrow> n \<le> hi \<Longrightarrow> field (getnum fixed) lo hi (pad2 n @ s) = Some (n, s)"
  by (simp add: field_def)

lemma parse_dec_loop_append:
  "parse_dec_loop xs n = Some k \<Longrightarrow> parse_dec_loop (xs @ ys) n = parse_dec_loop ys k"
  by (induction xs arbitrary: n) (auto split: option.splits)

lemma parse_dec_digits: "parse_dec_loop (dec_digits n) 0 = Some n"
proof (induction n rule: less_induct)
  case (less n)
  show ?case
  proof (cases "n < 10")
    case True
    then show ?thesis by (simp add: dec_digits.simps [of n])
  next
    case False
    with less [of "n div 10"] have "parse_dec_loop (dec_digits (n div 10)) 0 = Some (n div 10)" by simp
    from parse_dec_loop_append [OF this] False show ?thesis
      by (simp add: dec_digits.simps [of n])
  qed
qed

lemma parse_dec_zeros: "parse_dec_loop (replicate k (CHR ''0'') @ xs) 0 = parse_dec_loop xs 0"
  by (induction k) (simp_all add: dec_digit_def)

lemma length_dec_digits: "n < 10 ^ k \<Longrightarrow> 0 < k \<Longrightarrow> length (dec_digits n) \<le> k"
proof (induction k arbitrary: n)
  case (Suc k)
  show ?case
  proof (cases "n < 10")
    case True
    then show ?thesis by (simp add: dec_digits.simps [of n])
  next
    case False
    then have "0 < k" using Suc.prems(1) by (cases k) auto
    with Suc.IH [of "n div 10"] Suc.prems(1) False show ?thesis
      by (simp add: dec_digits.simps [of n] less_mult_imp_div_less)
  qed
qed simp

lemma get_year_pad:
  assumes "0 \<le> y" "y \<le> 9999"
  shows "get_year (pad_int 4 y @ s) = Some (y, s)"
proof -
  have len: "length (pad_int 4 y) = 4"
    using length_dec_digits [of "nat y" 4] assms by (simp add: pad_int_def Let_def)
  moreover have "parse_dec_loop (pad_int 4 y) 0 = Some (nat y)"
    using assms by (simp add: pad_int_def Let_def parse_dec_zeros parse_dec_digits)
  ultimately show ?thesis using assms by (simp add: get_year_def)
qed

text \<open>The printed time is read back at whole seconds, for the years of four digits.\<close>

definition four_digit_year :: "gotime \<Rightarrow> bool" where
  "four_digit_year t \<longleftrightarrow> 0 \<le> fst (civil_date (time_Unix t div 86400)) \<and>
     fst (civil_date (time_Unix t div 86400)) \<le> 9999"

lemma Parse_fmt_rfc3339:
  assumes "four_digit_year t"
  shows "time_Parse (fmt_rfc3339 t) = Inr (time_Unix t * second)"
proof -
  let ?s = "time_Unix t"
  obtain y m d where civ: "civil_date (?s div 86400) = (y, m, d)" by (metis prod_cases3)
  note inv = civil_date_inverse [OF civ]
  have y: "0 \<le> y" "y \<le> 9999" using assms civ by (simp_all add: four_digit_year_def)
  have dle: "d \<le> 31" using inv(5) by (simp add: days_in_def split: if_splits)
  define sod where "sod = ?s mod 86400"
  have sod: "0 \<le> sod" "sod < 86400" by (simp_all add: sod_def)
  have frac: "get_fraction ''Z'' = (0, ''Z'')" and zone: "get_zone ''Z'' = Some (0, [])"
    by (simp_all add: get_fraction_def get_zone_def)
  have mm: "sod mod 3600 mod 60 = sod mod 60" by (rule mod_mod_cancel) simp
  have hms: "sod div 3600 * 3600 + sod mod 3600 div 60 * 60 + sod mod 60 = sod"
    using mm div_mult_mod_eq [of sod 3600] div_mult_mod_eq [of "sod mod 3600" 60] by linarith
  then have days: "epoch_days y m d * 86400 + sod div 3600 * 3600 + sod mod 3600 div 60 * 60 + sod mod 60 = ?s"
    using inv(1) div_mult_mod_eq [of ?s 86400] unfolding sod_def by linarith
  define hh mi ss where f: "hh = sod div 3600" "mi = sod mod 3600 div 60" "ss = sod mod 60"
  have r: "0 \<le> hh" "hh \<le> 23" "0 \<le> mi" "mi \<le> 59" "0 \<le> ss" "ss \<le> 59"
    using sod unfolding f by auto
  have "fmt_rfc3339 t = pad_int 4 y @ ''-'' @ pad2 m @ ''-'' @ pad2 d @ ''T'' @ pad2 hh @ '':'' @
      pad2 mi @ '':'' @ pad2 ss @ ''Z''"
    by (simp add: fmt_rfc3339_def civ Let_def f sod_def)
  moreover have "scan_rfc3339 \<dots> = Some ((epoch_days y m d * 86400 + hh * 3600 + mi * 60 + ss) * second)"
    unfolding scan_rfc3339_def using y inv(2-5) dle r
    by (simp add: get_year_pad bind_field_def then_skip_def skip_def frac zone)
  ultimately show ?thesis using days by (simp add: time_Parse_def f)
qed

end
