(* ===== verification/Agentclient.thy ===== *)
theory Agentclient
  imports Agent Rfc3339
begin

text \<open>
  pkg/agentclient/agentclient.go: the pool of connections to the node agents, as the client of
  the agents' servers. The transport is a parameter: which addresses can be dialled, and which
  nodes are up; a node that is down answers Unavailable, an error status of a method reaches the
  caller unchanged.
\<close>

record pool =
  pl_conns :: "string list"
  pl_port :: string

definition NewPool :: "string \<Rightarrow> pool" where
  "NewPool agentPort = \<lparr>pl_conns = [], pl_port = agentPort\<rparr>"

text \<open>The nodes by address, each with its agent and its operating system.\<close>

type_synonym 'w nodes = "string \<Rightarrow> 'w node option"

record 'w cluster =
  cl_nodes :: "'w nodes"
  cl_pool :: pool

definition node_addr :: "pool \<Rightarrow> string \<Rightarrow> string" where
  "node_addr p nodeIP = nodeIP @ '':'' @ pl_port p"

definition clientFor :: "(string \<Rightarrow> bool) \<Rightarrow> string \<Rightarrow> pool \<Rightarrow> (goerr + string) \<times> pool" where
  "clientFor dialable nodeIP p =
     (let addr = node_addr p nodeIP in
      if addr \<in> set (pl_conns p) then (Inr addr, p)
      else if \<not> dialable addr then (Inl (Wrap ''agentclient: dial'' (Msg ''invalid target'')), p)
      else (Inr addr, p\<lparr>pl_conns := addr # pl_conns p\<rparr>))"

text \<open>One unary call on an open connection.\<close>

definition rpc :: "string \<Rightarrow> ('w node \<Rightarrow> (goerr + 'a) \<times> 'w node) \<Rightarrow> 'w nodes \<Rightarrow> (goerr + 'a) \<times> 'w nodes" where
  "rpc addr m ns =
     (case ns addr of
        None \<Rightarrow> (Inl (Status Unavailable ''connection refused''), ns)
      | Some nd \<Rightarrow> (case m nd of (r, nd') \<Rightarrow> (r, ns(addr \<mapsto> nd'))))"

definition pool_call :: "(string \<Rightarrow> bool) \<Rightarrow> string \<Rightarrow> string \<Rightarrow> ('w node \<Rightarrow> (goerr + 'a) \<times> 'w node)
    \<Rightarrow> 'w cluster \<Rightarrow> (goerr + 'a) \<times> 'w cluster" where
  "pool_call dialable nodeIP ctx m cl =
     (case clientFor dialable nodeIP (cl_pool cl) of
        (Inl e, p) \<Rightarrow> (Inl e, cl\<lparr>cl_pool := p\<rparr>)
      | (Inr addr, p) \<Rightarrow>
          (case rpc addr m (cl_nodes cl) of
             (Inl e, ns) \<Rightarrow> (Inl (Wrap ctx e), cl\<lparr>cl_pool := p, cl_nodes := ns\<rparr>)
           | (Inr a, ns) \<Rightarrow> (Inr a, cl\<lparr>cl_pool := p, cl_nodes := ns\<rparr>)))"

definition pool_Inject :: "'w kernel \<Rightarrow> elf_reader \<Rightarrow> (string \<Rightarrow> bool) \<Rightarrow> string \<Rightarrow> string \<Rightarrow> gotime \<Rightarrow> bool
    \<Rightarrow> 'w cluster \<Rightarrow> (goerr + string) \<times> 'w cluster" where
  "pool_Inject K elf dialable nodeIP cid target freeze =
     pool_call dialable nodeIP ''agentclient: Inject'' (agent_Inject K elf cid (Some target) freeze)"

definition pool_SetTime :: "'w kernel \<Rightarrow> (string \<Rightarrow> bool) \<Rightarrow> string \<Rightarrow> string \<Rightarrow> gotime \<Rightarrow> bool
    \<Rightarrow> 'w cluster \<Rightarrow> (goerr + unit) \<times> 'w cluster" where
  "pool_SetTime K dialable nodeIP hid target freeze =
     pool_call dialable nodeIP ''agentclient: SetTime'' (agent_SetTime K hid (Some target) freeze)"

definition pool_Reset :: "'w kernel \<Rightarrow> (string \<Rightarrow> bool) \<Rightarrow> string \<Rightarrow> string
    \<Rightarrow> 'w cluster \<Rightarrow> (goerr + unit) \<times> 'w cluster" where
  "pool_Reset K dialable nodeIP hid =
     pool_call dialable nodeIP ''agentclient: Reset'' (agent_Reset K hid)"

text \<open>\<open>api.HandleStatus\<close> with the target as RFC 3339 text and the address in hexadecimal.\<close>

record handle_status =
  hs_Generation :: "32 word"
  hs_LastTarget :: string
  hs_StateAddr :: string
  hs_PID :: int

definition pool_GetStatus :: "(string \<Rightarrow> bool) \<Rightarrow> string \<Rightarrow> string \<Rightarrow> 'w cluster
    \<Rightarrow> (goerr + handle_status) \<times> 'w cluster" where
  "pool_GetStatus dialable nodeIP hid =
     attempt (pool_call dialable nodeIP ''agentclient: GetStatus'' (agent_Status hid)) (\<lambda>e. e)
       (\<lambda>resp cl. (Inr \<lparr>hs_Generation = sr_Generation resp,
                       hs_LastTarget = fmt_rfc3339 (sr_LastTarget resp),
                       hs_StateAddr = sr_StateAddr resp, hs_PID = sr_Pid resp\<rparr>, cl))"

definition pool_Close :: "'w cluster \<Rightarrow> 'w cluster" where
  "pool_Close cl = cl\<lparr>cl_pool := (cl_pool cl)\<lparr>pl_conns := []\<rparr>\<rparr>"

section \<open>The controller's view of the agents\<close>

text \<open>The interface AgentPool, over any world that holds the agents.\<close>

record 'a agents =
  ag_Inject :: "string \<Rightarrow> string \<Rightarrow> gotime \<Rightarrow> bool \<Rightarrow> 'a \<Rightarrow> (goerr + string) \<times> 'a"
  ag_SetTime :: "string \<Rightarrow> string \<Rightarrow> gotime \<Rightarrow> bool \<Rightarrow> 'a \<Rightarrow> (goerr + unit) \<times> 'a"
  ag_Reset :: "string \<Rightarrow> string \<Rightarrow> 'a \<Rightarrow> (goerr + unit) \<times> 'a"
  ag_GetStatus :: "string \<Rightarrow> string \<Rightarrow> 'a \<Rightarrow> (goerr + handle_status) \<times> 'a"

definition pool_agents :: "'w kernel \<Rightarrow> elf_reader \<Rightarrow> (string \<Rightarrow> bool) \<Rightarrow> 'w cluster agents" where
  "pool_agents K elf dialable =
     \<lparr>ag_Inject = pool_Inject K elf dialable, ag_SetTime = pool_SetTime K dialable,
      ag_Reset = pool_Reset K dialable, ag_GetStatus = pool_GetStatus dialable\<rparr>"

text \<open>
  \<open>isAgentNotFound\<close>: \<open>grpcstatus.FromError\<close> finds a status anywhere in the chain (and in
  joined branches); the loop asks it of the error and of every unwrapped one.
\<close>

fun status_code :: "goerr \<Rightarrow> grpc_code option" where
  "status_code (Status c s) = Some c"
| "status_code (Wrap s e) = status_code e"
| "status_code (Joined es) =
     (case filter (\<lambda>c. c \<noteq> None) (map status_code es) of [] \<Rightarrow> None | c # cs \<Rightarrow> c)"
| "status_code (Errno e) = None"
| "status_code (Msg s) = None"

fun isAgentNotFound :: "goerr \<Rightarrow> bool" where
  "isAgentNotFound (Wrap s e) =
     (case status_code (Wrap s e) of Some c \<Rightarrow> c = NotFound | None \<Rightarrow> isAgentNotFound e)"
| "isAgentNotFound e = (case status_code e of Some c \<Rightarrow> c = NotFound | None \<Rightarrow> False)"

lemma isAgentNotFound_iff: "isAgentNotFound e \<longleftrightarrow> status_code e = Some NotFound"
  by (induction e) (auto split: option.splits)

section \<open>What the controller may rely on\<close>

text \<open>
  \<open>live ip hid w\<close>: the agent on that node knows the handle. Calls never make a live handle
  unknown, a successful injection gives a live one, and NOT_FOUND is never the answer for a
  live handle.
\<close>

locale agent_pool =
  fixes A :: "'a agents" and live :: "string \<Rightarrow> string \<Rightarrow> 'a \<Rightarrow> bool"
  assumes inject_keeps: "ag_Inject A n c t f w = (r, w') \<Longrightarrow> live ip hid w \<Longrightarrow> live ip hid w'"
    and inject_live: "ag_Inject A n c t f w = (Inr hid, w') \<Longrightarrow> live n hid w'"
    and set_keeps: "ag_SetTime A n h t f w = (r', w') \<Longrightarrow> live ip hid w \<Longrightarrow> live ip hid w'"
    and reset_keeps: "ag_Reset A n h w = (r', w') \<Longrightarrow> live ip hid w \<Longrightarrow> live ip hid w'"
    and set_live: "ag_SetTime A n hid t f w = (Inr u, w') \<Longrightarrow> live n hid w'"
    and set_found: "live n hid w \<Longrightarrow> ag_SetTime A n hid t f w = (Inl e, w') \<Longrightarrow> \<not> isAgentNotFound e"
    and reset_found: "live n hid w \<Longrightarrow> ag_Reset A n hid w = (Inl e, w') \<Longrightarrow> \<not> isAgentNotFound e"
    and status_found: "live n hid w \<Longrightarrow> ag_GetStatus A n hid w = (Inl e, w') \<Longrightarrow> \<not> isAgentNotFound e"
begin

text \<open>A handle obtained by an injection survives any later calls of the pool.\<close>

lemma injected_then_set:
  "ag_Inject A n c t f w = (Inr hid, w1) \<Longrightarrow>
     ag_SetTime A n hid t' f' w1 = (Inl e, w2) \<Longrightarrow> \<not> isAgentNotFound e"
  by (rule set_found [OF inject_live])

lemma injected_then_set_then_reset:
  assumes "ag_Inject A n c t f w = (Inr hid, w1)" and "ag_SetTime A n' h' t' f' w1 = (r, w2)"
    and "ag_Reset A n hid w2 = (Inl e, w3)"
  shows "\<not> isAgentNotFound e"
  using reset_found [OF set_keeps [OF assms(2) inject_live [OF assms(1)]] assms(3)] .

end

section \<open>The pool provides the interface\<close>

definition pool_live :: "string \<Rightarrow> string \<Rightarrow> 'w cluster \<Rightarrow> bool" where
  "pool_live nodeIP hid cl \<longleftrightarrow>
     (case cl_nodes cl (node_addr (cl_pool cl) nodeIP) of None \<Rightarrow> False | Some (srv, w) \<Rightarrow> known srv hid)"

lemma clientFor_addr: "clientFor d ip p = (Inr addr, p') \<Longrightarrow> addr = node_addr p ip \<and> pl_port p' = pl_port p"
  by (auto simp: clientFor_def Let_def split: if_splits)

lemma clientFor_error: "clientFor d ip p = (Inl e, p') \<Longrightarrow> p' = p \<and> \<not> isAgentNotFound e"
  by (auto simp: clientFor_def Let_def split: if_splits)

lemma node_addr_port: "pl_port p' = pl_port p \<Longrightarrow> node_addr p' ip = node_addr p ip"
  by (simp add: node_addr_def)

lemma pool_call_keeps:
  assumes keep: "\<And>srv w r srv' w'. m (srv, w) = (r, (srv', w')) \<Longrightarrow> known srv hid \<Longrightarrow> known srv' hid"
    and run: "pool_call d n ctx m cl = (r, cl')" and live: "pool_live ip hid cl"
  shows "pool_live ip hid cl'"
proof -
  obtain x p where c: "clientFor d n (cl_pool cl) = (x, p)" by (rule prod.exhaust)
  show ?thesis
  proof (cases x)
    case (Inl e)
    with clientFor_error c have "p = cl_pool cl" by blast
    with run live Inl show ?thesis by (auto simp: pool_call_def c pool_live_def)
  next
    case (Inr addr)
    then have port: "pl_port p = pl_port (cl_pool cl)" using clientFor_addr c by blast
    from run Inr have cl': "cl_pool cl' = p" "cl_nodes cl' = snd (rpc addr m (cl_nodes cl))"
      by (auto simp: pool_call_def c split: prod.splits sum.splits)
    show ?thesis
      using live
      by (auto simp: pool_live_def cl' node_addr_port [OF port] rpc_def intro: keep
          split: option.splits prod.splits)
  qed
qed

text \<open>An error status reaches the caller below the client's wrapping.\<close>

lemma pool_call_status:
  assumes run: "pool_call d n ctx m cl = (Inl e, cl')" and live: "pool_live n hid cl"
    and ok: "\<And>srv w e st. known srv hid \<Longrightarrow> m (srv, w) = (Inl e, st) \<Longrightarrow> status_code e \<noteq> Some NotFound"
  shows "\<not> isAgentNotFound e"
proof -
  obtain x p where c: "clientFor d n (cl_pool cl) = (x, p)" by (rule prod.exhaust)
  show ?thesis
  proof (cases x)
    case (Inl e0)
    with run clientFor_error [of d n "cl_pool cl" e0 p] c show ?thesis by (auto simp: pool_call_def)
  next
    case (Inr addr)
    then have "addr = node_addr (cl_pool cl) n" using clientFor_addr c by blast
    with run live Inr show ?thesis
      by (auto simp: pool_call_def c rpc_def pool_live_def isAgentNotFound_iff dest: ok
          split: prod.splits sum.splits option.splits)
  qed
qed

lemma pool_call_Inr:
  assumes "pool_call d n ctx m cl = (Inr a, cl')"
  obtains srv w srv' w' where "cl_nodes cl (node_addr (cl_pool cl) n) = Some (srv, w)"
    and "m (srv, w) = (Inr a, (srv', w'))"
    and "cl_nodes cl' = (cl_nodes cl)(node_addr (cl_pool cl) n \<mapsto> (srv', w'))"
    and "node_addr (cl_pool cl') n = node_addr (cl_pool cl) n"
proof -
  from assms obtain addr p where c: "clientFor d n (cl_pool cl) = (Inr addr, p)"
    and r: "rpc addr m (cl_nodes cl) = (Inr a, cl_nodes cl')" and p: "cl_pool cl' = p"
    by (auto simp: pool_call_def split: prod.splits sum.splits)
  from clientFor_addr [OF c] have "addr = node_addr (cl_pool cl) n" "node_addr p n = node_addr (cl_pool cl) n"
    using node_addr_port [of p "cl_pool cl"] by blast+
  with r p that show thesis
    by (auto simp: rpc_def split: option.splits prod.splits)
qed

text \<open>With it the pool over the agents' servers satisfies the contract.\<close>

interpretation node_agents: agent_pool "pool_agents K elf dialable" pool_live
  for K :: "'w kernel" and elf :: elf_reader and dialable :: "string \<Rightarrow> bool"
proof unfold_locales
  fix n c t f h ip hid and w w' :: "'w cluster" and r and r'
  show "ag_Inject (pool_agents K elf dialable) n c t f w = (r, w') \<Longrightarrow>
      pool_live ip hid w \<Longrightarrow> pool_live ip hid w'"
    by (auto simp: pool_agents_def pool_Inject_def intro: pool_call_keeps [OF agent_Inject_known])
  show "ag_SetTime (pool_agents K elf dialable) n h t f w = (r', w') \<Longrightarrow>
      pool_live ip hid w \<Longrightarrow> pool_live ip hid w'"
    by (auto simp: pool_agents_def pool_SetTime_def intro: pool_call_keeps [OF agent_SetTime_known])
  show "ag_Reset (pool_agents K elf dialable) n h w = (r', w') \<Longrightarrow>
      pool_live ip hid w \<Longrightarrow> pool_live ip hid w'"
    by (auto simp: pool_agents_def pool_Reset_def intro: pool_call_keeps [OF agent_Reset_known])
  show "ag_Inject (pool_agents K elf dialable) n c t f w = (Inr hid, w') \<Longrightarrow>
      pool_live n hid w'"
    by (auto simp: pool_agents_def pool_Inject_def pool_live_def elim!: pool_call_Inr
        dest: agent_Inject_issues)
  show "ag_SetTime (pool_agents K elf dialable) n hid t f w = (Inr u, w') \<Longrightarrow>
      pool_live n hid w'" for u
    by (auto simp: pool_agents_def pool_SetTime_def pool_live_def elim!: pool_call_Inr
        dest: agent_SetTime_Inr_known)
next
  fix n hid t f e and w w' :: "'w cluster"
  assume live: "pool_live n hid w"
  show "\<not> isAgentNotFound e" if "ag_SetTime (pool_agents K elf dialable) n hid t f w = (Inl e, w')"
    using that unfolding pool_agents_def pool_SetTime_def agents.simps
    by (rule pool_call_status [OF _ live])
      (auto simp: agent_SetTime_def lookupHandle_def known_def
        split: option.splits prod.splits if_splits)
  show "\<not> isAgentNotFound e" if "ag_Reset (pool_agents K elf dialable) n hid w = (Inl e, w')"
    using that unfolding pool_agents_def pool_Reset_def agents.simps
    by (rule pool_call_status [OF _ live])
      (auto simp: agent_Reset_def lookupHandle_def known_def
        split: option.splits prod.splits if_splits)
  show "\<not> isAgentNotFound e" if run: "ag_GetStatus (pool_agents K elf dialable) n hid w = (Inl e, w')"
  proof -
    from run have "pool_call dialable n ''agentclient: GetStatus'' (agent_Status hid) w = (Inl e, w')"
      by (auto simp: pool_agents_def pool_GetStatus_def elim: attempt_InlE)
    then show ?thesis
      by (rule pool_call_status [OF _ live])
        (auto simp: agent_Status_def lookupHandle_def known_def
          split: option.splits prod.splits if_splits)
  qed
qed

end
