(* ===== verification/GoDuration.thy ===== *)
theory GoDuration
  imports Rfc3339
begin

text \<open>
  Go's \<open>Duration.String\<close> and \<open>time.ParseDuration\<close>. The fraction of a component is computed
  exactly here; the library multiplies in float64, which agrees whenever the fraction has no
  more digits than the unit has decimal places (as in everything \<open>String\<close> prints).
\<close>

section \<open>The printer\<close>

definition pad_nat :: "nat \<Rightarrow> nat \<Rightarrow> string" where
  "pad_nat width n = (let ds = dec_digits n in replicate (width - length ds) (CHR ''0'') @ ds)"

definition strip_zeros :: "string \<Rightarrow> string" where
  "strip_zeros s = rev (dropWhile (\<lambda>c. c = CHR ''0'') (rev s))"

text \<open>\<open>fmtFrac\<close> and \<open>fmtInt\<close> of one component: \<open>v\<close> counts units of \<open>10 ^ - prec\<close>.\<close>

definition fmt_frac :: "nat \<Rightarrow> nat \<Rightarrow> string" where
  "fmt_frac v prec =
     (let f = v mod 10 ^ prec in if f = 0 then [] else ''.'' @ strip_zeros (pad_nat prec f))"

definition micro :: string where "micro = [CHR 0xC2, CHR 0xB5]"

definition dur_String :: "duration \<Rightarrow> string" where
  "dur_String d =
     (let u = nat \<bar>d\<bar>; sign = (if d < 0 then ''-'' else []) in
      if u = 0 then ''0s''
      else if u < 1000 then sign @ dec_digits u @ ''ns''
      else if u < 1000000 then sign @ dec_digits (u div 10 ^ 3) @ fmt_frac u 3 @ micro @ ''s''
      else if u < 1000000000 then sign @ dec_digits (u div 10 ^ 6) @ fmt_frac u 6 @ ''ms''
      else let s = u div 10 ^ 9; m = s div 60; h = m div 60
           in sign @ (if 0 < h then dec_digits h @ ''h'' else [])
                @ (if 0 < m then dec_digits (m mod 60) @ ''m'' else [])
                @ dec_digits (s mod 60) @ fmt_frac u 9 @ ''s'')"

section \<open>The parser\<close>

definition unit_of :: "string \<Rightarrow> nat option" where
  "unit_of u =
     (if u = ''ns'' then Some 1
      else if u = micro @ ''s'' \<or> u = [CHR 0xCE, CHR 0xBC, CHR ''s''] \<or> u = ''us'' then Some 1000
      else if u = ''ms'' then Some 1000000
      else if u = ''s'' then Some 1000000000
      else if u = ''m'' then Some 60000000000
      else if u = ''h'' then Some 3600000000000
      else None)"

text \<open>Leading digits that overflow 2^63 are an error; digits of a fraction beyond it are ignored.\<close>

definition lead_int :: "string \<Rightarrow> nat option" where
  "lead_int ds =
     (case parse_dec_loop ds 0 of None \<Rightarrow> None | Some n \<Rightarrow> if 2 ^ 63 < n then None else Some n)"

fun lead_frac :: "string \<Rightarrow> nat \<Rightarrow> nat \<Rightarrow> nat \<times> nat" where
  "lead_frac [] x scale = (x, scale)"
| "lead_frac (c # cs) x scale =
     (case dec_digit c of
        None \<Rightarrow> (x, scale)
      | Some d \<Rightarrow> if (2 ^ 63 - 1) div 10 < x \<or> 2 ^ 63 < 10 * x + d then (x, scale)
                  else lead_frac cs (10 * x + d) (10 * scale))"

definition unit_char :: "char \<Rightarrow> bool" where
  "unit_char c \<longleftrightarrow> c \<noteq> CHR ''.'' \<and> \<not> is_dec c"

text \<open>One component: its nanoseconds and what follows it.\<close>

definition component :: "string \<Rightarrow> (nat \<times> string) option" where
  "component s =
     (let ip = takeWhile is_dec s; r = dropWhile is_dec s;
          dot = has_prefix r ''.'';
          fp = (if dot then takeWhile is_dec (tl r) else []);
          r2 = (if dot then dropWhile is_dec (tl r) else r);
          u = takeWhile unit_char r2
      in if ip = [] \<and> fp = [] then None
         else (case (lead_int ip, unit_of u) of
             (Some v, Some un) \<Rightarrow>
               (case lead_frac fp 0 1 of (f, scale) \<Rightarrow>
                  if 2 ^ 63 div un < v then None
                  else let x = v * un + f * un div scale
                       in if 2 ^ 63 < x then None else Some (x, dropWhile unit_char r2))
           | _ \<Rightarrow> None))"

lemma component_shorter:
  assumes "component s = Some (x, rest)"
  shows "length rest < length s"
proof -
  let ?r = "dropWhile is_dec s"
  let ?r2 = "if has_prefix ?r ''.'' then dropWhile is_dec (tl ?r) else ?r"
  from assms have rest: "rest = dropWhile unit_char ?r2" and u: "unit_of (takeWhile unit_char ?r2) \<noteq> None"
    by (auto simp: component_def Let_def split: if_splits option.splits prod.splits)
  have "0 < length (takeWhile unit_char ?r2)"
    using u by (auto simp: unit_of_def micro_def)
  moreover have "length (takeWhile unit_char ?r2) + length rest = length ?r2"
    unfolding rest by (metis length_append takeWhile_dropWhile_id)
  ultimately have "length rest < length ?r2" by linarith
  also have "length ?r2 \<le> length ?r"
    using order_trans [OF length_dropWhile_le [of is_dec "tl ?r"], of "length ?r"] by simp
  also have "\<dots> \<le> length s" by (rule length_dropWhile_le)
  finally show ?thesis .
qed

function components :: "nat \<Rightarrow> string \<Rightarrow> nat option" where
  "components d s =
     (if s = [] then Some d
      else case component s of
          None \<Rightarrow> None
        | Some (x, rest) \<Rightarrow> if 2 ^ 63 < d + x then None else components (d + x) rest)"
  by pat_completeness auto

termination
  by (relation "measure (length \<circ> snd)") (auto dest: component_shorter)

declare components.simps [simp del]

definition ParseDuration :: "string \<Rightarrow> goerr + duration" where
  "ParseDuration s0 =
     (let neg = has_prefix s0 ''-'';
          s = (if neg \<or> has_prefix s0 ''+'' then tl s0 else s0);
          bad = Inl (Msg ''time: invalid duration'')
      in if s = ''0'' then Inr 0
         else if s = [] then bad
         else case components 0 s of
             None \<Rightarrow> bad
           | Some d \<Rightarrow> if neg then Inr (- int d)
                       else if 2 ^ 63 - 1 < d then bad else Inr (int d))"

section \<open>The round trip\<close>

lemma is_dec_char [simp]: "n < 10 \<Longrightarrow> is_dec (dec_char n)"
  by (simp add: is_dec_def)

lemma dec_digit_zero [simp]: "dec_digit (CHR ''0'') = Some 0" and is_dec_zero [simp]: "is_dec (CHR ''0'')"
  by (simp_all add: dec_digit_def is_dec_def)

lemma dec_digits_all: "list_all is_dec (dec_digits n)"
proof (induction n rule: less_induct)
  case (less n)
  then show ?case by (cases "n < 10") (simp_all add: dec_digits.simps [of n])
qed

lemma dec_digits_nonempty [simp]: "dec_digits n \<noteq> []"
  by (cases "n < 10") (simp_all add: dec_digits.simps [of n])

lemma list_all_while:
  "list_all P xs \<Longrightarrow> ys = [] \<or> \<not> P (hd ys) \<Longrightarrow> takeWhile P (xs @ ys) = xs \<and> dropWhile P (xs @ ys) = ys"
  by (induction xs) (cases ys, auto)

lemma parse_dec_total: "list_all is_dec s \<Longrightarrow> \<exists>n. parse_dec_loop s k = Some n"
  by (induction s arbitrary: k) (auto simp: is_dec_def)

lemma parse_dec_replicate: "parse_dec_loop (replicate j (CHR ''0'')) n = Some (n * 10 ^ j)"
  by (induction j arbitrary: n) (simp_all add: mult_ac)

lemma parse_dec_trailing:
  "parse_dec_loop xs k = Some n \<Longrightarrow> parse_dec_loop (xs @ replicate j (CHR ''0'')) k = Some (n * 10 ^ j)"
  by (simp add: parse_dec_loop_append parse_dec_replicate)

lemma dropWhile_zeros: "\<exists>j. s = replicate j z @ dropWhile (\<lambda>c. c = z) s"
proof (induction s)
  case (Cons c s)
  then obtain j where j: "s = replicate j z @ dropWhile (\<lambda>c. c = z) s" by blast
  show ?case
  proof (cases "c = z")
    case True
    with j show ?thesis by (auto intro: exI [of _ "Suc j"])
  next
    case False
    then show ?thesis by (auto intro: exI [of _ 0])
  qed
qed simp

lemma strip_zeros_split: "\<exists>j. s = strip_zeros s @ replicate j (CHR ''0'')"
proof -
  obtain j where "rev s = replicate j (CHR ''0'') @ dropWhile (\<lambda>c. c = CHR ''0'') (rev s)"
    using dropWhile_zeros [of "rev s" "CHR ''0''"] by blast
  then have "rev (rev s) = strip_zeros s @ replicate j (CHR ''0'')"
    unfolding strip_zeros_def by (metis rev_append rev_replicate)
  then show ?thesis by (auto intro: exI [of _ j])
qed

lemma lead_frac_value:
  "parse_dec_loop ds x = Some n \<Longrightarrow> n \<le> (2 ^ 63 - 1) div 10 \<Longrightarrow>
     x \<le> n \<and> lead_frac ds x sc = (n, sc * 10 ^ length ds)"
proof (induction ds arbitrary: x sc)
  case (Cons c ds)
  then obtain d where d: "dec_digit c = Some d" and p: "parse_dec_loop ds (10 * x + d) = Some n"
    by (auto split: option.splits)
  from Cons.IH [OF p Cons.prems(2), of "10 * sc"] have "10 * x + d \<le> n"
    and "lead_frac ds (10 * x + d) (10 * sc) = (n, sc * 10 ^ length (c # ds))" by (simp_all add: mult_ac)
  then show ?case using Cons.prems(2) d by auto
qed simp

text \<open>The digits of a printed fraction and their value.\<close>

lemma fmt_frac_digits:
  assumes "v mod 10 ^ prec \<noteq> 0"
  obtains ds n where "fmt_frac v prec = ''.'' @ ds" "list_all is_dec ds" "ds \<noteq> []" "length ds \<le> prec"
    "parse_dec_loop ds 0 = Some n" "n * 10 ^ (prec - length ds) = v mod 10 ^ prec"
proof -
  let ?f = "v mod 10 ^ prec"
  let ?p = "pad_nat prec ?f"
  have pos: "0 < prec" using assms by (cases prec) auto
  have len: "length ?p = prec"
    using length_dec_digits [of ?f prec] pos by (simp add: pad_nat_def Let_def)
  have all: "list_all is_dec ?p"
    using dec_digits_all [of ?f] by (auto simp: pad_nat_def Let_def list_all_iff)
  have val: "parse_dec_loop ?p 0 = Some ?f"
    by (simp add: pad_nat_def Let_def parse_dec_zeros parse_dec_digits)
  obtain j where j: "?p = strip_zeros ?p @ replicate j (CHR ''0'')" using strip_zeros_split by blast
  let ?ds = "strip_zeros ?p"
  have ds: "list_all is_dec ?ds" using all j by (metis list_all_append)
  obtain n where n: "parse_dec_loop ?ds 0 = Some n" using parse_dec_total [OF ds] by blast
  have "Some ?f = Some (n * 10 ^ j)" using parse_dec_trailing [OF n, of j] j val by metis
  moreover have "prec = length ?ds + j" using len j by (metis length_append length_replicate)
  moreover have "?ds \<noteq> []" using n assms \<open>Some ?f = Some (n * 10 ^ j)\<close> by auto
  ultimately show thesis
    using that [of ?ds n] assms ds n by (simp add: fmt_frac_def Let_def)
qed

lemma component_printed:
  assumes u: "unit_of u = Some (10 ^ prec)" and uc: "list_all unit_char u" and prec: "prec \<le> 9"
    and v: "w * 10 ^ prec + v mod 10 ^ prec \<le> 2 ^ 63" and rest: "rest = [] \<or> is_dec (hd rest)"
  shows "component (dec_digits w @ fmt_frac v prec @ u @ rest) = Some (w * 10 ^ prec + v mod 10 ^ prec, rest)"
proof -
  have une: "u \<noteq> []" using u by (auto simp: unit_of_def micro_def)
  then have uhd: "unit_char (hd (u @ rest))" using uc by (cases u) auto
  have after: "takeWhile unit_char (u @ rest) = u \<and> dropWhile unit_char (u @ rest) = rest"
    using rest by (intro list_all_while [OF uc]) (auto simp: unit_char_def)
  have wv: "w \<le> 2 ^ 63 div 10 ^ prec" using v by (simp add: less_eq_div_iff_mult_less_eq)
  then have w63: "w \<le> 2 ^ 63" by (meson div_le_dividend order_trans)
  have li: "lead_int (dec_digits w) = Some w" using w63 by (simp add: lead_int_def parse_dec_digits)
  show ?thesis
  proof (cases "v mod 10 ^ prec = 0")
    case True
    then have "fmt_frac v prec = []" by (simp add: fmt_frac_def)
    moreover have "takeWhile is_dec (dec_digits w @ u @ rest) = dec_digits w \<and>
        dropWhile is_dec (dec_digits w @ u @ rest) = u @ rest"
      using uhd by (intro list_all_while [OF dec_digits_all]) (auto simp: unit_char_def)
    moreover have "\<not> has_prefix (u @ rest) ''.''"
      using uhd une by (cases u) (auto simp: has_prefix_def unit_char_def)
    ultimately show ?thesis
      using after li u wv v True by (simp add: component_def Let_def)
  next
    case False
    then obtain ds n where fr: "fmt_frac v prec = ''.'' @ ds" and ds: "list_all is_dec ds" "ds \<noteq> []"
      "length ds \<le> prec" and n: "parse_dec_loop ds 0 = Some n"
      and val: "n * 10 ^ (prec - length ds) = v mod 10 ^ prec"
      by (rule fmt_frac_digits)
    have "takeWhile is_dec (dec_digits w @ ''.'' @ ds @ u @ rest) = dec_digits w \<and>
        dropWhile is_dec (dec_digits w @ ''.'' @ ds @ u @ rest) = ''.'' @ ds @ u @ rest"
      by (intro list_all_while [OF dec_digits_all]) (simp add: is_dec_def dec_digit_def)
    moreover have "takeWhile is_dec (ds @ u @ rest) = ds \<and> dropWhile is_dec (ds @ u @ rest) = u @ rest"
      using uhd by (intro list_all_while [OF ds(1)]) (auto simp: unit_char_def)
    moreover have "n \<le> (2 ^ 63 - 1) div 10"
    proof -
      have "n \<le> n * 10 ^ (prec - length ds)" by simp
      also have "\<dots> < 10 ^ prec" by (simp add: val)
      also have "\<dots> \<le> (10 :: nat) ^ 9" using prec by (intro power_increasing) auto
      finally show ?thesis by simp
    qed
    then have "lead_frac ds 0 1 = (n, 10 ^ length ds)" using lead_frac_value [OF n] by simp
    moreover have "n * 10 ^ prec div 10 ^ length ds = v mod 10 ^ prec"
    proof -
      have e: "(10 :: nat) ^ prec = 10 ^ (prec - length ds) * 10 ^ length ds"
        using ds(3) by (simp flip: power_add)
      have "n * 10 ^ prec = n * (10 ^ (prec - length ds) * 10 ^ length ds)" by (simp only: e)
      also have "\<dots> = v mod 10 ^ prec * 10 ^ length ds" by (simp only: val mult.assoc [symmetric])
      finally show ?thesis by (metis nonzero_mult_div_cancel_right power_not_zero zero_neq_numeral)
    qed
    ultimately show ?thesis
      using after li u wv v by (simp add: component_def Let_def fr has_prefix_def)
  qed
qed

lemma component_int:
  assumes u: "unit_of u = Some un" and uc: "list_all unit_char u"
    and v: "w * un \<le> 2 ^ 63" and rest: "rest = [] \<or> is_dec (hd rest)"
  shows "component (dec_digits w @ u @ rest) = Some (w * un, rest)"
proof -
  have une: "u \<noteq> []" and un: "0 < un" using u by (auto simp: unit_of_def micro_def split: if_splits)
  then have uhd: "unit_char (hd (u @ rest))" using uc by (cases u) auto
  have "takeWhile unit_char (u @ rest) = u \<and> dropWhile unit_char (u @ rest) = rest"
    using rest by (intro list_all_while [OF uc]) (auto simp: unit_char_def)
  moreover have w: "w \<le> 2 ^ 63 div un" using v un by (simp add: less_eq_div_iff_mult_less_eq)
  then have "lead_int (dec_digits w) = Some w"
    using order_trans [OF w div_le_dividend] by (simp add: lead_int_def parse_dec_digits)
  moreover have "takeWhile is_dec (dec_digits w @ u @ rest) = dec_digits w \<and>
      dropWhile is_dec (dec_digits w @ u @ rest) = u @ rest"
    using uhd by (intro list_all_while [OF dec_digits_all]) (auto simp: unit_char_def)
  moreover have "\<not> has_prefix (u @ rest) ''.''"
    using uhd une by (cases u) (auto simp: has_prefix_def unit_char_def)
  ultimately show ?thesis using u v w by (simp add: component_def Let_def)
qed

lemma components_step:
  "component s = Some (x, rest) \<Longrightarrow> d + x \<le> 2 ^ 63 \<Longrightarrow> components d s = components (d + x) rest"
  by (subst components.simps) (auto dest: component_shorter)

lemma components_end [simp]: "components d [] = Some d"
  by (simp add: components.simps)

lemma unit_chars:
  "list_all unit_char ''ns''" "list_all unit_char (micro @ ''s'')" "list_all unit_char ''ms''"
  "list_all unit_char ''s''" "list_all unit_char ''m''" "list_all unit_char ''h''"
  by (simp_all add: unit_char_def is_dec_def dec_digit_def micro_def)

lemma units:
  "unit_of ''ns'' = Some 1" "unit_of (micro @ ''s'') = Some (10 ^ 3)" "unit_of ''ms'' = Some (10 ^ 6)"
  "unit_of ''s'' = Some (10 ^ 9)" "unit_of ''m'' = Some 60000000000" "unit_of ''h'' = Some 3600000000000"
  by (simp_all add: unit_of_def micro_def)

text \<open>The text after the sign.\<close>

definition dur_body :: "nat \<Rightarrow> string" where
  "dur_body u =
     (if u < 1000 then dec_digits u @ ''ns''
      else if u < 1000000 then dec_digits (u div 10 ^ 3) @ fmt_frac u 3 @ micro @ ''s''
      else if u < 1000000000 then dec_digits (u div 10 ^ 6) @ fmt_frac u 6 @ ''ms''
      else let s = u div 10 ^ 9; m = s div 60; h = m div 60
           in (if 0 < h then dec_digits h @ ''h'' else [])
                @ (if 0 < m then dec_digits (m mod 60) @ ''m'' else [])
                @ dec_digits (s mod 60) @ fmt_frac u 9 @ ''s'')"

lemma hd_dec_digits: "is_dec (hd (dec_digits n @ xs))"
  using dec_digits_all [of n] dec_digits_nonempty [of n] by (cases "dec_digits n") auto

lemma one_component:
  assumes "unit_of un = Some (10 ^ prec)" "list_all unit_char un" "prec \<le> 9" "u \<le> 2 ^ 63"
  shows "components 0 (dec_digits (u div 10 ^ prec) @ fmt_frac u prec @ un) = Some u"
  using component_printed [OF assms(1-3), of "u div 10 ^ prec" u "[]"] components_step [of _ u "[]" 0] assms(4)
    div_mult_mod_eq [of u "10 ^ prec"]
  by simp

lemma seconds_component:
  assumes "d + x \<le> 2 ^ 63" and "x = s mod 60 * 10 ^ 9 + u mod 10 ^ 9"
  shows "components d (dec_digits (s mod 60) @ fmt_frac u 9 @ ''s'') = Some (d + x)"
  using component_printed [OF units(4) unit_chars(4), of "s mod 60" u "[]"] assms
    components_step [of _ x "[]" d]
  by simp

lemma components_body:
  assumes "u \<le> 2 ^ 63"
  shows "components 0 (dur_body u) = Some u"
proof -
  define s m h x where a: "s = u div 10 ^ 9" "m = s div 60" "h = m div 60"
    "x = s mod 60 * 10 ^ 9 + u mod 10 ^ 9"
  have u: "u = h * 3600000000000 + m mod 60 * 60000000000 + x"
  proof -
    have e: "(10 :: nat) ^ 9 = 1000000000" by simp
    have "u = s * 1000000000 + u mod 1000000000" "s = m * 60 + s mod 60" "m = h * 60 + m mod 60"
      unfolding a by simp_all
    then show ?thesis unfolding a(4) e by linarith
  qed
  let ?sec = "dec_digits (s mod 60) @ fmt_frac u 9 @ ''s''"
  have sec: "components d ?sec = Some (d + x)" if "d + x \<le> 2 ^ 63" for d
    using that by (rule seconds_component) (simp add: a(4))
  have min: "components d (dec_digits (m mod 60) @ ''m'' @ ?sec) = Some (d + m mod 60 * 60000000000 + x)"
    if "d + m mod 60 * 60000000000 + x \<le> 2 ^ 63" for d
    using components_step [OF component_int [OF units(5) unit_chars(5)]] that sec hd_dec_digits by simp
  have hour: "components 0 (dec_digits h @ ''h'' @ dec_digits (m mod 60) @ ''m'' @ ?sec) = Some u"
    using components_step [OF component_int [OF units(6) unit_chars(6)], where d = 0] min u assms
      hd_dec_digits by simp
  have "m = 0 \<Longrightarrow> h = 0" by (simp add: a)
  then have big: "components 0 ((if 0 < h then dec_digits h @ ''h'' else []) @
      (if 0 < m then dec_digits (m mod 60) @ ''m'' else []) @ ?sec) = Some u"
  proof (cases "h = 0")
    case True
    then have u': "0 + m mod 60 * 60000000000 + x = u" using u by simp
    show ?thesis
    proof (cases "m = 0")
      case m: True
      then have "0 + x = u" using u' by simp
      with sec [of 0] assms True m show ?thesis by simp
    next
      case False
      with min [of 0] u' assms True show ?thesis by simp
    qed
  next
    case False
    with hour \<open>m = 0 \<Longrightarrow> h = 0\<close> show ?thesis by (cases "m = 0") simp_all
  qed
  have "components 0 (dec_digits u @ ''ns'') = Some u" if "u < 1000"
    using that components_step [OF component_int [OF units(1) unit_chars(1), of u "[]"], of 0] by simp
  moreover have "components 0 (dec_digits (u div 10 ^ 3) @ fmt_frac u 3 @ micro @ ''s'') = Some u"
    using one_component [OF units(2) unit_chars(2)] assms by simp
  moreover have "components 0 (dec_digits (u div 10 ^ 6) @ fmt_frac u 6 @ ''ms'') = Some u"
    using one_component [OF units(3) unit_chars(3)] assms by simp
  ultimately show ?thesis
    using big unfolding dur_body_def Let_def a by simp
qed

lemma dur_body_head: "is_dec (hd (dur_body u))" "2 \<le> length (dur_body u)"
proof -
  have "1 \<le> length (dec_digits n)" for n
    using dec_digits_nonempty [of n] by (cases "dec_digits n") simp_all
  then show "2 \<le> length (dur_body u)" "is_dec (hd (dur_body u))"
    using hd_dec_digits by (auto simp: dur_body_def Let_def add_le_mono trans_le_add1)
qed

lemma ParseDuration_String:
  assumes "in_int64 d"
  shows "ParseDuration (dur_String d) = Inr d"
proof (cases "d = 0")
  case True
  then show ?thesis
    by (simp add: dur_String_def ParseDuration_def has_prefix_def components.simps component_def
        Let_def is_dec_def dec_digit_def unit_char_def lead_int_def unit_of_def micro_def)
next
  case False
  let ?u = "nat \<bar>d\<bar>"
  have str: "dur_String d = (if d < 0 then ''-'' else []) @ dur_body ?u"
    using False by (simp add: dur_String_def dur_body_def Let_def)
  obtain c cs where c: "dur_body ?u = c # cs" "cs \<noteq> []" "is_dec c"
    using dur_body_head [of ?u] by (cases "dur_body ?u") (auto simp: Suc_le_eq)
  then have nosign: "c \<noteq> CHR ''-''" "c \<noteq> CHR ''+''" by (auto simp: is_dec_def dec_digit_def)
  have "components 0 (c # cs) = Some ?u"
    using components_body [of ?u] assms c(1) by (auto simp: in_int64_def min_duration_def max_duration_def)
  then show ?thesis
    using assms False c nosign
    by (auto simp: str ParseDuration_def has_prefix_def Let_def in_int64_def min_duration_def max_duration_def)
qed

end
