(* ===== verification/Registry.thy ===== *)
theory Registry
  imports Agentclient GoDuration Clock "HOL-Library.List_Lexorder" "HOL-Library.Char_ord"
begin

text \<open>
  cmd/controller: the data of the controller. A timeshift is one shifted clock with the
  containers it was applied to; the registry maps ids to timeshifts. The environment \<open>cenv\<close>
  collects what the controller calls: the agents, the Kubernetes API, the clock, the random
  source and the JSON codec.
\<close>

section \<open>Kubernetes objects, as far as the controller reads them\<close>

record container_status =
  cs_Name :: string
  cs_ContainerID :: string
  cs_Running :: bool

type_synonym labels = "(string \<times> string) list"

record k8s_pod =
  pod_Name :: string
  pod_Namespace :: string
  pod_Labels :: labels
  pod_Phase :: string
  pod_HostIP :: string
  pod_ContainerStatuses :: "container_status list"

section \<open>Timeshifts\<close>

record containerHandle =
  ch_pod :: string
  ch_container :: string
  ch_nodeIP :: string
  ch_containerID :: string
  ch_agentHandle :: string

record timeshift =
  ts_id :: string
  ts_namespace :: string
  ts_labelSelector :: string
  ts_offset :: duration
  ts_frozenAt :: gotime
  ts_frozen :: bool
  ts_ttl :: duration
  ts_expiresAt :: gotime
  ts_createdAt :: gotime
  ts_handles :: "containerHandle list"

text \<open>\<open>effectiveTime\<close> at a given reading of the clock.\<close>

definition ts_eff :: "gotime \<Rightarrow> timeshift \<Rightarrow> gotime" where
  "ts_eff now s = (if ts_frozen s then ts_frozenAt s else time_Add now (ts_offset s))"

text \<open>The two ways in which \<open>updateTimeshift\<close> records a new target.\<close>

definition ts_mark_set :: "gotime \<Rightarrow> gotime \<Rightarrow> timeshift \<Rightarrow> timeshift" where
  "ts_mark_set target now s =
     s\<lparr>ts_offset := time_Sub target now, ts_frozenAt := zero_time, ts_frozen := False\<rparr>"

definition ts_mark_frozen :: "gotime \<Rightarrow> timeshift \<Rightarrow> timeshift" where
  "ts_mark_frozen target s = s\<lparr>ts_frozenAt := target, ts_offset := 0, ts_frozen := True\<rparr>"

definition ts_mark :: "bool \<Rightarrow> gotime \<Rightarrow> gotime \<Rightarrow> timeshift \<Rightarrow> timeshift" where
  "ts_mark freeze target now s = (if freeze then ts_mark_frozen target s else ts_mark_set target now s)"

text \<open>The key under which a container is occupied: its parts joined by NUL characters.\<close>

definition container_key :: "string \<Rightarrow> string \<Rightarrow> string \<Rightarrow> string" where
  "container_key ns pod container = ns @ [CHR 0x00] @ pod @ [CHR 0x00] @ container"

definition appliedTo :: "timeshift \<Rightarrow> string list" where
  "appliedTo s = sort (map (\<lambda>h. ch_pod h @ ''/'' @ ch_container h) (ts_handles s))"

text \<open>A container that \<open>injectPod\<close> and \<open>checkConflicts\<close> consider.\<close>

definition injectable :: "container_status \<Rightarrow> bool" where
  "injectable cs \<longleftrightarrow> cs_Running cs \<and> cs_ContainerID cs \<noteq> []"

section \<open>The stored form\<close>

record storedHandle =
  sh_Pod :: string
  sh_Container :: string
  sh_NodeIP :: string
  sh_ContainerID :: string
  sh_AgentHandle :: string

record storedTimeshift =
  st_ID :: string
  st_Namespace :: string
  st_LabelSelector :: string
  st_Offset :: int
  st_FrozenAt :: gotime
  st_Frozen :: bool
  st_TTL :: duration
  st_ExpiresAt :: gotime
  st_CreatedAt :: gotime
  st_Handles :: "storedHandle list"

section \<open>The environment\<close>

text \<open>
  \<open>ce_Matches\<close> is \<open>labels.Parse\<close> followed by \<open>Matches\<close> (\<open>None\<close> when the selector does not
  parse); a ConfigMap is its data.
\<close>

record 'a cenv =
  ce_agents :: "'a agents"
  ce_ListPods :: "string \<Rightarrow> string \<Rightarrow> 'a \<Rightarrow> (goerr + k8s_pod list) \<times> 'a"
  ce_GetConfigMap :: "string \<Rightarrow> string \<Rightarrow> 'a \<Rightarrow> (goerr + (string \<times> string) list) \<times> 'a"
  ce_CreateConfigMap :: "string \<Rightarrow> string \<Rightarrow> (string \<times> string) list \<Rightarrow> 'a \<Rightarrow> goerr option \<times> 'a"
  ce_UpdateConfigMap :: "string \<Rightarrow> string \<Rightarrow> (string \<times> string) list \<Rightarrow> 'a \<Rightarrow> goerr option \<times> 'a"
  ce_IsNotFound :: "goerr \<Rightarrow> bool"
  ce_Matches :: "string \<Rightarrow> labels \<Rightarrow> bool option"
  ce_Event :: "string \<Rightarrow> string \<Rightarrow> string \<Rightarrow> 'a \<Rightarrow> 'a"
  ce_now :: "'a \<Rightarrow> gotime \<times> 'a"
  ce_rand :: "nat \<Rightarrow> 'a \<Rightarrow> byte list \<times> 'a"
  ce_Marshal :: "storedTimeshift list \<Rightarrow> goerr + string"
  ce_Unmarshal :: "string \<Rightarrow> goerr + storedTimeshift list"

definition ts_effectiveTime :: "'a cenv \<Rightarrow> timeshift \<Rightarrow> 'a \<Rightarrow> gotime \<times> 'a" where
  "ts_effectiveTime E s w =
     (if ts_frozen s then (ts_frozenAt s, w)
      else case ce_now E w of (now, w1) \<Rightarrow> (time_Add now (ts_offset s), w1))"

record timeshift_response =
  tr_ID :: string
  tr_Namespace :: string
  tr_Time :: string
  tr_Frozen :: bool
  tr_ExpiresAt :: string
  tr_AppliedTo :: "string list"

definition toResponse :: "'a cenv \<Rightarrow> timeshift \<Rightarrow> 'a \<Rightarrow> timeshift_response \<times> 'a" where
  "toResponse E s w =
     (case ts_effectiveTime E s w of (t, w1) \<Rightarrow>
        (\<lparr>tr_ID = ts_id s, tr_Namespace = ts_namespace s, tr_Time = fmt_rfc3339 t,
          tr_Frozen = ts_frozen s,
          tr_ExpiresAt = (if time_IsZero (ts_expiresAt s) then []
                          else fmt_rfc3339 (ts_expiresAt s)),
          tr_AppliedTo = appliedTo s\<rparr>, w1))"

section \<open>Metrics and the controller's state\<close>

record metrics =
  m_timeshiftsActive :: int
  m_injectOk :: nat
  m_injectError :: nat
  m_setTimeOk :: nat
  m_setTimeError :: nat
  m_sweepExpired :: nat
  m_apiRequests :: "(string \<times> string \<times> nat) list"

definition newMetrics :: metrics where
  "newMetrics = \<lparr>m_timeshiftsActive = 0, m_injectOk = 0, m_injectError = 0, m_setTimeOk = 0,
     m_setTimeError = 0, m_sweepExpired = 0, m_apiRequests = []\<rparr>"

text \<open>The store is the namespace of its ConfigMap (nil as \<open>None\<close>).\<close>

record controller =
  co_timeshifts :: "(string, timeshift) gomap"
  co_store :: "string option"
  co_met :: metrics
  co_recorder :: bool

type_synonym 'a cst = "controller \<times> 'a"

definition newController :: "string option \<Rightarrow> controller" where
  "newController st = \<lparr>co_timeshifts = [], co_store = st, co_met = newMetrics, co_recorder = False\<rparr>"

definition setRecorder :: "controller \<Rightarrow> controller" where
  "setRecorder c = c\<lparr>co_recorder := True\<rparr>"

definition count_inject :: "bool \<Rightarrow> controller \<Rightarrow> controller" where
  "count_inject ok c = (let m = co_met c in
     c\<lparr>co_met := (if ok then m\<lparr>m_injectOk := m_injectOk m + 1\<rparr>
                  else m\<lparr>m_injectError := m_injectError m + 1\<rparr>)\<rparr>)"

definition count_setTime :: "bool \<Rightarrow> controller \<Rightarrow> controller" where
  "count_setTime ok c = (let m = co_met c in
     c\<lparr>co_met := (if ok then m\<lparr>m_setTimeOk := m_setTimeOk m + 1\<rparr>
                  else m\<lparr>m_setTimeError := m_setTimeError m + 1\<rparr>)\<rparr>)"

definition add_active :: "int \<Rightarrow> controller \<Rightarrow> controller" where
  "add_active d c = (let m = co_met c in
     c\<lparr>co_met := m\<lparr>m_timeshiftsActive := m_timeshiftsActive m + d\<rparr>\<rparr>)"

section \<open>Laws\<close>

text \<open>A registered timeshift is a shiftable clock.\<close>

interpretation timeshift_clock: shiftable_clock ts_eff ts_frozen ts_mark_set ts_mark_frozen
  by unfold_locales (simp_all add: ts_eff_def ts_mark_set_def ts_mark_frozen_def time_Add_def)

lemma ts_mark_fields [simp]:
  "ts_id (ts_mark fr t now s) = ts_id s" "ts_handles (ts_mark fr t now s) = ts_handles s"
  "ts_namespace (ts_mark fr t now s) = ts_namespace s" "ts_frozen (ts_mark fr t now s) = fr"
  "ts_expiresAt (ts_mark fr t now s) = ts_expiresAt s" "ts_createdAt (ts_mark fr t now s) = ts_createdAt s"
  "ts_labelSelector (ts_mark fr t now s) = ts_labelSelector s" "ts_ttl (ts_mark fr t now s) = ts_ttl s"
  by (simp_all add: ts_mark_def ts_mark_set_def ts_mark_frozen_def)

lemma ts_mark_eff: "fr \<or> in_int64 (t - now) \<Longrightarrow>
    ts_eff n (ts_mark fr t now s) = (if fr then t else t + (n - now))"
  using timeshift_clock.eff_set [of t now n s] timeshift_clock.eff_freeze [of n t s]
  by (auto simp: ts_mark_def)

lemma set_appliedTo: "set (appliedTo s) = (\<lambda>h. ch_pod h @ ''/'' @ ch_container h) ` set (ts_handles s)"
  by (simp add: appliedTo_def)

lemma counting [simp]:
  "co_timeshifts (count_inject ok c) = co_timeshifts c" "co_store (count_inject ok c) = co_store c"
  "co_timeshifts (count_setTime ok c) = co_timeshifts c" "co_store (count_setTime ok c) = co_store c"
  "co_timeshifts (add_active d c) = co_timeshifts c" "co_store (add_active d c) = co_store c"
  "m_timeshiftsActive (co_met (count_inject ok c)) = m_timeshiftsActive (co_met c)"
  "m_timeshiftsActive (co_met (count_setTime ok c)) = m_timeshiftsActive (co_met c)"
  "m_timeshiftsActive (co_met (add_active d c)) = m_timeshiftsActive (co_met c) + d"
  by (simp_all add: count_inject_def count_setTime_def add_active_def Let_def)

end
