(* ===== verification/Store.thy ===== *)
theory Store
  imports Registry
begin

text \<open>
  cmd/controller/store.go: the registry in a ConfigMap. Encoding and decoding of the records
  are the code's; JSON itself and the API server are parameters of the environment.
\<close>

definition storeConfigMapName :: string where "storeConfigMapName = ''epochd-state''"
definition storeDataKey :: string where "storeDataKey = ''state''"

definition store_handle :: "containerHandle \<Rightarrow> storedHandle" where
  "store_handle h = \<lparr>sh_Pod = ch_pod h, sh_Container = ch_container h, sh_NodeIP = ch_nodeIP h,
     sh_ContainerID = ch_containerID h, sh_AgentHandle = ch_agentHandle h\<rparr>"

definition store_timeshift :: "timeshift \<Rightarrow> storedTimeshift" where
  "store_timeshift s = \<lparr>st_ID = ts_id s, st_Namespace = ts_namespace s,
     st_LabelSelector = ts_labelSelector s, st_Offset = ts_offset s, st_FrozenAt = ts_frozenAt s,
     st_Frozen = ts_frozen s, st_TTL = ts_ttl s, st_ExpiresAt = ts_expiresAt s,
     st_CreatedAt = ts_createdAt s, st_Handles = map store_handle (ts_handles s)\<rparr>"

definition encode :: "'a cenv \<Rightarrow> (string, timeshift) gomap \<Rightarrow> goerr + string" where
  "encode E timeshifts = ce_Marshal E (map (\<lambda>kv. store_timeshift (snd kv)) timeshifts)"

definition flush :: "'a cenv \<Rightarrow> string \<Rightarrow> string \<Rightarrow> 'a \<Rightarrow> goerr option \<times> 'a" where
  "flush E ns data w =
     (let cm = [(storeDataKey, data)];
          wrap = (\<lambda>(e, w'). (map_option (Wrap ''store: flush'') e, w'))
      in case ce_GetConfigMap E ns storeConfigMapName w of
           (Inl e, w1) \<Rightarrow>
             if ce_IsNotFound E e then wrap (ce_CreateConfigMap E ns storeConfigMapName cm w1)
             else wrap (Some e, w1)
         | (Inr _, w1) \<Rightarrow> wrap (ce_UpdateConfigMap E ns storeConfigMapName cm w1))"

definition save :: "'a cenv \<Rightarrow> string \<Rightarrow> (string, timeshift) gomap \<Rightarrow> 'a \<Rightarrow> goerr option \<times> 'a" where
  "save E ns timeshifts w =
     (case encode E timeshifts of
        Inl e \<Rightarrow> (Some (Wrap ''store: encode'' e), w)
      | Inr data \<Rightarrow> flush E ns data w)"

definition load_handle :: "storedHandle \<Rightarrow> containerHandle" where
  "load_handle h = \<lparr>ch_pod = sh_Pod h, ch_container = sh_Container h, ch_nodeIP = sh_NodeIP h,
     ch_containerID = sh_ContainerID h, ch_agentHandle = sh_AgentHandle h\<rparr>"

definition load_timeshift :: "storedTimeshift \<Rightarrow> timeshift" where
  "load_timeshift st = \<lparr>ts_id = st_ID st, ts_namespace = st_Namespace st,
     ts_labelSelector = st_LabelSelector st, ts_offset = st_Offset st, ts_frozenAt = st_FrozenAt st,
     ts_frozen = st_Frozen st, ts_ttl = st_TTL st, ts_expiresAt = st_ExpiresAt st,
     ts_createdAt = st_CreatedAt st, ts_handles = map load_handle (st_Handles st)\<rparr>"

definition decode :: "storedTimeshift list \<Rightarrow> (string, timeshift) gomap" where
  "decode stored = fold (\<lambda>st m. AList.update (st_ID st) (load_timeshift st) m) stored []"

definition load :: "'a cenv \<Rightarrow> string \<Rightarrow> 'a \<Rightarrow> (goerr + (string, timeshift) gomap) \<times> 'a" where
  "load E ns w =
     (case ce_GetConfigMap E ns storeConfigMapName w of
        (Inl e, w1) \<Rightarrow>
          if ce_IsNotFound E e then (Inr [], w1) else (Inl (Wrap ''store: load'' e), w1)
      | (Inr cm, w1) \<Rightarrow>
          (case map_of cm storeDataKey of
             None \<Rightarrow> (Inr [], w1)
           | Some raw \<Rightarrow>
               if raw = [] then (Inr [], w1)
               else (case ce_Unmarshal E raw of
                   Inl e \<Rightarrow> (Inl (Wrap ''store: unmarshal'' e), w1)
                 | Inr stored \<Rightarrow> (Inr (decode stored), w1))))"

section \<open>The records survive the store\<close>

text \<open>The contract of a stored form: reading back what was written gives the value.\<close>

locale codec =
  fixes put :: "'v \<Rightarrow> 's" and get :: "'s \<Rightarrow> 'v"
  assumes get_put: "get (put v) = v"
begin

lemma put_inject: "put v = put v' \<longleftrightarrow> v = v'"
  by (metis get_put)

lemma map_get_put: "map get (map put vs) = vs"
  by (induction vs) (simp_all add: get_put)

lemma fold_get_put:
  "fold (\<lambda>s m. AList.update (k (get s)) (get s) m) (map put vs) m =
     fold (\<lambda>v m. AList.update (k v) v m) vs m"
  by (induction vs arbitrary: m) (simp_all add: get_put)

end

interpretation handle_codec: codec store_handle load_handle
  by unfold_locales (simp add: store_handle_def load_handle_def)

interpretation timeshift_codec: codec store_timeshift load_timeshift
  by unfold_locales
    (simp add: store_timeshift_def load_timeshift_def handle_codec.map_get_put del: map_map)

text \<open>A registry is well keyed when each entry is filed under its own id.\<close>

definition well_keyed :: "(string, timeshift) gomap \<Rightarrow> bool" where
  "well_keyed m \<longleftrightarrow> wf_map m \<and> (\<forall>kv \<in> set m. fst kv = ts_id (snd kv))"

lemma well_keyed_Nil [simp, law_intros]: "well_keyed []"
  by (simp add: well_keyed_def)

lemma well_keyed_update [law_intros]: "well_keyed m \<Longrightarrow> ts_id s = k \<Longrightarrow> well_keyed (AList.update k s m)"
  by (auto simp: well_keyed_def set_update_alist)

lemma well_keyed_delete [law_intros]: "well_keyed m \<Longrightarrow> well_keyed (AList.delete k m)"
  by (auto simp: well_keyed_def set_delete_alist)

lemma well_keyed_filter [law_intros]: "well_keyed m \<Longrightarrow> well_keyed (filter P m)"
  by (auto simp: well_keyed_def)

lemma fold_update_keys:
  assumes "well_keyed m"
  shows "map_of (fold (\<lambda>v m. AList.update (ts_id v) v m) (map snd m) m0) = map_of m0 ++ map_of m"
  using assms
proof (induction m arbitrary: m0)
  case Nil
  then show ?case by simp
next
  case (Cons kv m)
  obtain k v where kv: "kv = (k, v)" by (rule prod.exhaust)
  have k: "k = ts_id v" and rest: "well_keyed m"
    using Cons.prems by (simp_all add: kv well_keyed_def wf_map_def)
  have "distinct (keys (kv # m))" using Cons.prems unfolding well_keyed_def wf_map_def by blast
  then have new: "k \<notin> dom (map_of m)" by (simp add: kv dom_map_of_conv_image_fst)
  from Cons.IH [OF rest, of "AList.update k v m0"] new show ?case
    by (auto simp: kv k map_add_def fun_eq_iff split: option.splits)
qed

lemma well_keyed_fold:
  "well_keyed m0 \<Longrightarrow> well_keyed (fold (\<lambda>v m. AList.update (ts_id v) v m) vs m0)"
  by (induction vs arbitrary: m0) (auto intro: well_keyed_update)

lemma decode_store:
  "decode (map (\<lambda>kv. store_timeshift (snd kv)) m) = fold (\<lambda>v m. AList.update (ts_id v) v m) (map snd m) []"
proof -
  have id: "st_ID st = ts_id (load_timeshift st)" for st by (simp add: load_timeshift_def)
  have "map (\<lambda>kv. store_timeshift (snd kv)) m = map store_timeshift (map snd m)" by simp
  then show ?thesis
    unfolding decode_def id using timeshift_codec.fold_get_put [of ts_id "map snd m" "[]"]
    by (simp add: comp_def)
qed

lemma map_of_decode_store:
  "well_keyed m \<Longrightarrow> map_of (decode (map (\<lambda>kv. store_timeshift (snd kv)) m)) = map_of m"
  using fold_update_keys [of m "[]"] by (simp add: decode_store)

lemma well_keyed_decode: "well_keyed (decode stored)"
proof -
  have "decode stored = fold (\<lambda>v m. AList.update (ts_id v) v m) (map load_timeshift stored) []"
    by (simp add: decode_def fold_map o_def load_timeshift_def)
  then show ?thesis by (simp add: well_keyed_fold)
qed

lemma length_well_keyed: "well_keyed m \<Longrightarrow> length m = card (dom (map_of m))"
  using distinct_card [of "map fst m"] by (simp add: well_keyed_def wf_map_def dom_map_of_conv_image_fst)

lemma length_decode_store: "well_keyed m \<Longrightarrow> length (decode (map (\<lambda>kv. store_timeshift (snd kv)) m)) = length m"
  by (simp add: length_well_keyed well_keyed_decode map_of_decode_store)

section \<open>The round trip through the ConfigMap\<close>

text \<open>
  Documented behaviour of the API server and of the JSON codec: what was created or updated is
  read back (the read does not change it), and unmarshalling inverts marshalling; the text of
  an array is not empty.
\<close>

definition store_laws :: "'a cenv \<Rightarrow> ('a \<Rightarrow> string \<Rightarrow> string \<Rightarrow> (string \<times> string) list option) \<Rightarrow> bool" where
  "store_laws E cms \<longleftrightarrow>
     (\<forall>ns n w r w'. ce_GetConfigMap E ns n w = (r, w') \<longrightarrow> cms w' = cms w \<and>
        (\<forall>cm. r = Inr cm \<longrightarrow> cms w ns n = Some cm) \<and>
        (\<forall>e. r = Inl e \<longrightarrow> ce_IsNotFound E e \<longrightarrow> cms w ns n = None)) \<and>
     (\<forall>ns n cm w w'. ce_CreateConfigMap E ns n cm w = (None, w') \<longrightarrow> cms w' ns n = Some cm) \<and>
     (\<forall>ns n cm w w'. ce_UpdateConfigMap E ns n cm w = (None, w') \<longrightarrow> cms w' ns n = Some cm) \<and>
     (\<forall>x s. ce_Marshal E x = Inr s \<longrightarrow> s \<noteq> [] \<and> ce_Unmarshal E s = Inr x)"

lemma flush_stores:
  assumes "store_laws E cms" and "flush E ns data w = (None, w')"
  shows "cms w' ns storeConfigMapName = Some [(storeDataKey, data)]"
  using assms unfolding store_laws_def
  by (auto simp: flush_def Let_def split: prod.splits sum.splits if_splits)

lemma load_reads:
  assumes laws: "store_laws E cms" and cm: "cms w ns storeConfigMapName = Some [(storeDataKey, data)]"
    and data: "ce_Marshal E (map (\<lambda>kv. store_timeshift (snd kv)) m) = Inr data"
    and "load E ns w = (Inr m', w')"
  shows "m' = decode (map (\<lambda>kv. store_timeshift (snd kv)) m)"
proof -
  have "data \<noteq> []" "ce_Unmarshal E data = Inr (map (\<lambda>kv. store_timeshift (snd kv)) m)"
    using laws data unfolding store_laws_def by blast+
  moreover have "r = Inr cm' \<Longrightarrow> cm' = [(storeDataKey, data)]" "r = Inl e \<Longrightarrow> \<not> ce_IsNotFound E e"
    if "ce_GetConfigMap E ns storeConfigMapName w = (r, w1)" for r w1 cm' e
    using laws cm that unfolding store_laws_def by fastforce+
  ultimately show ?thesis using assms(4)
    by (auto simp: load_def split: prod.splits sum.splits if_splits option.splits)
qed

end
