(* ===== verification/Controller.thy ===== *)
theory Controller
  imports Store
begin

text \<open>
  cmd/controller/controller.go: the operations of the controller on its registry, the agents and
  the store. Operations run one after the other here; \<open>updateTimeshift\<close> is split at its locks
  into the calls on a snapshot and the commit on the registered timeshift. Log lines are left
  out; the slice \<open>id[:8]\<close> in them cannot fail, as ids have 32 characters (\<open>length_newID\<close> in TimeshiftType).
\<close>

datatype cerr =
    NotFoundError string
  | ConflictError "(string \<times> string \<times> string) list"
  | PlainError goerr

section \<open>Persistence\<close>

definition persist :: "'a cenv \<Rightarrow> 'a cst \<Rightarrow> 'a cst" where
  "persist E st =
     (case st of (c, w) \<Rightarrow>
        case co_store c of
          None \<Rightarrow> st
        | Some ns \<Rightarrow>
            (case encode E (co_timeshifts c) of
               Inl e \<Rightarrow> st
             | Inr data \<Rightarrow> (c, snd (flush E ns data w))))"

definition restore :: "'a cenv \<Rightarrow> 'a cst \<Rightarrow> 'a cst" where
  "restore E st =
     (case st of (c, w) \<Rightarrow>
        case co_store c of
          None \<Rightarrow> st
        | Some ns \<Rightarrow>
            (case load E ns w of
               (Inl e, w1) \<Rightarrow> (c, w1)
             | (Inr timeshifts, w1) \<Rightarrow>
                 if timeshifts = [] then (c, w1)
                 else (c\<lparr>co_timeshifts := timeshifts,
                         co_met := (co_met c)\<lparr>m_timeshiftsActive := int (length timeshifts)\<rparr>\<rparr>, w1)))"

section \<open>Conflicts\<close>

text \<open>When a container is recorded twice, the id that stays is the one visited last.\<close>

definition occupiedContainers :: "controller \<Rightarrow> (string, string) gomap" where
  "occupiedContainers c =
     fold (\<lambda>kv. fold (\<lambda>h. AList.update (container_key (ts_namespace (snd kv)) (ch_pod h) (ch_container h))
                                  (ts_id (snd kv))) (ts_handles (snd kv)))
       (co_timeshifts c) []"

definition pod_conflicts :: "(string, string) gomap \<Rightarrow> string \<Rightarrow> k8s_pod \<Rightarrow> (string \<times> string \<times> string) list" where
  "pod_conflicts occupied ns pod =
     List.map_filter (\<lambda>cs.
       if \<not> injectable cs then None
       else map_option (\<lambda>i. (pod_Name pod, cs_Name cs, i))
              (map_of occupied (container_key ns (pod_Name pod) (cs_Name cs))))
       (pod_ContainerStatuses pod)"

definition checkConflicts :: "string \<Rightarrow> k8s_pod list \<Rightarrow> controller \<Rightarrow> cerr option" where
  "checkConflicts ns pods c =
     (case concat (map (pod_conflicts (occupiedContainers c) ns) pods) of
        [] \<Rightarrow> None
      | conflicts \<Rightarrow> Some (ConflictError conflicts))"

section \<open>Injection of pods\<close>

fun inject_containers :: "'a cenv \<Rightarrow> k8s_pod \<Rightarrow> gotime \<Rightarrow> bool \<Rightarrow> container_status list \<Rightarrow> 'a cst
    \<Rightarrow> containerHandle list \<times> 'a cst" where
  "inject_containers E pod target freeze [] st = ([], st)"
| "inject_containers E pod target freeze (cs # rest) st =
     (if \<not> injectable cs then inject_containers E pod target freeze rest st
      else case st of (c, w) \<Rightarrow>
        (case ag_Inject (ce_agents E) (pod_HostIP pod) (cs_ContainerID cs) target freeze w of
           (Inl e, w1) \<Rightarrow> inject_containers E pod target freeze rest (count_inject False c, w1)
         | (Inr hid, w1) \<Rightarrow>
             (case inject_containers E pod target freeze rest (count_inject True c, w1) of (hs, st') \<Rightarrow>
                (\<lparr>ch_pod = pod_Name pod, ch_container = cs_Name cs, ch_nodeIP = pod_HostIP pod,
                  ch_containerID = cs_ContainerID cs, ch_agentHandle = hid\<rparr> # hs, st'))))"

definition injectPod :: "'a cenv \<Rightarrow> k8s_pod \<Rightarrow> gotime \<Rightarrow> bool \<Rightarrow> 'a cst \<Rightarrow> containerHandle list \<times> 'a cst" where
  "injectPod E pod target freeze st =
     inject_containers E pod target freeze (pod_ContainerStatuses pod) st"

definition inject_pods :: "'a cenv \<Rightarrow> k8s_pod list \<Rightarrow> gotime \<Rightarrow> bool \<Rightarrow> 'a cst \<Rightarrow> containerHandle list \<times> 'a cst" where
  "inject_pods E pods target freeze st =
     (case map_step (\<lambda>pod. injectPod E pod target freeze) pods st of (hss, st') \<Rightarrow> (concat hss, st'))"

definition newID :: "'a cenv \<Rightarrow> 'a \<Rightarrow> string \<times> 'a" where
  "newID E w = (case ce_rand E 16 w of (b, w1) \<Rightarrow> (hex_encode b, w1))"

section \<open>Create, read, update, delete\<close>

definition new_timeshift :: "string \<Rightarrow> string \<Rightarrow> string \<Rightarrow> gotime \<Rightarrow> duration \<Rightarrow> bool \<Rightarrow> gotime
    \<Rightarrow> containerHandle list \<Rightarrow> timeshift" where
  "new_timeshift tid ns sel target ttl freeze now hs =
     \<lparr>ts_id = tid, ts_namespace = ns, ts_labelSelector = sel,
      ts_offset = (if freeze then 0 else time_Sub target now),
      ts_frozenAt = (if freeze then target else zero_time), ts_frozen = freeze, ts_ttl = ttl,
      ts_expiresAt = (if 0 < ttl then time_Add now ttl else zero_time), ts_createdAt = now,
      ts_handles = hs\<rparr>"

definition register :: "timeshift \<Rightarrow> controller \<Rightarrow> controller" where
  "register s c = add_active 1 (c\<lparr>co_timeshifts := AList.update (ts_id s) s (co_timeshifts c)\<rparr>)"

definition createTimeshift :: "'a cenv \<Rightarrow> string \<Rightarrow> string \<Rightarrow> gotime \<Rightarrow> duration \<Rightarrow> bool \<Rightarrow> 'a cst
    \<Rightarrow> (cerr + timeshift) \<times> 'a cst" where
  "createTimeshift E ns sel target ttl freeze st =
     (case st of (c, w) \<Rightarrow>
      case ce_ListPods E ns sel w of
        (Inl e, w1) \<Rightarrow> (Inl (PlainError (Wrap ''list pods'' e)), (c, w1))
      | (Inr pods, w1) \<Rightarrow>
          if pods = [] then (Inl (NotFoundError ''no pods match selector''), (c, w1))
          else case checkConflicts ns pods c of
              Some e \<Rightarrow> (Inl e, (c, w1))
            | None \<Rightarrow>
                (case inject_pods E pods target freeze (c, w1) of (hs, c1, w2) \<Rightarrow>
                   if hs = [] then
                     (Inl (PlainError (Msg ''no running containers found in matched pods'')), (c1, w2))
                   else case ce_now E w2 of (now, w3) \<Rightarrow>
                     case newID E w3 of (tid, w4) \<Rightarrow>
                       let s = new_timeshift tid ns sel target ttl freeze now hs
                       in (Inr s, persist E (register s c1, w4))))"

definition listTimeshifts :: "'a cenv \<Rightarrow> 'a cst \<Rightarrow> timeshift_response list \<times> 'a cst" where
  "listTimeshifts E st =
     (case st of (c, w) \<Rightarrow>
      case map_step (toResponse E) (sort_key ts_createdAt (map snd (co_timeshifts c))) w of
        (rs, w1) \<Rightarrow> (rs, (c, w1)))"

definition getTimeshift :: "string \<Rightarrow> controller \<Rightarrow> cerr + timeshift" where
  "getTimeshift tid c =
     (case map_of (co_timeshifts c) tid of
        None \<Rightarrow> Inl (NotFoundError ''timeshift not found'')
      | Some s \<Rightarrow> Inr s)"

text \<open>The loop over the snapshot of the handles; its result is the list \<open>updates\<close>.\<close>

fun set_handles :: "'a cenv \<Rightarrow> gotime \<Rightarrow> bool \<Rightarrow> nat \<Rightarrow> containerHandle list \<Rightarrow> 'a cst
    \<Rightarrow> (nat \<times> string) list \<times> 'a cst" where
  "set_handles E target freeze i [] st = ([], st)"
| "set_handles E target freeze i (h # rest) (c, w) =
     (case ag_SetTime (ce_agents E) (ch_nodeIP h) (ch_agentHandle h) target freeze w of
        (Inr _, w1) \<Rightarrow> set_handles E target freeze (i + 1) rest (count_setTime True c, w1)
      | (Inl e, w1) \<Rightarrow>
          let c1 = count_setTime False c
          in if \<not> isAgentNotFound e then set_handles E target freeze (i + 1) rest (c1, w1)
             else (case ag_Inject (ce_agents E) (ch_nodeIP h) (ch_containerID h) target freeze w1 of
                 (Inl e', w2) \<Rightarrow> set_handles E target freeze (i + 1) rest (count_inject False c1, w2)
               | (Inr hid, w2) \<Rightarrow>
                   (case set_handles E target freeze (i + 1) rest (count_inject True c1, w2) of (us, st') \<Rightarrow>
                      ((i, hid) # us, st'))))"

text \<open>\<open>snap\<close> is the snapshot, the list that is changed belongs to the registered timeshift.\<close>

definition apply_update :: "containerHandle list \<Rightarrow> nat \<times> string \<Rightarrow> containerHandle list \<Rightarrow> containerHandle list" where
  "apply_update snap u hs =
     (case u of (i, hid) \<Rightarrow>
        if i < length hs \<and> ch_containerID (hs ! i) = ch_containerID (snap ! i)
        then hs[i := (hs ! i)\<lparr>ch_agentHandle := hid\<rparr>] else hs)"

definition commit_update :: "containerHandle list \<Rightarrow> (nat \<times> string) list \<Rightarrow> gotime \<Rightarrow> gotime \<Rightarrow> bool
    \<Rightarrow> timeshift \<Rightarrow> timeshift" where
  "commit_update snap us target now freeze s =
     ts_mark freeze target now (s\<lparr>ts_handles := fold (apply_update snap) us (ts_handles s)\<rparr>)"

definition updateTimeshift :: "'a cenv \<Rightarrow> string \<Rightarrow> gotime \<Rightarrow> bool \<Rightarrow> 'a cst
    \<Rightarrow> (cerr + timeshift) \<times> 'a cst" where
  "updateTimeshift E tid target freeze st =
     (case st of (c, w) \<Rightarrow>
      case getTimeshift tid c of
        Inl e \<Rightarrow> (Inl e, st)
      | Inr s \<Rightarrow>
          (case set_handles E target freeze 0 (ts_handles s) (c, w) of (us, c1, w1) \<Rightarrow>
           case ce_now E w1 of (now, w2) \<Rightarrow>
             let s' = commit_update (ts_handles s) us target now freeze s
             in (Inr s',
                 persist E (c1\<lparr>co_timeshifts := AList.update tid s' (co_timeshifts c1)\<rparr>, w2))))"

definition advanceTimeshift :: "'a cenv \<Rightarrow> string \<Rightarrow> duration \<Rightarrow> bool \<Rightarrow> 'a cst
    \<Rightarrow> (cerr + timeshift) \<times> 'a cst" where
  "advanceTimeshift E tid delta freeze st =
     (case st of (c, w) \<Rightarrow>
      case getTimeshift tid c of
        Inl e \<Rightarrow> (Inl e, st)
      | Inr s \<Rightarrow>
          if ts_frozen s then updateTimeshift E tid (time_Add (ts_frozenAt s) delta) freeze (c, w)
          else case ce_now E w of (now, w1) \<Rightarrow>
            updateTimeshift E tid (time_Add now (dur_add (ts_offset s) delta)) freeze (c, w1))"

text \<open>The reset of every handle; NOT_FOUND counts as done, other errors are only logged.\<close>

definition reset_handle :: "'a cenv \<Rightarrow> containerHandle \<Rightarrow> 'a \<Rightarrow> goerr option \<times> 'a" where
  "reset_handle E h w =
     (case ag_Reset (ce_agents E) (ch_nodeIP h) (ch_agentHandle h) w of
        (Inl e, w1) \<Rightarrow> (if isAgentNotFound e then None else Some e, w1)
      | (Inr _, w1) \<Rightarrow> (None, w1))"

definition resetHandles :: "'a cenv \<Rightarrow> timeshift \<Rightarrow> 'a \<Rightarrow> 'a" where
  "resetHandles E s w = snd (map_step (reset_handle E) (ts_handles s) w)"

definition deleteTimeshift :: "'a cenv \<Rightarrow> string \<Rightarrow> 'a cst \<Rightarrow> cerr option \<times> 'a cst" where
  "deleteTimeshift E tid st =
     (case st of (c, w) \<Rightarrow>
        let c1 = c\<lparr>co_timeshifts := AList.delete tid (co_timeshifts c)\<rparr>
        in case map_of (co_timeshifts c) tid of
             None \<Rightarrow> (Some (NotFoundError ''timeshift not found''), (c1, w))
           | Some s \<Rightarrow>
               (case persist E (add_active (-1) c1, w) of (c2, w1) \<Rightarrow>
                  (None, (c2, resetHandles E s w1))))"

section \<open>Expiry\<close>

text \<open>One event for each pod of the timeshift, at its first handle.\<close>

fun event_loop :: "'a cenv \<Rightarrow> string \<Rightarrow> string \<Rightarrow> string list \<Rightarrow> containerHandle list \<Rightarrow> 'a \<Rightarrow> 'a" where
  "event_loop E ns msg seen [] w = w"
| "event_loop E ns msg seen (h # rest) w =
     (if ch_pod h \<in> set seen then event_loop E ns msg seen rest w
      else event_loop E ns msg (ch_pod h # seen) rest (ce_Event E ns (ch_pod h) msg w))"

definition postExpiryEvents :: "'a cenv \<Rightarrow> timeshift \<Rightarrow> 'a cst \<Rightarrow> 'a" where
  "postExpiryEvents E s st =
     (case st of (c, w) \<Rightarrow>
        if \<not> co_recorder c then w
        else case ts_effectiveTime E s w of (t, w1) \<Rightarrow>
          let msg = ''Timeshift '' @ take 8 (ts_id s) @ '' (target: '' @ fmt_rfc3339 t
                    @ '') expired after '' @ dur_String (ts_ttl s)
          in event_loop E (ts_namespace s) msg [] (ts_handles s) w1)"

definition is_expired :: "gotime \<Rightarrow> timeshift \<Rightarrow> bool" where
  "is_expired now s \<longleftrightarrow> \<not> time_IsZero (ts_expiresAt s) \<and> time_After now (ts_expiresAt s)"

definition expire_one :: "'a cenv \<Rightarrow> timeshift \<Rightarrow> 'a cst \<Rightarrow> 'a cst" where
  "expire_one E s st =
     (case st of (c, w) \<Rightarrow>
        let m = co_met c;
            c1 = add_active (-1) (c\<lparr>co_met := m\<lparr>m_sweepExpired := m_sweepExpired m + 1\<rparr>\<rparr>)
        in (c1, resetHandles E s (postExpiryEvents E s (c1, w))))"

definition sweepExpired :: "'a cenv \<Rightarrow> 'a cst \<Rightarrow> 'a cst" where
  "sweepExpired E st =
     (case st of (c, w) \<Rightarrow>
      case ce_now E w of (now, w1) \<Rightarrow>
        let expired = map snd (filter (\<lambda>kv. is_expired now (snd kv)) (co_timeshifts c));
            c1 = c\<lparr>co_timeshifts := filter (\<lambda>kv. \<not> is_expired now (snd kv)) (co_timeshifts c)\<rparr>;
            st1 = (if expired \<noteq> [] then persist E (c1, w1) else (c1, w1))
        in fold (expire_one E) expired st1)"

end
