(* ===== verification/HttpApi.thy ===== *)
theory HttpApi
  imports Controller
begin

text \<open>
  pkg/api/api.go: the bodies of the REST API, and the JSON codec between the controller and its
  clients. The type \<open>'b\<close> stands for JSON texts; encoding and decoding are encoding/json, a
  parameter with the law that decoding a text gives back the value it was made from.
\<close>

record create_request =
  cr_Namespace :: string
  cr_LabelSelector :: string
  cr_Time :: string
  cr_TTL :: string
  cr_Freeze :: bool

record update_request =
  ur_Time :: string
  ur_Duration :: string
  ur_Freeze :: bool

record resolved_pod =
  rp_Name :: string
  rp_Namespace :: string
  rp_NodeIP :: string
  rp_Containers :: "string list"

record status_entry =
  se_Pod :: string
  se_Container :: string
  se_NodeIP :: string
  se_Status :: "handle_status option"
  se_Error :: string

record timeshift_status =
  sl_ID :: string
  sl_Namespace :: string
  sl_Containers :: "status_entry list"

record 'b json =
  js_health :: "'b"
  js_error :: "string \<Rightarrow> 'b"
  js_error_of :: "'b \<Rightarrow> goerr + string"
  js_create :: "create_request \<Rightarrow> 'b"
  js_create_of :: "'b \<Rightarrow> goerr + create_request"
  js_update :: "update_request \<Rightarrow> 'b"
  js_update_of :: "'b \<Rightarrow> goerr + update_request"
  js_timeshift :: "timeshift_response \<Rightarrow> 'b"
  js_timeshift_of :: "'b \<Rightarrow> goerr + timeshift_response"
  js_list :: "timeshift_response list \<Rightarrow> 'b"
  js_list_of :: "'b \<Rightarrow> goerr + timeshift_response list"
  js_status :: "timeshift_status \<Rightarrow> 'b"
  js_status_of :: "'b \<Rightarrow> goerr + timeshift_status"
  js_resolve :: "resolved_pod list \<Rightarrow> 'b"
  js_resolve_of :: "'b \<Rightarrow> goerr + resolved_pod list"

definition json_laws :: "'b json \<Rightarrow> bool" where
  "json_laws J \<longleftrightarrow> (\<forall>x. js_error_of J (js_error J x) = Inr x) \<and>
     (\<forall>x. js_create_of J (js_create J x) = Inr x) \<and> (\<forall>x. js_update_of J (js_update J x) = Inr x) \<and>
     (\<forall>x. js_timeshift_of J (js_timeshift J x) = Inr x) \<and> (\<forall>x. js_list_of J (js_list J x) = Inr x) \<and>
     (\<forall>x. js_status_of J (js_status J x) = Inr x) \<and> (\<forall>x. js_resolve_of J (js_resolve J x) = Inr x)"

section \<open>Requests and responses\<close>

text \<open>A response carries the status line's code and text; no body after WriteHeader alone.\<close>

record 'b request =
  rq_Method :: string
  rq_Path :: "string list"
  rq_Query :: "(string \<times> string) list"
  rq_Body :: "'b option"

record 'b response =
  re_Code :: nat
  re_Body :: "'b option"

section \<open>Texts of errors\<close>

text \<open>
  \<open>Error()\<close> of the error values, without the numbers and addresses that \<open>goerr\<close> leaves out.
\<close>

fun errno_text :: "errno \<Rightarrow> string" where
  "errno_text ESRCH = ''no such process''"
| "errno_text ECHILD = ''no child processes''"
| "errno_text EPERM = ''operation not permitted''"
| "errno_text EIO = ''input/output error''"
| "errno_text EFAULT = ''bad address''"
| "errno_text EBADF = ''bad file descriptor''"
| "errno_text EEXIST = ''file exists''"
| "errno_text ENOENT = ''no such file or directory''"
| "errno_text (OtherErrno n) = ''errno''"

fun code_text :: "grpc_code \<Rightarrow> string" where
  "code_text InvalidArgument = ''InvalidArgument''"
| "code_text NotFound = ''NotFound''"
| "code_text Internal = ''Internal''"
| "code_text Unavailable = ''Unavailable''"
| "code_text (OtherCode n) = ''Code''"

definition strings_Join :: "string list \<Rightarrow> string \<Rightarrow> string" where
  "strings_Join xs sep = (case xs of [] \<Rightarrow> [] | x # rest \<Rightarrow> x @ concat (map (\<lambda>y. sep @ y) rest))"

fun err_text :: "goerr \<Rightarrow> string" where
  "err_text (Errno e) = errno_text e"
| "err_text (Msg s) = s"
| "err_text (Wrap s e) = s @ '': '' @ err_text e"
| "err_text (Joined es) = strings_Join (map err_text es) [CHR 0x0A]"
| "err_text (Status c s) = ''rpc error: code = '' @ code_text c @ '' desc = '' @ s"

text \<open>\<open>timeshiftID[:8]\<close> needs eight characters; ids of the controller have 32.\<close>

fun cerr_text :: "cerr \<Rightarrow> string" where
  "cerr_text (NotFoundError msg) = msg"
| "cerr_text (ConflictError entries) =
     ''containers already have an active timeshift: '' @
     strings_Join (map (\<lambda>(pod, container, tid). pod @ ''/'' @ container @ '' (timeshift '' @ take 8 tid @ '')'') entries) '', ''"
| "cerr_text (PlainError e) = err_text e"

end
