(* ===== verification/Handlers.thy ===== *)
theory Handlers
  imports HttpApi
begin

text \<open>
  cmd/controller/handlers.go: the REST API. A handler takes a request and the controller with
  its world and gives the response it writes. The routes are those of the ServeMux: a path
  without a handler is answered 404 and a known path with another method 405 by net/http.
\<close>

section \<open>Responses\<close>

definition writeJSON :: "nat \<Rightarrow> 'b \<Rightarrow> 'b response" where
  "writeJSON code v = \<lparr>re_Code = code, re_Body = Some v\<rparr>"

definition writeError :: "'b json \<Rightarrow> nat \<Rightarrow> string \<Rightarrow> 'b response" where
  "writeError J code msg = writeJSON code (js_error J msg)"

text \<open>The status that \<open>errors.As\<close> gives for each kind of error.\<close>

definition isNotFound :: "cerr \<Rightarrow> bool" where
  "isNotFound e = (case e of NotFoundError _ \<Rightarrow> True | _ \<Rightarrow> False)"

definition isConflict :: "cerr \<Rightarrow> bool" where
  "isConflict e = (case e of ConflictError _ \<Rightarrow> True | _ \<Rightarrow> False)"

definition failed_with :: "'b json \<Rightarrow> cerr \<Rightarrow> 'b response" where
  "failed_with J e = writeError J (if isNotFound e then 404 else 500) (cerr_text e)"

definition respond :: "'b json \<Rightarrow> 'a cenv \<Rightarrow> nat \<Rightarrow> timeshift \<Rightarrow> 'a cst \<Rightarrow> 'b response \<times> 'a cst" where
  "respond J E code s st =
     (case st of (c, w) \<Rightarrow> case toResponse E s w of (r, w1) \<Rightarrow> (writeJSON code (js_timeshift J r), (c, w1)))"

section \<open>The handlers\<close>

definition handleHealthz :: "'b json \<Rightarrow> 'b response" where
  "handleHealthz J = writeJSON 200 (js_health J)"

definition handleListTimeshifts :: "'b json \<Rightarrow> 'a cenv \<Rightarrow> 'a cst \<Rightarrow> 'b response \<times> 'a cst" where
  "handleListTimeshifts J E st =
     (case listTimeshifts E st of (rs, st1) \<Rightarrow> (writeJSON 200 (js_list J rs), st1))"

text \<open>An empty body does not decode (EOF).\<close>

definition decode_body :: "('b \<Rightarrow> goerr + 'r) \<Rightarrow> 'b option \<Rightarrow> goerr + 'r" where
  "decode_body dec body = (case body of None \<Rightarrow> Inl (Msg ''EOF'') | Some b \<Rightarrow> dec b)"

definition create_ttl :: "string \<Rightarrow> goerr + duration" where
  "create_ttl s =
     (if s = [] then Inr 0
      else case ParseDuration s of
          Inl e \<Rightarrow> Inl e
        | Inr ttl \<Rightarrow> if ttl \<le> 0 then Inl (Msg ''not positive'') else Inr ttl)"

definition handleCreateTimeshift :: "'b json \<Rightarrow> 'a cenv \<Rightarrow> 'b option \<Rightarrow> 'a cst \<Rightarrow> 'b response \<times> 'a cst" where
  "handleCreateTimeshift J E body st =
     (case decode_body (js_create_of J) body of
        Inl e \<Rightarrow> (writeError J 400 (''invalid JSON: '' @ err_text e), st)
      | Inr req \<Rightarrow>
          if cr_Namespace req = [] then (writeError J 400 ''namespace is required'', st)
          else if cr_LabelSelector req = [] then (writeError J 400 ''labelSelector is required'', st)
          else (case time_Parse (cr_Time req) of
              Inl e \<Rightarrow> (writeError J 400 (''time must be RFC3339: '' @ err_text e), st)
            | Inr target \<Rightarrow>
                (case create_ttl (cr_TTL req) of
                   Inl e \<Rightarrow> (writeError J 400
                     ''ttl must be a positive Go duration (e.g. \"1h\") or omitted for no expiry'', st)
                 | Inr ttl \<Rightarrow>
                     (case createTimeshift E (cr_Namespace req) (cr_LabelSelector req) target ttl
                             (cr_Freeze req) st of
                        (Inl e, st1) \<Rightarrow>
                          (if isConflict e then writeError J 409 (cerr_text e) else failed_with J e, st1)
                      | (Inr s, st1) \<Rightarrow> respond J E 201 s st1))))"

definition handleGetTimeshift :: "'b json \<Rightarrow> 'a cenv \<Rightarrow> string \<Rightarrow> 'a cst \<Rightarrow> 'b response \<times> 'a cst" where
  "handleGetTimeshift J E tid st =
     (case getTimeshift tid (fst st) of
        Inl e \<Rightarrow> (failed_with J e, st)
      | Inr s \<Rightarrow> respond J E 200 s st)"

definition handleUpdateTimeshift :: "'b json \<Rightarrow> 'a cenv \<Rightarrow> string \<Rightarrow> 'b option \<Rightarrow> 'a cst
    \<Rightarrow> 'b response \<times> 'a cst" where
  "handleUpdateTimeshift J E tid body st =
     (let answer = (\<lambda>(r, st1). case r of Inl e \<Rightarrow> (failed_with J e, st1) | Inr s \<Rightarrow> respond J E 200 s st1)
      in case decode_body (js_update_of J) body of
           Inl e \<Rightarrow> (writeError J 400 (''invalid JSON: '' @ err_text e), st)
         | Inr req \<Rightarrow>
             if ur_Time req \<noteq> [] \<and> ur_Duration req \<noteq> [] then
               (writeError J 400 ''provide either time or duration, not both'', st)
             else if ur_Time req = [] \<and> ur_Duration req = [] then
               (writeError J 400 ''time or duration is required'', st)
             else if ur_Duration req \<noteq> [] then
               (case ParseDuration (ur_Duration req) of
                  Inl e \<Rightarrow> (writeError J 400
                    (''duration must be a Go duration string (e.g. \"24h\"): '' @ err_text e), st)
                | Inr delta \<Rightarrow> answer (advanceTimeshift E tid delta (ur_Freeze req) st))
             else (case time_Parse (ur_Time req) of
                 Inl e \<Rightarrow> (writeError J 400 (''time must be RFC3339: '' @ err_text e), st)
               | Inr target \<Rightarrow> answer (updateTimeshift E tid target (ur_Freeze req) st)))"

definition handleDeleteTimeshift :: "'b json \<Rightarrow> 'a cenv \<Rightarrow> string \<Rightarrow> 'a cst \<Rightarrow> 'b response \<times> 'a cst" where
  "handleDeleteTimeshift J E tid st =
     (case deleteTimeshift E tid st of
        (Some e, st1) \<Rightarrow> (failed_with J e, st1)
      | (None, st1) \<Rightarrow> (\<lparr>re_Code = 204, re_Body = None\<rparr>, st1))"

definition container_entry :: "'a cenv \<Rightarrow> containerHandle \<Rightarrow> 'a \<Rightarrow> status_entry \<times> 'a" where
  "container_entry E h w =
     (case ag_GetStatus (ce_agents E) (ch_nodeIP h) (ch_agentHandle h) w of
        (Inl e, w1) \<Rightarrow> (\<lparr>se_Pod = ch_pod h, se_Container = ch_container h, se_NodeIP = ch_nodeIP h,
                          se_Status = None, se_Error = err_text e\<rparr>, w1)
      | (Inr hs, w1) \<Rightarrow> (\<lparr>se_Pod = ch_pod h, se_Container = ch_container h, se_NodeIP = ch_nodeIP h,
                          se_Status = Some hs, se_Error = []\<rparr>, w1))"

definition handleTimeshiftStatus :: "'b json \<Rightarrow> 'a cenv \<Rightarrow> string \<Rightarrow> 'a cst \<Rightarrow> 'b response \<times> 'a cst" where
  "handleTimeshiftStatus J E tid st =
     (case st of (c, w) \<Rightarrow>
      case getTimeshift tid c of
        Inl e \<Rightarrow> (failed_with J e, st)
      | Inr s \<Rightarrow>
          (case map_step (container_entry E) (ts_handles s) w of (entries, w1) \<Rightarrow>
             (writeJSON 200 (js_status J \<lparr>sl_ID = ts_id s, sl_Namespace = ts_namespace s,
                sl_Containers = entries\<rparr>), (c, w1))))"

definition running_names :: "k8s_pod \<Rightarrow> string list" where
  "running_names pod = sort (map cs_Name (filter cs_Running (pod_ContainerStatuses pod)))"

definition resolve_pod :: "k8s_pod \<Rightarrow> resolved_pod" where
  "resolve_pod pod = \<lparr>rp_Name = pod_Name pod, rp_Namespace = pod_Namespace pod,
     rp_NodeIP = pod_HostIP pod, rp_Containers = running_names pod\<rparr>"

definition resolve_pods :: "k8s_pod list \<Rightarrow> resolved_pod list" where
  "resolve_pods pods = sort_key rp_Name (map resolve_pod (filter (\<lambda>pod. running_names pod \<noteq> []) pods))"

definition query_Get :: "string \<Rightarrow> (string \<times> string) list \<Rightarrow> string" where
  "query_Get k q = (case map_of q k of None \<Rightarrow> [] | Some v \<Rightarrow> v)"

definition handleResolve :: "'b json \<Rightarrow> 'a cenv \<Rightarrow> (string \<times> string) list \<Rightarrow> 'a cst \<Rightarrow> 'b response \<times> 'a cst" where
  "handleResolve J E q st =
     (let ns = query_Get ''namespace'' q; sel = query_Get ''selector'' q in
      if ns = [] then (writeError J 400 ''namespace query parameter is required'', st)
      else if sel = [] then (writeError J 400 ''selector query parameter is required'', st)
      else case st of (c, w) \<Rightarrow>
        (case ce_ListPods E ns sel w of
           (Inl e, w1) \<Rightarrow> (writeError J 500 (''list pods: '' @ err_text e), (c, w1))
         | (Inr pods, w1) \<Rightarrow> (writeJSON 200 (js_resolve J (resolve_pods pods)), (c, w1))))"

section \<open>Tracking and routes\<close>

record statusRecorder =
  sr_code :: nat

definition sr_WriteHeader :: "nat \<Rightarrow> statusRecorder \<Rightarrow> statusRecorder" where
  "sr_WriteHeader code sr = (if sr_code sr = 0 then sr\<lparr>sr_code := code\<rparr> else sr)"

definition sr_statusCode :: "statusRecorder \<Rightarrow> nat" where
  "sr_statusCode sr = (if sr_code sr = 0 then 200 else sr_code sr)"

text \<open>The counter of API requests as the list of its increments.\<close>

definition track :: "string \<Rightarrow> string \<Rightarrow> ('a cst \<Rightarrow> 'b response \<times> 'a cst) \<Rightarrow> 'a cst \<Rightarrow> 'b response \<times> 'a cst" where
  "track meth path h st =
     (case h st of (resp, (c, w)) \<Rightarrow>
        let code = sr_statusCode (sr_WriteHeader (re_Code resp) \<lparr>sr_code = 0\<rparr>);
            m = co_met c
        in (resp, (c\<lparr>co_met := m\<lparr>m_apiRequests := (meth, path, code) # m_apiRequests m\<rparr>\<rparr>, w)))"

text \<open>GET patterns also serve HEAD. The metrics page is Prometheus', an opaque text.\<close>

definition routes :: "'b json \<Rightarrow> 'a cenv \<Rightarrow> 'b \<Rightarrow> 'b request \<Rightarrow> 'a cst \<Rightarrow> 'b response \<times> 'a cst" where
  "routes J E metrics_page rq st =
     (let meth = (if rq_Method rq = ''HEAD'' then ''GET'' else rq_Method rq);
          other = (\<lambda>ms h. if meth \<in> set ms then h else (\<lparr>re_Code = 405, re_Body = None\<rparr>, st));
          unknown = (\<lparr>re_Code = 404, re_Body = None\<rparr>, st) in
      if rq_Path rq = [''metrics''] then other [''GET''] (writeJSON 200 metrics_page, st)
      else if rq_Path rq = [''healthz''] then
        other [''GET''] (track ''GET'' ''/healthz'' (\<lambda>st. (handleHealthz J, st)) st)
      else if rq_Path rq = [''resolve''] then
        other [''GET''] (track ''GET'' ''/resolve'' (handleResolve J E (rq_Query rq)) st)
      else if rq_Path rq = [''timeshifts''] then
        (if meth = ''POST''
         then track ''POST'' ''/timeshifts'' (handleCreateTimeshift J E (rq_Body rq)) st
         else other [''GET''] (track ''GET'' ''/timeshifts'' (handleListTimeshifts J E) st))
      else (case rq_Path rq of
          [p, tid] \<Rightarrow>
            if p \<noteq> ''timeshifts'' \<or> tid = [] then unknown
            else if meth = ''PATCH''
            then track ''PATCH'' ''/timeshifts/{id}'' (handleUpdateTimeshift J E tid (rq_Body rq)) st
            else if meth = ''DELETE''
            then track ''DELETE'' ''/timeshifts/{id}'' (handleDeleteTimeshift J E tid) st
            else other [''GET''] (track ''GET'' ''/timeshifts/{id}'' (handleGetTimeshift J E tid) st)
        | [p, tid, q] \<Rightarrow>
            if p \<noteq> ''timeshifts'' \<or> tid = [] \<or> q \<noteq> ''status'' then unknown
            else other [''GET''] (track ''GET'' ''/timeshifts/{id}/status'' (handleTimeshiftStatus J E tid) st)
        | _ \<Rightarrow> unknown))"

section \<open>Lemmas\<close>

lemma track_eq:
  "h st = (resp, (c, w)) \<Longrightarrow> \<exists>c'. track meth path h st = (resp, (c', w)) \<and> co_timeshifts c' = co_timeshifts c \<and>
     co_store c' = co_store c \<and> m_timeshiftsActive (co_met c') = m_timeshiftsActive (co_met c)"
  by (simp add: track_def Let_def)

text \<open>A refused request (400) leaves the controller and its world alone.\<close>

lemma respond_code [simp]: "re_Code (fst (respond J E code s st)) = code"
  and respond_registry [simp]: "fst (snd (respond J E code s st)) = fst st"
  by (auto simp: respond_def writeJSON_def split: prod.splits)

lemma failed_with_code: "re_Code (failed_with J e) = (if isNotFound e then 404 else 500)"
  by (simp add: failed_with_def writeError_def writeJSON_def)

lemma writeError_code [simp]: "re_Code (writeError J code msg) = code"
  by (simp add: writeError_def writeJSON_def)

lemma handleCreateTimeshift_400:
  "handleCreateTimeshift J E body st = (resp, st') \<Longrightarrow> re_Code resp = 400 \<Longrightarrow> st' = st"
  by (auto simp: handleCreateTimeshift_def failed_with_code
      split: sum.splits prod.splits if_splits dest: arg_cong [of _ _ "\<lambda>x. re_Code (fst x)"])

lemma handleUpdateTimeshift_400:
  "handleUpdateTimeshift J E tid body st = (resp, st') \<Longrightarrow> re_Code resp = 400 \<Longrightarrow> st' = st"
  by (auto simp: handleUpdateTimeshift_def failed_with_code Let_def
      split: sum.splits prod.splits if_splits dest: arg_cong [of _ _ "\<lambda>x. re_Code (fst x)"])

end
