(* ===== verification/Sdk.thy ===== *)
theory Sdk
  imports HttpApi
begin

text \<open>
  pkg/sdk: the client library. The HTTP transport is a parameter: building a request, performing
  it, and the wait of 250 ms that the context may end. \<open>'w\<close> is the world behind the transport.
\<close>

section \<open>Errors\<close>

text \<open>\<open>SdkWrap\<close> is \<open>fmt.Errorf\<close> with \<open>%w\<close>.\<close>

datatype sdk_error =
    APIError nat string
  | SdkErr goerr
  | SdkWrap string sdk_error

fun isAPIError :: "sdk_error \<Rightarrow> (nat \<times> string) option" where
  "isAPIError (APIError code msg) = Some (code, msg)"
| "isAPIError _ = None"

definition sdk_IsNotFound :: "sdk_error option \<Rightarrow> bool" where
  "sdk_IsNotFound err =
     (case err of None \<Rightarrow> False
      | Some e \<Rightarrow> (case isAPIError e of None \<Rightarrow> False | Some (code, _) \<Rightarrow> code = 404))"

definition sdk_IsConflict :: "sdk_error option \<Rightarrow> bool" where
  "sdk_IsConflict err =
     (case err of None \<Rightarrow> False
      | Some e \<Rightarrow> (case isAPIError e of None \<Rightarrow> False | Some (code, _) \<Rightarrow> code = 409))"

section \<open>The transport\<close>

record 'b reply =
  hr_StatusCode :: nat
  hr_Status :: string
  hr_Body :: "'b option"

record ('b, 'w) http =
  ht_NewRequest :: "string \<Rightarrow> string \<Rightarrow> goerr option"
  ht_Do :: "string \<Rightarrow> string \<Rightarrow> 'b option \<Rightarrow> 'w \<Rightarrow> (goerr + 'b reply) \<times> 'w"
  ht_Wait :: "'w \<Rightarrow> goerr option \<times> 'w"

record ('b, 'w) client =
  cl_baseURL :: string
  cl_http :: "('b, 'w) http"

definition WithHTTPClient :: "('b, 'w) http \<Rightarrow> ('b, 'w) client \<Rightarrow> ('b, 'w) client" where
  "WithHTTPClient h C = C\<lparr>cl_http := h\<rparr>"

text \<open>
  The transport of calls that share a context: \<open>ctx w\<close> is the context's error in the world \<open>w\<close>.
  Once it has ended nothing is sent; when it ends while a request runs, the effect stands and the
  reply is lost.
\<close>

definition ctx_http :: "('w \<Rightarrow> goerr option) \<Rightarrow> ('b, 'w) http \<Rightarrow> ('b, 'w) http" where
  "ctx_http ctx H = H\<lparr>
     ht_Do := (\<lambda>meth url body w.
       case ctx w of
         Some e \<Rightarrow> (Inl e, w)
       | None \<Rightarrow>
           (case ht_Do H meth url body w of (r, w1) \<Rightarrow>
              (case ctx w1 of Some e \<Rightarrow> (Inl e, w1) | None \<Rightarrow> (r, w1)))),
     ht_Wait := (\<lambda>w. case ctx w of Some e \<Rightarrow> (Some e, w) | None \<Rightarrow> ht_Wait H w)\<rparr>"

definition ctx_client :: "('w \<Rightarrow> goerr option) \<Rightarrow> ('b, 'w) client \<Rightarrow> ('b, 'w) client" where
  "ctx_client ctx C = C\<lparr>cl_http := ctx_http ctx (cl_http C)\<rparr>"

text \<open>
  \<open>do\<close>: without a decoder (nil) or after 204 the response value keeps its zero value \<open>z\<close>. An
  error body that does not decode leaves an empty message, replaced by the status text.
\<close>

definition error_message :: "'b json \<Rightarrow> 'b reply \<Rightarrow> string" where
  "error_message J resp =
     (let msg = (case hr_Body resp of None \<Rightarrow> []
                 | Some b \<Rightarrow> (case js_error_of J b of Inl _ \<Rightarrow> [] | Inr m \<Rightarrow> m))
      in if msg = [] then hr_Status resp else msg)"

definition sdk_do :: "'b json \<Rightarrow> ('b, 'w) client \<Rightarrow> string \<Rightarrow> string \<Rightarrow> 'b option
    \<Rightarrow> ('b \<Rightarrow> goerr + 'r) option \<Rightarrow> 'r \<Rightarrow> 'w \<Rightarrow> (sdk_error + 'r) \<times> 'w" where
  "sdk_do J C meth path body dec z w =
     (case ht_NewRequest (cl_http C) meth (cl_baseURL C @ path) of
        Some e \<Rightarrow> (Inl (SdkWrap ''sdk: build request'' (SdkErr e)), w)
      | None \<Rightarrow>
          (case ht_Do (cl_http C) meth (cl_baseURL C @ path) body w of
             (Inl e, w1) \<Rightarrow> (Inl (SdkWrap (''sdk: '' @ meth @ '' '' @ path) (SdkErr e)), w1)
           | (Inr resp, w1) \<Rightarrow>
               if 400 \<le> hr_StatusCode resp
               then (Inl (APIError (hr_StatusCode resp) (error_message J resp)), w1)
               else (case dec of
                   None \<Rightarrow> (Inr z, w1)
                 | Some d \<Rightarrow>
                     if hr_StatusCode resp = 204 then (Inr z, w1)
                     else (case (case hr_Body resp of None \<Rightarrow> Inl (Msg ''EOF'') | Some b \<Rightarrow> d b) of
                         Inl e \<Rightarrow> (Inl (SdkWrap ''sdk: decode response'' (SdkErr e)), w1)
                       | Inr r \<Rightarrow> (Inr r, w1)))))"

section \<open>Timeshifts\<close>

record Timeshift =
  T_ID :: string
  T_Namespace :: string
  T_Time :: gotime
  T_Frozen :: bool
  T_ExpiresAt :: gotime
  T_AppliedTo :: "string list"

definition timeshiftFromResponse :: "timeshift_response \<Rightarrow> sdk_error + Timeshift" where
  "timeshiftFromResponse r =
     (case time_Parse (tr_Time r) of
        Inl e \<Rightarrow> Inl (SdkWrap ''sdk: parse Time'' (SdkErr e))
      | Inr t \<Rightarrow>
          (case (if tr_ExpiresAt r = [] then Inr zero_time else time_Parse (tr_ExpiresAt r)) of
             Inl e \<Rightarrow> Inl (SdkWrap ''sdk: parse ExpiresAt'' (SdkErr e))
           | Inr exp \<Rightarrow>
               Inr \<lparr>T_ID = tr_ID r, T_Namespace = tr_Namespace r, T_Time = t, T_Frozen = tr_Frozen r,
                    T_ExpiresAt = exp, T_AppliedTo = tr_AppliedTo r\<rparr>))"

definition zero_response :: timeshift_response where
  "zero_response = \<lparr>tr_ID = [], tr_Namespace = [], tr_Time = [], tr_Frozen = False,
     tr_ExpiresAt = [], tr_AppliedTo = []\<rparr>"

text \<open>A request whose response is a timeshift.\<close>

definition do_timeshift :: "'b json \<Rightarrow> ('b, 'w) client \<Rightarrow> string \<Rightarrow> string \<Rightarrow> 'b option \<Rightarrow> 'w
    \<Rightarrow> (sdk_error + Timeshift) \<times> 'w" where
  "do_timeshift J C meth path body w =
     (case sdk_do J C meth path body (Some (js_timeshift_of J)) zero_response w of
        (Inl e, w1) \<Rightarrow> (Inl e, w1)
      | (Inr r, w1) \<Rightarrow> (timeshiftFromResponse r, w1))"

definition create_body :: "string \<Rightarrow> string \<Rightarrow> gotime \<Rightarrow> duration \<Rightarrow> bool \<Rightarrow> create_request" where
  "create_body ns sel target ttl freeze =
     \<lparr>cr_Namespace = ns, cr_LabelSelector = sel, cr_Time = fmt_rfc3339 target,
      cr_TTL = (if 0 < ttl then dur_String ttl else []), cr_Freeze = freeze\<rparr>"

definition sdk_createTimeshift :: "'b json \<Rightarrow> ('b, 'w) client \<Rightarrow> string \<Rightarrow> string \<Rightarrow> gotime \<Rightarrow> duration
    \<Rightarrow> bool \<Rightarrow> 'w \<Rightarrow> (sdk_error + Timeshift) \<times> 'w" where
  "sdk_createTimeshift J C ns sel target ttl freeze =
     do_timeshift J C ''POST'' ''/timeshifts'' (Some (js_create J (create_body ns sel target ttl freeze)))"

definition CreateTimeshift where
  "CreateTimeshift J C ns sel target ttl = sdk_createTimeshift J C ns sel target ttl False"

definition CreateFrozenTimeshift where
  "CreateFrozenTimeshift J C ns sel target ttl = sdk_createTimeshift J C ns sel target ttl True"

fun parse_all :: "timeshift_response list \<Rightarrow> sdk_error + Timeshift list" where
  "parse_all [] = Inr []"
| "parse_all (r # rs) =
     (case timeshiftFromResponse r of
        Inl e \<Rightarrow> Inl e
      | Inr t \<Rightarrow> (case parse_all rs of Inl e \<Rightarrow> Inl e | Inr ts \<Rightarrow> Inr (t # ts)))"

definition ListTimeshifts :: "'b json \<Rightarrow> ('b, 'w) client \<Rightarrow> 'w \<Rightarrow> (sdk_error + Timeshift list) \<times> 'w" where
  "ListTimeshifts J C w =
     (case sdk_do J C ''GET'' ''/timeshifts'' None (Some (js_list_of J)) [] w of
        (Inl e, w1) \<Rightarrow> (Inl e, w1)
      | (Inr rs, w1) \<Rightarrow> (parse_all rs, w1))"

definition GetTimeshift :: "'b json \<Rightarrow> ('b, 'w) client \<Rightarrow> string \<Rightarrow> 'w \<Rightarrow> (sdk_error + Timeshift) \<times> 'w" where
  "GetTimeshift J C tid = do_timeshift J C ''GET'' (''/timeshifts/'' @ tid) None"

definition sdk_updateTimeshift :: "'b json \<Rightarrow> ('b, 'w) client \<Rightarrow> string \<Rightarrow> gotime \<Rightarrow> bool \<Rightarrow> 'w
    \<Rightarrow> (sdk_error + Timeshift) \<times> 'w" where
  "sdk_updateTimeshift J C tid target freeze =
     do_timeshift J C ''PATCH'' (''/timeshifts/'' @ tid)
       (Some (js_update J \<lparr>ur_Time = fmt_rfc3339 target, ur_Duration = [], ur_Freeze = freeze\<rparr>))"

definition UpdateTimeshift where
  "UpdateTimeshift J C tid target = sdk_updateTimeshift J C tid target False"

definition FreezeTimeshift where
  "FreezeTimeshift J C tid target = sdk_updateTimeshift J C tid target True"

definition AdvanceTimeshift :: "'b json \<Rightarrow> ('b, 'w) client \<Rightarrow> string \<Rightarrow> duration \<Rightarrow> 'w
    \<Rightarrow> (sdk_error + Timeshift) \<times> 'w" where
  "AdvanceTimeshift J C tid d =
     do_timeshift J C ''PATCH'' (''/timeshifts/'' @ tid)
       (Some (js_update J \<lparr>ur_Time = [], ur_Duration = dur_String d, ur_Freeze = False\<rparr>))"

definition DeleteTimeshift :: "'b json \<Rightarrow> ('b, 'w) client \<Rightarrow> string \<Rightarrow> 'w \<Rightarrow> sdk_error option \<times> 'w" where
  "DeleteTimeshift J C tid w =
     (case sdk_do J C ''DELETE'' (''/timeshifts/'' @ tid) None None () w of
        (Inl e, w1) \<Rightarrow> (Some e, w1)
      | (Inr _, w1) \<Rightarrow> (None, w1))"

definition TimeshiftStatus :: "'b json \<Rightarrow> ('b, 'w) client \<Rightarrow> string \<Rightarrow> 'w
    \<Rightarrow> (sdk_error + timeshift_status) \<times> 'w" where
  "TimeshiftStatus J C tid =
     sdk_do J C ''GET'' (''/timeshifts/'' @ tid @ ''/status'') None (Some (js_status_of J))
       \<lparr>sl_ID = [], sl_Namespace = [], sl_Containers = []\<rparr>"

text \<open>\<open>url.QueryEscape\<close>, and \<open>Values.Encode\<close> with its keys in order.\<close>

definition url_unreserved :: "char \<Rightarrow> bool" where
  "url_unreserved ch \<longleftrightarrow> (let n = (of_char ch :: nat) in 48 \<le> n \<and> n \<le> 57 \<or> 65 \<le> n \<and> n \<le> 90 \<or>
     97 \<le> n \<and> n \<le> 122 \<or> ch \<in> set ''-_.~'')"

definition QueryEscape :: "string \<Rightarrow> string" where
  "QueryEscape s = concat (map (\<lambda>ch.
     if url_unreserved ch then [ch]
     else if ch = CHR '' '' then ''+''
     else [CHR ''%'', ''0123456789ABCDEF'' ! ((of_char ch :: nat) div 16),
           ''0123456789ABCDEF'' ! ((of_char ch :: nat) mod 16)]) s)"

definition sdk_Resolve :: "'b json \<Rightarrow> ('b, 'w) client \<Rightarrow> string \<Rightarrow> string \<Rightarrow> 'w
    \<Rightarrow> (sdk_error + resolved_pod list) \<times> 'w" where
  "sdk_Resolve J C ns sel =
     sdk_do J C ''GET''
       (''/resolve?namespace='' @ QueryEscape ns @ ''&selector='' @ QueryEscape sel) None
       (Some (js_resolve_of J)) []"

section \<open>WaitForActive\<close>

text \<open>The loop over the containers: the first error ends the wait.\<close>

fun wait_scan :: "status_entry list \<Rightarrow> bool \<Rightarrow> sdk_error + bool" where
  "wait_scan [] allReady = Inr allReady"
| "wait_scan (cs # rest) allReady =
     (if se_Error cs \<noteq> [] then
        Inl (SdkErr (Msg (''sdk: WaitForActive: container '' @ se_Pod cs @ ''/'' @ se_Container cs @
          '': '' @ se_Error cs)))
      else wait_scan rest (allReady \<and> se_Status cs \<noteq> None))"

text \<open>\<open>None\<close> as the outcome means that the polling never ends.\<close>

partial_function (option) WaitForActive :: "'b json \<Rightarrow> ('b, 'w) client \<Rightarrow> string \<Rightarrow> 'w
    \<Rightarrow> (sdk_error option \<times> 'w) option" where
  "WaitForActive J C tid w =
     (case TimeshiftStatus J C tid w of
        (Inl e, w1) \<Rightarrow> Some (Some (SdkWrap ''sdk: WaitForActive'' e), w1)
      | (Inr st, w1) \<Rightarrow>
          (case wait_scan (sl_Containers st) True of
             Inl e \<Rightarrow> Some (Some e, w1)
           | Inr allReady \<Rightarrow>
               if allReady then Some (None, w1)
               else (case ht_Wait (cl_http C) w1 of
                   (Some e, w2) \<Rightarrow> Some (Some (SdkErr e), w2)
                 | (None, w2) \<Rightarrow> WaitForActive J C tid w2)))"

section \<open>WithTime\<close>

text \<open>
  How a Go call ends, the callback's and then WithTime's own: it returns, or a panic (or
  \<open>runtime.Goexit\<close>, as in \<open>t.FailNow\<close>) unwinds the stack; \<open>None\<close> for the pair with the world means
  that it never ends. Nothing in WithTime is deferred: what unwinds \<open>fn\<close> unwinds it too. The
  error of a delete is put into the message as text (\<open>%v\<close>).
\<close>

datatype call_end = Returns "sdk_error option" | Unwinds

definition withTimeMode :: "'b json \<Rightarrow> ('b, 'w) client \<Rightarrow> string \<Rightarrow> string \<Rightarrow> gotime \<Rightarrow> duration \<Rightarrow> bool
    \<Rightarrow> (Timeshift \<Rightarrow> 'w \<Rightarrow> (call_end \<times> 'w) option) \<Rightarrow> 'w \<Rightarrow> (call_end \<times> 'w) option" where
  "withTimeMode J C ns sel target ttl freeze fn w =
     (if ttl \<le> 0 then
        Some (Returns (Some (SdkErr (Msg ''sdk: WithTime/WithFrozenTime requires a positive ttl; use CreateTimeshift for no-expiry timeshifts''))), w)
      else case sdk_createTimeshift J C ns sel target ttl freeze w of
          (Inl e, w1) \<Rightarrow> Some (Returns (Some (SdkWrap ''sdk: WithTime create'' e)), w1)
        | (Inr ts, w1) \<Rightarrow>
            (case WaitForActive J C (T_ID ts) w1 of
               None \<Rightarrow> None
             | Some (Some e, w2) \<Rightarrow>
                 Some (Returns (Some (SdkWrap ''sdk: WithTime'' e)), snd (DeleteTimeshift J C (T_ID ts) w2))
             | Some (None, w2) \<Rightarrow>
                 (case fn ts w2 of
                    None \<Rightarrow> None
                  | Some (Unwinds, w3) \<Rightarrow> Some (Unwinds, w3)
                  | Some (Returns fnErr, w3) \<Rightarrow>
                      (case DeleteTimeshift J C (T_ID ts) w3 of
                         (None, w4) \<Rightarrow> Some (Returns fnErr, w4)
                       | (Some delErr, w4) \<Rightarrow>
                           (case fnErr of
                              Some e \<Rightarrow> Some (Returns (Some (SdkWrap
                                (''sdk: WithTime fn failed; also failed to delete timeshift '' @ T_ID ts) e)), w4)
                            | None \<Rightarrow> Some (Returns (Some (SdkWrap
                                (''sdk: WithTime delete timeshift '' @ T_ID ts) delErr)), w4))))))"

definition WithTime where
  "WithTime J C ns sel target ttl fn = withTimeMode J C ns sel target ttl False fn"

definition WithFrozenTime where
  "WithFrozenTime J C ns sel target ttl fn = withTimeMode J C ns sel target ttl True fn"

section \<open>WithTimeT\<close>

text \<open>
  How the test ended, and the cleanup that the testing package runs after it, whether or not
  \<open>fn\<close> panicked; \<open>getenv\<close> is the value of EPOCHD_URL.
\<close>

datatype test_end = Skipped | Fatal sdk_error | Ran

definition cleanup_delete :: "'b json \<Rightarrow> ('b, 'w) client \<Rightarrow> string \<Rightarrow> 'w \<Rightarrow> sdk_error option \<times> 'w" where
  "cleanup_delete J C tid w =
     (case DeleteTimeshift J C tid w of (e, w1) \<Rightarrow> (if sdk_IsNotFound e then None else e, w1))"

definition WithTimeT :: "string \<Rightarrow> 'b json \<Rightarrow> ('b, 'w) client \<Rightarrow> string \<Rightarrow> string \<Rightarrow> gotime \<Rightarrow> duration
    \<Rightarrow> (Timeshift \<Rightarrow> 'w \<Rightarrow> 'w) \<Rightarrow> 'w \<Rightarrow> (test_end \<times> ('w \<Rightarrow> sdk_error option \<times> 'w) option) \<times> 'w" where
  "WithTimeT getenv J C ns sel target ttl fn w =
     (if getenv = [] then ((Skipped, None), w)
      else if ttl \<le> 0 then ((Fatal (SdkErr (Msg ''sdk: WithTimeT requires a positive ttl'')), None), w)
      else case CreateTimeshift J C ns sel target ttl w of
          (Inl e, w1) \<Rightarrow> ((Fatal (SdkWrap ''sdk: WithTimeT create'' e), None), w1)
        | (Inr ts, w1) \<Rightarrow> ((Ran, Some (cleanup_delete J C (T_ID ts))), fn ts w1))"

section \<open>Lemmas\<close>

lemma timeshiftFromResponse_reads:
  assumes "four_digit_year t" and "exp = zero_time \<or> four_digit_year exp"
  shows "timeshiftFromResponse \<lparr>tr_ID = i, tr_Namespace = ns, tr_Time = fmt_rfc3339 t, tr_Frozen = fr,
      tr_ExpiresAt = (if time_IsZero exp then [] else fmt_rfc3339 exp), tr_AppliedTo = ap\<rparr> =
    Inr \<lparr>T_ID = i, T_Namespace = ns, T_Time = time_Unix t * second, T_Frozen = fr,
      T_ExpiresAt = (if exp = zero_time then zero_time else time_Unix exp * second), T_AppliedTo = ap\<rparr>"
proof -
  have "fmt_rfc3339 exp \<noteq> []" by (simp add: fmt_rfc3339_def Let_def split: prod.splits)
  with assms show ?thesis
    by (auto simp: timeshiftFromResponse_def Parse_fmt_rfc3339 time_IsZero_def)
qed

text \<open>When every entry has an error or a status, one poll decides.\<close>

lemma wait_scan_decides:
  assumes "\<And>cs. cs \<in> set css \<Longrightarrow> se_Error cs = [] \<Longrightarrow> se_Status cs \<noteq> None"
  shows "wait_scan css True \<noteq> Inr False"
  using assms by (induction css) auto

lemma wait_scan_ready:
  "wait_scan css b = Inr True \<longleftrightarrow> b \<and> (\<forall>cs \<in> set css. se_Error cs = [] \<and> se_Status cs \<noteq> None)"
  by (induction css arbitrary: b) auto

text \<open>A request under a context: not sent, sent with its reply lost, or as without the context.\<close>

lemma sdk_do_ctx:
  assumes "ht_NewRequest (cl_http C) meth (cl_baseURL C @ path) = None"
    and "sdk_do J C meth path body dec z w = (r, w1)"
  shows "\<exists>err. sdk_do J (ctx_client ctx C) meth path body dec z w =
    (if ctx w \<noteq> None then (Inl err, w) else if ctx w1 \<noteq> None then (Inl err, w1) else (r, w1))"
proof -
  obtain x v where call: "ht_Do (cl_http C) meth (cl_baseURL C @ path) body w = (x, v)" by (rule prod.exhaust)
  have "v = w1" using assms by (auto simp: sdk_do_def call split: sum.splits option.splits if_splits)
  then show ?thesis
    using assms by (auto simp: sdk_do_def ctx_client_def ctx_http_def call split: option.splits)
qed

end
