(* ===== verification/ControllerInv.thy ===== *)
theory ControllerInv
  imports Controller
begin

text \<open>
  The registry invariant and its preservation by every operation, what the loops over the
  agents leave alone, and the contract between the controller and its environment.
\<close>

section \<open>What the loops keep\<close>

definition same_registry :: "controller \<Rightarrow> controller \<Rightarrow> bool" where
  "same_registry c c' \<longleftrightarrow> co_timeshifts c' = co_timeshifts c \<and> co_store c' = co_store c \<and>
     m_timeshiftsActive (co_met c') = m_timeshiftsActive (co_met c) \<and> co_recorder c' = co_recorder c"

lemma same_registry_refl [simp]: "same_registry c c"
  by (simp add: same_registry_def)

lemma same_registry_trans [trans]: "same_registry a b \<Longrightarrow> same_registry b c \<Longrightarrow> same_registry a c"
  by (simp add: same_registry_def)

lemma same_registry_count [simp]:
  "same_registry (count_inject ok c) c' = same_registry c c'"
  "same_registry (count_setTime ok c) c' = same_registry c c'"
  by (simp_all add: same_registry_def count_inject_def count_setTime_def Let_def)

lemma inject_containers_registry:
  "inject_containers E pod t fr css (c, w) = (hs, (c', w')) \<Longrightarrow> same_registry c c'"
proof (induction css arbitrary: c w hs)
  case (Cons cs css)
  from Cons.prems show ?case
    by (auto split: if_splits prod.splits sum.splits dest!: Cons.IH)
qed simp

lemma injectPod_registry: "injectPod E pod t fr (c, w) = (hs, (c', w')) \<Longrightarrow> same_registry c c'"
  unfolding injectPod_def by (rule inject_containers_registry)

lemma inject_pods_registry:
  assumes "inject_pods E pods t fr st = (hs, st')"
  shows "same_registry (fst st) (fst st')"
proof -
  from assms obtain hss where "map_step (\<lambda>pod. injectPod E pod t fr) pods st = (hss, st')"
    by (auto simp: inject_pods_def split: prod.splits)
  then show ?thesis
    by (rule map_step_invariant [where P = "\<lambda>x. same_registry (fst st) (fst x)", rotated])
      (auto dest!: injectPod_registry elim: same_registry_trans)
qed

lemma set_handles_registry:
  "set_handles E t fr i hs (c, w) = (us, (c', w')) \<Longrightarrow> same_registry c c'"
proof (induction hs arbitrary: i c w us)
  case (Cons h hs)
  from Cons.prems show ?case
    by (auto simp: Let_def split: if_splits prod.splits sum.splits dest!: Cons.IH)
qed simp

lemma persist_registry: "fst (persist E (c, w)) = c"
  by (simp add: persist_def split: option.splits sum.splits)

lemma persist_eqD: "(c', w') = persist E (c, w) \<Longrightarrow> c' = c"
  by (metis fst_conv persist_registry)

section \<open>The registry invariant\<close>

definition registry_ok :: "controller \<Rightarrow> bool" where
  "registry_ok c \<longleftrightarrow> well_keyed (co_timeshifts c) \<and>
     m_timeshiftsActive (co_met c) = int (length (co_timeshifts c))"

lemma registry_ok_same: "same_registry c c' \<Longrightarrow> registry_ok c \<Longrightarrow> registry_ok c'"
  by (simp add: same_registry_def registry_ok_def)

lemma registry_ok_new [simp]: "registry_ok (newController st)"
  by (simp add: registry_ok_def newController_def newMetrics_def)

lemma length_update_mem: "k \<in> set (keys m) \<Longrightarrow> length (AList.update k v m) = length m"
  by (induction m) auto

lemma length_update_new: "k \<notin> set (keys m) \<Longrightarrow> length (AList.update k v m) = length m + 1"
  by (induction m) auto

lemma map_of_mem_keys: "map_of m k = Some v \<Longrightarrow> k \<in> set (keys m)"
  by (metis domI dom_map_of_conv_image_fst set_map)

lemma length_delete_mem: "well_keyed m \<Longrightarrow> k \<in> set (keys m) \<Longrightarrow> length (AList.delete k m) + 1 = length m"
proof -
  assume wk: "well_keyed m" and k: "k \<in> set (keys m)"
  then have "length (AList.delete k m) = card (dom (map_of m) - {k})"
    using length_well_keyed [OF well_keyed_delete [OF wk], of k] by (simp del: fun_upd_apply)
  moreover have "k \<in> dom (map_of m)" "finite (dom (map_of m))"
    using k by (simp_all add: dom_map_of_conv_image_fst finite_dom_map_of)
  ultimately show ?thesis
    using length_well_keyed [OF wk] card_Suc_Diff1 [of "dom (map_of m)" k] by simp
qed

lemma register_ok:
  "registry_ok c \<Longrightarrow> ts_id s \<notin> set (keys (co_timeshifts c)) \<Longrightarrow> registry_ok (register s c)"
  by (auto simp: registry_ok_def register_def length_update_new intro: well_keyed_update)

lemma well_keyed_id: "well_keyed m \<Longrightarrow> map_of m k = Some s \<Longrightarrow> ts_id s = k"
  using map_of_SomeD [of m k s] unfolding well_keyed_def by force

lemma replace_ok:
  assumes "registry_ok c" and "map_of (co_timeshifts c) k = Some s" and "ts_id s' = ts_id s"
  shows "registry_ok (c\<lparr>co_timeshifts := AList.update k s' (co_timeshifts c)\<rparr>)"
  using assms well_keyed_id [of "co_timeshifts c" k s]
  by (auto simp: registry_ok_def length_update_mem [OF map_of_mem_keys] intro: well_keyed_update)

section \<open>Every operation keeps it\<close>

lemma createTimeshift_cases:
  assumes "createTimeshift E ns sel t ttl fr (c, w) = (r, (c', w'))"
  obtains (failed) e where "r = Inl e" and "same_registry c c'"
  | (created) pods w1 hs c1 w2 now w3 tid w4 s where "ce_ListPods E ns sel w = (Inr pods, w1)" and "pods \<noteq> []"
    and "checkConflicts ns pods c = None" and "inject_pods E pods t fr (c, w1) = (hs, (c1, w2))"
    and "hs \<noteq> []" and "ce_now E w2 = (now, w3)" and "newID E w3 = (tid, w4)"
    and "s = new_timeshift tid ns sel t ttl fr now hs"
    and "r = Inr s" and "same_registry c c1" and "(c', w') = persist E (register s c1, w4)"
proof (cases r)
  case (Inl e)
  moreover have "same_registry c c'"
    using assms Inl inject_pods_registry [of E _ t fr "(c, _)"]
    by (fastforce simp: createTimeshift_def Let_def split: prod.splits sum.splits if_splits option.splits)
  ultimately show thesis by (rule failed)
next
  case (Inr s)
  with assms obtain pods w1 hs c1 w2 now w3 tid w4 where
    *: "ce_ListPods E ns sel w = (Inr pods, w1)" "pods \<noteq> []" "checkConflicts ns pods c = None"
    "inject_pods E pods t fr (c, w1) = (hs, (c1, w2))" "hs \<noteq> []" "ce_now E w2 = (now, w3)"
    "newID E w3 = (tid, w4)" "s = new_timeshift tid ns sel t ttl fr now hs"
    "(c', w') = persist E (register s c1, w4)"
    by (auto simp: createTimeshift_def Let_def split: prod.splits sum.splits if_splits option.splits)
  from inject_pods_registry [OF *(4)] have "same_registry c c1" by simp
  from created [OF *(1-8) Inr this *(9)] show thesis .
qed

lemma createTimeshift_ok:
  assumes run: "createTimeshift E ns sel t ttl fr (c, w) = (r, (c', w'))" and ok: "registry_ok c"
    and fresh: "\<And>s. r = Inr s \<Longrightarrow> ts_id s \<notin> set (keys (co_timeshifts c))"
  shows "registry_ok c'"
  using run
proof (cases rule: createTimeshift_cases)
  case (failed e)
  with ok show ?thesis by (blast intro: registry_ok_same)
next
  case (created pods w1 hs c1 w2 now w3 tid w4 s)
  then have "c' = register s c1" using persist_registry [of E "register s c1" w4] by (metis fst_conv)
  moreover have "registry_ok (register s c1)"
    using created fresh [OF \<open>r = Inr s\<close>] ok
    by (intro register_ok registry_ok_same [OF \<open>same_registry c c1\<close>]) (simp_all add: same_registry_def)
  ultimately show ?thesis by simp
qed

lemma commit_update_fields [simp]:
  "ts_id (commit_update snap us t now fr s) = ts_id s"
  "ts_namespace (commit_update snap us t now fr s) = ts_namespace s"
  "ts_labelSelector (commit_update snap us t now fr s) = ts_labelSelector s"
  "ts_expiresAt (commit_update snap us t now fr s) = ts_expiresAt s"
  "ts_createdAt (commit_update snap us t now fr s) = ts_createdAt s"
  "ts_frozen (commit_update snap us t now fr s) = fr"
  by (simp_all add: commit_update_def)

lemma updateTimeshift_cases:
  assumes "updateTimeshift E tid t fr (c, w) = (r, (c', w'))"
  obtains (missing) "map_of (co_timeshifts c) tid = None" and "r = Inl (NotFoundError ''timeshift not found'')"
    and "c' = c" and "w' = w"
  | (updated) s us c1 w1 now w2 s' where "map_of (co_timeshifts c) tid = Some s"
    and "set_handles E t fr 0 (ts_handles s) (c, w) = (us, (c1, w1))" and "ce_now E w1 = (now, w2)"
    and "s' = commit_update (ts_handles s) us t now fr s" and "r = Inr s'" and "same_registry c c1"
    and "(c', w') = persist E (c1\<lparr>co_timeshifts := AList.update tid s' (co_timeshifts c1)\<rparr>, w2)"
proof (cases "map_of (co_timeshifts c) tid")
  case None
  with assms show thesis by (auto simp: updateTimeshift_def getTimeshift_def intro: missing)
next
  case (Some s)
  obtain us c1 w1 where sh: "set_handles E t fr 0 (ts_handles s) (c, w) = (us, (c1, w1))"
    by (metis prod.exhaust)
  obtain now w2 where now: "ce_now E w1 = (now, w2)" by (rule prod.exhaust)
  from updated [OF Some sh now refl _ set_handles_registry [OF sh]] assms show thesis
    by (simp add: updateTimeshift_def getTimeshift_def Some sh now Let_def)
qed

lemma updateTimeshift_registry:
  assumes "updateTimeshift E tid t fr (c, w) = (Inr s', (c', w'))"
  shows "co_timeshifts c' = AList.update tid s' (co_timeshifts c)"
  using assms
proof (cases rule: updateTimeshift_cases)
  case (updated s us c1 w1 now w2 s2)
  with persist_eqD [OF updated(7)] show ?thesis by (simp add: same_registry_def)
qed simp

lemma updateTimeshift_ok:
  assumes run: "updateTimeshift E tid t fr (c, w) = (r, (c', w'))" and ok: "registry_ok c"
  shows "registry_ok c'"
  using run
proof (cases rule: updateTimeshift_cases)
  case missing
  with ok show ?thesis by simp
next
  case (updated s us c1 w1 now w2 s')
  then have c': "c' = c1\<lparr>co_timeshifts := AList.update tid s' (co_timeshifts c1)\<rparr>"
    by (metis fst_conv persist_registry)
  have "map_of (co_timeshifts c1) tid = Some s" using updated by (simp add: same_registry_def)
  from replace_ok [OF registry_ok_same [OF \<open>same_registry c c1\<close> ok] this] updated
  show ?thesis by (simp add: c')
qed

lemma advanceTimeshift_update:
  assumes "advanceTimeshift E tid d fr (c, w) = (r, (c', w'))"
  shows "(map_of (co_timeshifts c) tid = None \<and> r = Inl (NotFoundError ''timeshift not found'') \<and>
      c' = c \<and> w' = w) \<or>
    (\<exists>s now w1 t. map_of (co_timeshifts c) tid = Some s \<and>
       (if ts_frozen s then t = ts_frozenAt s + d \<and> w1 = w
        else ce_now E w = (now, w1) \<and> t = now + dur_add (ts_offset s) d) \<and>
       updateTimeshift E tid t fr (c, w1) = (r, (c', w')))"
  using assms
  by (auto simp: advanceTimeshift_def getTimeshift_def time_Add_def split: option.splits prod.splits if_splits)

lemma advanceTimeshift_ok:
  "advanceTimeshift E tid d fr (c, w) = (r, (c', w')) \<Longrightarrow> registry_ok c \<Longrightarrow> registry_ok c'"
  by (drule advanceTimeshift_update) (auto intro: updateTimeshift_ok)

lemma deleteTimeshift_eq:
  assumes "deleteTimeshift E tid (c, w) = (r, (c', w'))"
  shows "co_timeshifts c' = AList.delete tid (co_timeshifts c) \<and> co_store c' = co_store c \<and>
    m_timeshiftsActive (co_met c') = m_timeshiftsActive (co_met c) -
      (if map_of (co_timeshifts c) tid = None then 0 else 1) \<and>
    (r = None \<longleftrightarrow> map_of (co_timeshifts c) tid \<noteq> None)"
  using assms persist_registry [of E "add_active (-1) (c\<lparr>co_timeshifts := AList.delete tid (co_timeshifts c)\<rparr>)" w]
  by (auto simp: deleteTimeshift_def Let_def split: option.splits prod.splits)

lemma delete_absent: "map_of m k = None \<Longrightarrow> AList.delete k m = m"
  by (simp add: map_of_eq_None_iff delete_id)

lemma deleteTimeshift_ok:
  assumes run: "deleteTimeshift E tid (c, w) = (r, (c', w'))" and ok: "registry_ok c"
  shows "registry_ok c'"
proof (cases "map_of (co_timeshifts c) tid")
  case None
  with deleteTimeshift_eq [OF run] ok show ?thesis by (simp add: registry_ok_def delete_absent)
next
  case (Some s)
  have wk: "well_keyed (co_timeshifts c)" using ok by (simp add: registry_ok_def)
  from length_delete_mem [OF wk map_of_mem_keys [OF Some]] deleteTimeshift_eq [OF run] ok Some
  show ?thesis by (simp add: registry_ok_def well_keyed_delete)
qed

lemma expire_one_fields:
  "co_timeshifts (fst (expire_one E s st)) = co_timeshifts (fst st)"
  "m_timeshiftsActive (co_met (fst (expire_one E s st))) = m_timeshiftsActive (co_met (fst st)) - 1"
  by (cases st, simp add: expire_one_def Let_def)+

lemma expire_all_fields:
  "co_timeshifts (fst (fold (expire_one E) ss st)) = co_timeshifts (fst st)"
  "m_timeshiftsActive (co_met (fst (fold (expire_one E) ss st))) =
     m_timeshiftsActive (co_met (fst st)) - int (length ss)"
  by (induction ss arbitrary: st) (simp_all add: expire_one_fields)

lemma sweepExpired_eq:
  assumes "sweepExpired E (c, w) = (c', w')" and "ce_now E w = (now, w1)"
  shows "co_timeshifts c' = filter (\<lambda>kv. \<not> is_expired now (snd kv)) (co_timeshifts c) \<and>
    m_timeshiftsActive (co_met c') = m_timeshiftsActive (co_met c) -
      int (length (filter (\<lambda>kv. is_expired now (snd kv)) (co_timeshifts c)))"
proof -
  let ?c1 = "c\<lparr>co_timeshifts := filter (\<lambda>kv. \<not> is_expired now (snd kv)) (co_timeshifts c)\<rparr>"
  let ?ex = "map snd (filter (\<lambda>kv. is_expired now (snd kv)) (co_timeshifts c))"
  let ?st1 = "if ?ex \<noteq> [] then persist E (?c1, w1) else (?c1, w1)"
  have "(c', w') = fold (expire_one E) ?ex ?st1"
    using assms unfolding sweepExpired_def by (simp add: Let_def)
  moreover have "fst ?st1 = ?c1" using persist_registry [of E ?c1 w1] by simp
  ultimately show ?thesis
    using expire_all_fields [of E ?ex ?st1] by (metis (no_types, lifting) fst_conv length_map
        controller.select_convs(1,3) controller.surjective controller.update_convs(1))
qed

lemma sweepExpired_ok:
  assumes "sweepExpired E (c, w) = (c', w')" and "registry_ok c"
  shows "registry_ok c'"
proof -
  obtain now w1 where n: "ce_now E w = (now, w1)" by (rule prod.exhaust)
  have sum: "length (filter P xs) + length (filter (\<lambda>x. \<not> P x) xs) = length xs"
    for P and xs :: "(string \<times> timeshift) list"
    by (rule sum_length_filter_compl)
  from assms(2) have wk: "well_keyed (co_timeshifts c)"
    and n0: "m_timeshiftsActive (co_met c) = int (length (co_timeshifts c))"
    by (simp_all add: registry_ok_def)
  show ?thesis
    unfolding registry_ok_def using sweepExpired_eq [OF assms(1) n] n0
      sum [of "\<lambda>kv. is_expired now (snd kv)" "co_timeshifts c"] well_keyed_filter [OF wk]
    by (metis add_diff_cancel_left' of_nat_add)
qed

lemma load_well_keyed: "load E ns w = (Inr m, w') \<Longrightarrow> well_keyed m"
  by (auto simp: load_def well_keyed_decode split: prod.splits sum.splits if_splits option.splits)

lemma restore_ok: "registry_ok c \<Longrightarrow> restore E (c, w) = (c', w') \<Longrightarrow> registry_ok c'"
  by (auto simp: restore_def registry_ok_def dest: load_well_keyed
      split: option.splits prod.splits sum.splits if_splits)

end
