(* ===== verification/Watcher.thy ===== *)
theory Watcher
  imports ControllerInv
begin

text \<open>
  cmd/controller/watcher.go: the reaction to pod events. A running pod whose labels match a
  timeshift and that has a running container without a handle is injected again.
\<close>

text \<open>The set \<open>known\<close> of the code: container ids that have a handle under this pod's name.\<close>

definition known_containers :: "containerHandle list \<Rightarrow> k8s_pod \<Rightarrow> string list" where
  "known_containers hs pod = map ch_containerID (filter (\<lambda>h. ch_pod h = pod_Name pod) hs)"

definition allContainersHandled :: "containerHandle list \<Rightarrow> k8s_pod \<Rightarrow> bool" where
  "allContainersHandled hs pod =
     list_all (\<lambda>cs. \<not> (cs_Running cs \<and> cs_ContainerID cs \<notin> set (known_containers hs pod)))
       (pod_ContainerStatuses pod)"

definition wants_pod :: "'a cenv \<Rightarrow> k8s_pod \<Rightarrow> timeshift \<Rightarrow> bool" where
  "wants_pod E pod s \<longleftrightarrow> ts_namespace s = pod_Namespace pod \<and>
     ce_Matches E (ts_labelSelector s) (pod_Labels pod) = Some True \<and>
     \<not> allContainersHandled (ts_handles s) pod"

definition matched :: "'a cenv \<Rightarrow> k8s_pod \<Rightarrow> controller \<Rightarrow> (string \<times> timeshift) list" where
  "matched E pod c = filter (\<lambda>kv. wants_pod E pod (snd kv)) (co_timeshifts c)"

text \<open>The new handles replace all of the pod's handles in the timeshift.\<close>

definition replace_handles :: "k8s_pod \<Rightarrow> containerHandle list \<Rightarrow> timeshift \<Rightarrow> timeshift" where
  "replace_handles pod new s =
     s\<lparr>ts_handles := filter (\<lambda>h. ch_pod h \<noteq> pod_Name pod) (ts_handles s) @ new\<rparr>"

definition store_handles :: "string \<Rightarrow> k8s_pod \<Rightarrow> containerHandle list \<Rightarrow> controller \<Rightarrow> controller" where
  "store_handles tid pod new c =
     (case map_of (co_timeshifts c) tid of
        None \<Rightarrow> c
      | Some s \<Rightarrow> c\<lparr>co_timeshifts := AList.update tid (replace_handles pod new s) (co_timeshifts c)\<rparr>)"

text \<open>The turn for one matched timeshift; \<open>m\<close> is the copy taken under the read lock.\<close>

definition reinject :: "'a cenv \<Rightarrow> k8s_pod \<Rightarrow> string \<times> timeshift \<Rightarrow> 'a cst \<Rightarrow> 'a cst" where
  "reinject E pod m st =
     (case st of (c, w) \<Rightarrow>
      case ts_effectiveTime E (snd m) w of (target, w1) \<Rightarrow>
      case injectPod E pod target (ts_frozen (snd m)) (c, w1) of (new, c1, w2) \<Rightarrow>
        if new = [] then (c1, w2) else (store_handles (fst m) pod new c1, w2))"

definition handlePodEvent :: "'a cenv \<Rightarrow> k8s_pod \<Rightarrow> 'a cst \<Rightarrow> 'a cst" where
  "handlePodEvent E pod st =
     (if pod_Phase pod \<noteq> ''Running'' then st
      else fold (reinject E pod) (matched E pod (fst st)) st)"

section \<open>Lemmas\<close>

lemma handlePodEvent_quiet:
  "pod_Phase pod \<noteq> ''Running'' \<or> matched E pod (fst st) = [] \<Longrightarrow> handlePodEvent E pod st = st"
  by (auto simp: handlePodEvent_def)

lemma replace_handles_id [simp]: "ts_id (replace_handles pod new s) = ts_id s"
  "ts_namespace (replace_handles pod new s) = ts_namespace s"
  "ts_labelSelector (replace_handles pod new s) = ts_labelSelector s"
  "ts_frozen (replace_handles pod new s) = ts_frozen s"
  "ts_eff now (replace_handles pod new s) = ts_eff now s"
  by (simp_all add: replace_handles_def ts_eff_def)

lemma store_handles_ok: "registry_ok c \<Longrightarrow> registry_ok (store_handles tid pod new c)"
  by (auto simp: store_handles_def intro: replace_ok split: option.splits)

lemma reinject_ok: "reinject E pod m (c, w) = (c', w') \<Longrightarrow> registry_ok c \<Longrightarrow> registry_ok c'"
  by (auto simp: reinject_def intro: store_handles_ok registry_ok_same
      dest!: injectPod_registry split: prod.splits if_splits)

lemma fold_reinject_ok: "registry_ok (fst st) \<Longrightarrow> registry_ok (fst (fold (reinject E pod) ms st))"
proof (induction ms arbitrary: st)
  case (Cons m ms)
  then show ?case using reinject_ok [of E pod m "fst st" "snd st"] by (metis fold_simps(2) prod.collapse)
qed simp

lemma handlePodEvent_ok: "registry_ok (fst st) \<Longrightarrow> registry_ok (fst (handlePodEvent E pod st))"
  by (simp add: handlePodEvent_def fold_reinject_ok)

text \<open>What the injection of a pod returns, container by container.\<close>

lemma inject_containers_handles:
  "inject_containers E pod t fr css st = (hs, st') \<Longrightarrow> h \<in> set hs \<Longrightarrow>
     \<exists>cs \<in> set css. injectable cs \<and> ch_pod h = pod_Name pod \<and> ch_container h = cs_Name cs \<and>
       ch_nodeIP h = pod_HostIP pod \<and> ch_containerID h = cs_ContainerID cs"
proof (induction css arbitrary: st hs)
  case (Cons cs css)
  obtain c w where st: "st = (c, w)" by (rule prod.exhaust)
  from Cons.prems show ?case
    by (auto simp: st split: if_splits prod.splits sum.splits dest!: Cons.IH)
qed simp

lemma injectPod_handles:
  assumes "injectPod E pod t fr st = (hs, st')" and "h \<in> set hs"
  shows "\<exists>cs \<in> set (pod_ContainerStatuses pod). injectable cs \<and> ch_pod h = pod_Name pod \<and>
    ch_container h = cs_Name cs \<and> ch_nodeIP h = pod_HostIP pod \<and> ch_containerID h = cs_ContainerID cs"
  using inject_containers_handles [OF assms(1) [unfolded injectPod_def] assms(2)] .

lemma inject_pods_handles:
  assumes "inject_pods E pods t fr st = (hs, st')" and h: "h \<in> set hs"
  shows "\<exists>pod \<in> set pods. \<exists>cs \<in> set (pod_ContainerStatuses pod). injectable cs \<and>
    ch_pod h = pod_Name pod \<and> ch_container h = cs_Name cs \<and> ch_nodeIP h = pod_HostIP pod \<and>
    ch_containerID h = cs_ContainerID cs"
proof -
  have "map_step (\<lambda>pod. injectPod E pod t fr) pods st = (hss, st') \<Longrightarrow> h \<in> set (concat hss) \<Longrightarrow>
      \<exists>pod \<in> set pods. \<exists>s1 s2 hs'. injectPod E pod t fr s1 = (hs', s2) \<and> h \<in> set hs'" for hss
  proof (induction pods arbitrary: st hss)
    case (Cons p ps)
    from Cons.prems(1) obtain hs1 s1 hss1 where p: "injectPod E p t fr st = (hs1, s1)"
      and ps: "map_step (\<lambda>pod. injectPod E pod t fr) ps s1 = (hss1, st')" and hss: "hss = hs1 # hss1"
      unfolding map_step_Cons_eq by blast
    show ?case
    proof (cases "h \<in> set hs1")
      case True
      with p show ?thesis by (meson list.set_intros(1))
    next
      case False
      with Cons.prems(2) hss Cons.IH [OF ps] show ?thesis by (auto intro: list.set_intros(2))
    qed
  qed auto
  moreover obtain hss where "map_step (\<lambda>pod. injectPod E pod t fr) pods st = (hss, st')"
    "hs = concat hss"
    using assms(1) by (auto simp: inject_pods_def split: prod.splits)
  ultimately show ?thesis using h by (meson injectPod_handles)
qed

text \<open>
  The counter of failed injections tells whether one failed. When none does, the pod is handled:
  the next event does nothing.
\<close>

definition inject_failures :: "controller \<Rightarrow> nat" where
  "inject_failures c = m_injectError (co_met c)"

lemma inject_failures_simps [simp]:
  "inject_failures (count_inject ok c) = inject_failures c + (if ok then 0 else 1)"
  "inject_failures (store_handles tid pod new c) = inject_failures c"
  by (simp_all add: inject_failures_def count_inject_def store_handles_def Let_def split: option.splits)

lemma inject_containers_all:
  "inject_containers E pod t fr css st = (hs, st') \<Longrightarrow> inject_failures (fst st) \<le> inject_failures (fst st') \<and>
    (inject_failures (fst st') = inject_failures (fst st) \<longrightarrow>
      map ch_containerID hs = map cs_ContainerID (filter injectable css))"
proof (induction css arbitrary: st hs st')
  case (Cons cs css)
  obtain c w where st: "st = (c, w)" by (rule prod.exhaust)
  show ?case
  proof (cases "injectable cs")
    case False
    with Cons show ?thesis by simp
  next
    case True
    obtain r v where call: "ag_Inject (ce_agents E) (pod_HostIP pod) (cs_ContainerID cs) t fr w = (r, v)"
      by (rule prod.exhaust)
    obtain hs1 st1 where rest: "inject_containers E pod t fr css (count_inject (\<not> isl r) c, v) = (hs1, st1)"
      by (rule prod.exhaust)
    from Cons.prems rest have "st' = st1" and "\<not> isl r \<Longrightarrow> map ch_containerID hs = cs_ContainerID cs # map ch_containerID hs1"
      by (cases r; auto simp: st True call)+
    with Cons.IH [OF rest] True show ?thesis by (auto simp: st split: if_splits)
  qed
qed simp

lemma reinject_failures: "inject_failures (fst st) \<le> inject_failures (fst (reinject E pod m st))"
proof -
  obtain c w where st: "st = (c, w)" by (rule prod.exhaust)
  obtain t w1 where t: "ts_effectiveTime E (snd m) w = (t, w1)" by (rule prod.exhaust)
  obtain new c1 w2 where inj: "injectPod E pod t (ts_frozen (snd m)) (c, w1) = (new, (c1, w2))"
    by (metis prod.exhaust)
  from inject_containers_all [OF inj [unfolded injectPod_def]] show ?thesis
    by (simp add: reinject_def st t inj)
qed

lemma fold_reinject_failures: "inject_failures (fst st) \<le> inject_failures (fst (fold (reinject E pod) ms st))"
proof (induction ms arbitrary: st)
  case (Cons m ms)
  have "inject_failures (fst (reinject E pod m st)) \<le> inject_failures (fst (fold (reinject E pod) ms (reinject E pod m st)))"
    by (rule Cons.IH)
  with reinject_failures [of st E pod m] show ?case by simp
qed simp

lemma known_replace:
  "(\<And>h. h \<in> set new \<Longrightarrow> ch_pod h = pod_Name pod) \<Longrightarrow>
     set (known_containers (ts_handles (replace_handles pod new s)) pod) = ch_containerID ` set new"
  by (auto simp: known_containers_def replace_handles_def)

lemma handled_after_reinject:
  assumes inj: "injectPod E pod t fr st = (new, st')"
    and ok: "inject_failures (fst st') = inject_failures (fst st)"
    and ids: "\<And>cs. cs \<in> set (pod_ContainerStatuses pod) \<Longrightarrow> cs_Running cs \<Longrightarrow> cs_ContainerID cs \<noteq> []"
  shows "allContainersHandled (ts_handles (replace_handles pod new s)) pod"
proof -
  have pods: "ch_pod h = pod_Name pod" if "h \<in> set new" for h
    using injectPod_handles [OF inj that] by blast
  have "map ch_containerID new = map cs_ContainerID (filter injectable (pod_ContainerStatuses pod))"
    using inject_containers_all [OF inj [unfolded injectPod_def]] ok by simp
  then have "ch_containerID ` set new = cs_ContainerID ` {cs \<in> set (pod_ContainerStatuses pod). injectable cs}"
    by (metis list.set_map set_filter)
  with known_replace [of new pod s, OF pods] ids show ?thesis
    by (auto simp: allContainersHandled_def list_all_iff injectable_def)
qed

end
