(* ===== verification/ClockReadings.thy ===== *)
theory ClockReadings
  imports ControllerInv
begin

text \<open>
  The calls that the controller makes to its surroundings, as a path from world to world, and the
  readings of the wall clock on such a path: which reading an operation uses is one that it takes
  itself, between its first call and its last.
\<close>

section \<open>Paths of calls\<close>

inductive env_call :: "'a cenv \<Rightarrow> 'a \<Rightarrow> 'a \<Rightarrow> bool" for E :: "'a cenv" where
  inject: "ag_Inject (ce_agents E) n cid t fr w = (r, w') \<Longrightarrow> env_call E w w'"
| set_time: "ag_SetTime (ce_agents E) n h t fr w = (r1, w') \<Longrightarrow> env_call E w w'"
| reset: "ag_Reset (ce_agents E) n h w = (r1, w') \<Longrightarrow> env_call E w w'"
| status: "ag_GetStatus (ce_agents E) n h w = (r2, w') \<Longrightarrow> env_call E w w'"
| list_pods: "ce_ListPods E ns sel w = (r3, w') \<Longrightarrow> env_call E w w'"
| get_config: "ce_GetConfigMap E ns m w = (r4, w') \<Longrightarrow> env_call E w w'"
| create_config: "ce_CreateConfigMap E ns m d w = (e, w') \<Longrightarrow> env_call E w w'"
| update_config: "ce_UpdateConfigMap E ns m d w = (e, w') \<Longrightarrow> env_call E w w'"
| event: "env_call E w (ce_Event E ns p msg w)"
| now: "ce_now E w = (n5, w') \<Longrightarrow> env_call E w w'"
| rand: "ce_rand E k w = (b, w') \<Longrightarrow> env_call E w w'"

definition env_path :: "'a cenv \<Rightarrow> 'a \<Rightarrow> 'a \<Rightarrow> bool" where
  "env_path E = (env_call E)\<^sup>*\<^sup>*"

lemma env_path_refl [simp, intro]: "env_path E w w"
  by (simp add: env_path_def)

lemma env_path_trans [trans]: "env_path E w v \<Longrightarrow> env_path E v u \<Longrightarrow> env_path E w u"
  by (simp add: env_path_def)

lemma env_path_call: "env_path E w v \<Longrightarrow> env_call E v u \<Longrightarrow> env_path E w u"
  by (simp add: env_path_def)

lemma env_path_simps:
  "ag_Inject (ce_agents E) n cid t fr v = (r, u) \<Longrightarrow> env_path E w v \<Longrightarrow> env_path E w u"
  "ag_SetTime (ce_agents E) n h t fr v = (r1, u) \<Longrightarrow> env_path E w v \<Longrightarrow> env_path E w u"
  "ce_ListPods E ns sel v = (r3, u) \<Longrightarrow> env_path E w v \<Longrightarrow> env_path E w u"
  "ce_GetConfigMap E ns m v = (r4, u) \<Longrightarrow> env_path E w v \<Longrightarrow> env_path E w u"
  "ce_CreateConfigMap E ns m d v = (e, u) \<Longrightarrow> env_path E w v \<Longrightarrow> env_path E w u"
  "ce_UpdateConfigMap E ns m d v = (e, u) \<Longrightarrow> env_path E w v \<Longrightarrow> env_path E w u"
  "ce_now E v = (n5, u) \<Longrightarrow> env_path E w v \<Longrightarrow> env_path E w u"
  "ce_rand E k v = (b, u) \<Longrightarrow> env_path E w v \<Longrightarrow> env_path E w u"
  by (blast intro: env_path_call env_call.intros)+

lemma call_path:
  "ce_GetConfigMap E ns m v = (r4, u) \<Longrightarrow> env_path E v u"
  "ce_CreateConfigMap E ns m d v = (e, u) \<Longrightarrow> env_path E v u"
  "ce_UpdateConfigMap E ns m d v = (e, u) \<Longrightarrow> env_path E v u"
  "ce_now E v = (n5, u) \<Longrightarrow> env_path E v u"
  by (rule env_path_simps, assumption, rule env_path_refl)+

text \<open>The operations and their parts follow such a path.\<close>

lemma inject_containers_path:
  "inject_containers E pod t fr css st = (hs, st') \<Longrightarrow> env_path E w (snd st) \<Longrightarrow> env_path E w (snd st')"
proof (induction css arbitrary: st hs)
  case (Cons cs css)
  show ?case
  proof (cases "injectable cs")
    case False
    with Cons show ?thesis by simp
  next
    case True
    obtain c v where st: "st = (c, v)" by (rule prod.exhaust)
    obtain r u where call: "ag_Inject (ce_agents E) (pod_HostIP pod) (cs_ContainerID cs) t fr v = (r, u)"
      by (rule prod.exhaust)
    with Cons.prems(2) have u: "env_path E w u" by (simp add: st env_path_simps(1))
    obtain hs' where "inject_containers E pod t fr css (count_inject (\<not> isl r) c, u) = (hs', st')"
      using Cons.prems(1) True call by (cases r) (auto simp: st split: prod.splits)
    from Cons.IH [OF this] u show ?thesis by simp
  qed
qed simp

lemma inject_pods_path:
  assumes "inject_pods E pods t fr (c, w) = (hs, (c', w'))"
  shows "env_path E w w'"
proof -
  obtain hss where "map_step (\<lambda>pod. injectPod E pod t fr) pods (c, w) = (hss, (c', w'))"
    using assms by (auto simp: inject_pods_def split: prod.splits)
  from map_step_invariant [where P = "\<lambda>st. env_path E w (snd st)", OF _ this]
  show ?thesis using inject_containers_path unfolding injectPod_def by fastforce
qed

lemma set_handles_path:
  "set_handles E t fr i hs st = (us, st') \<Longrightarrow> env_path E w (snd st) \<Longrightarrow> env_path E w (snd st')"
proof (induction E t fr i hs st arbitrary: us rule: set_handles.induct)
  case (2 E t fr i h rest c v)
  then show ?case
    by (fastforce simp: Let_def split: prod.splits sum.splits if_splits intro: env_path_simps)
qed simp

lemma flush_path: "flush E ns data w = (e, w') \<Longrightarrow> env_path E w w'"
  by (auto simp: flush_def Let_def split: prod.splits sum.splits if_splits
      dest!: call_path intro: env_path_trans)

lemma persist_path: "persist E (c, w) = (c', w') \<Longrightarrow> env_path E w w'"
  using flush_path [of E _ _ w _ w']
  by (auto simp: persist_def split: option.splits sum.splits) (metis prod.collapse)

lemma toResponse_path: "toResponse E s w = (r, w') \<Longrightarrow> env_path E w w'"
  by (auto simp: toResponse_def ts_effectiveTime_def split: prod.splits if_splits intro: env_path_simps)

section \<open>Readings\<close>

text \<open>A reading of the clock taken between two worlds.\<close>

definition read_between :: "'a cenv \<Rightarrow> 'a \<Rightarrow> 'a \<Rightarrow> gotime \<Rightarrow> bool" where
  "read_between E w w' now \<longleftrightarrow> (\<exists>v v'. env_path E w v \<and> ce_now E v = (now, v') \<and> env_path E v' w')"

lemma read_betweenI: "env_path E w v \<Longrightarrow> ce_now E v = (now, v') \<Longrightarrow> env_path E v' w' \<Longrightarrow> read_between E w w' now"
  unfolding read_between_def by blast

lemma read_between_earlier: "env_path E w0 w \<Longrightarrow> read_between E w w' now \<Longrightarrow> read_between E w0 w' now"
  unfolding read_between_def by (blast intro: env_path_trans)

lemma read_between_later: "read_between E w w' now \<Longrightarrow> env_path E w' w1 \<Longrightarrow> read_between E w w1 now"
  unfolding read_between_def by (blast intro: env_path_trans)

text \<open>
  When every call takes the clock forward, a reading lies between the times of the two worlds.
\<close>

definition clock_advances :: "'a cenv \<Rightarrow> ('a \<Rightarrow> int) \<Rightarrow> bool" where
  "clock_advances E time \<longleftrightarrow> (\<forall>w w'. env_call E w w' \<longrightarrow> time w \<le> time w') \<and>
     (\<forall>w n w'. ce_now E w = (n, w') \<longrightarrow> time w \<le> n \<and> n \<le> time w')"

lemma env_path_time: "env_path E w w' \<Longrightarrow> clock_advances E time \<Longrightarrow> time w \<le> time w'"
  unfolding env_path_def by (induction rule: rtranclp_induct) (auto simp: clock_advances_def intro: order_trans)

lemma read_between_time:
  assumes "read_between E w w' now" and "clock_advances E time"
  shows "time w \<le> now \<and> now \<le> time w'"
proof -
  obtain v v' where "env_path E w v" "ce_now E v = (now, v')" "env_path E v' w'"
    using assms(1) unfolding read_between_def by blast
  with env_path_time [OF _ assms(2)] assms(2) show ?thesis
    unfolding clock_advances_def by (meson order_trans)
qed

end
