(* ===== verification/ControllerSteps.thy ===== *)
theory ControllerSteps
  imports Watcher ClockReadings
begin

text \<open>
  The controller as a state machine: one step per request, sweep or pod event, with anything
  happening in the world between two steps; and its abstract specification, a map from ids to
  clocks that a step sets at one id, removes at some ids or leaves alone.
\<close>

section \<open>Steps\<close>

datatype ctl_op =
    OpWorld
  | OpCreate gotime bool
  | OpUpdate string gotime bool
  | OpAdvance string duration bool
  | OpDelete string
  | OpSweep
  | OpEvent

text \<open>A new id is assumed to differ from the registered ones: it is 16 random bytes.\<close>

inductive ctl_step :: "'a cenv \<Rightarrow> ctl_op \<Rightarrow> 'a cst \<Rightarrow> 'a cst \<Rightarrow> bool" for E :: "'a cenv" where
  world: "ctl_step E OpWorld (c, w) (c, w')"
| create: "createTimeshift E ns sel t ttl fr (c, w) = (r, st') \<Longrightarrow>
    (\<And>s. r = Inr s \<Longrightarrow> ts_id s \<notin> set (keys (co_timeshifts c))) \<Longrightarrow> ctl_step E (OpCreate t fr) (c, w) st'"
| update: "updateTimeshift E tid t fr (c, w) = (r, st') \<Longrightarrow> ctl_step E (OpUpdate tid t fr) (c, w) st'"
| advance: "advanceTimeshift E tid d fr (c, w) = (r, st') \<Longrightarrow> ctl_step E (OpAdvance tid d fr) (c, w) st'"
| delete: "deleteTimeshift E tid (c, w) = (e, st') \<Longrightarrow> ctl_step E (OpDelete tid) (c, w) st'"
| sweep: "sweepExpired E (c, w) = st' \<Longrightarrow> ctl_step E OpSweep (c, w) st'"
| pod_event: "handlePodEvent E pod (c, w) = st' \<Longrightarrow> ctl_step E OpEvent (c, w) st'"

inductive_cases ctl_stepE: "ctl_step E opn st st'"
inductive_simps ctl_step_world: "ctl_step E OpWorld (c, w) st'"

text \<open>Reachable states of a controller that may be restarted at any point.\<close>

inductive ctl_reach :: "'a cenv \<Rightarrow> string option \<Rightarrow> 'a cst \<Rightarrow> bool" for E :: "'a cenv" and store where
  start: "ctl_reach E store (restore E (newController store, w))"
| step: "ctl_reach E store st \<Longrightarrow> ctl_step E opn st st' \<Longrightarrow> ctl_reach E store st'"
| restart: "ctl_reach E store (c, w) \<Longrightarrow> ctl_reach E store (restore E (newController store, w'))"

lemma ctl_step_ok: "ctl_step E opn st st' \<Longrightarrow> registry_ok (fst st) \<Longrightarrow> registry_ok (fst st')"
proof (induction rule: ctl_step.induct)
  case (create ns sel t ttl fr c w r st')
  then show ?case using createTimeshift_ok [of E ns sel t ttl fr c w r "fst st'" "snd st'"] by simp
next
  case (update tid t fr c w r st')
  then show ?case using updateTimeshift_ok [of E tid t fr c w r "fst st'" "snd st'"] by simp
next
  case (advance tid d fr c w r st')
  then show ?case using advanceTimeshift_ok [of E tid d fr c w r "fst st'" "snd st'"] by simp
next
  case (delete tid c w e st')
  then show ?case using deleteTimeshift_ok [of E tid c w e "fst st'" "snd st'"] by simp
next
  case (sweep c w st')
  then show ?case using sweepExpired_ok [of E c w "fst st'" "snd st'"] by simp
next
  case (pod_event pod c w st')
  then show ?case using handlePodEvent_ok [of "(c, w)" E pod] by simp
qed simp

lemma ctl_reach_ok: "ctl_reach E store st \<Longrightarrow> registry_ok (fst st)"
proof (induction rule: ctl_reach.induct)
  case (start w)
  show ?case using restore_ok [OF registry_ok_new [of store], of E w] by (metis prod.collapse)
next
  case (step st opn st')
  then show ?case using ctl_step_ok by blast
next
  case (restart c w w')
  show ?case using restore_ok [OF registry_ok_new [of store], of E w'] by (metis prod.collapse)
qed

section \<open>The abstract registry\<close>

datatype clock = Running duration | Frozen gotime

definition clock_of :: "timeshift \<Rightarrow> clock" where
  "clock_of s = (if ts_frozen s then Frozen (ts_frozenAt s) else Running (ts_offset s))"

definition clocks :: "controller \<Rightarrow> string \<Rightarrow> clock option" where
  "clocks c = (\<lambda>i. map_option clock_of (map_of (co_timeshifts c) i))"

text \<open>
  What each operation does to the clocks. A create may be refused, or set a new clock; an update
  or an advance of an unknown id changes nothing. \<open>R\<close> says which readings of the wall clock the
  operation can have used.
\<close>

definition clock_at :: "gotime \<Rightarrow> bool \<Rightarrow> gotime \<Rightarrow> clock" where
  "clock_at t fr now = (if fr then Frozen t else Running (time_Sub t now))"

definition moved_to :: "duration \<Rightarrow> gotime \<Rightarrow> clock \<Rightarrow> gotime" where
  "moved_to d now k = (case k of Frozen u \<Rightarrow> u + d | Running off \<Rightarrow> now + dur_add off d)"

inductive clock_step :: "(gotime \<Rightarrow> bool) \<Rightarrow> ctl_op \<Rightarrow> (string \<Rightarrow> clock option) \<Rightarrow> (string \<Rightarrow> clock option)
    \<Rightarrow> bool" for R :: "gotime \<Rightarrow> bool" where
  world: "clock_step R OpWorld m m"
| refused: "clock_step R (OpCreate t fr) m m"
| created: "m i = None \<Longrightarrow> R now \<Longrightarrow> clock_step R (OpCreate t fr) m (m(i \<mapsto> clock_at t fr now))"
| no_update: "m i = None \<Longrightarrow> clock_step R (OpUpdate i t fr) m m"
| updated: "m i \<noteq> None \<Longrightarrow> R now \<Longrightarrow> clock_step R (OpUpdate i t fr) m (m(i \<mapsto> clock_at t fr now))"
| no_advance: "m i = None \<Longrightarrow> clock_step R (OpAdvance i d fr) m m"
| advanced: "m i = Some k \<Longrightarrow> R now \<Longrightarrow> R now' \<Longrightarrow>
    clock_step R (OpAdvance i d fr) m (m(i \<mapsto> clock_at (moved_to d now k) fr now'))"
| deleted: "clock_step R (OpDelete i) m (m(i := None))"
| swept: "clock_step R OpSweep m (m |` (- I))"
| event: "clock_step R OpEvent m m"

inductive_simps clock_step_delete: "clock_step R (OpDelete i) m m'"
inductive_simps clock_step_advance: "clock_step R (OpAdvance i d fr) m m'"
inductive_simps clock_step_event: "clock_step R OpEvent m m'"

lemma clock_step_mono: "clock_step R opn m m' \<Longrightarrow> (\<And>n. R n \<Longrightarrow> R' n) \<Longrightarrow> clock_step R' opn m m'"
  by (induction rule: clock_step.induct) (auto simp del: fun_upd_apply intro: clock_step.intros)

lemma clocks_same: "same_registry c c' \<Longrightarrow> clocks c' = clocks c"
  by (simp add: same_registry_def clocks_def)

lemma clocks_update: "co_timeshifts c' = AList.update i s (co_timeshifts c) \<Longrightarrow> clocks c' = (clocks c)(i \<mapsto> clock_of s)"
  by (auto simp: clocks_def)

lemma clocks_delete: "co_timeshifts c' = AList.delete i (co_timeshifts c) \<Longrightarrow> clocks c' = (clocks c)(i := None)"
  by (auto simp: clocks_def)

lemma createTimeshift_clocks:
  assumes "createTimeshift E ns sel t ttl fr (c, w) = (r, (c', w'))"
  shows "clocks c' = (case r of Inl _ \<Rightarrow> clocks c | Inr s \<Rightarrow> (clocks c)(ts_id s \<mapsto> clock_of s))"
  using assms
proof (cases rule: createTimeshift_cases)
  case (failed e)
  then show ?thesis by (simp add: clocks_same)
next
  case (created pods w1 hs c1 w2 now w3 tid w4 s)
  have "c' = register s c1" using persist_eqD [OF created(11)] .
  then have "co_timeshifts c' = AList.update (ts_id s) s (co_timeshifts c)"
    using created(10) by (simp add: register_def same_registry_def)
  with created(9) show ?thesis by (simp add: clocks_update)
qed

lemma updateTimeshift_clocks:
  assumes "updateTimeshift E tid t fr (c, w) = (r, (c', w'))"
  shows "clocks c' = (case r of Inl _ \<Rightarrow> clocks c | Inr s \<Rightarrow> (clocks c)(tid \<mapsto> clock_of s))"
proof (cases r)
  case (Inl e)
  with assms show ?thesis by (cases rule: updateTimeshift_cases) auto
next
  case (Inr s)
  then show ?thesis using clocks_update [OF updateTimeshift_registry] assms by (simp del: fun_upd_apply)
qed

lemma clock_of_replace [simp]: "clock_of (replace_handles pod new s) = clock_of s"
  by (simp add: clock_of_def replace_handles_def)

lemma store_handles_clocks: "clocks (store_handles tid pod new c) = clocks c"
  by (auto simp: store_handles_def clocks_def fun_eq_iff split: option.splits)

lemma reinject_clocks: "clocks (fst (reinject E pod m st)) = clocks (fst st)"
  by (cases st) (auto simp: reinject_def store_handles_clocks dest!: injectPod_registry
      intro: clocks_same split: prod.splits)

lemma handlePodEvent_clocks: "clocks (fst (handlePodEvent E pod st)) = clocks (fst st)"
proof -
  have "clocks (fst (fold (reinject E pod) ms st)) = clocks (fst st)" for ms
    by (induction ms arbitrary: st) (simp_all add: reinject_clocks)
  then show ?thesis by (simp add: handlePodEvent_def)
qed

text \<open>The clocks that a create and an update set.\<close>

lemma created_clock:
  assumes "createTimeshift E ns sel t ttl fr (c, w) = (Inr s, (c', w'))"
  shows "\<exists>now. read_between E w w' now \<and> clock_of s = clock_at t fr now"
  using assms
proof (cases rule: createTimeshift_cases)
  case (created pods w1 hs c1 w2 now w3 tid w4 s1)
  have "env_path E w w2"
    using env_path_trans [OF _ inject_pods_path [OF created(4)]] env_path_simps(3) [OF created(1)] by blast
  moreover have "env_path E w3 w4"
    using created(7) by (auto simp: newID_def split: prod.splits intro: env_path_simps)
  then have "env_path E w3 w'" using persist_path [OF created(11) [symmetric]] by (rule env_path_trans)
  ultimately have "read_between E w w' now" using created(6) by (blast intro: read_betweenI)
  moreover have "clock_of s = clock_at t fr now"
    using created by (simp add: clock_of_def clock_at_def new_timeshift_def)
  ultimately show ?thesis by blast
qed simp

lemma clock_of_mark: "clock_of (ts_mark fr t now s) = clock_at t fr now"
  by (simp add: clock_of_def clock_at_def ts_mark_def ts_mark_frozen_def ts_mark_set_def)

lemma updated_clock:
  assumes "updateTimeshift E tid t fr (c, w) = (Inr s', (c', w'))"
  shows "\<exists>now. read_between E w w' now \<and> clocks c tid \<noteq> None \<and> clock_of s' = clock_at t fr now"
  using assms
proof (cases rule: updateTimeshift_cases)
  case (updated s us c1 w1 now w2 s1)
  have "env_path E w w1" using set_handles_path [OF updated(2), of w] by simp
  moreover have "env_path E w2 w'" using persist_path [OF updated(7) [symmetric]] .
  ultimately have "read_between E w w' now" using updated(3) by (blast intro: read_betweenI)
  moreover have "clock_of s' = clock_at t fr now" using updated by (simp add: commit_update_def clock_of_mark)
  moreover have "clocks c tid \<noteq> None" using updated(1) by (simp add: clocks_def)
  ultimately show ?thesis by blast
qed simp

lemma refused_update:
  assumes "updateTimeshift E tid t fr (c, w) = (Inl e, (c', w'))"
  shows "clocks c tid = None \<and> clocks c' = clocks c"
  using assms by (cases rule: updateTimeshift_cases) (auto simp: clocks_def)

lemma moved_clock:
  "(if ts_frozen s then t = ts_frozenAt s + d \<and> w1 = w
    else ce_now E w = (now, w1) \<and> t = now + dur_add (ts_offset s) d) \<Longrightarrow> t = moved_to d now (clock_of s)"
  by (simp add: moved_to_def clock_of_def split: if_splits)

lemma moved_to_frozen: "ts_frozen s \<Longrightarrow> moved_to d now (clock_of s) = moved_to d now' (clock_of s)"
  by (simp add: moved_to_def clock_of_def)

lemma advanceTimeshift_moved:
  assumes "advanceTimeshift E tid d fr (c, w) = (r, (c', w'))"
  obtains (missing) "map_of (co_timeshifts c) tid = None" "c' = c"
  | (moved) s now w1 where "map_of (co_timeshifts c) tid = Some s"
      "updateTimeshift E tid (moved_to d now (clock_of s)) fr (c, w1) = (r, (c', w'))"
      "if ts_frozen s then w1 = w else ce_now E w = (now, w1)"
proof (cases "map_of (co_timeshifts c) tid")
  case None
  with advanceTimeshift_update [OF assms] show ?thesis by (simp add: missing)
next
  case (Some s)
  with advanceTimeshift_update [OF assms] obtain now w1 t where
    t: "if ts_frozen s then t = ts_frozenAt s + d \<and> w1 = w
      else ce_now E w = (now, w1) \<and> t = now + dur_add (ts_offset s) d"
    and run: "updateTimeshift E tid t fr (c, w1) = (r, (c', w'))"
    by force
  from moved_clock [OF t] run have "updateTimeshift E tid (moved_to d now (clock_of s)) fr (c, w1) = (r, (c', w'))"
    by simp
  moreover have "if ts_frozen s then w1 = w else ce_now E w = (now, w1)" using t by (simp split: if_splits)
  ultimately show ?thesis by (rule moved [OF Some])
qed

text \<open>The readings of an advance: one for a running clock to move from, one for the commit.\<close>

lemma advanced_clock:
  assumes "advanceTimeshift E tid d fr (c, w) = (Inr s', (c', w'))"
  obtains k now now' where "clocks c tid = Some k" and "read_between E w w' now" and "read_between E w w' now'"
    and "clocks c' = (clocks c)(tid \<mapsto> clock_at (moved_to d now k) fr now')"
  using assms
proof (cases rule: advanceTimeshift_moved)
  case missing
  with advanceTimeshift_update [OF assms] show ?thesis by simp
next
  case (moved s now w1)
  from updated_clock [OF moved(2)] obtain now'
    where now': "read_between E w1 w' now'" "clock_of s' = clock_at (moved_to d now (clock_of s)) fr now'"
    by blast
  have w1: "env_path E w w1" using moved(3) by (auto split: if_splits intro: call_path)
  have r': "read_between E w w' now'" using read_between_earlier [OF w1 now'(1)] .
  define now1 where "now1 = (if ts_frozen s then now' else now)"
  have "env_path E w1 w'" using now'(1) unfolding read_between_def by (meson call_path(4) env_path_trans)
  then have "read_between E w w' now1"
    using moved(3) r' by (auto simp: now1_def split: if_splits intro: read_betweenI)
  moreover have "moved_to d now (clock_of s) = moved_to d now1 (clock_of s)"
    by (simp add: now1_def moved_to_frozen)
  then have "clocks c' = (clocks c)(tid \<mapsto> clock_at (moved_to d now1 (clock_of s)) fr now')"
    using updateTimeshift_clocks [OF moved(2)] now'(2) by (simp del: fun_upd_apply)
  moreover have "clocks c tid = Some (clock_of s)" using moved(1) by (simp add: clocks_def)
  ultimately show ?thesis using that r' by blast
qed

lemma refused_advance:
  assumes "advanceTimeshift E tid d fr (c, w) = (Inl e, (c', w'))"
  shows "clocks c tid = None \<and> clocks c' = clocks c"
  using assms
proof (cases rule: advanceTimeshift_moved)
  case missing
  then show ?thesis by (simp add: clocks_def)
next
  case (moved s now w1)
  from refused_update [OF moved(2)] show ?thesis .
qed

lemma map_of_filter_keys:
  "wf_map m \<Longrightarrow> map_of (filter (\<lambda>kv. P (snd kv)) m) k =
     (case map_of m k of None \<Rightarrow> None | Some v \<Rightarrow> if P v then Some v else None)"
  by (induction m) (auto simp: wf_map_def map_of_eq_None_iff split: option.splits)

lemma ctl_step_clocks:
  "ctl_step E opn st st' \<Longrightarrow> registry_ok (fst st) \<Longrightarrow>
     clock_step (read_between E (snd st) (snd st')) opn (clocks (fst st)) (clocks (fst st'))"
proof (induction rule: ctl_step.induct)
  case (world c w w')
  show ?case by (simp add: clock_step.world)
next
  case (create ns sel t ttl fr c w r st')
  then have run: "createTimeshift E ns sel t ttl fr (c, w) = (r, (fst st', snd st'))" by simp
  show ?case
  proof (cases r)
    case (Inl e)
    with createTimeshift_clocks [OF run] show ?thesis by (simp add: clock_step.refused)
  next
    case (Inr s)
    with create.hyps have "clocks c (ts_id s) = None" by (auto simp: clocks_def map_of_eq_None_iff)
    moreover obtain now where "read_between E w (snd st') now" "clock_of s = clock_at t fr now"
      using created_clock [OF run [unfolded Inr]] by blast
    ultimately show ?thesis
      using createTimeshift_clocks [OF run] Inr by (simp add: clock_step.created del: fun_upd_apply)
  qed
next
  case (update tid t fr c w r st')
  then have run: "updateTimeshift E tid t fr (c, w) = (r, (fst st', snd st'))" by simp
  show ?case
  proof (cases r)
    case (Inl e)
    from refused_update [OF run [unfolded Inl]] show ?thesis by (simp add: clock_step.no_update)
  next
    case (Inr s)
    from updated_clock [OF run [unfolded Inr]] obtain now where "read_between E w (snd st') now"
      "clocks c tid \<noteq> None" "clock_of s = clock_at t fr now" by blast
    then show ?thesis
      using updateTimeshift_clocks [OF run] Inr by (simp add: clock_step.updated del: fun_upd_apply)
  qed
next
  case (advance tid d fr c w r st')
  then have run: "advanceTimeshift E tid d fr (c, w) = (r, (fst st', snd st'))" by simp
  show ?case
  proof (cases r)
    case (Inl e)
    from refused_advance [OF run [unfolded Inl]] show ?thesis by (simp add: clock_step.no_advance)
  next
    case (Inr s)
    from run [unfolded Inr] obtain k now now' where "clocks c tid = Some k" "read_between E w (snd st') now"
      "read_between E w (snd st') now'"
      "clocks (fst st') = (clocks c)(tid \<mapsto> clock_at (moved_to d now k) fr now')"
      by (rule advanced_clock)
    then show ?thesis by (simp add: clock_step.advanced del: fun_upd_apply)
  qed
next
  case (delete tid c w e st')
  then have "deleteTimeshift E tid (c, w) = (e, (fst st', snd st'))" by simp
  from deleteTimeshift_eq [OF this] have "clocks (fst st') = (clocks c)(tid := None)"
    by (intro clocks_delete) blast
  then show ?case by (simp add: clock_step.deleted del: fun_upd_apply)
next
  case (sweep c w st')
  obtain now w1 where n: "ce_now E w = (now, w1)" by (rule prod.exhaust)
  have "sweepExpired E (c, w) = (fst st', snd st')" using sweep by simp
  from sweepExpired_eq [OF this n]
  have ts: "co_timeshifts (fst st') = filter (\<lambda>kv. \<not> is_expired now (snd kv)) (co_timeshifts c)" by blast
  have wf: "wf_map (co_timeshifts c)" using sweep.prems by (simp add: registry_ok_def well_keyed_def)
  let ?I = "{i. \<exists>s. map_of (co_timeshifts c) i = Some s \<and> is_expired now s}"
  have "clocks (fst st') = clocks c |` (- ?I)"
    by (auto simp: clocks_def ts map_of_filter_keys [OF wf, where P = "\<lambda>s. \<not> is_expired now s"]
        restrict_map_def fun_eq_iff split: option.splits)
  then show ?case by (simp add: clock_step.swept)
next
  case (pod_event pod c w st')
  then show ?case using handlePodEvent_clocks [of E pod "(c, w)"] by (simp add: clock_step.event)
qed

end
