(* ===== verification/Loopback.thy ===== *)
theory Loopback
  imports Handlers Sdk ControllerSteps
begin

text \<open>
  The client library in front of the controller's own handlers: a transport that hands each
  request to the routes. net/http between them is a parameter where it matters (the query
  decoding, the status texts, what passes during a wait); paths are cut at the slashes, which is
  what net/http does to the identifiers used here, of letters and digits only.
\<close>

fun cut_at :: "char \<Rightarrow> string \<Rightarrow> string list" where
  "cut_at sep [] = [[]]"
| "cut_at sep (ch # s) =
     (if ch = sep then [] # cut_at sep s
      else case cut_at sep s of [] \<Rightarrow> [[ch]] | seg # segs \<Rightarrow> (ch # seg) # segs)"

definition path_of :: "string \<Rightarrow> string list" where
  "path_of target = tl (cut_at (CHR ''/'') (takeWhile (\<lambda>ch. ch \<noteq> CHR ''?'') target))"

definition query_of :: "string \<Rightarrow> string" where
  "query_of target = tl (dropWhile (\<lambda>ch. ch \<noteq> CHR ''?'') target)"

record 'a net =
  nt_query :: "string \<Rightarrow> (string \<times> string) list"
  nt_status :: "nat \<Rightarrow> string"
  nt_wait :: "'a \<Rightarrow> goerr option \<times> 'a"

definition local_http :: "'b json \<Rightarrow> 'a cenv \<Rightarrow> 'b \<Rightarrow> ('a cst) net \<Rightarrow> string \<Rightarrow> ('b, 'a cst) http" where
  "local_http J E page N base =
     \<lparr>ht_NewRequest = (\<lambda>meth url. None),
      ht_Do = (\<lambda>meth url body st.
        let target = drop (length base) url in
        case routes J E page \<lparr>rq_Method = meth, rq_Path = path_of target,
               rq_Query = nt_query N (query_of target), rq_Body = body\<rparr> st of (resp, st1) \<Rightarrow>
          (Inr \<lparr>hr_StatusCode = re_Code resp, hr_Status = nt_status N (re_Code resp),
                hr_Body = re_Body resp\<rparr>, st1)),
      ht_Wait = nt_wait N\<rparr>"

definition local_client :: "'b json \<Rightarrow> 'a cenv \<Rightarrow> 'b \<Rightarrow> ('a cst) net \<Rightarrow> string \<Rightarrow> ('b, 'a cst) client" where
  "local_client J E page N base = \<lparr>cl_baseURL = base, cl_http = local_http J E page N base\<rparr>"

text \<open>Identifiers that pass through a path unchanged.\<close>

definition plain_char :: "char \<Rightarrow> bool" where
  "plain_char ch \<longleftrightarrow> url_unreserved ch \<and> ch \<notin> set ''-_.~''"

definition plain :: "string \<Rightarrow> bool" where
  "plain s \<longleftrightarrow> s \<noteq> [] \<and> list_all plain_char s"

lemma plain_char_simps [simp]: "\<not> plain_char (CHR ''/'')" "\<not> plain_char (CHR ''?'')"
  by (simp_all add: plain_char_def url_unreserved_def)

lemma plain_chars:
  assumes "list_all plain_char s"
  shows "CHR ''/'' \<notin> set s" and "CHR ''?'' \<notin> set s"
  using assms by (auto simp: list_all_iff)

lemma cut_at_free: "sep \<notin> set s \<Longrightarrow> cut_at sep s = [s]"
  by (induction s) auto

lemma cut_at_sep: "sep \<notin> set s \<Longrightarrow> cut_at sep (s @ sep # rest) = s # cut_at sep rest"
  by (induction s) auto

lemma takeWhile_free: "c \<notin> set s \<Longrightarrow> takeWhile (\<lambda>ch. ch \<noteq> c) s = s"
  "c \<notin> set s \<Longrightarrow> takeWhile (\<lambda>ch. ch \<noteq> c) (s @ t) = s @ takeWhile (\<lambda>ch. ch \<noteq> c) t"
  by (induction s) auto

lemma path_of_id: "list_all plain_char tid \<Longrightarrow> path_of (''/timeshifts/'' @ tid) = [''timeshifts'', tid]"
  using plain_chars [of tid] cut_at_sep [of "CHR ''/''" "''timeshifts''" tid]
  by (simp add: path_of_def takeWhile_free cut_at_free)

lemma path_of_status:
  "list_all plain_char tid \<Longrightarrow> path_of (''/timeshifts/'' @ tid @ ''/status'') = [''timeshifts'', tid, ''status'']"
  using plain_chars [of tid] cut_at_sep [of "CHR ''/''" "''timeshifts''" "tid @ ''/status''"]
    cut_at_sep [of "CHR ''/''" tid "''status''"]
  by (simp add: path_of_def takeWhile_free cut_at_free)

lemma path_of_list: "path_of ''/timeshifts'' = [''timeshifts'']"
  by (simp add: path_of_def)

lemma plain_hex_char: "n < 16 \<Longrightarrow> plain_char (hex_char n)"
proof -
  have "list_all (\<lambda>n. plain_char (hex_char n)) [0..<16]" by code_simp
  then show "n < 16 \<Longrightarrow> plain_char (hex_char n)" by (simp add: list_all_iff)
qed

lemma plain_hex_encode: "bs \<noteq> [] \<Longrightarrow> plain (hex_encode bs)"
proof -
  have "unat b div 16 < 16" for b :: byte
    using unsigned_less [of b, where 'a = nat] by simp
  then have "list_all plain_char (hex_encode bs)"
    by (auto simp: hex_encode_def list_all_iff plain_hex_char)
  moreover assume "bs \<noteq> []"
  then have "hex_encode bs \<noteq> []" using length_hex_encode [of bs] by force
  ultimately show ?thesis by (simp add: plain_def)
qed

section \<open>One request\<close>

text \<open>What \<open>do\<close> makes of a response of the handlers.\<close>

definition read_reply :: "'b json \<Rightarrow> ('a cst) net \<Rightarrow> ('b \<Rightarrow> goerr + 'r) option \<Rightarrow> 'r \<Rightarrow> 'b response \<Rightarrow> sdk_error + 'r" where
  "read_reply J N dec z resp =
     (if 400 \<le> re_Code resp
      then Inl (APIError (re_Code resp) (error_message J \<lparr>hr_StatusCode = re_Code resp,
        hr_Status = nt_status N (re_Code resp), hr_Body = re_Body resp\<rparr>))
      else case dec of
          None \<Rightarrow> Inr z
        | Some d \<Rightarrow> if re_Code resp = 204 then Inr z
                    else (case (case re_Body resp of None \<Rightarrow> Inl (Msg ''EOF'') | Some b \<Rightarrow> d b) of
                        Inl e \<Rightarrow> Inl (SdkWrap ''sdk: decode response'' (SdkErr e))
                      | Inr r \<Rightarrow> Inr r))"

lemma sdk_do_local:
  assumes "routes J E page \<lparr>rq_Method = meth, rq_Path = path_of path,
    rq_Query = nt_query N (query_of path), rq_Body = body\<rparr> st = (resp, st')"
  shows "sdk_do J (local_client J E page N base) meth path body dec z st = (read_reply J N dec z resp, st')"
  using assms
  by (auto simp: sdk_do_def local_client_def local_http_def read_reply_def Let_def split: option.splits sum.splits)

text \<open>Changes of the metrics only.\<close>

definition same_but_metrics :: "'a cst \<Rightarrow> 'a cst \<Rightarrow> bool" where
  "same_but_metrics st st' \<longleftrightarrow> snd st' = snd st \<and> co_timeshifts (fst st') = co_timeshifts (fst st) \<and>
     co_store (fst st') = co_store (fst st) \<and>
     m_timeshiftsActive (co_met (fst st')) = m_timeshiftsActive (co_met (fst st))"

lemma track_same:
  "\<exists>st'. track meth p h st = (fst (h st), st') \<and> same_but_metrics (snd (h st)) st'"
  by (simp add: track_def same_but_metrics_def Let_def split: prod.splits)

lemma same_but_metrics_clocks: "same_but_metrics st st' \<Longrightarrow> clocks (fst st') = clocks (fst st)"
  by (simp add: same_but_metrics_def clocks_def)

end
