(* ===== verification/ControllerEnv.thy ===== *)
theory ControllerEnv
  imports Watcher
begin

text \<open>
  The contract between the controller and its surroundings: the agent pool's laws, and that the
  Kubernetes API, the clock and the random source leave the agents' handles alone. What follows
  for the handles in the registry is proved once in the locale; the agents' servers behind the
  client pool, next to any Kubernetes API with a state of its own, satisfy it.
\<close>

section \<open>Committing new handles\<close>

definition same_container :: "containerHandle \<Rightarrow> containerHandle \<Rightarrow> bool" where
  "same_container h h' \<longleftrightarrow> ch_pod h' = ch_pod h \<and> ch_container h' = ch_container h \<and>
     ch_nodeIP h' = ch_nodeIP h \<and> ch_containerID h' = ch_containerID h"

lemma same_container_refl [simp]: "same_container h h"
  by (simp add: same_container_def)

lemma same_container_agentHandle [simp]:
  "same_container h (h'\<lparr>ch_agentHandle := x\<rparr>) = same_container h h'"
  "same_container (h\<lparr>ch_agentHandle := x\<rparr>) h' = same_container h h'"
  by (simp_all add: same_container_def)

lemma fold_apply_update:
  assumes "length xs = length snap" and "distinct (map fst us)"
    and "\<And>i. i < length snap \<Longrightarrow> ch_containerID (xs ! i) = ch_containerID (snap ! i)"
  shows "length (fold (apply_update snap) us xs) = length snap \<and>
    (\<forall>i < length snap. fold (apply_update snap) us xs ! i =
       (case map_of us i of None \<Rightarrow> xs ! i | Some hid \<Rightarrow> (xs ! i)\<lparr>ch_agentHandle := hid\<rparr>))"
  using assms
proof (induction us arbitrary: xs)
  case Nil
  then show ?case by simp
next
  case (Cons u us)
  obtain j hid where u: "u = (j, hid)" by (rule prod.exhaust)
  let ?ys = "apply_update snap u xs"
  have ys: "length ?ys = length snap"
    "\<And>i. i < length snap \<Longrightarrow> ?ys ! i = (if i = j then (xs ! i)\<lparr>ch_agentHandle := hid\<rparr> else xs ! i)"
    using Cons.prems(1,3) by (auto simp: u apply_update_def nth_list_update)
  have d: "distinct (map fst us)" and new: "map_of us j = None"
    using Cons.prems(2) by (auto simp: u map_of_eq_None_iff)
  from Cons.IH [OF ys(1) d] ys(2) Cons.prems(3) new show ?case
    by (auto simp: u split: option.splits)
qed

lemma commit_handles:
  assumes "distinct (map fst us)"
  shows "length (ts_handles (commit_update (ts_handles s) us t now fr s)) = length (ts_handles s)"
    and "i < length (ts_handles s) \<Longrightarrow> ts_handles (commit_update (ts_handles s) us t now fr s) ! i =
      (case map_of us i of None \<Rightarrow> ts_handles s ! i
       | Some hid \<Rightarrow> (ts_handles s ! i)\<lparr>ch_agentHandle := hid\<rparr>)"
  using fold_apply_update [OF refl assms, of "ts_handles s"] by (simp_all add: commit_update_def)

text \<open>One turn of the loop over the handles: its three outcomes.\<close>

lemma set_handles_Cons:
  assumes "set_handles E t fr i (h # hs) (c, w) = (us, st')"
  obtains (kept) r c1 w1 where "ag_SetTime (ce_agents E) (ch_nodeIP h) (ch_agentHandle h) t fr w = (r, w1)"
    and "\<And>e. r = Inl e \<Longrightarrow> \<not> isAgentNotFound e" and "set_handles E t fr (Suc i) hs (c1, w1) = (us, st')"
  | (failed) e w1 e' c1 w2 where "ag_SetTime (ce_agents E) (ch_nodeIP h) (ch_agentHandle h) t fr w = (Inl e, w1)"
    and "isAgentNotFound e" and "ag_Inject (ce_agents E) (ch_nodeIP h) (ch_containerID h) t fr w1 = (Inl e', w2)"
    and "set_handles E t fr (Suc i) hs (c1, w2) = (us, st')"
  | (moved) e w1 hid c1 w2 us' where "ag_SetTime (ce_agents E) (ch_nodeIP h) (ch_agentHandle h) t fr w = (Inl e, w1)"
    and "isAgentNotFound e" and "ag_Inject (ce_agents E) (ch_nodeIP h) (ch_containerID h) t fr w1 = (Inr hid, w2)"
    and "set_handles E t fr (Suc i) hs (c1, w2) = (us', st')" and "us = (i, hid) # us'"
  using assms
  by (auto simp: Let_def split: if_splits prod.splits sum.splits intro: kept failed moved)

lemma set_handles_indices:
  "set_handles E t fr i hs (c, w) = (us, st') \<Longrightarrow>
     distinct (map fst us) \<and> (\<forall>u \<in> set us. i \<le> fst u \<and> fst u < i + length hs)"
proof (induction hs arbitrary: i c w us)
  case (Cons h hs)
  have shift: "distinct (map fst us') \<and> (\<forall>u \<in> set us'. i < fst u \<and> fst u < i + length (h # hs))"
    if "set_handles E t fr (Suc i) hs (c1, w1) = (us', st')" for us' c1 w1
    using Cons.IH [OF that] by force
  from Cons.prems show ?case
  proof (cases rule: set_handles_Cons)
    case (moved e w1 hid c1 w2 us')
    with shift [OF moved(4)] show ?thesis by auto
  qed (auto dest!: shift)
qed simp

text \<open>One turn of the loop over a pod's containers.\<close>

lemma inject_containers_Cons:
  assumes "inject_containers E pod t fr (cs # css) (c, w) = (hs, st')"
  obtains (skipped) c1 w1 where "inject_containers E pod t fr css (c1, w1) = (hs, st')"
      and "w1 = w \<or> (\<exists>r. ag_Inject (ce_agents E) (pod_HostIP pod) (cs_ContainerID cs) t fr w = (r, w1))"
  | (injected) c1 w1 hid hs1 g where
      "ag_Inject (ce_agents E) (pod_HostIP pod) (cs_ContainerID cs) t fr w = (Inr hid, w1)"
      and "inject_containers E pod t fr css (c1, w1) = (hs1, st')" and "hs = g # hs1"
      and "g = \<lparr>ch_pod = pod_Name pod, ch_container = cs_Name cs, ch_nodeIP = pod_HostIP pod,
        ch_containerID = cs_ContainerID cs, ch_agentHandle = hid\<rparr>"
  using assms by (auto split: if_splits prod.splits sum.splits intro: skipped injected)

section \<open>The contract\<close>

locale controller_env = agent_pool "ce_agents E" live
  for E :: "'a cenv" and live :: "string \<Rightarrow> string \<Rightarrow> 'a \<Rightarrow> bool" +
  assumes list_keeps: "ce_ListPods E ns sel w = (pods, w') \<Longrightarrow> live ip hid w \<Longrightarrow> live ip hid w'"
    and get_keeps: "ce_GetConfigMap E ns n w = (cm, w') \<Longrightarrow> live ip hid w \<Longrightarrow> live ip hid w'"
    and create_keeps: "ce_CreateConfigMap E ns n d w = (e, w') \<Longrightarrow> live ip hid w \<Longrightarrow> live ip hid w'"
    and update_keeps: "ce_UpdateConfigMap E ns n d w = (e, w') \<Longrightarrow> live ip hid w \<Longrightarrow> live ip hid w'"
    and event_keeps: "live ip hid w \<Longrightarrow> live ip hid (ce_Event E ns p msg w)"
    and now_keeps: "ce_now E w = (now, w') \<Longrightarrow> live ip hid w \<Longrightarrow> live ip hid w'"
    and rand_keeps: "ce_rand E k w = (b, w') \<Longrightarrow> live ip hid w \<Longrightarrow> live ip hid w'"
begin

definition handle_live :: "'a \<Rightarrow> containerHandle \<Rightarrow> bool" where
  "handle_live w h \<longleftrightarrow> live (ch_nodeIP h) (ch_agentHandle h) w"

lemma flush_keeps: "flush E ns d w = (e, w') \<Longrightarrow> live ip hid w \<Longrightarrow> live ip hid w'"
  by (auto simp: flush_def Let_def intro: get_keeps create_keeps update_keeps
      split: prod.splits sum.splits if_splits)

lemma persist_keeps: "(c', w') = persist E (c, w) \<Longrightarrow> live ip hid w \<Longrightarrow> live ip hid w'"
  by (auto simp: persist_def intro: flush_keeps [OF surjective_pairing]
      split: option.splits sum.splits)

lemma inject_containers_keeps:
  "inject_containers E pod t fr css (c, w) = (hs, (c', w')) \<Longrightarrow> live ip hid w \<Longrightarrow> live ip hid w'"
proof (induction css arbitrary: c w hs)
  case (Cons cs css)
  from Cons.prems show ?case
    by (auto split: if_splits prod.splits sum.splits dest: Cons.IH intro: inject_keeps)
qed simp

lemma inject_containers_live:
  "inject_containers E pod t fr css (c, w) = (hs, (c', w')) \<Longrightarrow> h \<in> set hs \<Longrightarrow> handle_live w' h"
proof (induction css arbitrary: c w hs)
  case (Cons cs css)
  from Cons.prems(1) show ?case
  proof (cases rule: inject_containers_Cons)
    case (skipped c1 w1)
    with Cons.IH Cons.prems(2) show ?thesis by blast
  next
    case (injected c1 w1 hid hs1 g)
    have "handle_live w' g"
      using inject_containers_keeps [OF injected(2) inject_live [OF injected(1)]] injected(4)
      by (simp add: handle_live_def)
    with Cons.IH [OF injected(2)] Cons.prems(2) injected(3) show ?thesis by auto
  qed
qed simp

lemma injectPod_keeps: "injectPod E pod t fr (c, w) = (hs, (c', w')) \<Longrightarrow> live ip hid w \<Longrightarrow> live ip hid w'"
  unfolding injectPod_def by (rule inject_containers_keeps)

lemma map_injectPod_keeps:
  assumes "map_step (\<lambda>pod. injectPod E pod t fr) pods (c, w) = (hss, (c', w'))" and "live ip hid w"
  shows "live ip hid w'"
proof -
  have "live ip hid (snd (c', w'))"
    by (rule map_step_invariant [where P = "\<lambda>st. live ip hid (snd st)", OF _ assms(1)])
      (use assms(2) in \<open>auto intro: injectPod_keeps\<close>)
  then show ?thesis by simp
qed

lemma map_injectPod_live:
  "map_step (\<lambda>pod. injectPod E pod t fr) pods (c, w) = (hss, (c', w')) \<Longrightarrow> h \<in> set (concat hss) \<Longrightarrow>
     handle_live w' h"
proof (induction pods arbitrary: c w hss)
  case (Cons p ps)
  from Cons.prems(1) obtain hs1 c1 w1 hss1 where p: "injectPod E p t fr (c, w) = (hs1, (c1, w1))"
    and ps: "map_step (\<lambda>pod. injectPod E pod t fr) ps (c1, w1) = (hss1, (c', w'))" and hss: "hss = hs1 # hss1"
    unfolding map_step_Cons_eq by (metis surj_pair)
  have "handle_live w' h" if "h \<in> set hs1"
    using map_injectPod_keeps [OF ps] inject_containers_live [OF p [unfolded injectPod_def] that]
    by (simp add: handle_live_def)
  with Cons.IH [OF ps] Cons.prems(2) hss show ?case by auto
qed simp

lemma inject_pods_live:
  "inject_pods E pods t fr (c, w) = (hs, (c', w')) \<Longrightarrow> h \<in> set hs \<Longrightarrow> handle_live w' h"
  by (auto simp: inject_pods_def simp del: map_step.simps set_concat split: prod.splits
      dest: map_injectPod_live)

text \<open>Every handle of a new timeshift is known to the agent of its node.\<close>

lemma created_handles_live:
  assumes "createTimeshift E ns sel t ttl fr (c, w) = (Inr s, (c', w'))" and h: "h \<in> set (ts_handles s)"
  shows "handle_live w' h"
  using assms(1)
proof (cases rule: createTimeshift_cases)
  case (created pods w1 hs c1 w2 now w3 tid w4 s1)
  then have "h \<in> set hs" using h by (simp add: new_timeshift_def)
  with inject_pods_live created have "handle_live w2 h" by blast
  moreover have "handle_live w4 h" if "handle_live w3 h"
    using that created(7) by (auto simp: handle_live_def newID_def intro: rand_keeps split: prod.splits)
  ultimately show ?thesis
    using now_keeps [OF created(6)] persist_keeps [OF created(11)] by (simp add: handle_live_def)
qed simp

text \<open>An update leaves live handles alone (\<open>live_handles_stay\<close>); handles it replaces are live.\<close>

lemma set_handles_keeps:
  "set_handles E t fr i hs (c, w) = (us, (c', w')) \<Longrightarrow> live ip hid w \<Longrightarrow> live ip hid w'"
proof (induction hs arbitrary: i c w us)
  case (Cons h hs)
  from Cons.prems(1) show ?case
  proof (cases rule: set_handles_Cons)
    case (kept r c1 w1)
    show ?thesis by (rule Cons.IH [OF kept(3) set_keeps [OF kept(1) Cons.prems(2)]])
  next
    case (failed e w1 e' c1 w2)
    show ?thesis by (rule Cons.IH [OF failed(4) inject_keeps [OF failed(3) set_keeps [OF failed(1) Cons.prems(2)]]])
  next
    case (moved e w1 hid' c1 w2 us')
    show ?thesis by (rule Cons.IH [OF moved(4) inject_keeps [OF moved(3) set_keeps [OF moved(1) Cons.prems(2)]]])
  qed
qed simp

lemma live_handles_stay:
  "set_handles E t fr i hs (c, w) = (us, (c', w')) \<Longrightarrow> j < length hs \<Longrightarrow> handle_live w (hs ! j) \<Longrightarrow>
     map_of us (i + j) = None"
proof (induction hs arbitrary: i j c w us)
  case (Cons h hs)
  have found: "\<not> isAgentNotFound e"
    if "ag_SetTime (ce_agents E) (ch_nodeIP h) (ch_agentHandle h) t fr w = (Inl e, w1)" "j = 0" for e w1
    using set_found [OF _ that(1)] Cons.prems(3) that(2) by (simp add: handle_live_def)
  have later: "map_of us' (i + j) = None"
    if run: "set_handles E t fr (Suc i) hs (c1, w1) = (us', (c', w'))"
      and keeps: "\<And>ip hid. live ip hid w \<Longrightarrow> live ip hid w1" for us' c1 w1
  proof (cases j)
    case 0
    then show ?thesis using set_handles_indices [OF run] by (force simp: map_of_eq_None_iff)
  next
    case (Suc k)
    with Cons.IH [OF run, of k] Cons.prems(2,3) keeps show ?thesis by (simp add: handle_live_def)
  qed
  from Cons.prems(1) show ?case
  proof (cases rule: set_handles_Cons)
    case (kept r c1 w1)
    show ?thesis by (rule later [OF kept(3) set_keeps [OF kept(1)]])
  next
    case (failed e w1 e' c1 w2)
    show ?thesis by (rule later [OF failed(4) inject_keeps [OF failed(3) set_keeps [OF failed(1)]]])
  next
    case (moved e w1 hid c1 w2 us')
    have "j \<noteq> 0" using found [OF moved(1)] moved(2) by blast
    with later [OF moved(4) inject_keeps [OF moved(3) set_keeps [OF moved(1)]]] moved(5)
    show ?thesis by simp
  qed
qed simp

lemma moved_handles_live:
  "set_handles E t fr i hs (c, w) = (us, (c', w')) \<Longrightarrow> (j, hid) \<in> set us \<Longrightarrow>
     live (ch_nodeIP (hs ! (j - i))) hid w'"
proof (induction hs arbitrary: i c w us)
  case (Cons h hs)
  have later: "live (ch_nodeIP ((h # hs) ! (j - i))) hid w'"
    if "set_handles E t fr (Suc i) hs (c1, w1) = (us', (c', w'))" "(j, hid) \<in> set us'" for us' c1 w1
  proof -
    have "Suc i \<le> j" using set_handles_indices [OF that(1)] that(2) by force
    then have "(h # hs) ! (j - i) = hs ! (j - Suc i)" by (simp add: nth_Cons')
    with Cons.IH [OF that] show ?thesis by simp
  qed
  from Cons.prems(1) show ?case
  proof (cases rule: set_handles_Cons)
    case (moved e w1 hid' c1 w2 us')
    have "live (ch_nodeIP h) hid' w'" using set_handles_keeps [OF moved(4) inject_live [OF moved(3)]] .
    with later [OF moved(4)] moved(5) Cons.prems(2) show ?thesis by auto
  qed (use later Cons.prems(2) in blast)+
qed simp

text \<open>
  When every call answers, with NOT_FOUND as the only error of SetTime, all handles are live
  afterwards.
\<close>

lemma set_handles_heal:
  assumes set: "\<And>n h w e w'. ag_SetTime (ce_agents E) n h t fr w = (Inl e, w') \<Longrightarrow> isAgentNotFound e"
    and inj: "\<And>n cid w e w'. ag_Inject (ce_agents E) n cid t fr w \<noteq> (Inl e, w')"
  shows "set_handles E t fr i hs (c, w) = (us, (c', w')) \<Longrightarrow> j < length hs \<Longrightarrow>
     map_of us (i + j) = None \<Longrightarrow> handle_live w' (hs ! j)"
proof (induction hs arbitrary: i j c w us)
  case (Cons h hs)
  have later: "handle_live w' ((h # hs) ! j)"
    if run: "set_handles E t fr (Suc i) hs (c1, w1) = (us', (c', w'))" and none: "map_of us' (i + j) = None"
      and pos: "j \<noteq> 0" for us' c1 w1
  proof -
    obtain k where k: "j = Suc k" using pos by (cases j) auto
    with Cons.IH [OF run, of k] none Cons.prems(2) show ?thesis by simp
  qed
  from Cons.prems(1) show ?case
  proof (cases rule: set_handles_Cons)
    case (kept r c1 w1)
    have "r \<noteq> Inl e" for e using set kept(1,2) by blast
    then obtain u where "r = Inr u" by (cases r) blast+
    with kept(1) have "live (ch_nodeIP h) (ch_agentHandle h) w1" using set_live by blast
    then have "handle_live w' h"
      using set_handles_keeps [OF kept(3)] by (simp add: handle_live_def)
    with later [OF kept(3)] Cons.prems(3) show ?thesis by (cases "j = 0") simp_all
  next
    case (moved e w1 hid c1 w2 us')
    with Cons.prems(3) have "j \<noteq> 0" "map_of us' (i + j) = None" by (auto split: if_splits)
    with later [OF moved(4)] show ?thesis by blast
  qed (use inj in blast)
qed simp

text \<open>The handles after an update: kept, or replaced by a live one for the same container.\<close>

lemma updated_handle:
  assumes run: "updateTimeshift E tid t fr (c, w) = (Inr s', (c', w'))"
    and s: "map_of (co_timeshifts c) tid = Some s" and i: "i < length (ts_handles s)"
  shows "ts_handles s' ! i = ts_handles s ! i \<or>
    \<not> handle_live w (ts_handles s ! i) \<and> same_container (ts_handles s ! i) (ts_handles s' ! i) \<and>
    handle_live w' (ts_handles s' ! i)"
  using run
proof (cases rule: updateTimeshift_cases)
  case (updated s1 us c1 w1 now w2 s2)
  then have eq: "s1 = s" "s' = commit_update (ts_handles s) us t now fr s" using s by simp_all
  note sh = updated(2) [unfolded eq(1)]
  have d: "distinct (map fst us)" using set_handles_indices [OF sh] by blast
  note h' = commit_handles(2) [OF d i, of t now fr, folded eq(2)]
  show ?thesis
  proof (cases "map_of us i")
    case None
    with h' show ?thesis by simp
  next
    case (Some hid)
    then have "live (ch_nodeIP (ts_handles s ! i)) hid w1"
      using moved_handles_live [OF sh, of i hid] by (auto dest: map_of_SomeD)
    then have "live (ch_nodeIP (ts_handles s ! i)) hid w'"
      by (rule persist_keeps [OF updated(7) now_keeps [OF updated(3)]])
    with live_handles_stay [OF sh i] Some h' show ?thesis
      by (auto simp: handle_live_def same_container_def)
  qed
qed simp

end

end
