(* ===== verification/Deployment.thy ===== *)
theory Deployment
  imports ControllerEnv
begin

text \<open>
  The controller in front of the node agents: the world is the cluster of nodes behind the
  client pool, next to a Kubernetes API with a state of its own. It satisfies the controller's
  contract, so the lemmas of \<open>controller_env\<close> hold for it.
\<close>

definition on_cluster :: "('c \<Rightarrow> 'r \<times> 'c) \<Rightarrow> 'c \<times> 'k \<Rightarrow> 'r \<times> ('c \<times> 'k)" where
  "on_cluster m w = (case w of (cl, k) \<Rightarrow> (case m cl of (r, cl') \<Rightarrow> (r, (cl', k))))"

definition on_kube :: "('k \<Rightarrow> 'r \<times> 'k) \<Rightarrow> 'c \<times> 'k \<Rightarrow> 'r \<times> ('c \<times> 'k)" where
  "on_kube m w = (case w of (cl, k) \<Rightarrow> (case m k of (r, k') \<Rightarrow> (r, (cl, k'))))"

definition lift_agents :: "'c agents \<Rightarrow> ('c \<times> 'k) agents" where
  "lift_agents A =
     \<lparr>ag_Inject = (\<lambda>n cid t f. on_cluster (ag_Inject A n cid t f)),
      ag_SetTime = (\<lambda>n h t f. on_cluster (ag_SetTime A n h t f)),
      ag_Reset = (\<lambda>n h. on_cluster (ag_Reset A n h)),
      ag_GetStatus = (\<lambda>n h. on_cluster (ag_GetStatus A n h))\<rparr>"

text \<open>\<open>api\<close> gives the Kubernetes side; its own \<open>ce_agents\<close> is not used.\<close>

definition deployment :: "'w kernel \<Rightarrow> elf_reader \<Rightarrow> (string \<Rightarrow> bool) \<Rightarrow> 'k cenv \<Rightarrow> ('w cluster \<times> 'k) cenv" where
  "deployment K elf dialable api =
     \<lparr>ce_agents = lift_agents (pool_agents K elf dialable),
      ce_ListPods = (\<lambda>ns sel. on_kube (ce_ListPods api ns sel)),
      ce_GetConfigMap = (\<lambda>ns n. on_kube (ce_GetConfigMap api ns n)),
      ce_CreateConfigMap = (\<lambda>ns n d. on_kube (ce_CreateConfigMap api ns n d)),
      ce_UpdateConfigMap = (\<lambda>ns n d. on_kube (ce_UpdateConfigMap api ns n d)),
      ce_IsNotFound = ce_IsNotFound api, ce_Matches = ce_Matches api,
      ce_Event = (\<lambda>ns p msg (cl, k). (cl, ce_Event api ns p msg k)),
      ce_now = on_kube (ce_now api), ce_rand = (\<lambda>n. on_kube (ce_rand api n)),
      ce_Marshal = ce_Marshal api, ce_Unmarshal = ce_Unmarshal api\<rparr>"

definition node_live :: "string \<Rightarrow> string \<Rightarrow> 'w cluster \<times> 'k \<Rightarrow> bool" where
  "node_live ip hid w = pool_live ip hid (fst w)"

lemma on_cluster_eq: "on_cluster m (cl, k) = (r, w') \<longleftrightarrow> m cl = (r, fst w') \<and> snd w' = k"
  by (auto simp: on_cluster_def split: prod.splits)

lemma on_kube_eq: "on_kube m (cl, k) = (r, w') \<longleftrightarrow> m k = (r, snd w') \<and> fst w' = cl"
  by (auto simp: on_kube_def split: prod.splits)

lemma deployment_agents [simp]:
  "ce_agents (deployment K elf dialable api) = lift_agents (pool_agents K elf dialable)"
  by (simp add: deployment_def)

lemma lift_agents_simps [simp]:
  "ag_Inject (lift_agents A) n cid t f = on_cluster (ag_Inject A n cid t f)"
  "ag_SetTime (lift_agents A) n h t f = on_cluster (ag_SetTime A n h t f)"
  "ag_Reset (lift_agents A) n h = on_cluster (ag_Reset A n h)"
  "ag_GetStatus (lift_agents A) n h = on_cluster (ag_GetStatus A n h)"
  by (simp_all add: lift_agents_def)

interpretation deployed: controller_env "deployment K elf dialable api" node_live
  for K :: "'w kernel" and elf :: elf_reader and dialable :: "string \<Rightarrow> bool" and api :: "'k cenv"
proof
  fix w w' :: "'w cluster \<times> 'k" and n c hid ip h t f r r' e u
  obtain cl k where w: "w = (cl, k)" by (rule prod.exhaust)
  note [simp] = w node_live_def on_cluster_eq
  show "ag_Inject (ce_agents (deployment K elf dialable api)) n c t f w = (r, w') \<Longrightarrow> node_live ip hid w \<Longrightarrow> node_live ip hid w'"
    using node_agents.inject_keeps by auto
  show "ag_Inject (ce_agents (deployment K elf dialable api)) n c t f w = (Inr hid, w') \<Longrightarrow> node_live n hid w'"
    using node_agents.inject_live by auto
  show "ag_SetTime (ce_agents (deployment K elf dialable api)) n h t f w = (r', w') \<Longrightarrow> node_live ip hid w \<Longrightarrow> node_live ip hid w'"
    using node_agents.set_keeps by auto
  show "ag_Reset (ce_agents (deployment K elf dialable api)) n h w = (r', w') \<Longrightarrow> node_live ip hid w \<Longrightarrow> node_live ip hid w'"
    using node_agents.reset_keeps by auto
  show "ag_SetTime (ce_agents (deployment K elf dialable api)) n hid t f w = (Inr u, w') \<Longrightarrow> node_live n hid w'"
    using node_agents.set_live by auto
  show "node_live n hid w \<Longrightarrow> ag_SetTime (ce_agents (deployment K elf dialable api)) n hid t f w = (Inl e, w') \<Longrightarrow> \<not> isAgentNotFound e"
    by (simp, blast dest: node_agents.set_found)
  show "node_live n hid w \<Longrightarrow> ag_Reset (ce_agents (deployment K elf dialable api)) n hid w = (Inl e, w') \<Longrightarrow> \<not> isAgentNotFound e"
    by (simp, blast dest: node_agents.reset_found)
  show "node_live n hid w \<Longrightarrow> ag_GetStatus (ce_agents (deployment K elf dialable api)) n hid w = (Inl e, w') \<Longrightarrow> \<not> isAgentNotFound e"
    by (simp, blast dest: node_agents.status_found)
qed (auto simp: deployment_def node_live_def on_kube_def split: prod.splits)

end
