(* ===== verification/DemoCluster.thy ===== *)
theory DemoCluster
  imports Demo Deployment
begin

text \<open>
  A cluster of one node running the small operating system of \<open>Demo\<close>, and a Kubernetes API with
  one pod and a ConfigMap store. Like \<open>Demo\<close> it is not part of the program.
\<close>

record demo_kube =
  dk_now :: int
  dk_cms :: "string \<Rightarrow> string \<Rightarrow> (string \<times> string) list option"

definition demo_pod :: k8s_pod where
  "demo_pod = \<lparr>pod_Name = ''web-0'', pod_Namespace = ''default'', pod_Labels = [(''app'', ''web'')],
     pod_Phase = ''Running'', pod_HostIP = ''10.0.0.1'',
     pod_ContainerStatuses =
       [\<lparr>cs_Name = ''app'', cs_ContainerID = ''containerd://0123456789abcdef0123'', cs_Running = True\<rparr>]\<rparr>"

text \<open>Agents that accept everything.\<close>

definition yes_agents :: "'k agents" where
  "yes_agents = \<lparr>ag_Inject = (\<lambda>n cid t f w. (Inr ''h'', w)), ag_SetTime = (\<lambda>n h t f w. (Inr (), w)),
     ag_Reset = (\<lambda>n h w. (Inr (), w)), ag_GetStatus = (\<lambda>n h w. (Inl (Msg ''no status''), w))\<rparr>"

definition set_cm :: "string \<Rightarrow> string \<Rightarrow> (string \<times> string) list \<Rightarrow> demo_kube \<Rightarrow> demo_kube" where
  "set_cm ns n d k = k\<lparr>dk_cms := (dk_cms k)(ns := (dk_cms k ns)(n \<mapsto> d))\<rparr>"

text \<open>The codec knows the registries of the examples.\<close>

definition demo_stored :: storedTimeshift where
  "demo_stored = \<lparr>st_ID = ''0101010101010101'', st_Namespace = ''default'', st_LabelSelector = ''app=web'',
     st_Offset = 5, st_FrozenAt = zero_time, st_Frozen = False, st_TTL = 0, st_ExpiresAt = zero_time,
     st_CreatedAt = 0, st_Handles = []\<rparr>"

definition demo_Marshal :: "storedTimeshift list \<Rightarrow> goerr + string" where
  "demo_Marshal x =
     (if x = [] then Inr ''[]'' else if x = [demo_stored] then Inr ''[0]'' else Inl (Msg ''unsupported''))"

definition demo_Unmarshal :: "string \<Rightarrow> goerr + storedTimeshift list" where
  "demo_Unmarshal s =
     (if s = ''[]'' then Inr [] else if s = ''[0]'' then Inr [demo_stored] else Inl (Msg ''syntax''))"

definition demo_api :: "demo_kube cenv" where
  "demo_api =
     \<lparr>ce_agents = yes_agents,
      ce_ListPods = (\<lambda>ns sel k. (Inr (if ns = ''default'' then [demo_pod] else []), k)),
      ce_GetConfigMap = (\<lambda>ns n k. (case dk_cms k ns n of None \<Rightarrow> (Inl (Msg ''not found''), k) | Some d \<Rightarrow> (Inr d, k))),
      ce_CreateConfigMap = (\<lambda>ns n d k. (None, set_cm ns n d k)),
      ce_UpdateConfigMap = (\<lambda>ns n d k. (None, set_cm ns n d k)),
      ce_IsNotFound = (\<lambda>e. e = Msg ''not found''),
      ce_Matches = (\<lambda>sel labels. Some (sel = ''app=web'' \<and> (''app'', ''web'') \<in> set labels)),
      ce_Event = (\<lambda>ns p msg k. k),
      ce_now = (\<lambda>k. (dk_now k, k)),
      ce_rand = (\<lambda>n k. (replicate n 1, k)),
      ce_Marshal = demo_Marshal, ce_Unmarshal = demo_Unmarshal\<rparr>"

definition demo_kube0 :: demo_kube where
  "demo_kube0 = \<lparr>dk_now = 1000000000 * second, dk_cms = (\<lambda>_ _. None)\<rparr>"

definition demo_node_addr :: string where "demo_node_addr = ''10.0.0.1:50051''"

definition demo_cluster :: "demo cluster" where
  "demo_cluster = \<lparr>cl_nodes = [demo_node_addr \<mapsto> (newServer, demo_world)], cl_pool = NewPool ''50051''\<rparr>"

abbreviation demo_dep :: "(demo cluster \<times> demo_kube) cenv" where
  "demo_dep \<equiv> deployment demo_kernel demo_elf (\<lambda>_. True) demo_api"

definition demo_hid :: string where "demo_hid = hex_encode (replicate 16 0)"

lemma demo_store_laws: "store_laws demo_api dk_cms"
  by (auto simp: store_laws_def demo_api_def set_cm_def demo_Marshal_def demo_Unmarshal_def
      split: option.splits if_splits)

lemma demo_lookup: "LookupPID demo_kernel ''containerd://0123456789abcdef0123'' w = (Inr 42, w)"
  by (simp add: LookupPID_def stripRuntimePrefix_def has_prefix_def Let_def demo_kernel_def
      Atoi_def dec_digit_def Contains_def)

lemma demo_agent_inject:
  "\<exists>srv' w'. agent_Inject demo_kernel demo_elf ''containerd://0123456789abcdef0123'' (Some t) fr (srv, w) =
     (Inr demo_hid, (srv', w'))"
proof -
  obtain h w' where "(if fr then InjectFrozen demo_kernel demo_elf 42 t
      else InjectAtTime demo_kernel demo_elf 42 t) w = (Inr h, w')"
    using demo_inject_pid by (cases fr) (simp_all, blast+)
  moreover have "newHandleID demo_kernel w' = (demo_hid, w')"
    by (simp add: newHandleID_def demo_kernel_def demo_hid_def)
  ultimately show ?thesis by (simp add: agent_Inject_def demo_lookup)
qed

lemma demo_pool_inject:
  assumes "cl_nodes cl demo_node_addr = Some (srv, w)" and "pl_port (cl_pool cl) = ''50051''"
  shows "\<exists>srv' w' p. pool_Inject demo_kernel demo_elf (\<lambda>_. True) ''10.0.0.1''
      ''containerd://0123456789abcdef0123'' t fr cl =
    (Inr demo_hid, \<lparr>cl_nodes = (cl_nodes cl)(demo_node_addr \<mapsto> (srv', w')), cl_pool = p\<rparr>) \<and>
    pl_port p = ''50051''"
proof -
  obtain srv' w' where a: "agent_Inject demo_kernel demo_elf ''containerd://0123456789abcdef0123''
      (Some t) fr (srv, w) = (Inr demo_hid, (srv', w'))"
    using demo_agent_inject by blast
  have "node_addr (cl_pool cl) ''10.0.0.1'' = demo_node_addr"
    using assms(2) by (simp add: node_addr_def demo_node_addr_def)
  with a assms show ?thesis
    by (cases cl) (auto simp: pool_Inject_def pool_call_def clientFor_def rpc_def Let_def)
qed

lemma demo_pod_inject:
  assumes "cl_nodes cl demo_node_addr = Some (srv, w)" and "pl_port (cl_pool cl) = ''50051''"
  shows "\<exists>cl'. injectPod demo_dep demo_pod t fr (c, (cl, k)) =
    ([\<lparr>ch_pod = ''web-0'', ch_container = ''app'', ch_nodeIP = ''10.0.0.1'',
       ch_containerID = ''containerd://0123456789abcdef0123'', ch_agentHandle = demo_hid\<rparr>],
     (count_inject True c, (cl', k)))"
proof -
  obtain cl' where "pool_Inject demo_kernel demo_elf (\<lambda>_. True) ''10.0.0.1''
      ''containerd://0123456789abcdef0123'' t fr cl = (Inr demo_hid, cl')"
    using demo_pool_inject [OF assms] by blast
  then show ?thesis
    by (simp add: injectPod_def demo_pod_def injectable_def on_cluster_def pool_agents_def)
qed

text \<open>A timeshift for the pod, on a cluster in its first state.\<close>

abbreviation demo_created_ts :: "gotime \<Rightarrow> duration \<Rightarrow> bool \<Rightarrow> timeshift" where
  "demo_created_ts t ttl fr \<equiv> new_timeshift (hex_encode (replicate 16 1)) ''default'' ''app=web'' t ttl fr
     (1000000000 * second)
     [\<lparr>ch_pod = ''web-0'', ch_container = ''app'', ch_nodeIP = ''10.0.0.1'',
       ch_containerID = ''containerd://0123456789abcdef0123'', ch_agentHandle = demo_hid\<rparr>]"

definition demo_timeshift :: "gotime \<Rightarrow> bool \<Rightarrow> timeshift" where
  "demo_timeshift t fr = demo_created_ts t 0 fr"

lemma demo_create_ttl:
  "\<exists>cl'. createTimeshift demo_dep ''default'' ''app=web'' t ttl fr (newController None, (demo_cluster, demo_kube0)) =
     (Inr (demo_created_ts t ttl fr),
      (register (demo_created_ts t ttl fr) (count_inject True (newController None)), (cl', demo_kube0)))"
proof -
  obtain cl' where inj: "injectPod demo_dep demo_pod t fr (newController None, (demo_cluster, demo_kube0)) =
      ([\<lparr>ch_pod = ''web-0'', ch_container = ''app'', ch_nodeIP = ''10.0.0.1'',
         ch_containerID = ''containerd://0123456789abcdef0123'', ch_agentHandle = demo_hid\<rparr>],
       (count_inject True (newController None), (cl', demo_kube0)))"
    using demo_pod_inject [of demo_cluster newServer demo_world t fr "newController None" demo_kube0]
    by (force simp: demo_cluster_def NewPool_def)
  have list: "ce_ListPods demo_dep ''default'' ''app=web'' (demo_cluster, demo_kube0) =
      (Inr [demo_pod], (demo_cluster, demo_kube0))"
    by (simp add: deployment_def on_kube_def demo_api_def)
  have now: "ce_now demo_dep (cl', demo_kube0) = (1000000000 * second, (cl', demo_kube0))"
    and rand: "ce_rand demo_dep 16 (cl', demo_kube0) = (replicate 16 1, (cl', demo_kube0))"
    by (simp_all add: deployment_def on_kube_def demo_api_def demo_kube0_def)
  have "checkConflicts ''default'' [demo_pod] (newController None) = None"
    by (simp add: checkConflicts_def occupiedContainers_def newController_def pod_conflicts_def
        demo_pod_def injectable_def List.map_filter_simps)
  moreover have "co_store (register s (count_inject True (newController None))) = None" for s
    by (simp add: register_def add_active_def newController_def Let_def count_inject_def)
  ultimately show ?thesis
    by (simp add: createTimeshift_def list inject_pods_def inj now newID_def rand
        Let_def persist_def)
qed

lemma demo_create:
  "\<exists>cl'. createTimeshift demo_dep ''default'' ''app=web'' t 0 fr (newController None, (demo_cluster, demo_kube0)) =
     (Inr (demo_timeshift t fr),
      (register (demo_timeshift t fr) (count_inject True (newController None)), (cl', demo_kube0)))"
  unfolding demo_timeshift_def by (rule demo_create_ttl)

end
