(* ===== verification/DemoHttp.thy ===== *)
theory DemoHttp
  imports Loopback DemoCluster
begin

text \<open>A JSON codec and a transport for the examples. Like \<open>Demo\<close> it is not part of the program.\<close>

datatype demo_text =
    HealthText
  | PageText
  | ErrorText string
  | CreateText create_request
  | UpdateText update_request
  | TimeshiftText timeshift_response
  | ListText "timeshift_response list"
  | StatusText timeshift_status
  | ResolveText "resolved_pod list"

definition demo_json :: "demo_text json" where
  "demo_json =
     \<lparr>js_health = HealthText,
      js_error = ErrorText, js_error_of = (\<lambda>x. case x of ErrorText y \<Rightarrow> Inr y | _ \<Rightarrow> Inl (Msg ''json'')),
      js_create = CreateText, js_create_of = (\<lambda>x. case x of CreateText y \<Rightarrow> Inr y | _ \<Rightarrow> Inl (Msg ''json'')),
      js_update = UpdateText, js_update_of = (\<lambda>x. case x of UpdateText y \<Rightarrow> Inr y | _ \<Rightarrow> Inl (Msg ''json'')),
      js_timeshift = TimeshiftText, js_timeshift_of = (\<lambda>x. case x of TimeshiftText y \<Rightarrow> Inr y | _ \<Rightarrow> Inl (Msg ''json'')),
      js_list = ListText, js_list_of = (\<lambda>x. case x of ListText y \<Rightarrow> Inr y | _ \<Rightarrow> Inl (Msg ''json'')),
      js_status = StatusText, js_status_of = (\<lambda>x. case x of StatusText y \<Rightarrow> Inr y | _ \<Rightarrow> Inl (Msg ''json'')),
      js_resolve = ResolveText, js_resolve_of = (\<lambda>x. case x of ResolveText y \<Rightarrow> Inr y | _ \<Rightarrow> Inl (Msg ''json''))\<rparr>"

lemma demo_json_laws: "json_laws demo_json"
  by (simp add: json_laws_def demo_json_def)

definition demo_net :: "'a net" where
  "demo_net = \<lparr>nt_query = (\<lambda>s. []), nt_status = (\<lambda>code. ''status''), nt_wait = (\<lambda>w. (None, w))\<rparr>"

abbreviation demo_client :: "'a cenv \<Rightarrow> (demo_text, 'a cst) client" where
  "demo_client E \<equiv> local_client demo_json E PageText demo_net ''http://controller''"

lemma demo_plain: "plain ''0101010101010101''"
  by code_simp

lemma demo_year: "four_digit_year (9 * second + 5)" "four_digit_year (9 * second)" "four_digit_year (8 * second)"
  "four_digit_year (1000000000 * second)"
  by code_simp+

end
