(* ===== verification/ControllerClaims.thy ===== *)
theory ControllerClaims
  imports DemoCluster ControllerSteps
begin

text \<open>The properties of the controller, alone and in front of the node agents.\<close>

section \<open>Occupied containers\<close>

lemma dom_fold_update:
  "dom (map_of (fold (\<lambda>h. AList.update (k h) v) hs m)) = dom (map_of m) \<union> k ` set hs"
  by (induction hs arbitrary: m) auto

lemma dom_occupied_fold:
  "dom (map_of (fold (\<lambda>kv. fold (\<lambda>h. AList.update (container_key (ts_namespace (snd kv)) (ch_pod h) (ch_container h))
      (ts_id (snd kv))) (ts_handles (snd kv))) ms m)) =
   dom (map_of m) \<union> {container_key (ts_namespace s) (ch_pod h) (ch_container h) | i s h.
     (i, s) \<in> set ms \<and> h \<in> set (ts_handles s)}"
proof (induction ms arbitrary: m)
  case (Cons kv ms)
  then show ?case by (cases kv) (auto simp: dom_fold_update)
qed simp

definition occupied_key :: "controller \<Rightarrow> string \<Rightarrow> bool" where
  "occupied_key c k \<longleftrightarrow> (\<exists>(i, s) \<in> set (co_timeshifts c). \<exists>h \<in> set (ts_handles s).
     k = container_key (ts_namespace s) (ch_pod h) (ch_container h))"

lemma occupied_iff: "map_of (occupiedContainers c) k \<noteq> None \<longleftrightarrow> occupied_key c k"
proof -
  have "k \<in> dom (map_of (occupiedContainers c)) \<longleftrightarrow> occupied_key c k"
    unfolding occupiedContainers_def dom_occupied_fold occupied_key_def by auto
  then show ?thesis by (simp add: dom_def)
qed

lemma map_filter_Nil: "List.map_filter f xs = [] \<longleftrightarrow> (\<forall>x \<in> set xs. f x = None)"
  by (induction xs) (auto simp: List.map_filter_simps split: option.splits)

lemma checkConflicts_None:
  "checkConflicts ns pods c = None \<longleftrightarrow>
     (\<forall>pod \<in> set pods. \<forall>cs \<in> set (pod_ContainerStatuses pod). injectable cs \<longrightarrow>
        \<not> occupied_key c (container_key ns (pod_Name pod) (cs_Name cs)))"
proof -
  have "checkConflicts ns pods c = None \<longleftrightarrow>
      concat (map (pod_conflicts (occupiedContainers c) ns) pods) = []"
    by (cases "concat (map (pod_conflicts (occupiedContainers c) ns) pods)")
      (simp_all add: checkConflicts_def del: concat_eq_Nil_conv)
  then show ?thesis
    by (auto simp: pod_conflicts_def map_filter_Nil simp flip: occupied_iff)
qed

text \<open>
  C11. A successful create takes only containers that no registered timeshift holds, and what it
  registers under the new id is exactly the timeshift it returns.
\<close>

theorem create_is_exclusive:
  assumes "createTimeshift E ns sel t ttl fr (c, w) = (Inr s, (c', w'))"
  shows "(\<forall>h \<in> set (ts_handles s). \<not> occupied_key c (container_key ns (ch_pod h) (ch_container h))) \<and>
    ts_namespace s = ns \<and> ts_handles s \<noteq> [] \<and>
    co_timeshifts c' = AList.update (ts_id s) s (co_timeshifts c)"
  using assms
proof (cases rule: createTimeshift_cases)
  case (created pods w1 hs c1 w2 now w3 tid w4 s1)
  have "c' = register s c1" using persist_eqD [OF created(11)] created(9) by simp
  moreover have "\<not> occupied_key c (container_key ns (ch_pod h) (ch_container h))" if "h \<in> set hs" for h
    using inject_pods_handles [OF created(4) that] created(3) by (auto simp: checkConflicts_None)
  ultimately show ?thesis
    using created by (simp add: new_timeshift_def register_def same_registry_def)
qed simp

theorem create_is_exclusive_witness:
  "\<exists>c' w'. createTimeshift demo_dep ''default'' ''app=web'' 5 0 True
      (newController None, (demo_cluster, demo_kube0)) = (Inr (demo_timeshift 5 True), (c', w')) \<and>
    co_timeshifts c' = [(ts_id (demo_timeshift 5 True), demo_timeshift 5 True)]"
proof -
  obtain cl' where "createTimeshift demo_dep ''default'' ''app=web'' 5 0 True
      (newController None, (demo_cluster, demo_kube0)) =
      (Inr (demo_timeshift 5 True),
       (register (demo_timeshift 5 True) (count_inject True (newController None)), (cl', demo_kube0)))"
    using demo_create by blast
  with create_is_exclusive [OF this] show ?thesis by (auto simp: newController_def)
qed

text \<open>
  C10. In front of the node agents, every handle of a freshly created timeshift is known to the
  agent of the node it names, and belongs to a running container of a listed pod.
\<close>

theorem created_handles_are_live:
  assumes "createTimeshift (deployment K elf dialable api) ns sel t ttl fr (c, (cl, k)) = (Inr s, (c', (cl', k')))"
    and "h \<in> set (ts_handles s)"
  shows "pool_live (ch_nodeIP h) (ch_agentHandle h) cl' \<and>
    (\<exists>pods k1. ce_ListPods api ns sel k = (Inr pods, k1) \<and> (\<exists>pod \<in> set pods.
       \<exists>cs \<in> set (pod_ContainerStatuses pod). cs_Running cs \<and> ch_pod h = pod_Name pod \<and>
         ch_nodeIP h = pod_HostIP pod \<and> ch_container h = cs_Name cs \<and> ch_containerID h = cs_ContainerID cs))"
  using assms(1)
proof (cases rule: createTimeshift_cases)
  case (created pods w1 hs c1 w2 now w3 tid w4 s1)
  have "h \<in> set hs" using created assms(2) by (simp add: new_timeshift_def)
  from inject_pods_handles [OF created(4) this]
  obtain pod cs where "pod \<in> set pods" "cs \<in> set (pod_ContainerStatuses pod)" "injectable cs"
    "ch_pod h = pod_Name pod" "ch_nodeIP h = pod_HostIP pod" "ch_container h = cs_Name cs"
    "ch_containerID h = cs_ContainerID cs"
    by blast
  moreover obtain k1 where "ce_ListPods api ns sel k = (Inr pods, k1)"
    using created(1) by (auto simp: deployment_def on_kube_eq)
  moreover have "pool_live (ch_nodeIP h) (ch_agentHandle h) cl'"
    using deployed.created_handles_live [OF assms] by (simp add: deployed.handle_live_def node_live_def)
  ultimately show ?thesis by (auto simp: injectable_def)
qed simp

theorem created_handles_are_live_witness:
  "\<exists>cl'. pool_live ''10.0.0.1'' demo_hid cl' \<and> createTimeshift demo_dep ''default'' ''app=web'' 5 0 True
     (newController None, (demo_cluster, demo_kube0)) =
     (Inr (demo_timeshift 5 True),
      (register (demo_timeshift 5 True) (count_inject True (newController None)), (cl', demo_kube0)))"
proof -
  obtain cl' where run: "createTimeshift demo_dep ''default'' ''app=web'' 5 0 True
      (newController None, (demo_cluster, demo_kube0)) =
      (Inr (demo_timeshift 5 True),
       (register (demo_timeshift 5 True) (count_inject True (newController None)), (cl', demo_kube0)))"
    using demo_create by blast
  from created_handles_are_live [OF run, of "hd (ts_handles (demo_timeshift 5 True))"] run show ?thesis
    by (auto simp: demo_timeshift_def new_timeshift_def)
qed

text \<open>
  A successful update makes the registered clock show the target at the moment it is
  recorded (frozen there, or running on), keeps the containers and their order, and touches no
  other timeshift.
\<close>

theorem update_sets_the_clock:
  assumes "updateTimeshift E tid t fr (c, w) = (Inr s', (c', w'))"
  shows "\<exists>s us c1 w1 now w2. map_of (co_timeshifts c) tid = Some s \<and>
    set_handles E t fr 0 (ts_handles s) (c, w) = (us, (c1, w1)) \<and> ce_now E w1 = (now, w2) \<and>
    (fr \<or> in_int64 (t - now) \<longrightarrow> ts_eff n s' = (if fr then t else t + (n - now))) \<and>
    ts_frozen s' = fr \<and> ts_id s' = ts_id s \<and>
    list_all2 same_container (ts_handles s) (ts_handles s') \<and>
    map_of (co_timeshifts c') = (map_of (co_timeshifts c))(tid \<mapsto> s')"
  using assms
proof (cases rule: updateTimeshift_cases)
  case (updated s us c1 w1 now w2 s1)
  have d: "distinct (map fst us)" using set_handles_indices [OF updated(2)] by blast
  have same: "list_all2 same_container (ts_handles s) (ts_handles s')"
    using commit_handles [OF d, where s = s and t = t and now = now and fr = fr] updated(4,5)
    by (auto simp: list_all2_conv_all_nth split: option.splits)
  have clock: "fr \<or> in_int64 (t - now) \<longrightarrow> ts_eff n s' = (if fr then t else t + (n - now))"
    using updated(4,5) ts_mark_eff [of fr t now n] by (simp add: commit_update_def)
  have "ts_frozen s' = fr" "ts_id s' = ts_id s"
    and "map_of (co_timeshifts c') = (map_of (co_timeshifts c))(tid \<mapsto> s')"
    using updated(4,5) updateTimeshift_registry [OF assms] by simp_all
  with updated(1-3) clock same show ?thesis by blast
qed simp

text \<open>A registered timeshift with one handle, on agents that accept everything.\<close>

definition demo_handle_a :: containerHandle where
  "demo_handle_a = \<lparr>ch_pod = ''web-0'', ch_container = ''app'', ch_nodeIP = ''10.0.0.1'',
     ch_containerID = ''containerd://0123456789abcdef0123'', ch_agentHandle = ''h''\<rparr>"

definition demo_ts :: "bool \<Rightarrow> timeshift" where
  "demo_ts fr = new_timeshift ''0101010101010101'' ''default'' ''app=web'' (7 * second) 0 fr 0 [demo_handle_a]"

definition demo_ctl :: "bool \<Rightarrow> controller" where
  "demo_ctl fr = (newController None)\<lparr>co_timeshifts := [(''0101010101010101'', demo_ts fr)],
     co_met := newMetrics\<lparr>m_timeshiftsActive := 1\<rparr>\<rparr>"

lemma demo_update:
  "\<exists>s' c'. updateTimeshift demo_api ''0101010101010101'' t fr (demo_ctl fr0, demo_kube0) = (Inr s', (c', demo_kube0)) \<and>
     s' = ts_mark fr t (1000000000 * second) (demo_ts fr0)"
  by (simp add: updateTimeshift_def getTimeshift_def demo_ctl_def demo_ts_def new_timeshift_def demo_api_def
      yes_agents_def commit_update_def persist_def newController_def demo_kube0_def Let_def)

theorem update_sets_the_clock_witness:
  "\<exists>s' c'. updateTimeshift demo_api ''0101010101010101'' (9 * second) True (demo_ctl False, demo_kube0) =
     (Inr s', (c', demo_kube0)) \<and> ts_eff 0 s' = 9 * second"
proof -
  obtain s' c' where run: "updateTimeshift demo_api ''0101010101010101'' (9 * second) True (demo_ctl False, demo_kube0) =
      (Inr s', (c', demo_kube0))"
    using demo_update by blast
  from update_sets_the_clock [OF run, of 0] run show ?thesis by auto
qed

text \<open>
  C30. In front of the node agents an update never replaces a handle that its agent still knows;
  a handle it does replace is for the same container and is known to the agent afterwards.
\<close>

theorem update_repairs_lost_handles:
  assumes "updateTimeshift (deployment K elf dialable api) tid t fr (c, (cl, k)) = (Inr s', (c', (cl', k')))"
    and "map_of (co_timeshifts c) tid = Some s" and "i < length (ts_handles s)"
  shows "ts_handles s' ! i = ts_handles s ! i \<or>
    \<not> pool_live (ch_nodeIP (ts_handles s ! i)) (ch_agentHandle (ts_handles s ! i)) cl \<and>
    same_container (ts_handles s ! i) (ts_handles s' ! i) \<and>
    pool_live (ch_nodeIP (ts_handles s' ! i)) (ch_agentHandle (ts_handles s' ! i)) cl'"
  using deployed.updated_handle [OF assms] by (simp add: deployed.handle_live_def node_live_def)

text \<open>After a restart of the agent the container is injected again under a new handle.\<close>

lemma demo_update_lost:
  "\<exists>cl'. updateTimeshift demo_dep ''0101010101010101'' t fr (demo_ctl fr0, (demo_cluster, demo_kube0)) =
     (Inr (ts_mark fr t (1000000000 * second) ((demo_ts fr0)\<lparr>ts_handles := [demo_handle_a\<lparr>ch_agentHandle := demo_hid\<rparr>]\<rparr>)),
      ((count_inject True (count_setTime False (demo_ctl fr0)))\<lparr>co_timeshifts :=
        [(''0101010101010101'', ts_mark fr t (1000000000 * second)
          ((demo_ts fr0)\<lparr>ts_handles := [demo_handle_a\<lparr>ch_agentHandle := demo_hid\<rparr>]\<rparr>))]\<rparr>, (cl', demo_kube0)))"
proof -
  have addr: "node_addr \<lparr>pl_conns = [], pl_port = ''50051''\<rparr> ''10.0.0.1'' = demo_node_addr"
    by (simp add: node_addr_def demo_node_addr_def)
  let ?e = "Wrap ''agentclient: SetTime'' (Status NotFound ''handle not found'')"
  obtain p where set: "pool_SetTime demo_kernel (\<lambda>_. True) ''10.0.0.1'' ''h'' t fr demo_cluster =
      (Inl ?e, demo_cluster\<lparr>cl_pool := p\<rparr>)" and port: "pl_port p = ''50051''"
    by (auto simp: pool_SetTime_def pool_call_def clientFor_def rpc_def Let_def demo_cluster_def addr
        agent_SetTime_def lookupHandle_def newServer_def NewPool_def)
  obtain cl' where inj: "pool_Inject demo_kernel demo_elf (\<lambda>_. True) ''10.0.0.1''
      ''containerd://0123456789abcdef0123'' t fr (demo_cluster\<lparr>cl_pool := p\<rparr>) = (Inr demo_hid, cl')"
    using demo_pool_inject [of "demo_cluster\<lparr>cl_pool := p\<rparr>" newServer demo_world t fr] port
    by (auto simp: demo_cluster_def)
  have sh: "set_handles demo_dep t fr 0 [demo_handle_a] (demo_ctl fr0, (demo_cluster, demo_kube0)) =
      ([(0, demo_hid)], (count_inject True (count_setTime False (demo_ctl fr0)), (cl', demo_kube0)))"
    by (simp add: demo_handle_a_def pool_agents_def on_cluster_def set inj isAgentNotFound_iff Let_def)
  have now: "ce_now demo_dep (cl', demo_kube0) = (1000000000 * second, (cl', demo_kube0))"
    by (simp add: deployment_def on_kube_def demo_api_def demo_kube0_def)
  have ts: "ts_handles (demo_ts fr0) = [demo_handle_a]" "map_of (co_timeshifts (demo_ctl fr0)) ''0101010101010101'' = Some (demo_ts fr0)"
    "co_store (demo_ctl fr0) = None" "co_timeshifts (demo_ctl fr0) = [(''0101010101010101'', demo_ts fr0)]"
    by (simp_all add: demo_ts_def new_timeshift_def demo_ctl_def newController_def)
  show ?thesis
    by (simp add: updateTimeshift_def getTimeshift_def ts sh now Let_def commit_update_def persist_def apply_update_def
        del: set_handles.simps)
qed

theorem update_repairs_lost_handles_witness:
  "\<exists>s' c' cl'. updateTimeshift demo_dep ''0101010101010101'' 5 True (demo_ctl False, (demo_cluster, demo_kube0)) =
     (Inr s', (c', (cl', demo_kube0))) \<and> \<not> pool_live ''10.0.0.1'' ''h'' demo_cluster \<and>
     pool_live ''10.0.0.1'' demo_hid cl'"
proof -
  obtain s' c' cl' where run: "updateTimeshift demo_dep ''0101010101010101'' 5 True (demo_ctl False, (demo_cluster, demo_kube0)) =
      (Inr s', (c', (cl', demo_kube0)))" and hs: "ts_handles s' = [demo_handle_a\<lparr>ch_agentHandle := demo_hid\<rparr>]"
    using demo_update_lost [of 5 True False] by auto
  have "length demo_hid \<noteq> length ''h''" by (simp add: demo_hid_def length_hex_encode)
  then have "demo_hid \<noteq> ''h''" by metis
  moreover have "map_of (co_timeshifts (demo_ctl False)) ''0101010101010101'' = Some (demo_ts False)"
    "ts_handles (demo_ts False) = [demo_handle_a]"
    by (simp_all add: demo_ctl_def demo_ts_def new_timeshift_def)
  ultimately show ?thesis
    using update_repairs_lost_handles [OF run, of "demo_ts False" 0] run hs by (auto simp: demo_handle_a_def)
qed

end
