(* ===== verification/RegistryClaims.thy ===== *)
theory RegistryClaims
  imports ControllerClaims
begin

text \<open>
  The properties of the registry: its invariant over all runs, what advance, sweep, delete and
  restore do to it, and the reaction to pod events.
\<close>

section \<open>Runs of the controller\<close>

text \<open>
  In every state a controller can reach, restarts included, each timeshift is filed once
  and under its own id, and the gauge of active timeshifts is the size of the registry.
\<close>

theorem registry_always_consistent:
  assumes "ctl_reach E store (c, w)"
  shows "wf_map (co_timeshifts c) \<and>
    (\<forall>tid s. map_of (co_timeshifts c) tid = Some s \<longrightarrow> ts_id s = tid) \<and>
    m_timeshiftsActive (co_met c) = int (length (co_timeshifts c))"
proof -
  have "registry_ok c" using ctl_reach_ok [OF assms] by simp
  then show ?thesis using well_keyed_id [of "co_timeshifts c"] by (auto simp: registry_ok_def well_keyed_def)
qed

lemma demo_create_step:
  "\<exists>cl'. ctl_step demo_dep (OpCreate 5 True) (newController None, (demo_cluster, demo_kube0))
     (register (demo_timeshift 5 True) (count_inject True (newController None)), (cl', demo_kube0))"
proof -
  obtain cl' where "createTimeshift demo_dep ''default'' ''app=web'' 5 0 True
      (newController None, (demo_cluster, demo_kube0)) =
      (Inr (demo_timeshift 5 True),
       (register (demo_timeshift 5 True) (count_inject True (newController None)), (cl', demo_kube0)))"
    using demo_create by blast
  from ctl_step.create [OF this] show ?thesis by (auto simp: newController_def)
qed

lemma demo_reach:
  "\<exists>cl'. ctl_reach demo_dep None
     (register (demo_timeshift 5 True) (count_inject True (newController None)), (cl', demo_kube0))"
proof -
  let ?st0 = "(newController None, (demo_cluster, demo_kube0))"
  have "restore demo_dep ?st0 = ?st0" by (simp add: restore_def newController_def)
  then have "ctl_reach demo_dep None ?st0" using ctl_reach.start [of demo_dep None "(demo_cluster, demo_kube0)"] by simp
  with demo_create_step show ?thesis by (blast intro: ctl_reach.step)
qed

theorem registry_always_consistent_witness:
  "\<exists>cl' c. ctl_reach demo_dep None (c, (cl', demo_kube0)) \<and> m_timeshiftsActive (co_met c) = 1 \<and>
     wf_map (co_timeshifts c)"
proof -
  let ?c = "register (demo_timeshift 5 True) (count_inject True (newController None))"
  obtain cl' where r: "ctl_reach demo_dep None (?c, (cl', demo_kube0))" using demo_reach by blast
  have "co_timeshifts ?c = [(ts_id (demo_timeshift 5 True), demo_timeshift 5 True)]"
    by (simp add: register_def newController_def)
  then have len: "length (co_timeshifts ?c) = 1" by simp
  have "m_timeshiftsActive (co_met ?c) = int (length (co_timeshifts ?c))" "wf_map (co_timeshifts ?c)"
    using registry_always_consistent [OF r] by blast+
  then have "m_timeshiftsActive (co_met ?c) = 1 \<and> wf_map (co_timeshifts ?c)" unfolding len by simp
  with r show ?thesis by blast
qed

text \<open>
  Each step of the controller is the same-named step of its abstract specification, the map
  from ids to clocks, with a reading of the wall clock that the step takes itself: a create sets one
  clock at a fresh id or is refused, an update or advance
  sets the clock of its own id when that is registered, a delete removes exactly its id, a sweep
  only removes clocks, and pod events and the world change none.
\<close>

theorem controller_refines_clocks:
  assumes "ctl_reach E store (c, w)" and "ctl_step E opn (c, w) (c', w')"
  shows "clock_step (read_between E w w') opn (clocks c) (clocks c')"
  using ctl_step_clocks [OF assms(2)] ctl_reach_ok [OF assms(1)] by simp

theorem controller_refines_clocks_witness:
  "\<exists>c w. ctl_step demo_dep (OpCreate 5 True) (newController None, (demo_cluster, demo_kube0)) (c, w) \<and>
     clocks c (ts_id (demo_timeshift 5 True)) = Some (Frozen 5) \<and>
     clock_step (read_between demo_dep (demo_cluster, demo_kube0) w) (OpCreate 5 True)
       (clocks (newController None)) (clocks c)"
proof -
  let ?st0 = "(newController None, (demo_cluster, demo_kube0))"
  let ?c = "register (demo_timeshift 5 True) (count_inject True (newController None))"
  have "ctl_reach demo_dep None ?st0"
    using ctl_reach.start [of demo_dep None "(demo_cluster, demo_kube0)"]
    by (simp add: restore_def newController_def)
  moreover obtain cl' where st: "ctl_step demo_dep (OpCreate 5 True) ?st0 (?c, (cl', demo_kube0))"
    using demo_create_step by blast
  ultimately have "clock_step (read_between demo_dep (demo_cluster, demo_kube0) (cl', demo_kube0)) (OpCreate 5 True)
      (clocks (newController None)) (clocks ?c)"
    by (rule controller_refines_clocks)
  moreover have "clocks ?c (ts_id (demo_timeshift 5 True)) = Some (Frozen 5)"
    by (simp add: clocks_def register_def newController_def clock_of_def demo_timeshift_def new_timeshift_def)
  ultimately show ?thesis using st by blast
qed

text \<open>
  Advance moves the registered clock by the requested duration from where it stands, and
  the mode it ends in is the request's flag, whatever the mode was before: a frozen clock
  advanced without the flag runs again.
\<close>

theorem advance_moves_the_clock:
  assumes "advanceTimeshift E tid d fr (c, w) = (Inr s', (c', w'))"
  shows "\<exists>k w2 now2 t. clocks c tid = Some k \<and> now2 = fst (ce_now E w2) \<and>
    t = (case k of Frozen u \<Rightarrow> u + d | Running off \<Rightarrow> fst (ce_now E w) + dur_add off d) \<and>
    clocks c' = (clocks c)(tid \<mapsto> (if fr then Frozen t else Running (time_Sub t now2)))"
proof -
  obtain s now1 w1 t where s: "map_of (co_timeshifts c) tid = Some s"
    and t: "if ts_frozen s then t = ts_frozenAt s + d \<and> w1 = w
        else ce_now E w = (now1, w1) \<and> t = now1 + dur_add (ts_offset s) d"
    and run: "updateTimeshift E tid t fr (c, w1) = (Inr s', (c', w'))"
    using advanceTimeshift_update [OF assms] by auto
  have "\<exists>snap us s0 w2. s' = commit_update snap us t (fst (ce_now E w2)) fr s0"
    using run
  proof (cases rule: updateTimeshift_cases)
    case (updated s0 us c1 w2 now w3 s1)
    then show ?thesis by (metis fst_conv sum.inject(2))
  qed simp
  then obtain snap us now2 s0 w2 where s': "s' = commit_update snap us t now2 fr s0"
    and now2: "now2 = fst (ce_now E w2)"
    by blast
  have "clock_of s' = (if fr then Frozen t else Running (time_Sub t now2))"
    by (simp add: s' clock_of_def commit_update_def ts_mark_def ts_mark_frozen_def ts_mark_set_def)
  with updateTimeshift_clocks [OF run]
  have "clocks c' = (clocks c)(tid \<mapsto> (if fr then Frozen t else Running (time_Sub t now2)))"
    by (simp del: fun_upd_apply)
  moreover have "clocks c tid = Some (clock_of s)" using s by (simp add: clocks_def)
  moreover have "t = (case clock_of s of Frozen u \<Rightarrow> u + d | Running off \<Rightarrow> fst (ce_now E w) + dur_add off d)"
    using t by (auto simp: clock_of_def split: if_splits)
  ultimately show ?thesis using now2 by blast
qed

lemma demo_advance:
  "\<exists>s' c'. advanceTimeshift demo_api ''0101010101010101'' d fr (demo_ctl True, demo_kube0) = (Inr s', (c', demo_kube0))"
  using demo_update [of "time_Add (7 * second) d" fr True]
  by (simp add: advanceTimeshift_def getTimeshift_def demo_ctl_def demo_ts_def new_timeshift_def) blast

theorem advance_moves_the_clock_witness:
  "\<exists>s' c' off. advanceTimeshift demo_api ''0101010101010101'' second False (demo_ctl True, demo_kube0) =
     (Inr s', (c', demo_kube0)) \<and> clocks (demo_ctl True) ''0101010101010101'' = Some (Frozen (7 * second)) \<and>
     clocks c' ''0101010101010101'' = Some (Running off)"
proof -
  obtain s' c' where run: "advanceTimeshift demo_api ''0101010101010101'' second False (demo_ctl True, demo_kube0) =
      (Inr s', (c', demo_kube0))"
    using demo_advance by blast
  have "clocks (demo_ctl True) ''0101010101010101'' = Some (Frozen (7 * second))"
    by (simp add: clocks_def demo_ctl_def demo_ts_def new_timeshift_def clock_of_def)
  with advance_moves_the_clock [OF run] run show ?thesis by auto
qed

text \<open>
  A sweep removes exactly the timeshifts whose time to live is over: a timeshift without
  one is never removed, and every other entry is left as it was.
\<close>

theorem sweep_removes_exactly_expired:
  assumes "wf_map (co_timeshifts c)" and "sweepExpired E (c, w) = (c', w')" and "ce_now E w = (now, w1)"
  shows "map_of (co_timeshifts c') tid = (case map_of (co_timeshifts c) tid of
      None \<Rightarrow> None
    | Some s \<Rightarrow> if ts_expiresAt s = zero_time \<or> now \<le> ts_expiresAt s then Some s else None)"
proof -
  have "co_timeshifts c' = filter (\<lambda>kv. \<not> is_expired now (snd kv)) (co_timeshifts c)"
    using sweepExpired_eq [OF assms(2,3)] by blast
  then show ?thesis
    using map_of_filter_keys [OF assms(1), of "\<lambda>s. \<not> is_expired now s" tid]
    by (auto simp: is_expired_def time_IsZero_def time_After_def split: option.splits)
qed

text \<open>A timeshift with a time to live, and one without, at the end of the first one's time.\<close>

definition demo_two :: controller where
  "demo_two = (newController None)\<lparr>co_timeshifts :=
     [(''a'', new_timeshift ''a'' ''default'' ''app=web'' 5 second True 0 []),
      (''b'', new_timeshift ''b'' ''default'' ''app=web'' 5 0 True 0 [])]\<rparr>"

theorem sweep_removes_exactly_expired_witness:
  "\<exists>c' w'. sweepExpired demo_api (demo_two, demo_kube0) = (c', w') \<and>
     map_of (co_timeshifts c') ''a'' = None \<and> map_of (co_timeshifts c') ''b'' \<noteq> None"
proof -
  obtain c' w' where run: "sweepExpired demo_api (demo_two, demo_kube0) = (c', w')" by (rule prod.exhaust)
  have wf: "wf_map (co_timeshifts demo_two)" by (simp add: demo_two_def wf_map_def)
  have now: "ce_now demo_api demo_kube0 = (1000000000 * second, demo_kube0)"
    by (simp add: demo_api_def demo_kube0_def)
  have "map_of (co_timeshifts c') ''a'' = None" "map_of (co_timeshifts c') ''b'' \<noteq> None"
    using sweep_removes_exactly_expired [OF wf run now, of "''a''"]
      sweep_removes_exactly_expired [OF wf run now, of "''b''"]
    by (simp_all add: demo_two_def new_timeshift_def second_def zero_time_def time_Add_def)
  with run show ?thesis by blast
qed

section \<open>Lost agents\<close>

lemma pool_Reset_lost:
  assumes lost: "\<forall>addr srv v. cl_nodes cl addr = Some (srv, v) \<longrightarrow> as_handles srv = []"
    and run: "pool_Reset K dialable ip hid cl = (r, cl')"
  shows "cl_nodes cl' = cl_nodes cl"
proof -
  have rpc: "ns = cl_nodes cl" if "rpc addr (agent_Reset K hid) (cl_nodes cl) = (x, ns)" for addr x ns
  proof (cases "cl_nodes cl addr")
    case None
    with that show ?thesis by (simp add: rpc_def)
  next
    case (Some nd)
    obtain srv v where nd: "nd = (srv, v)" by (rule prod.exhaust)
    with lost Some have "as_handles srv = []" by blast
    then have "snd (agent_Reset K hid nd) = nd" by (simp add: nd agent_Reset_def lookupHandle_def)
    with that Some show ?thesis by (auto simp: rpc_def split: prod.splits)
  qed
  from run show ?thesis
    by (auto simp: pool_Reset_def pool_call_def dest: rpc split: prod.splits sum.splits)
qed

text \<open>
  When every agent has lost its handles (a restart without a drain), deleting a timeshift
  succeeds and the timeshift is gone, yet no process is written to: the containers keep the
  shifted clock and nothing records it any more.
\<close>

theorem delete_after_agent_restart:
  assumes "\<forall>addr srv v. cl_nodes cl addr = Some (srv, v) \<longrightarrow> as_handles srv = []"
    and "map_of (co_timeshifts c) tid \<noteq> None"
    and "deleteTimeshift (deployment K elf dialable api) tid (c, (cl, k)) = (e, (c', (cl', k')))"
  shows "e = None \<and> map_of (co_timeshifts c') tid = None \<and> cl_nodes cl' = cl_nodes cl"
proof -
  let ?E = "deployment K elf dialable api"
  let ?keeps = "\<lambda>w. cl_nodes (fst w) = cl_nodes cl"
  obtain s where s: "map_of (co_timeshifts c) tid = Some s" using assms(2) by blast
  let ?c1 = "c\<lparr>co_timeshifts := AList.delete tid (co_timeshifts c)\<rparr>"
  obtain c2 w1 where p: "persist ?E (add_active (-1) ?c1, (cl, k)) = (c2, w1)" by (rule prod.exhaust)
  have w1: "?keeps w1" using p
    by (auto simp: persist_def flush_def deployment_def on_kube_eq Let_def
        split: option.splits sum.splits prod.splits if_splits)
  have step: "?keeps w'" if keep: "?keeps w" and run: "reset_handle ?E h w = (r, w')" for h w r w'
  proof -
    obtain cl1 k1 where w: "w = (cl1, k1)" by (rule prod.exhaust)
    obtain x where "pool_Reset K dialable (ch_nodeIP h) (ch_agentHandle h) cl1 = (x, fst w')"
      using run by (auto simp: w reset_handle_def pool_agents_def on_cluster_eq split: prod.splits sum.splits)
    from pool_Reset_lost [OF _ this] keep assms(1) show ?thesis by (simp add: w)
  qed
  obtain rs w2 where ms: "map_step (reset_handle ?E) (ts_handles s) w1 = (rs, w2)"
    by (rule prod.exhaust)
  have "?keeps w2" by (rule map_step_invariant [where P = ?keeps, OF step ms w1])
  then have "?keeps (resetHandles ?E s w1)" by (simp add: resetHandles_def ms)
  with assms(3) s p have "cl_nodes cl' = cl_nodes cl"
    by (auto simp: deleteTimeshift_def Let_def)
  with deleteTimeshift_eq [OF assms(3)] s show ?thesis by auto
qed

theorem delete_after_agent_restart_witness:
  "\<exists>c' cl' k'. deleteTimeshift demo_dep ''0101010101010101'' (demo_ctl True, (demo_cluster, demo_kube0)) =
     (None, (c', (cl', k'))) \<and> cl_nodes cl' = cl_nodes demo_cluster"
proof -
  obtain e c' cl' k' where run: "deleteTimeshift demo_dep ''0101010101010101''
      (demo_ctl True, (demo_cluster, demo_kube0)) = (e, (c', (cl', k')))"
    by (metis prod.exhaust)
  have "\<forall>addr srv v. cl_nodes demo_cluster addr = Some (srv, v) \<longrightarrow> as_handles srv = []"
    by (simp add: demo_cluster_def newServer_def)
  moreover have "map_of (co_timeshifts (demo_ctl True)) ''0101010101010101'' \<noteq> None"
    by (simp add: demo_ctl_def)
  ultimately show ?thesis using delete_after_agent_restart [OF _ _ run] run by blast
qed

section \<open>Restarts\<close>

text \<open>
  C24. A controller that starts on the ConfigMap its predecessor flushed has the predecessor's
  registry: the same timeshifts under the same ids, with their handles, and the same gauge.
\<close>

theorem restart_recovers_registry:
  assumes "store_laws E cms" and "registry_ok c" and "co_store c = Some ns"
    and "encode E (co_timeshifts c) = Inr data" and "flush E ns data w = (None, w1)"
    and "cms w2 = cms w1" and "load E ns w2 = (Inr m, w3)"
    and "restore E (newController (Some ns), w2) = (c', w')"
  shows "map_of (co_timeshifts c') = map_of (co_timeshifts c) \<and>
    m_timeshiftsActive (co_met c') = m_timeshiftsActive (co_met c) \<and> w' = w3"
proof -
  have cm: "cms w2 ns storeConfigMapName = Some [(storeDataKey, data)]"
    using flush_stores [OF assms(1,5)] assms(6) by simp
  have wk: "well_keyed (co_timeshifts c)" and n: "m_timeshiftsActive (co_met c) = int (length (co_timeshifts c))"
    using assms(2) by (simp_all add: registry_ok_def)
  have m: "m = decode (map (\<lambda>kv. store_timeshift (snd kv)) (co_timeshifts c))"
    using load_reads [OF assms(1) cm assms(4) [unfolded encode_def] assms(7)] .
  have "map_of m = map_of (co_timeshifts c)" "length m = length (co_timeshifts c)"
    using map_of_decode_store [OF wk] length_decode_store [OF wk] by (simp_all add: m)
  then show ?thesis
    using assms(7,8) n by (auto simp: restore_def newController_def newMetrics_def split: if_splits)
qed

lemma demo_stored_code: "store_timeshift (load_timeshift demo_stored) = demo_stored"
  by (simp add: demo_stored_def store_timeshift_def load_timeshift_def)

theorem restart_recovers_registry_witness:
  "\<exists>c' w'. restore demo_api (newController (Some ''ns''),
       set_cm ''ns'' storeConfigMapName [(storeDataKey, ''[0]'')] demo_kube0) = (c', w') \<and>
     map_of (co_timeshifts c') ''0101010101010101'' = Some (load_timeshift demo_stored) \<and>
     m_timeshiftsActive (co_met c') = 1"
proof -
  let ?m = "[(''0101010101010101'', load_timeshift demo_stored)]"
  let ?c = "(newController (Some ''ns''))\<lparr>co_timeshifts := ?m, co_met := newMetrics\<lparr>m_timeshiftsActive := 1\<rparr>\<rparr>"
  let ?w = "set_cm ''ns'' storeConfigMapName [(storeDataKey, ''[0]'')] demo_kube0"
  obtain c' w' where run: "restore demo_api (newController (Some ''ns''), ?w) = (c', w')" by (rule prod.exhaust)
  have ok: "registry_ok ?c"
    by (simp add: registry_ok_def well_keyed_def wf_map_def load_timeshift_def demo_stored_def)
  have enc: "encode demo_api (co_timeshifts ?c) = Inr ''[0]''"
    by (simp add: encode_def demo_stored_code) (simp add: demo_api_def demo_Marshal_def)
  have fl: "flush demo_api ''ns'' ''[0]'' demo_kube0 = (None, ?w)"
    by (simp add: flush_def demo_api_def demo_kube0_def Let_def)
  have ld: "load demo_api ''ns'' ?w = (Inr (decode [demo_stored]), ?w)"
    by (simp add: load_def demo_api_def set_cm_def demo_kube0_def demo_Unmarshal_def)
  have st: "co_store ?c = Some ''ns''" by (simp add: newController_def)
  from restart_recovers_registry [OF demo_store_laws ok st enc fl refl ld run] run show ?thesis by auto
qed

section \<open>Pod events\<close>

text \<open>Each matched timeshift is injected once and its pod is handled afterwards.\<close>

lemma store_handles_map_of:
  "map_of (co_timeshifts (store_handles tid pod new c)) =
     (map_of (co_timeshifts c))(tid := map_option (replace_handles pod new) (map_of (co_timeshifts c) tid))"
  by (auto simp: store_handles_def fun_eq_iff split: option.splits)

lemma reinject_map_of:
  assumes "reinject E pod m st = st'" and "map_of (co_timeshifts (fst st)) (fst m) = Some s"
  shows "\<exists>t new st0 st1. injectPod E pod t (ts_frozen (snd m)) st0 = (new, st1) \<and>
    inject_failures (fst st0) = inject_failures (fst st) \<and> inject_failures (fst st1) = inject_failures (fst st') \<and>
    map_of (co_timeshifts (fst st')) = (if new = [] then map_of (co_timeshifts (fst st))
      else (map_of (co_timeshifts (fst st)))(fst m \<mapsto> replace_handles pod new s))"
proof -
  obtain c w where st: "st = (c, w)" by (rule prod.exhaust)
  obtain t w1 where t: "ts_effectiveTime E (snd m) w = (t, w1)" by (rule prod.exhaust)
  obtain new c1 w2 where inj: "injectPod E pod t (ts_frozen (snd m)) (c, w1) = (new, (c1, w2))"
    by (metis prod.exhaust)
  have c1: "co_timeshifts c1 = co_timeshifts c"
    using injectPod_registry [OF inj] by (simp add: same_registry_def)
  have "fst st' = (if new = [] then c1 else store_handles (fst m) pod new c1)"
    unfolding assms(1) [symmetric] by (simp add: reinject_def st t inj)
  then have "map_of (co_timeshifts (fst st')) = (if new = [] then map_of (co_timeshifts (fst st))
      else (map_of (co_timeshifts (fst st)))(fst m \<mapsto> replace_handles pod new s))"
    using assms(2) by (simp add: store_handles_map_of c1 st del: fun_upd_apply)
  moreover have "inject_failures (fst (c, w1)) = inject_failures (fst st)"
    "inject_failures (fst (c1, w2)) = inject_failures (fst st')"
    unfolding assms(1) [symmetric] by (simp_all add: reinject_def st t inj)
  ultimately show ?thesis using inj by blast
qed

lemma injectPod_nonempty:
  assumes inj: "injectPod E pod t fr st = (new, st')"
    and ok: "inject_failures (fst st') = inject_failures (fst st)"
    and cs: "cs \<in> set (pod_ContainerStatuses pod)" "injectable cs"
  shows "new \<noteq> []"
proof -
  have "map ch_containerID new = map cs_ContainerID (filter injectable (pod_ContainerStatuses pod))"
    using inject_containers_all [OF inj [unfolded injectPod_def]] ok by simp
  moreover have "filter injectable (pod_ContainerStatuses pod) \<noteq> []" using cs by (auto simp: filter_empty_conv)
  ultimately show ?thesis by auto
qed

lemma fold_reinject_handled:
  assumes ids: "\<And>cs. cs \<in> set (pod_ContainerStatuses pod) \<Longrightarrow> cs_Running cs \<Longrightarrow> cs_ContainerID cs \<noteq> []"
  shows "inject_failures (fst (fold (reinject E pod) ms st)) = inject_failures (fst st) \<Longrightarrow> wf_map ms \<Longrightarrow> (\<And>i s. (i, s) \<in> set ms \<Longrightarrow> map_of (co_timeshifts (fst st)) i = Some s \<and> wants_pod E pod s) \<Longrightarrow>
    (\<And>i s. map_of (co_timeshifts (fst st)) i = Some s \<Longrightarrow> wants_pod E pod s \<Longrightarrow> i \<in> set (keys ms)) \<Longrightarrow>
    \<forall>i s. map_of (co_timeshifts (fst (fold (reinject E pod) ms st))) i = Some s \<longrightarrow> \<not> wants_pod E pod s"
proof (induction ms arbitrary: st)
  case (Cons m ms)
  obtain i s where m: "m = (i, s)" by (rule prod.exhaust)
  let ?st1 = "reinject E pod m st"
  have s: "map_of (co_timeshifts (fst st)) i = Some s" and wants: "wants_pod E pod s"
    using Cons.prems(3) by (auto simp: m)
  obtain t new st0 st1 where inj: "injectPod E pod t (ts_frozen s) st0 = (new, st1)"
    and cnt: "inject_failures (fst st0) = inject_failures (fst st)" "inject_failures (fst st1) = inject_failures (fst ?st1)"
    and upd: "map_of (co_timeshifts (fst ?st1)) = (if new = [] then map_of (co_timeshifts (fst st))
      else (map_of (co_timeshifts (fst st)))(i \<mapsto> replace_handles pod new s))"
    using reinject_map_of [of E pod m st ?st1 s] s by (auto simp: m)
  have quiet: "inject_failures (fst ?st1) = inject_failures (fst st)"
    "inject_failures (fst (fold (reinject E pod) ms ?st1)) = inject_failures (fst ?st1)"
    using Cons.prems(1) reinject_failures [of st E pod m] fold_reinject_failures [of ?st1 E pod ms] by simp_all
  have ok: "inject_failures (fst st1) = inject_failures (fst st0)" using quiet(1) cnt by simp
  obtain cs where cs: "cs \<in> set (pod_ContainerStatuses pod)" "cs_Running cs"
    using wants by (auto simp: wants_pod_def allContainersHandled_def list_all_iff)
  then have "injectable cs" using ids by (simp add: injectable_def)
  with injectPod_nonempty [OF inj ok cs(1)] upd
  have map1: "map_of (co_timeshifts (fst ?st1)) = (map_of (co_timeshifts (fst st)))(i \<mapsto> replace_handles pod new s)"
    by (simp del: fun_upd_apply)
  have done1: "\<not> wants_pod E pod (replace_handles pod new s)"
    using handled_after_reinject [OF inj ok ids] by (simp add: wants_pod_def)
  have wf: "wf_map ms" and i: "i \<notin> set (keys ms)" using Cons.prems(2) by (simp_all add: m wf_map_def)
  have "\<forall>j s'. map_of (co_timeshifts (fst (fold (reinject E pod) ms ?st1))) j = Some s' \<longrightarrow> \<not> wants_pod E pod s'"
  proof (rule Cons.IH [OF quiet(2) wf])
    fix j s' assume j: "(j, s') \<in> set ms"
    then have "j \<noteq> i" using i by force
    with Cons.prems(3) [of j s'] j show "map_of (co_timeshifts (fst ?st1)) j = Some s' \<and> wants_pod E pod s'"
      by (simp add: map1)
  next
    fix j s' assume "map_of (co_timeshifts (fst ?st1)) j = Some s'" "wants_pod E pod s'"
    with Cons.prems(4) [of j s'] done1 show "j \<in> set (keys ms)"
      by (auto simp: map1 [unfolded m] m split: if_splits)
  qed
  then show ?case by simp
qed auto

text \<open>
  C36. Pod events converge: when handling an event for a pod counts no failed injection, a further
  event for the same pod changes nothing and injects nothing. Each running container of the pod
  is assumed to have an id, which Kubernetes sets once a container runs.
\<close>

theorem pod_events_converge:
  assumes "registry_ok (fst st)"
    and "inject_failures (fst (handlePodEvent E pod st)) = inject_failures (fst st)"
    and "\<forall>cs \<in> set (pod_ContainerStatuses pod). cs_Running cs \<longrightarrow> cs_ContainerID cs \<noteq> []"
  shows "handlePodEvent E pod (handlePodEvent E pod st) = handlePodEvent E pod st"
proof (cases "pod_Phase pod = ''Running''")
  case True
  let ?st1 = "handlePodEvent E pod st"
  have wf: "wf_map (co_timeshifts (fst st))" using assms(1) by (simp add: registry_ok_def well_keyed_def)
  have "\<forall>i s. map_of (co_timeshifts (fst (fold (reinject E pod) (matched E pod (fst st)) st))) i = Some s \<longrightarrow>
      \<not> wants_pod E pod s"
  proof (rule fold_reinject_handled)
    show "inject_failures (fst (fold (reinject E pod) (matched E pod (fst st)) st)) = inject_failures (fst st)"
      using assms(2) True by (simp add: handlePodEvent_def)
    show "wf_map (matched E pod (fst st))" using wf by (simp add: matched_def)
    show "map_of (co_timeshifts (fst st)) i = Some s \<and> wants_pod E pod s"
      if "(i, s) \<in> set (matched E pod (fst st))" for i s
      using that wf by (auto simp: matched_def wf_map_mem_iff)
    show "i \<in> set (keys (matched E pod (fst st)))"
      if "map_of (co_timeshifts (fst st)) i = Some s" "wants_pod E pod s" for i s
      using that by (force simp: matched_def dest: map_of_SomeD)
  qed (use assms(3) in auto)
  then have none: "\<forall>i s. map_of (co_timeshifts (fst ?st1)) i = Some s \<longrightarrow> \<not> wants_pod E pod s"
    using True by (simp add: handlePodEvent_def)
  have "wf_map (co_timeshifts (fst ?st1))"
    using handlePodEvent_ok [OF assms(1)] by (simp add: registry_ok_def well_keyed_def)
  with none have "matched E pod (fst ?st1) = []"
    by (force simp: matched_def filter_empty_conv wf_map_mem_iff)
  then show ?thesis by (simp add: handlePodEvent_quiet)
qed (simp add: handlePodEvent_def)

text \<open>
  A restarted container: the timeshift knows the pod's container under its old id, and the agent
  of the node injects it under the new one.
\<close>

definition demo_before_restart :: controller where
  "demo_before_restart = (demo_ctl True)\<lparr>co_timeshifts := [(''0101010101010101'',
     (demo_ts True)\<lparr>ts_handles := [demo_handle_a\<lparr>ch_containerID := ''containerd://old''\<rparr>]\<rparr>)]\<rparr>"

theorem pod_events_converge_witness:
  "\<exists>st'. handlePodEvent demo_dep demo_pod (demo_before_restart, (demo_cluster, demo_kube0)) = st' \<and>
     handlePodEvent demo_dep demo_pod st' = st' \<and>
     map_of (co_timeshifts (fst st')) ''0101010101010101'' \<noteq> map_of (co_timeshifts demo_before_restart) ''0101010101010101''"
proof -
  let ?st = "(demo_before_restart, (demo_cluster, demo_kube0))"
  obtain cl' where inj: "injectPod demo_dep demo_pod (7 * second) True ?st =
      ([\<lparr>ch_pod = ''web-0'', ch_container = ''app'', ch_nodeIP = ''10.0.0.1'',
         ch_containerID = ''containerd://0123456789abcdef0123'', ch_agentHandle = demo_hid\<rparr>],
       (count_inject True demo_before_restart, (cl', demo_kube0)))"
    using demo_pod_inject [of demo_cluster newServer demo_world "7 * second" True demo_before_restart demo_kube0]
    by (force simp: demo_cluster_def NewPool_def)
  have m: "matched demo_dep demo_pod demo_before_restart = co_timeshifts demo_before_restart"
    by (simp add: matched_def demo_before_restart_def demo_ts_def new_timeshift_def wants_pod_def
        demo_pod_def deployment_def demo_api_def allContainersHandled_def known_containers_def demo_handle_a_def
        del: set_filter set_map)
  have ev: "handlePodEvent demo_dep demo_pod ?st = reinject demo_dep demo_pod (hd (co_timeshifts demo_before_restart)) ?st"
    by (simp add: handlePodEvent_def m) (simp add: demo_before_restart_def demo_pod_def)
  have r: "reinject demo_dep demo_pod (hd (co_timeshifts demo_before_restart)) ?st =
      (store_handles ''0101010101010101'' demo_pod
        [\<lparr>ch_pod = ''web-0'', ch_container = ''app'', ch_nodeIP = ''10.0.0.1'',
          ch_containerID = ''containerd://0123456789abcdef0123'', ch_agentHandle = demo_hid\<rparr>]
        (count_inject True demo_before_restart), (cl', demo_kube0))"
    using inj by (simp add: reinject_def ts_effectiveTime_def demo_before_restart_def demo_ts_def new_timeshift_def)
  have ok: "registry_ok (fst ?st)"
    by (simp add: demo_before_restart_def demo_ctl_def demo_ts_def new_timeshift_def registry_ok_def well_keyed_def wf_map_def)
  have quiet: "inject_failures (fst (handlePodEvent demo_dep demo_pod ?st)) = inject_failures (fst ?st)"
    by (simp add: ev r)
  have ids: "\<forall>cs \<in> set (pod_ContainerStatuses demo_pod). cs_Running cs \<longrightarrow> cs_ContainerID cs \<noteq> []"
    by (simp add: demo_pod_def)
  have "map_of (co_timeshifts (fst (handlePodEvent demo_dep demo_pod ?st))) ''0101010101010101'' \<noteq>
      map_of (co_timeshifts demo_before_restart) ''0101010101010101''"
    unfolding ev r by (simp add: store_handles_def count_inject_def demo_before_restart_def replace_handles_def Let_def
        demo_handle_a_def demo_pod_def demo_ts_def new_timeshift_def)
  with pod_events_converge [OF ok quiet ids] show ?thesis by blast
qed

text \<open>
  A pod with two containers of which the second restarts while the agent refuses the first: the
  first one's handle, which is still good, is dropped with the stale one.
\<close>

definition picky_api :: "demo_kube cenv" where
  "picky_api = demo_api\<lparr>ce_agents := yes_agents\<lparr>ag_Inject := \<lambda>n cid t f w.
     (if cid = ''c1'' then Inl (Msg ''ptrace: attach'') else Inr ''h2'', w)\<rparr>\<rparr>"

definition two_pod :: k8s_pod where
  "two_pod = demo_pod\<lparr>pod_ContainerStatuses :=
     [\<lparr>cs_Name = ''one'', cs_ContainerID = ''c1'', cs_Running = True\<rparr>,
      \<lparr>cs_Name = ''two'', cs_ContainerID = ''c2'', cs_Running = True\<rparr>]\<rparr>"

definition two_ctl :: controller where
  "two_ctl = (newController None)\<lparr>co_timeshifts := [(''t'', new_timeshift ''t'' ''default'' ''app=web'' 5 0 True 0
     [demo_handle_a\<lparr>ch_container := ''one'', ch_containerID := ''c1''\<rparr>,
      demo_handle_a\<lparr>ch_container := ''two'', ch_containerID := ''old''\<rparr>])]\<rparr>"

lemma watcher_forgets_refused_container:
  "occupied_key two_ctl (container_key ''default'' ''web-0'' ''one'') \<and>
   \<not> occupied_key (fst (handlePodEvent picky_api two_pod (two_ctl, demo_kube0)))
     (container_key ''default'' ''web-0'' ''one'')"
proof -
  have one: "handlePodEvent picky_api two_pod (two_ctl, demo_kube0) =
      reinject picky_api two_pod (hd (co_timeshifts two_ctl)) (two_ctl, demo_kube0)"
    by (simp add: handlePodEvent_def matched_def two_ctl_def new_timeshift_def wants_pod_def two_pod_def
        demo_pod_def picky_api_def demo_api_def allContainersHandled_def known_containers_def demo_handle_a_def
        del: set_filter set_map)
  have after: "co_timeshifts (fst (handlePodEvent picky_api two_pod (two_ctl, demo_kube0))) =
      [(''t'', (snd (hd (co_timeshifts two_ctl)))\<lparr>ts_handles :=
        [demo_handle_a\<lparr>ch_container := ''two'', ch_containerID := ''c2'', ch_agentHandle := ''h2''\<rparr>]\<rparr>)]"
    unfolding one
    by (simp add: reinject_def injectPod_def two_ctl_def new_timeshift_def two_pod_def demo_pod_def picky_api_def
        demo_api_def yes_agents_def injectable_def ts_effectiveTime_def store_handles_def replace_handles_def
        demo_handle_a_def)
  show ?thesis
    unfolding occupied_key_def after
    by (simp add: two_ctl_def new_timeshift_def container_key_def demo_handle_a_def)
qed

end
