(* ===== verification/SdkClaims.thy ===== *)
theory SdkClaims
  imports DemoHttp RegistryClaims
begin

text \<open>
  The properties of the REST API and of the client library in front of it.
\<close>

section \<open>Requests through the routes\<close>

lemma routes_id:
  assumes "tid \<noteq> []"
  shows "routes J E page \<lparr>rq_Method = ''PATCH'', rq_Path = [''timeshifts'', tid], rq_Query = q, rq_Body = b\<rparr> st =
      track ''PATCH'' ''/timeshifts/{id}'' (handleUpdateTimeshift J E tid b) st"
    and "routes J E page \<lparr>rq_Method = ''DELETE'', rq_Path = [''timeshifts'', tid], rq_Query = q, rq_Body = b\<rparr> st =
      track ''DELETE'' ''/timeshifts/{id}'' (handleDeleteTimeshift J E tid) st"
    and "routes J E page \<lparr>rq_Method = ''GET'', rq_Path = [''timeshifts'', tid], rq_Query = q, rq_Body = b\<rparr> st =
      track ''GET'' ''/timeshifts/{id}'' (handleGetTimeshift J E tid) st"
    and "routes J E page \<lparr>rq_Method = ''GET'', rq_Path = [''timeshifts'', tid, ''status''], rq_Query = q, rq_Body = b\<rparr> st =
      track ''GET'' ''/timeshifts/{id}/status'' (handleTimeshiftStatus J E tid) st"
    and "routes J E page \<lparr>rq_Method = ''POST'', rq_Path = [''timeshifts''], rq_Query = q, rq_Body = b\<rparr> st =
      track ''POST'' ''/timeshifts'' (handleCreateTimeshift J E b) st"
  using assms by (simp_all add: routes_def Let_def)

text \<open>A request of the client is the handler's work, a metrics change and the reading of the reply.\<close>

lemma client_request:
  assumes "routes J E page \<lparr>rq_Method = meth, rq_Path = path_of path,
      rq_Query = nt_query N (query_of path), rq_Body = body\<rparr> st = track meth p h st"
  shows "\<exists>st'. sdk_do J (local_client J E page N base) meth path body dec z st = (read_reply J N dec z (fst (h st)), st') \<and>
    same_but_metrics (snd (h st)) st'"
  using track_same [of meth p h st] assms sdk_do_local by metis

lemma do_timeshift_request:
  assumes r: "routes J E page \<lparr>rq_Method = meth, rq_Path = path_of path,
      rq_Query = nt_query N (query_of path), rq_Body = body\<rparr> st = track meth p h st"
    and run: "do_timeshift J (local_client J E page N base) meth path body st = (Inr T, st')"
  shows "\<exists>r. read_reply J N (Some (js_timeshift_of J)) zero_response (fst (h st)) = Inr r \<and>
    timeshiftFromResponse r = Inr T \<and> same_but_metrics (snd (h st)) st'"
  using client_request [OF r, of base "Some (js_timeshift_of J)" zero_response] run
  by (auto simp: do_timeshift_def split: prod.splits sum.splits)

text \<open>The handler's response for a timeshift, read by the client.\<close>

lemma read_respond:
  assumes "json_laws J" and "code < 400" and "code \<noteq> 204"
    and "read_reply J N (Some (js_timeshift_of J)) zero_response (fst (respond J E code s st)) = Inr r"
  shows "r = fst (toResponse E s (snd st))"
  using assms by (auto simp: respond_def read_reply_def writeJSON_def json_laws_def split: prod.splits)

lemma read_error:
  "400 \<le> re_Code resp \<Longrightarrow> read_reply J N dec z resp \<noteq> Inr r"
  by (simp add: read_reply_def)

lemma toResponse_fields:
  "tr_Frozen (fst (toResponse E s w)) = ts_frozen s" "tr_ID (fst (toResponse E s w)) = ts_id s"
  by (simp_all add: toResponse_def split: prod.splits)

lemma timeshiftFromResponse_fields:
  "timeshiftFromResponse r = Inr T \<Longrightarrow> T_Frozen T = tr_Frozen r \<and> T_ID T = tr_ID r"
  by (auto simp: timeshiftFromResponse_def split: sum.splits if_splits)

text \<open>An update through the API that the client reads as a success.\<close>

lemma update_reply:
  assumes "json_laws J"
    and "read_reply J N (Some (js_timeshift_of J)) zero_response
      (fst (handleUpdateTimeshift J E tid (Some (js_update J req)) st)) = Inr r"
    and "timeshiftFromResponse r = Inr T"
  shows "\<exists>s st1. fst (snd (handleUpdateTimeshift J E tid (Some (js_update J req)) st)) = fst st1 \<and>
    T_Frozen T = ts_frozen s \<and>
    (if ur_Duration req \<noteq> [] then \<exists>d. ParseDuration (ur_Duration req) = Inr d \<and>
        advanceTimeshift E tid d (ur_Freeze req) st = (Inr s, st1)
     else \<exists>t. time_Parse (ur_Time req) = Inr t \<and> updateTimeshift E tid t (ur_Freeze req) st = (Inr s, st1))"
proof -
  have dec: "decode_body (js_update_of J) (Some (js_update J req)) = Inr req"
    using assms(1) by (simp add: decode_body_def json_laws_def)
  have answer: "\<exists>s. res = Inr s \<and> T_Frozen T = ts_frozen s"
    if "read_reply J N (Some (js_timeshift_of J)) zero_response
      (fst (case (res, st1) of (Inl e, st1) \<Rightarrow> (failed_with J e, st1) | (Inr s, st1) \<Rightarrow> respond J E 200 s st1)) = Inr r"
    for res st1
  proof (cases res)
    case (Inl e)
    with that show ?thesis by (auto simp: read_error failed_with_code)
  next
    case (Inr s)
    with read_respond [OF assms(1), of 200 N E s st1 r] that timeshiftFromResponse_fields [OF assms(3)]
    show ?thesis by (simp add: toResponse_fields)
  qed
  have bad: "read_reply J N (Some (js_timeshift_of J)) zero_response (writeError J 400 msg) \<noteq> Inr r" for msg
    by (simp add: read_error)
  show ?thesis
  proof (cases "ur_Duration req \<noteq> []")
    case True
    then obtain d where t: "ur_Time req = []" and d: "ParseDuration (ur_Duration req) = Inr d"
      using assms(2) bad by (auto simp: handleUpdateTimeshift_def dec Let_def split: if_splits sum.splits)
    obtain res c1 w1 where run: "advanceTimeshift E tid d (ur_Freeze req) st = (res, (c1, w1))" by (metis prod.exhaust)
    have eq: "handleUpdateTimeshift J E tid (Some (js_update J req)) st =
        (case (res, (c1, w1)) of (Inl e, st1) \<Rightarrow> (failed_with J e, st1) | (Inr s, st1) \<Rightarrow> respond J E 200 s st1)"
      using True by (simp add: handleUpdateTimeshift_def dec Let_def t d run)
    from answer [OF assms(2) [unfolded eq]] obtain s where "res = Inr s" "T_Frozen T = ts_frozen s" by blast
    with True d run show ?thesis by (auto simp: eq)
  next
    case False
    then obtain t where t: "ur_Time req \<noteq> []" and d: "time_Parse (ur_Time req) = Inr t"
      using assms(2) bad by (auto simp: handleUpdateTimeshift_def dec Let_def split: if_splits sum.splits)
    obtain res c1 w1 where run: "updateTimeshift E tid t (ur_Freeze req) st = (res, (c1, w1))" by (metis prod.exhaust)
    have eq: "handleUpdateTimeshift J E tid (Some (js_update J req)) st =
        (case (res, (c1, w1)) of (Inl e, st1) \<Rightarrow> (failed_with J e, st1) | (Inr s, st1) \<Rightarrow> respond J E 200 s st1)"
      using False t by (simp add: handleUpdateTimeshift_def dec Let_def d run)
    from answer [OF assms(2) [unfolded eq]] obtain s where "res = Inr s" "T_Frozen T = ts_frozen s" by blast
    with False d run show ?thesis by (auto simp: eq)
  qed
qed

lemma client_update:
  assumes "json_laws J" and "plain tid"
    and "do_timeshift J (local_client J E page N base) ''PATCH'' (''/timeshifts/'' @ tid)
      (Some (js_update J req)) st = (Inr T, st')"
  shows "\<exists>s st1. clocks (fst st') = clocks (fst st1) \<and> T_Frozen T = ts_frozen s \<and>
    (if ur_Duration req \<noteq> [] then \<exists>d. ParseDuration (ur_Duration req) = Inr d \<and>
        advanceTimeshift E tid d (ur_Freeze req) st = (Inr s, st1)
     else \<exists>t. time_Parse (ur_Time req) = Inr t \<and> updateTimeshift E tid t (ur_Freeze req) st = (Inr s, st1))"
proof -
  let ?h = "handleUpdateTimeshift J E tid (Some (js_update J req)) st"
  have tid: "tid \<noteq> []" "path_of (''/timeshifts/'' @ tid) = [''timeshifts'', tid]"
    using assms(2) path_of_id by (auto simp: plain_def)
  from do_timeshift_request [OF _ assms(3)] routes_id(1) [OF tid(1)] tid(2)
  obtain r where r: "read_reply J N (Some (js_timeshift_of J)) zero_response (fst ?h) = Inr r"
    "timeshiftFromResponse r = Inr T" "same_but_metrics (snd ?h) st'"
    by metis
  have "clocks (fst st') = clocks (fst (snd ?h))" using r(3) by (rule same_but_metrics_clocks)
  with update_reply [OF assms(1) r(1,2)] show ?thesis by (metis clocks_def)
qed

lemma toResponse_eq:
  "fst (toResponse E s w) = \<lparr>tr_ID = ts_id s, tr_Namespace = ts_namespace s,
     tr_Time = fmt_rfc3339 (ts_eff (fst (ce_now E w)) s), tr_Frozen = ts_frozen s,
     tr_ExpiresAt = (if time_IsZero (ts_expiresAt s) then [] else fmt_rfc3339 (ts_expiresAt s)),
     tr_AppliedTo = appliedTo s\<rparr>"
  by (simp add: toResponse_def ts_effectiveTime_def ts_eff_def split: prod.splits)

text \<open>A timeshift as the client shows it: its times at whole seconds.\<close>

definition shown :: "gotime \<Rightarrow> timeshift \<Rightarrow> Timeshift" where
  "shown now s = \<lparr>T_ID = ts_id s, T_Namespace = ts_namespace s,
     T_Time = ts_eff now s - ts_eff now s mod second, T_Frozen = ts_frozen s,
     T_ExpiresAt = (if ts_expiresAt s = zero_time then zero_time
                    else ts_expiresAt s - ts_expiresAt s mod second),
     T_AppliedTo = appliedTo s\<rparr>"

definition showable :: "gotime \<Rightarrow> timeshift \<Rightarrow> bool" where
  "showable now s \<longleftrightarrow> four_digit_year (ts_eff now s) \<and>
     (ts_expiresAt s = zero_time \<or> four_digit_year (ts_expiresAt s))"

lemma response_shown:
  "showable (fst (ce_now E w)) s \<Longrightarrow>
     timeshiftFromResponse (fst (toResponse E s w)) = Inr (shown (fst (ce_now E w)) s)"
  by (simp add: toResponse_eq timeshiftFromResponse_reads showable_def shown_def time_Unix_def
      minus_mod_eq_div_mult)

lemma respond_read_world:
  assumes laws: "json_laws J" and code: "code < 400" "code \<noteq> 204"
    and routes: "routes J E page \<lparr>rq_Method = meth, rq_Path = path_of path,
      rq_Query = nt_query N (query_of path), rq_Body = body\<rparr> st = track meth p h st"
    and h: "h st = respond J E code s (c1, w1)" and vis: "showable (fst (ce_now E w1)) s"
  shows "\<exists>c' w'. do_timeshift J (local_client J E page N base) meth path body st =
      (Inr (shown (fst (ce_now E w1)) s), (c', w')) \<and> co_timeshifts c' = co_timeshifts c1 \<and>
    w' = snd (toResponse E s w1)"
proof -
  from client_request [OF routes, of base "Some (js_timeshift_of J)" zero_response] obtain st' where
    run: "sdk_do J (local_client J E page N base) meth path body (Some (js_timeshift_of J)) zero_response st =
      (read_reply J N (Some (js_timeshift_of J)) zero_response (fst (h st)), st')"
    and same: "same_but_metrics (snd (h st)) st'" by blast
  have "read_reply J N (Some (js_timeshift_of J)) zero_response (fst (h st)) = Inr (fst (toResponse E s w1))"
    using laws code by (simp add: h read_reply_def respond_def writeJSON_def json_laws_def split: prod.splits)
  then have "do_timeshift J (local_client J E page N base) meth path body st =
      (Inr (shown (fst (ce_now E w1)) s), st')"
    by (simp add: do_timeshift_def run response_shown [OF vis])
  moreover have "co_timeshifts (fst st') = co_timeshifts c1" "snd st' = snd (toResponse E s w1)"
    using same by (simp_all add: same_but_metrics_def h respond_def split: prod.splits)
  ultimately show ?thesis by (metis prod.collapse)
qed

lemma respond_read:
  assumes "json_laws J" and "code < 400" and "code \<noteq> 204"
    and "routes J E page \<lparr>rq_Method = meth, rq_Path = path_of path,
      rq_Query = nt_query N (query_of path), rq_Body = body\<rparr> st = track meth p h st"
    and "h st = respond J E code s (c1, w1)" and "showable (fst (ce_now E w1)) s"
  shows "\<exists>c' w'. do_timeshift J (local_client J E page N base) meth path body st =
      (Inr (shown (fst (ce_now E w1)) s), (c', w')) \<and> co_timeshifts c' = co_timeshifts c1"
  using respond_read_world [OF assms] by blast

text \<open>
  C32. GetTimeshift of the client library returns the registered timeshift as it stands: its id,
  containers and mode, and its clock at the time of the call, cut to whole seconds. The clock and
  the expiry are in years of four digits, which is what RFC 3339 can write.
\<close>

theorem sdk_get_shows_the_clock:
  assumes "json_laws J" and "plain tid" and "map_of (co_timeshifts c) tid = Some s"
    and "showable (fst (ce_now E w)) s"
  shows "\<exists>c' w'. GetTimeshift J (local_client J E page N base) tid (c, w) =
      (Inr \<lparr>T_ID = ts_id s, T_Namespace = ts_namespace s,
         T_Time = ts_eff (fst (ce_now E w)) s - ts_eff (fst (ce_now E w)) s mod second,
         T_Frozen = ts_frozen s,
         T_ExpiresAt = (if ts_expiresAt s = zero_time then zero_time
                        else ts_expiresAt s - ts_expiresAt s mod second),
         T_AppliedTo = appliedTo s\<rparr>, (c', w')) \<and> co_timeshifts c' = co_timeshifts c"
proof -
  have tid: "tid \<noteq> []" "path_of (''/timeshifts/'' @ tid) = [''timeshifts'', tid]"
    using assms(2) path_of_id by (auto simp: plain_def)
  have h: "handleGetTimeshift J E tid (c, w) = respond J E 200 s (c, w)"
    using assms(3) by (simp add: handleGetTimeshift_def getTimeshift_def)
  have r: "routes J E page \<lparr>rq_Method = ''GET'', rq_Path = path_of (''/timeshifts/'' @ tid),
      rq_Query = q, rq_Body = None\<rparr> (c, w) =
      track ''GET'' ''/timeshifts/{id}'' (handleGetTimeshift J E tid) (c, w)" for q
    unfolding tid(2) by (rule routes_id(3) [OF tid(1)])
  from respond_read [OF assms(1) _ _ r h assms(4)] show ?thesis
    by (simp add: GetTimeshift_def shown_def)
qed

text \<open>The registered timeshift of the examples.\<close>

lemma demo_get: "map_of (co_timeshifts (demo_ctl fr)) ''0101010101010101'' = Some (demo_ts fr)"
  by (simp add: demo_ctl_def)

lemma demo_now: "ce_now demo_api demo_kube0 = (1000000000 * second, demo_kube0)"
  by (simp add: demo_api_def demo_kube0_def)

theorem sdk_get_shows_the_clock_witness:
  "\<exists>c' w' T. GetTimeshift demo_json (demo_client demo_api) ''0101010101010101'' (demo_ctl True, demo_kube0) =
      (Inr T, (c', w')) \<and> T_Time T = 7 * second \<and> T_AppliedTo T = [''web-0/app'']"
proof -
  have "four_digit_year (7 * second)" by code_simp
  then have "showable (fst (ce_now demo_api demo_kube0)) (demo_ts True)"
    by (simp add: showable_def demo_ts_def new_timeshift_def ts_eff_def)
  from sdk_get_shows_the_clock [OF demo_json_laws demo_plain demo_get this, where page = PageText and N = demo_net
      and base = "''http://controller''"]
  show ?thesis
    by (force simp: demo_ts_def new_timeshift_def ts_eff_def appliedTo_def demo_handle_a_def)
qed

lemma client_update_success:
  assumes "json_laws J" and "plain tid" and "handleUpdateTimeshift J E tid (Some (js_update J req)) st =
      respond J E 200 s (c1, w1)" and "showable (fst (ce_now E w1)) s"
  shows "\<exists>c' w'. do_timeshift J (local_client J E page N base) ''PATCH'' (''/timeshifts/'' @ tid)
      (Some (js_update J req)) st = (Inr (shown (fst (ce_now E w1)) s), (c', w'))"
proof -
  have tid: "tid \<noteq> []" "path_of (''/timeshifts/'' @ tid) = [''timeshifts'', tid]"
    using assms(2) path_of_id by (auto simp: plain_def)
  have r: "routes J E page \<lparr>rq_Method = ''PATCH'', rq_Path = path_of (''/timeshifts/'' @ tid),
      rq_Query = q, rq_Body = b\<rparr> st =
      track ''PATCH'' ''/timeshifts/{id}'' (handleUpdateTimeshift J E tid b) st" for q b
    unfolding tid(2) by (rule routes_id(1) [OF tid(1)])
  have "\<exists>c' w'. do_timeshift J (local_client J E page N base) ''PATCH'' (''/timeshifts/'' @ tid)
      (Some (js_update J req)) st = (Inr (shown (fst (ce_now E w1)) s), (c', w')) \<and> co_timeshifts c' = co_timeshifts c1"
    by (rule respond_read [OF assms(1) _ _ r assms(3,4)]) simp_all
  then show ?thesis by blast
qed

text \<open>
  C31. AdvanceTimeshift of the client library always leaves the clock running: the registered
  timeshift runs on after a successful call also when it was frozen before.
\<close>

theorem sdk_advance_unfreezes:
  assumes "json_laws J" and "plain tid" and "in_int64 d"
    and "AdvanceTimeshift J (local_client J E page N base) tid d (c, w) = (Inr T, (c', w'))"
  shows "\<not> T_Frozen T \<and> (\<exists>off. clocks c' tid = Some (Running off))"
proof -
  have ne: "dur_String d \<noteq> []" by (simp add: dur_String_def Let_def)
  from client_update [OF assms(1,2) assms(4) [unfolded AdvanceTimeshift_def]]
  obtain s c1 w1 where clk: "clocks c' = clocks c1" "T_Frozen T = ts_frozen s"
    and run: "advanceTimeshift E tid d False (c, w) = (Inr s, (c1, w1))"
    using ne ParseDuration_String [OF assms(3)] by (auto split: if_splits)
  from advanceTimeshift_update [OF run] obtain w2 t
    where "updateTimeshift E tid t False (c, w2) = (Inr s, (c1, w1))" by auto
  from updateTimeshift_clocks [OF this] have "clocks c1 tid = Some (clock_of s)" by simp
  moreover have "\<not> ts_frozen s" using \<open>updateTimeshift E tid t False (c, w2) = (Inr s, (c1, w1))\<close>
    by (cases rule: updateTimeshift_cases) auto
  ultimately show ?thesis using clk by (simp add: clock_of_def)
qed

theorem sdk_advance_unfreezes_witness:
  "\<exists>T c' w'. AdvanceTimeshift demo_json (demo_client demo_api) ''0101010101010101'' second
      (demo_ctl True, demo_kube0) = (Inr T, (c', w')) \<and>
    clocks (demo_ctl True) ''0101010101010101'' = Some (Frozen (7 * second)) \<and>
    (\<exists>off. clocks c' ''0101010101010101'' = Some (Running off))"
proof -
  let ?tid = "''0101010101010101''"
  let ?req = "\<lparr>ur_Time = [], ur_Duration = dur_String second, ur_Freeze = False\<rparr>"
  have ts: "ts_frozen (demo_ts True)" "ts_frozenAt (demo_ts True) = 7 * second"
    by (simp_all add: demo_ts_def new_timeshift_def)
  obtain s' c1 where upd: "updateTimeshift demo_api ?tid (8 * second) False (demo_ctl True, demo_kube0) =
      (Inr s', (c1, demo_kube0))" and s': "s' = ts_mark False (8 * second) (1000000000 * second) (demo_ts True)"
    using demo_update by blast
  have "advanceTimeshift demo_api ?tid second False (demo_ctl True, demo_kube0) = (Inr s', (c1, demo_kube0))"
    using upd by (simp add: advanceTimeshift_def getTimeshift_def demo_get ts time_Add_def second_def)
  moreover have pd: "ParseDuration (dur_String second) = Inr second" "in_int64 second"
    by (rule ParseDuration_String) (simp_all add: in_int64_def min_duration_def max_duration_def second_def)
  moreover have "js_update_of demo_json (js_update demo_json ?req) = Inr ?req" by (simp add: demo_json_def)
  moreover have "dur_String second \<noteq> []" by (simp add: dur_String_def Let_def)
  ultimately have h: "handleUpdateTimeshift demo_json demo_api ?tid (Some (js_update demo_json ?req)) (demo_ctl True, demo_kube0) =
      respond demo_json demo_api 200 s' (c1, demo_kube0)"
    by (simp add: handleUpdateTimeshift_def decode_body_def)
  have "in_int64 (8 * second - 1000000000 * second)"
    by (simp add: in_int64_def min_duration_def max_duration_def second_def)
  then have "ts_eff (1000000000 * second) s' = 8 * second" by (simp add: s' ts_mark_eff)
  then have "showable (fst (ce_now demo_api demo_kube0)) s'"
    using demo_year(3) by (simp add: showable_def demo_now) (simp add: s' demo_ts_def new_timeshift_def)
  from client_update_success [OF demo_json_laws demo_plain h this]
  obtain T c' w' where f: "AdvanceTimeshift demo_json (demo_client demo_api) ?tid second
      (demo_ctl True, demo_kube0) = (Inr T, (c', w'))"
    unfolding AdvanceTimeshift_def by blast
  have "clocks (demo_ctl True) ?tid = Some (Frozen (7 * second))"
    by (simp add: clocks_def demo_get clock_of_def ts)
  with sdk_advance_unfreezes [OF demo_json_laws demo_plain pd(2) f] f show ?thesis by blast
qed

text \<open>
  FreezeTimeshift and UpdateTimeshift of the client library set the clock to the target cut
  to the whole second below it: the API carries seconds only.
\<close>

theorem sdk_freeze_whole_seconds:
  assumes "json_laws J" and "plain tid" and "four_digit_year target"
    and "FreezeTimeshift J (local_client J E page N base) tid target (c, w) = (Inr T, (c', w'))"
  shows "T_Frozen T \<and> clocks c' tid = Some (Frozen (target - target mod second))"
proof -
  have ne: "fmt_rfc3339 target \<noteq> []" by (simp add: fmt_rfc3339_def Let_def split: prod.splits)
  from client_update [OF assms(1,2) assms(4) [unfolded FreezeTimeshift_def sdk_updateTimeshift_def]]
  obtain s c1 w1 where clk: "clocks c' = clocks c1" "T_Frozen T = ts_frozen s"
    and run: "updateTimeshift E tid (time_Unix target * second) True (c, w) = (Inr s, (c1, w1))"
    using ne Parse_fmt_rfc3339 [OF assms(3)] by auto
  have "clocks c1 tid = Some (clock_of s)" using updateTimeshift_clocks [OF run] by simp
  moreover have "clock_of s = Frozen (time_Unix target * second)" "ts_frozen s" using run
    by (cases rule: updateTimeshift_cases;
        simp add: clock_of_def commit_update_def ts_mark_def ts_mark_frozen_def)+
  moreover have "time_Unix target * second = target - target mod second"
    by (simp add: time_Unix_def minus_mod_eq_div_mult)
  ultimately show ?thesis using clk by simp
qed

theorem sdk_freeze_whole_seconds_witness:
  "\<exists>T c' w'. FreezeTimeshift demo_json (demo_client demo_api) ''0101010101010101'' (9 * second + 5)
      (demo_ctl False, demo_kube0) = (Inr T, (c', w')) \<and>
    clocks c' ''0101010101010101'' = Some (Frozen (9 * second))"
proof -
  let ?tid = "''0101010101010101''"
  let ?req = "\<lparr>ur_Time = fmt_rfc3339 (9 * second + 5), ur_Duration = [], ur_Freeze = True\<rparr>"
  obtain s' c1 where run: "updateTimeshift demo_api ?tid (9 * second) True (demo_ctl False, demo_kube0) =
      (Inr s', (c1, demo_kube0))" and s': "s' = ts_mark True (9 * second) (1000000000 * second) (demo_ts False)"
    using demo_update by blast
  have ne: "fmt_rfc3339 (9 * second + 5) \<noteq> []" by (simp add: fmt_rfc3339_def Let_def split: prod.splits)
  have pt: "time_Parse (fmt_rfc3339 (9 * second + 5)) = Inr (9 * second)"
    using Parse_fmt_rfc3339 [OF demo_year(1)] by (simp add: time_Unix_def second_def)
  have "js_update_of demo_json (js_update demo_json ?req) = Inr ?req" by (simp add: demo_json_def)
  then have h: "handleUpdateTimeshift demo_json demo_api ?tid (Some (js_update demo_json ?req)) (demo_ctl False, demo_kube0) =
      respond demo_json demo_api 200 s' (c1, demo_kube0)"
    by (simp add: handleUpdateTimeshift_def decode_body_def ne pt run)
  have "showable (fst (ce_now demo_api demo_kube0)) s'"
    using demo_year(2) by (simp add: showable_def s' ts_eff_def ts_mark_def ts_mark_frozen_def demo_ts_def new_timeshift_def)
  from client_update_success [OF demo_json_laws demo_plain h this]
  obtain T c' w' where f: "FreezeTimeshift demo_json (demo_client demo_api) ?tid (9 * second + 5)
      (demo_ctl False, demo_kube0) = (Inr T, (c', w'))"
    unfolding FreezeTimeshift_def sdk_updateTimeshift_def by blast
  from sdk_freeze_whole_seconds [OF demo_json_laws demo_plain demo_year(1) f] f show ?thesis
    by (simp add: second_def)
qed

end
