(* ===== verification/WithTimeClaims.thy ===== *)
theory WithTimeClaims
  imports SdkClaims
begin

text \<open>
  The scoped helpers of the client library in front of a deployed controller: the wait for the
  injection ends, and WithTime leaves no timeshift behind. And what refused requests leave alone.
\<close>

section \<open>Waiting\<close>

lemma pool_call_error_text:
  assumes "pool_call dialable ip ctx m cl = (Inl e, cl')" and "ctx \<noteq> []"
  shows "err_text e \<noteq> []"
  using assms by (auto simp: pool_call_def clientFor_def Let_def split: prod.splits sum.splits if_splits)

lemma deployed_status_error:
  "ag_GetStatus (ce_agents (deployment K elf dialable api)) n h w = (Inl e, w') \<Longrightarrow> err_text e \<noteq> []"
  by (cases w) (auto simp: on_cluster_eq pool_agents_def pool_GetStatus_def
      elim!: attempt_InlE dest: pool_call_error_text)

lemma container_entry_decides:
  assumes "container_entry (deployment K elf dialable api) h w = (cs, w')" and "se_Error cs = []"
  shows "se_Status cs \<noteq> None"
proof -
  obtain r w1 where g: "ag_GetStatus (ce_agents (deployment K elf dialable api)) (ch_nodeIP h) (ch_agentHandle h) w = (r, w1)"
    by (rule prod.exhaust)
  show ?thesis
  proof (cases r)
    case (Inl e)
    have "se_Error cs = err_text e" using assms(1) by (auto simp: container_entry_def g Inl simp del: deployment_agents)
    with deployed_status_error g Inl assms(2) show ?thesis by metis
  next
    case (Inr hs)
    with assms(1) show ?thesis by (auto simp: container_entry_def g simp del: deployment_agents)
  qed
qed

lemma map_step_all:
  "map_step f xs w = (rs, w') \<Longrightarrow> (\<And>x w r w'. f x w = (r, w') \<Longrightarrow> P r) \<Longrightarrow> r \<in> set rs \<Longrightarrow> P r"
proof (induction xs arbitrary: w rs)
  case (Cons x xs)
  from Cons.prems(1) obtain r1 w1 rs1 where "f x w = (r1, w1)" "map_step f xs w1 = (rs1, w')" "rs = r1 # rs1"
    unfolding map_step_Cons_eq by blast
  with Cons.IH Cons.prems(2,3) show ?case by auto
qed simp

text \<open>The reply to a status request of the client.\<close>

lemma status_reply:
  assumes "json_laws J" and "plain tid"
    and "TimeshiftStatus J (local_client J (deployment K elf dialable api) page N base) tid st = (r, st')"
  shows "(\<forall>x. r = Inr x \<longrightarrow> map_of (co_timeshifts (fst st)) tid \<noteq> None \<and>
      (\<forall>cs \<in> set (sl_Containers x). se_Error cs = [] \<longrightarrow> se_Status cs \<noteq> None)) \<and>
    co_timeshifts (fst st') = co_timeshifts (fst st)"
proof -
  let ?E = "deployment K elf dialable api"
  let ?h = "handleTimeshiftStatus J ?E tid"
  have tid: "tid \<noteq> []" "path_of (''/timeshifts/'' @ tid @ ''/status'') = [''timeshifts'', tid, ''status'']"
    using assms(2) path_of_status by (auto simp: plain_def)
  have route: "routes J ?E page \<lparr>rq_Method = ''GET'', rq_Path = path_of (''/timeshifts/'' @ tid @ ''/status''),
      rq_Query = q, rq_Body = None\<rparr> st = track ''GET'' ''/timeshifts/{id}/status'' ?h st" for q
    unfolding tid(2) by (rule routes_id(4) [OF tid(1)])
  let ?z = "\<lparr>sl_ID = [], sl_Namespace = [], sl_Containers = []\<rparr>"
  obtain st1 where "sdk_do J (local_client J ?E page N base) ''GET'' (''/timeshifts/'' @ tid @ ''/status'') None
      (Some (js_status_of J)) ?z st = (read_reply J N (Some (js_status_of J)) ?z (fst (?h st)), st1)"
    and "same_but_metrics (snd (?h st)) st1"
    using client_request [OF route, where N = N and base = base and dec = "Some (js_status_of J)" and z = ?z]
    by (elim exE conjE) (rule that)
  with assms(3) [unfolded TimeshiftStatus_def]
  have r: "r = read_reply J N (Some (js_status_of J)) ?z (fst (?h st))"
    and same: "same_but_metrics (snd (?h st)) st'" by (metis prod.inject)+
  obtain c w where st: "st = (c, w)" by (rule prod.exhaust)
  show ?thesis
  proof (cases "map_of (co_timeshifts c) tid")
    case None
    then have h: "?h st = (failed_with J (NotFoundError ''timeshift not found''), st)"
      by (simp add: handleTimeshiftStatus_def st getTimeshift_def)
    have "\<nexists>x. r = Inr x" unfolding r h by (simp add: read_error failed_with_code isNotFound_def)
    with same h show ?thesis by (simp add: same_but_metrics_def)
  next
    case (Some s)
    obtain es w1 where es: "map_step (container_entry ?E) (ts_handles s) w = (es, w1)" by (rule prod.exhaust)
    have h: "?h st = (writeJSON 200 (js_status J \<lparr>sl_ID = ts_id s, sl_Namespace = ts_namespace s,
        sl_Containers = es\<rparr>), (c, w1))"
      using Some es by (simp add: handleTimeshiftStatus_def st getTimeshift_def)
    have rx: "r = Inr \<lparr>sl_ID = ts_id s, sl_Namespace = ts_namespace s, sl_Containers = es\<rparr>"
      using assms(1) unfolding r h by (simp add: read_reply_def writeJSON_def json_laws_def)
    have all: "\<forall>cs \<in> set es. se_Error cs = [] \<longrightarrow> se_Status cs \<noteq> None"
      using map_step_all [OF es, of "\<lambda>cs. se_Error cs = [] \<longrightarrow> se_Status cs \<noteq> None"] container_entry_decides by blast
    have "co_timeshifts (fst st') = co_timeshifts (fst st)"
      using same unfolding h by (simp add: same_but_metrics_def st)
    with Some all show ?thesis unfolding rx by (simp add: st)
  qed
qed

text \<open>When each agent answers for its handle, the wait succeeds.\<close>

lemma wait_succeeds:
  assumes "json_laws J" and "plain tid" and "map_of (co_timeshifts c) tid = Some s"
    and es: "map_step (container_entry E) (ts_handles s) w = (es, w1)"
    and "\<forall>cs \<in> set es. se_Error cs = [] \<and> se_Status cs \<noteq> None"
  shows "\<exists>st'. WaitForActive J (local_client J E page N base) tid (c, w) = Some (None, st') \<and>
    co_timeshifts (fst st') = co_timeshifts c"
proof -
  let ?h = "handleTimeshiftStatus J E tid"
  let ?z = "\<lparr>sl_ID = [], sl_Namespace = [], sl_Containers = []\<rparr>"
  have tid: "tid \<noteq> []" "path_of (''/timeshifts/'' @ tid @ ''/status'') = [''timeshifts'', tid, ''status'']"
    using assms(2) path_of_status by (auto simp: plain_def)
  have route: "routes J E page \<lparr>rq_Method = ''GET'', rq_Path = path_of (''/timeshifts/'' @ tid @ ''/status''),
      rq_Query = q, rq_Body = None\<rparr> (c, w) = track ''GET'' ''/timeshifts/{id}/status'' ?h (c, w)" for q
    unfolding tid(2) by (rule routes_id(4) [OF tid(1)])
  have h: "?h (c, w) = (writeJSON 200 (js_status J \<lparr>sl_ID = ts_id s, sl_Namespace = ts_namespace s,
      sl_Containers = es\<rparr>), (c, w1))"
    using assms(3) es by (simp add: handleTimeshiftStatus_def getTimeshift_def)
  obtain st1 where do: "sdk_do J (local_client J E page N base) ''GET'' (''/timeshifts/'' @ tid @ ''/status'') None
      (Some (js_status_of J)) ?z (c, w) = (read_reply J N (Some (js_status_of J)) ?z (fst (?h (c, w))), st1)" and same: "same_but_metrics (snd (?h (c, w))) st1"
    using client_request [OF route, where N = N and base = base and dec = "Some (js_status_of J)" and z = ?z]
    by (elim exE conjE) (rule that)
  have "TimeshiftStatus J (local_client J E page N base) tid (c, w) =
      (Inr \<lparr>sl_ID = ts_id s, sl_Namespace = ts_namespace s, sl_Containers = es\<rparr>, st1)"
    using assms(1) unfolding TimeshiftStatus_def do by (simp add: h read_reply_def writeJSON_def json_laws_def)
  moreover have "wait_scan es True = Inr True" using assms(5) by (simp add: wait_scan_ready)
  moreover have "co_timeshifts (fst st1) = co_timeshifts c" using same by (simp add: h same_but_metrics_def)
  ultimately show ?thesis by (simp add: WaitForActive.simps [of J "local_client J E page N base"])
qed

lemma wait_returns:
  assumes "json_laws J" and "plain tid"
  shows "\<exists>err st'. WaitForActive J (local_client J (deployment K elf dialable api) page N base) tid st = Some (err, st') \<and>
    st' = snd (TimeshiftStatus J (local_client J (deployment K elf dialable api) page N base) tid st) \<and>
    (err = None \<longrightarrow> map_of (co_timeshifts (fst st)) tid \<noteq> None) \<and>
    co_timeshifts (fst st') = co_timeshifts (fst st)"
proof -
  let ?C = "local_client J (deployment K elf dialable api) page N base"
  obtain r st1 where run: "TimeshiftStatus J ?C tid st = (r, st1)" by (rule prod.exhaust)
  note reply = status_reply [OF assms run]
  show ?thesis
  proof (cases r)
    case (Inl e)
    with run reply show ?thesis by (simp add: WaitForActive.simps [of J ?C])
  next
    case (Inr x)
    have dec: "wait_scan (sl_Containers x) True \<noteq> Inr False"
      by (rule wait_scan_decides) (use reply Inr in blast)
    show ?thesis
    proof (cases "wait_scan (sl_Containers x) True")
      case (Inl e)
      with run Inr reply show ?thesis by (simp add: WaitForActive.simps [of J ?C])
    next
      case (Inr b)
      with dec have "b" by simp
      with Inr run \<open>r = Inr x\<close> reply show ?thesis by (simp add: WaitForActive.simps [of J ?C])
    qed
  qed
qed

text \<open>
  C33. Against this controller WaitForActive always returns, and after one poll: each container
  is reported with a status or with an error, never with neither. It succeeds only for a
  registered timeshift and leaves the registry as it was.
\<close>

theorem wait_for_active_returns:
  assumes "json_laws J" and "plain tid"
  shows "\<exists>err st'. WaitForActive J (local_client J (deployment K elf dialable api) page N base) tid st = Some (err, st') \<and>
    st' = snd (TimeshiftStatus J (local_client J (deployment K elf dialable api) page N base) tid st) \<and>
    (err = None \<longrightarrow> map_of (co_timeshifts (fst st)) tid \<noteq> None) \<and>
    co_timeshifts (fst st') = co_timeshifts (fst st)"
  using assms by (rule wait_returns)

theorem wait_for_active_returns_witness:
  "\<exists>err st'. WaitForActive demo_json (demo_client demo_dep) ''0101010101010101''
      (newController None, (demo_cluster, demo_kube0)) = Some (err, st') \<and> err \<noteq> None"
  using wait_for_active_returns [OF demo_json_laws demo_plain, of demo_kernel demo_elf "\<lambda>_. True" demo_api PageText
      demo_net "''http://controller''" "(newController None, (demo_cluster, demo_kube0))"]
  by (auto simp: newController_def)

section \<open>Scoped timeshifts\<close>

lemma fst_on_kube: "fst (on_kube m w) = fst (m (snd w))"
  by (cases w) (simp add: on_kube_def split: prod.splits)

lemma created_id:
  assumes "createTimeshift E ns sel t ttl fr (c, w) = (Inr s, (c', w'))"
    and "\<forall>n w. length (fst (ce_rand E n w)) = n"
  shows "plain (ts_id s)"
  using assms(1)
proof (cases rule: createTimeshift_cases)
  case (created pods w1 hs c1 w2 now w3 tid w4 s1)
  have tid: "tid = hex_encode (fst (ce_rand E 16 w3))" using created(7) by (auto simp: newID_def split: prod.splits)
  have "length (fst (ce_rand E 16 w3)) = 16" using assms(2) by blast
  then have "fst (ce_rand E 16 w3) \<noteq> []" by force
  with created(8,9) plain_hex_encode show ?thesis by (auto simp: new_timeshift_def tid)
qed simp

lemma create_reply:
  assumes "json_laws J"
    and "sdk_createTimeshift J (local_client J E page N base) ns sel t ttl fr st = (Inr T, st')"
  shows "\<exists>t' ttl' s st1. createTimeshift E ns sel t' ttl' fr st = (Inr s, st1) \<and> T_ID T = ts_id s"
proof -
  let ?req = "create_body ns sel t ttl fr"
  let ?h = "handleCreateTimeshift J E (Some (js_create J ?req))"
  have dec: "decode_body (js_create_of J) (Some (js_create J ?req)) = Inr ?req"
    using assms(1) by (simp add: decode_body_def json_laws_def)
  have route: "routes J E page \<lparr>rq_Method = ''POST'', rq_Path = path_of ''/timeshifts'', rq_Query = q,
      rq_Body = Some (js_create J ?req)\<rparr> st = track ''POST'' ''/timeshifts'' ?h st" for q
    unfolding path_of_list by (rule routes_id(5) [of "''x''"]) simp
  from do_timeshift_request [OF route assms(2) [unfolded sdk_createTimeshift_def]]
  obtain r where r: "read_reply J N (Some (js_timeshift_of J)) zero_response (fst (?h st)) = Inr r"
    and T: "timeshiftFromResponse r = Inr T" by blast
  have bad: "read_reply J N (Some (js_timeshift_of J)) zero_response (writeError J code msg) \<noteq> Inr r"
    if "400 \<le> code" for code msg
    using that by (simp add: read_error)
  have fields: "cr_Namespace ?req = ns" "cr_LabelSelector ?req = sel" "cr_Freeze ?req = fr"
    by (simp_all add: create_body_def)
  from r obtain t' where t': "time_Parse (cr_Time ?req) = Inr t'" and ne: "ns \<noteq> []" "sel \<noteq> []"
    by (auto simp: handleCreateTimeshift_def dec bad fields split: if_splits sum.splits)
  from r obtain ttl' where ttl': "create_ttl (cr_TTL ?req) = Inr ttl'"
    by (auto simp: handleCreateTimeshift_def dec bad fields t' ne split: if_splits sum.splits)
  obtain res c1 w1 where run: "createTimeshift E ns sel t' ttl' fr st = (res, (c1, w1))" by (metis prod.exhaust)
  have h: "?h st = (case res of
      Inl e \<Rightarrow> (if isConflict e then writeError J 409 (cerr_text e) else failed_with J e, (c1, w1))
    | Inr s \<Rightarrow> respond J E 201 s (c1, w1))"
    by (simp add: handleCreateTimeshift_def dec fields t' ttl' ne run split: sum.splits)
  show ?thesis
  proof (cases res)
    case (Inl e)
    with r show ?thesis by (auto simp: h bad failed_with_def split: if_splits)
  next
    case (Inr s)
    with r have "r = fst (toResponse E s w1)"
      using read_respond [OF assms(1), of 201 N E s "(c1, w1)" r] by (simp add: h)
    with timeshiftFromResponse_fields [OF T] have "T_ID T = ts_id s" by (simp add: toResponse_fields)
    with run Inr show ?thesis by blast
  qed
qed

lemma delete_reply:
  assumes "plain tid" and "DeleteTimeshift J (local_client J E page N base) tid st = (e, st')"
  shows "map_of (co_timeshifts (fst st')) tid = None \<and>
    (map_of (co_timeshifts (fst st)) tid \<noteq> None \<longrightarrow> e = None)"
proof -
  let ?h = "handleDeleteTimeshift J E tid"
  have tid: "tid \<noteq> []" "path_of (''/timeshifts/'' @ tid) = [''timeshifts'', tid]"
    using assms(1) path_of_id by (auto simp: plain_def)
  have route: "routes J E page \<lparr>rq_Method = ''DELETE'', rq_Path = path_of (''/timeshifts/'' @ tid),
      rq_Query = q, rq_Body = None\<rparr> st = track ''DELETE'' ''/timeshifts/{id}'' ?h st" for q
    unfolding tid(2) by (rule routes_id(2) [OF tid(1)])
  obtain st1 where "sdk_do J (local_client J E page N base) ''DELETE'' (''/timeshifts/'' @ tid) None None () st =
      (read_reply J N None () (fst (?h st)), st1)" and same: "same_but_metrics (snd (?h st)) st1"
    using client_request [OF route, where N = N and base = base and dec = None and z = "()"]
    by (elim exE conjE) (rule that)
  then have st1: "st' = st1" and e: "e = (case read_reply J N None () (fst (?h st)) of Inl e \<Rightarrow> Some e | Inr _ \<Rightarrow> None)"
    using assms(2) by (auto simp: DeleteTimeshift_def split: sum.splits)
  obtain r c' w' where d: "deleteTimeshift E tid st = (r, (c', w'))" by (metis prod.exhaust)
  have "fst (snd (?h st)) = c'" by (simp add: handleDeleteTimeshift_def d split: option.splits)
  then have "co_timeshifts (fst st') = co_timeshifts c'" using same st1 by (simp add: same_but_metrics_def)
  moreover have "deleteTimeshift E tid (fst st, snd st) = (r, (c', w'))" using d by simp
  note eq = deleteTimeshift_eq [OF this]
  then have "map_of (co_timeshifts c') tid = None" by simp
  moreover have "e = None" if "r = None"
    using that by (simp add: e handleDeleteTimeshift_def d read_reply_def)
  ultimately show ?thesis using eq by simp
qed

text \<open>The same calls under a context.\<close>

lemma sdk_do_ctx_local:
  assumes "sdk_do J (local_client J E page N base) meth path body dec z w = (r, w1)"
  shows "\<exists>err. sdk_do J (ctx_client ctx (local_client J E page N base)) meth path body dec z w =
    (if ctx w \<noteq> None then (Inl err, w) else if ctx w1 \<noteq> None then (Inl err, w1) else (r, w1))"
  by (rule sdk_do_ctx [OF _ assms]) (simp add: local_client_def local_http_def)

lemma create_ctx:
  assumes "sdk_createTimeshift J (ctx_client ctx (local_client J E page N base)) ns sel t ttl fr st = (Inr T, st')"
  shows "sdk_createTimeshift J (local_client J E page N base) ns sel t ttl fr st = (Inr T, st')"
proof -
  let ?do = "\<lambda>C. sdk_do J C ''POST'' ''/timeshifts'' (Some (js_create J (create_body ns sel t ttl fr)))
    (Some (js_timeshift_of J)) zero_response st"
  obtain r w1 where "?do (local_client J E page N base) = (r, w1)" by (rule prod.exhaust)
  moreover from sdk_do_ctx_local [OF this] obtain err where
    "?do (ctx_client ctx (local_client J E page N base)) =
       (if ctx st \<noteq> None then (Inl err, st) else if ctx w1 \<noteq> None then (Inl err, w1) else (r, w1))"
    by blast
  ultimately show ?thesis
    using assms by (auto simp: sdk_createTimeshift_def do_timeshift_def split: if_splits)
qed

lemma delete_ctx:
  assumes "DeleteTimeshift J (ctx_client ctx (local_client J E page N base)) tid st = (e, st')"
  shows "if ctx st \<noteq> None then e \<noteq> None \<and> st' = st
    else \<exists>e0. DeleteTimeshift J (local_client J E page N base) tid st = (e0, st') \<and>
      (if ctx st' \<noteq> None then e \<noteq> None else e = e0)"
proof -
  obtain r w1 where do: "sdk_do J (local_client J E page N base) ''DELETE'' (''/timeshifts/'' @ tid) None None () st = (r, w1)"
    by (rule prod.exhaust)
  from sdk_do_ctx_local [OF this, of ctx] assms do show ?thesis
    by (auto simp: DeleteTimeshift_def split: if_splits sum.splits)
qed

lemma delete_ctx_reply:
  assumes "plain tid" and "DeleteTimeshift J (ctx_client ctx (local_client J E page N base)) tid v = (e, st')"
  shows "if ctx v \<noteq> None then e \<noteq> None \<and> st' = v
    else map_of (co_timeshifts (fst st')) tid = None \<and>
      (map_of (co_timeshifts (fst v)) tid \<noteq> None \<longrightarrow> ctx st' = None \<longrightarrow> e = None)"
proof (cases "ctx v")
  case None
  with delete_ctx [OF assms(2)] obtain e0 where
    "DeleteTimeshift J (local_client J E page N base) tid v = (e0, st')"
    and "ctx st' = None \<longrightarrow> e = e0" by (auto split: if_splits)
  with delete_reply [OF assms(1) this(1)] None show ?thesis by simp
next
  case (Some x)
  with delete_ctx [OF assms(2)] show ?thesis by simp
qed

lemma created_plain:
  assumes "json_laws J" and "\<forall>n k. length (fst (ce_rand api n k)) = n"
    and "sdk_createTimeshift J (ctx_client ctx (local_client J (deployment K elf dialable api) page N base))
      ns sel target ttl freeze st = (Inr ts, st1)"
  shows "plain (T_ID ts)"
proof -
  let ?E = "deployment K elf dialable api"
  have rand: "\<forall>n w. length (fst (ce_rand ?E n w)) = n"
    using assms(2) by (simp add: deployment_def fst_on_kube)
  obtain t' ttl' s c2 w2 where "createTimeshift ?E ns sel t' ttl' freeze (fst st, snd st) = (Inr s, (c2, w2))"
    and "T_ID ts = ts_id s"
    using create_reply [OF assms(1) create_ctx [OF assms(3)]] by (metis prod.collapse)
  then show ?thesis using created_id [OF _ rand] by metis
qed

lemma status_ctx:
  assumes "TimeshiftStatus J (ctx_client ctx (local_client J E page N base)) tid st = (r, st')"
  shows "((\<exists>e. r = Inl e) \<and> st' = st) \<or>
    (\<exists>r0. TimeshiftStatus J (local_client J E page N base) tid st = (r0, st') \<and> (r = r0 \<or> (\<exists>e. r = Inl e)))"
proof -
  obtain r0 w1 where do: "TimeshiftStatus J (local_client J E page N base) tid st = (r0, w1)"
    by (rule prod.exhaust)
  from sdk_do_ctx_local [OF this [unfolded TimeshiftStatus_def], of ctx] assms do show ?thesis
    by (auto simp: TimeshiftStatus_def split: if_splits)
qed

lemma wait_returns_ctx:
  assumes "json_laws J" and "plain tid"
  shows "\<exists>err st'. WaitForActive J (ctx_client ctx (local_client J (deployment K elf dialable api) page N base)) tid st =
      Some (err, st') \<and> co_timeshifts (fst st') = co_timeshifts (fst st)"
proof -
  let ?L = "local_client J (deployment K elf dialable api) page N base"
  let ?C = "ctx_client ctx ?L"
  obtain r st1 where run: "TimeshiftStatus J ?C tid st = (r, st1)" by (rule prod.exhaust)
  note unfold = WaitForActive.simps [of J ?C tid st, unfolded run prod.case]
  show ?thesis
  proof (cases r)
    case (Inl e)
    have "co_timeshifts (fst st1) = co_timeshifts (fst st)"
      using status_ctx [OF run]
    proof
      assume "\<exists>r0. TimeshiftStatus J ?L tid st = (r0, st1) \<and> (r = r0 \<or> (\<exists>e. r = Inl e))"
      then show ?thesis using status_reply [OF assms] by blast
    qed simp
    then show ?thesis unfolding unfold Inl sum.case by blast
  next
    case (Inr x)
    with status_ctx [OF run] have "TimeshiftStatus J ?L tid st = (Inr x, st1)" by auto
    note reply = status_reply [OF assms this]
    have "wait_scan (sl_Containers x) True \<noteq> Inr False"
      by (rule wait_scan_decides) (use reply in blast)
    then show ?thesis
      using Inr reply unfolding unfold
      by (cases "wait_scan (sl_Containers x) True") (auto split: sum.split)
  qed
qed

text \<open>A create of the examples through the client, and the same under a context that does not end.\<close>

lemma ctx_http_idle: "ctx_http (\<lambda>_. None) H = H"
  by (simp add: ctx_http_def)

lemma ctx_client_idle: "ctx_client (\<lambda>_. None) C = C"
  by (simp add: ctx_client_def ctx_http_idle)

lemma demo_status_known:
  assumes "pool_live ''10.0.0.1'' demo_hid cl"
  shows "\<exists>hs w. ag_GetStatus (ce_agents demo_dep) ''10.0.0.1'' demo_hid (cl, k) = (Inr hs, w)"
proof -
  obtain srv w e where nd: "cl_nodes cl (node_addr (cl_pool cl) ''10.0.0.1'') = Some (srv, w)"
    and e: "map_of (as_handles srv) demo_hid = Some e"
    using assms by (auto simp: pool_live_def known_def split: option.splits)
  have "demo_hid \<noteq> []" by (simp add: demo_hid_def hex_encode_def)
  with nd e show ?thesis
    by (auto simp: on_cluster_def pool_agents_def pool_GetStatus_def attempt_def pool_call_def clientFor_def
        rpc_def agent_Status_def lookupHandle_def Let_def)
qed

lemma demo_sdk_create:
  "\<exists>T st1. sdk_createTimeshift demo_json (ctx_client (\<lambda>_. None) (demo_client demo_dep)) ''default'' ''app=web''
      (9 * second) second True (newController None, (demo_cluster, demo_kube0)) = (Inr T, st1) \<and>
    T_ID T = ts_id (demo_created_ts (9 * second) second True) \<and>
    (\<exists>st2. WaitForActive demo_json (ctx_client (\<lambda>_. None) (demo_client demo_dep)) (T_ID T) st1 = Some (None, st2)) \<and>
    map_of (co_timeshifts (fst st1)) (ts_id (demo_created_ts (9 * second) second True)) \<noteq> None"
proof -
  let ?st = "(newController None, (demo_cluster, demo_kube0))"
  let ?req = "create_body ''default'' ''app=web'' (9 * second) second True"
  let ?s = "demo_created_ts (9 * second) second True"
  have "in_int64 second" by (simp add: in_int64_def min_duration_def max_duration_def second_def)
  note dur = ParseDuration_String [OF this]
  have "dur_String second \<noteq> []" by (simp add: dur_String_def Let_def)
  with dur have ttl: "create_ttl (cr_TTL ?req) = Inr second"
    by (simp add: create_body_def create_ttl_def second_def)
  have "time_Unix (9 * second) * second = 9 * second" by code_simp
  then have t: "time_Parse (cr_Time ?req) = Inr (9 * second)"
    using Parse_fmt_rfc3339 [OF demo_year(2)] by (simp add: create_body_def)
  have dec: "decode_body (js_create_of demo_json) (Some (js_create demo_json ?req)) = Inr ?req"
    by (simp add: decode_body_def demo_json_def)
  have fields: "cr_Namespace ?req = ''default''" "cr_LabelSelector ?req = ''app=web''" "cr_Freeze ?req"
    by (simp_all add: create_body_def)
  obtain cl' where run: "createTimeshift demo_dep ''default'' ''app=web'' (9 * second) second True ?st =
      (Inr ?s, (register ?s (count_inject True (newController None)), (cl', demo_kube0)))"
    using demo_create_ttl by blast
  let ?c1 = "register ?s (count_inject True (newController None))"
  let ?h = "handleCreateTimeshift demo_json demo_dep (Some (js_create demo_json ?req))"
  have h: "?h ?st = respond demo_json demo_dep 201 ?s (?c1, (cl', demo_kube0))"
    by (simp add: handleCreateTimeshift_def dec fields t ttl run)
  have "four_digit_year (time_Add (1000000000 * second) second)" by code_simp
  then have vis: "showable (fst (ce_now demo_dep (cl', demo_kube0))) ?s"
    using demo_year(2) by (simp add: showable_def new_timeshift_def ts_eff_def)
  have route: "routes demo_json demo_dep PageText \<lparr>rq_Method = ''POST'', rq_Path = path_of ''/timeshifts'',
      rq_Query = q, rq_Body = Some (js_create demo_json ?req)\<rparr> ?st = track ''POST'' ''/timeshifts'' ?h ?st" for q
    unfolding path_of_list by (rule routes_id(5) [of "''x''"]) simp
  have "\<exists>c' w'. do_timeshift demo_json (demo_client demo_dep) ''POST'' ''/timeshifts'' (Some (js_create demo_json ?req)) ?st =
      (Inr (shown (fst (ce_now demo_dep (cl', demo_kube0))) ?s), (c', w')) \<and> co_timeshifts c' = co_timeshifts ?c1 \<and>
      w' = snd (toResponse demo_dep ?s (cl', demo_kube0))"
    by (rule respond_read_world [OF demo_json_laws _ _ route h vis]) simp_all
  moreover have "snd (toResponse demo_dep ?s (cl', demo_kube0)) = (cl', demo_kube0)"
    by (simp add: toResponse_def ts_effectiveTime_def new_timeshift_def)
  ultimately obtain c' where created: "do_timeshift demo_json (demo_client demo_dep) ''POST'' ''/timeshifts''
      (Some (js_create demo_json ?req)) ?st = (Inr (shown (fst (ce_now demo_dep (cl', demo_kube0))) ?s), (c', (cl', demo_kube0)))"
    and c': "co_timeshifts c' = co_timeshifts ?c1"
    by auto
  have reg: "map_of (co_timeshifts c') (ts_id ?s) = Some ?s"
    by (simp add: c' register_def add_active_def Let_def)
  have plain: "plain (ts_id ?s)" by (simp add: new_timeshift_def plain_hex_encode)
  have "pool_live ''10.0.0.1'' demo_hid cl'"
    using deployed.created_handles_live [OF run, of "hd (ts_handles ?s)"]
    by (simp add: deployed.handle_live_def node_live_def new_timeshift_def)
  from demo_status_known [OF this] obtain hs w1 where
    "ag_GetStatus (ce_agents demo_dep) ''10.0.0.1'' demo_hid (cl', demo_kube0) = (Inr hs, w1)" by blast
  then have "\<exists>es w1. map_step (container_entry demo_dep) (ts_handles ?s) (cl', demo_kube0) = (es, w1) \<and>
      (\<forall>cs \<in> set es. se_Error cs = [] \<and> se_Status cs \<noteq> None)"
    by (simp add: new_timeshift_def container_entry_def del: deployment_agents)
  then obtain st2 where "WaitForActive demo_json (demo_client demo_dep) (ts_id ?s) (c', (cl', demo_kube0)) = Some (None, st2)"
    using wait_succeeds [OF demo_json_laws plain reg] by metis
  with created reg show ?thesis by (auto simp: ctx_client_idle sdk_createTimeshift_def shown_def simp del: split_paired_Ex)
qed

text \<open>
  C25. WithTime and WithFrozenTime in front of a deployed controller, under a context that may end
  at any moment, after a successful create. The wait for the injection returns. If it fails, its
  error is returned after a delete; otherwise the callback is called. If that returns, with or
  without an error, a delete follows: when the context has not ended by then the timeshift is no
  longer registered afterwards, and the callback's own result is returned if the timeshift had
  still been registered and the reply arrives. Once the context has ended no delete is sent, the
  registry stays as the callback left it and an error is returned. A callback that panics takes
  WithTime with it, with no delete, and one that never ends keeps it from returning.
\<close>

theorem with_time_leaves_nothing:
  assumes C: "C = ctx_client ctx (local_client J (deployment K elf dialable api) page N base)"
    and "json_laws J" and "\<forall>n k. length (fst (ce_rand api n k)) = n" and "0 < ttl"
    and c: "sdk_createTimeshift J C ns sel target ttl freeze st = (Inr ts, st1)"
  shows "let registered = (\<lambda>st. map_of (co_timeshifts (fst st)) (T_ID ts) \<noteq> None);
      run = withTimeMode J C ns sel target ttl freeze fn st;
      deleted = (\<lambda>v st'. if ctx v = None then \<not> registered st' else st' = v)
    in \<exists>err st2. WaitForActive J C (T_ID ts) st1 = Some (err, st2) \<and>
      co_timeshifts (fst st2) = co_timeshifts (fst st1) \<and>
      (case err of
         Some e \<Rightarrow> \<exists>st'. run = Some (Returns (Some (SdkWrap ''sdk: WithTime'' e)), st') \<and> deleted st2 st'
       | None \<Rightarrow>
           (case fn ts st2 of
              None \<Rightarrow> run = None
            | Some (Unwinds, st3) \<Rightarrow> run = Some (Unwinds, st3)
            | Some (Returns fnErr, st3) \<Rightarrow>
                \<exists>err' st'. run = Some (Returns err', st') \<and> deleted st3 st' \<and>
                  (ctx st3 \<noteq> None \<longrightarrow> err' \<noteq> None) \<and>
                  (registered st3 \<and> ctx st3 = None \<and> ctx st' = None \<longrightarrow> err' = fnErr)))"
proof -
  let ?run = "withTimeMode J C ns sel target ttl freeze fn st"
  have plain: "plain (T_ID ts)" by (rule created_plain [OF assms(2,3) c [unfolded C]])
  note del = delete_ctx_reply [OF plain, of J ctx "deployment K elf dialable api" page N base, folded C]
  obtain err st2 where wait: "WaitForActive J C (T_ID ts) st1 = Some (err, st2)"
    and same: "co_timeshifts (fst st2) = co_timeshifts (fst st1)"
    using wait_returns_ctx [OF assms(2) plain] unfolding C by blast
  note run = withTimeMode_def [of J C ns sel target ttl freeze fn st, unfolded c wait prod.case sum.case option.case]
  show ?thesis
  proof (cases err)
    case (Some e)
    obtain d st' where d: "DeleteTimeshift J C (T_ID ts) st2 = (d, st')" by (rule prod.exhaust)
    have "?run = Some (Returns (Some (SdkWrap ''sdk: WithTime'' e)), st')"
      using assms(4) by (simp add: run Some d)
    moreover have "if ctx st2 = None then map_of (co_timeshifts (fst st')) (T_ID ts) = None else st' = st2"
      using del [OF d] by (simp split: if_splits)
    ultimately show ?thesis using wait same
      unfolding Let_def Some by (intro exI [of _ "Some e"] exI [of _ st2]) (auto simp del: split_paired_Ex)
  next
    case None
    show ?thesis
    proof (cases "\<exists>fnErr st3. fn ts st2 = Some (Returns fnErr, st3)")
      case True
      then obtain fnErr st3 where f: "fn ts st2 = Some (Returns fnErr, st3)" by blast
      obtain d st' where d: "DeleteTimeshift J C (T_ID ts) st3 = (d, st')" by (rule prod.exhaust)
      have "\<exists>err'. ?run = Some (Returns err', st') \<and> (d = None \<longrightarrow> err' = fnErr) \<and> (d \<noteq> None \<longrightarrow> err' \<noteq> None)"
        using assms(4) by (simp add: run None f d split: option.splits)
      then obtain err' where "?run = Some (Returns err', st')" "d = None \<Longrightarrow> err' = fnErr" "d \<noteq> None \<Longrightarrow> err' \<noteq> None"
        by blast
      moreover have "if ctx st3 = None then map_of (co_timeshifts (fst st')) (T_ID ts) = None else st' = st3"
        "ctx st3 \<noteq> None \<Longrightarrow> d \<noteq> None"
        "map_of (co_timeshifts (fst st3)) (T_ID ts) \<noteq> None \<and> ctx st3 = None \<and> ctx st' = None \<Longrightarrow> d = None"
        using del [OF d] by (simp_all split: if_splits)
      ultimately show ?thesis using wait same f
        unfolding Let_def None by (intro exI [of _ "None"] exI [of _ st2]) (auto simp del: split_paired_Ex)
    next
      case False
      then show ?thesis using assms(4) wait same None
        by (auto simp: run Let_def split: option.splits call_end.splits)
    qed
  qed
qed

text \<open>
  A callback that returns leaves nothing on the cluster of the examples; one that panics leaves
  the timeshift.
\<close>

theorem with_time_leaves_nothing_witness:
  "let run = (\<lambda>fn. withTimeMode demo_json (ctx_client (\<lambda>_. None) (demo_client demo_dep)) ''default'' ''app=web''
      (9 * second) second True fn (newController None, (demo_cluster, demo_kube0)));
     registered = (\<lambda>st. map_of (co_timeshifts (fst st)) (hex_encode (replicate 16 1)) \<noteq> None)
   in (\<exists>err st'. run (\<lambda>ts st. Some (Returns None, st)) = Some (Returns err, st') \<and> \<not> registered st') \<and>
      (\<exists>st'. run (\<lambda>ts st. Some (Unwinds, st)) = Some (Unwinds, st') \<and> registered st')"
proof -
  let ?st = "(newController None, (demo_cluster, demo_kube0))"
  let ?C = "ctx_client (\<lambda>_. None) (demo_client demo_dep)"
  let ?s = "demo_created_ts (9 * second) second True"
  have rand: "\<forall>n k. length (fst (ce_rand demo_api n k)) = n" by (simp add: demo_api_def)
  have pos: "0 < second" by (simp add: second_def)
  obtain T st1 st2 where create: "sdk_createTimeshift demo_json ?C ''default'' ''app=web'' (9 * second) second True ?st = (Inr T, st1)"
    and T: "T_ID T = ts_id ?s" and wait: "WaitForActive demo_json ?C (T_ID T) st1 = Some (None, st2)"
    and reg: "map_of (co_timeshifts (fst st1)) (ts_id ?s) \<noteq> None"
    using demo_sdk_create by blast
  have id: "ts_id ?s = hex_encode (replicate 16 1)" by (simp add: new_timeshift_def)
  note claim = with_time_leaves_nothing [OF refl demo_json_laws rand pos create, unfolded wait T id]
  have "\<exists>err st'. withTimeMode demo_json ?C ''default'' ''app=web'' (9 * second) second True
      (\<lambda>ts st. Some (Returns None, st)) ?st = Some (Returns err, st') \<and>
      map_of (co_timeshifts (fst st')) (hex_encode (replicate 16 1)) = None"
    using claim [of "\<lambda>ts st. Some (Returns None, st)"] wait T id by (auto simp: Let_def)
  moreover have "withTimeMode demo_json ?C ''default'' ''app=web'' (9 * second) second True
      (\<lambda>ts st. Some (Unwinds, st)) ?st = Some (Unwinds, st2) \<and> co_timeshifts (fst st2) = co_timeshifts (fst st1)"
    using claim [of "\<lambda>ts st. Some (Unwinds, st)"] wait T id by (auto simp: Let_def)
  ultimately show ?thesis using reg id unfolding Let_def by (metis (no_types, lifting))
qed

section \<open>Refused requests\<close>

text \<open>
  C37. What a create answers is what it did: with 201 exactly one timeshift was registered, the
  one of the response; with any other status the registry is as before, and with 400 neither
  the controller nor the cluster was touched.
\<close>

theorem create_status_tells_effect:
  assumes "handleCreateTimeshift J E body (c, w) = (resp, (c', w'))"
  shows "(re_Code resp = 201 \<longrightarrow> (\<exists>s. co_timeshifts c' = AList.update (ts_id s) s (co_timeshifts c) \<and>
      (\<exists>v. resp = writeJSON 201 (js_timeshift J (fst (toResponse E s v)))))) \<and>
    (re_Code resp \<noteq> 201 \<longrightarrow> co_timeshifts c' = co_timeshifts c) \<and>
    (re_Code resp = 400 \<longrightarrow> c' = c \<and> w' = w)"
proof (cases "\<exists>req target ttl. decode_body (js_create_of J) body = Inr req \<and> cr_Namespace req \<noteq> [] \<and>
    cr_LabelSelector req \<noteq> [] \<and> time_Parse (cr_Time req) = Inr target \<and> create_ttl (cr_TTL req) = Inr ttl")
  case False
  then have "\<exists>msg. (resp, (c', w')) = (writeError J 400 msg, (c, w))"
    using assms unfolding handleCreateTimeshift_def
    by (auto split: sum.splits if_splits)
  then show ?thesis by auto
next
  case True
  then obtain req target ttl where req: "decode_body (js_create_of J) body = Inr req" "cr_Namespace req \<noteq> []"
    "cr_LabelSelector req \<noteq> []" "time_Parse (cr_Time req) = Inr target" "create_ttl (cr_TTL req) = Inr ttl"
    by blast
  obtain res c1 w1 where run: "createTimeshift E (cr_Namespace req) (cr_LabelSelector req) target ttl
      (cr_Freeze req) (c, w) = (res, (c1, w1))" by (metis prod.exhaust)
  have h: "(resp, (c', w')) = (case res of
      Inl e \<Rightarrow> (if isConflict e then writeError J 409 (cerr_text e) else failed_with J e, (c1, w1))
    | Inr s \<Rightarrow> respond J E 201 s (c1, w1))"
    using assms by (simp add: handleCreateTimeshift_def req run split: sum.splits)
  from run show ?thesis
  proof (cases rule: createTimeshift_cases)
    case (failed e)
    with h show ?thesis by (auto simp: same_registry_def failed_with_code split: if_splits)
  next
    case (created pods w2 hs c2 w3 now w4 tid w5 s)
    have "c1 = register s c2" using persist_eqD [OF created(11)] .
    then have "co_timeshifts c1 = AList.update (ts_id s) s (co_timeshifts c)"
      using created(10) by (simp add: register_def same_registry_def)
    moreover have "resp = writeJSON 201 (js_timeshift J (fst (toResponse E s w1)))" "c' = c1"
      using h created(9) by (auto simp: respond_def split: prod.splits)
    ultimately show ?thesis by (auto simp: writeJSON_def)
  qed
qed

theorem create_status_tells_effect_witness:
  "\<exists>resp. handleCreateTimeshift demo_json demo_api None (demo_ctl True, demo_kube0) =
     (resp, (demo_ctl True, demo_kube0)) \<and> re_Code resp = 400"
proof -
  obtain resp c' w' where run: "handleCreateTimeshift demo_json demo_api None (demo_ctl True, demo_kube0) =
      (resp, (c', w'))" by (metis prod.exhaust)
  have "re_Code resp = 400" using run by (simp add: handleCreateTimeshift_def decode_body_def) auto
  with create_status_tells_effect [OF run] run show ?thesis by blast
qed

text \<open>
  GET /resolve previews a create: every container that a create on the same pods injects is
  listed under its pod and node, and listing changes nothing.
\<close>

theorem resolve_previews_create:
  assumes "inject_pods E pods t fr st = (hs, st')" and "h \<in> set hs"
  shows "\<exists>rp \<in> set (resolve_pods pods). rp_Name rp = ch_pod h \<and> rp_NodeIP rp = ch_nodeIP h \<and>
    ch_container h \<in> set (rp_Containers rp)"
proof -
  from inject_pods_handles [OF assms] obtain pod cs where "pod \<in> set pods"
    "cs \<in> set (pod_ContainerStatuses pod)" "injectable cs" "ch_pod h = pod_Name pod"
    "ch_nodeIP h = pod_HostIP pod" "ch_container h = cs_Name cs"
    by blast
  moreover from this have "cs_Name cs \<in> set (running_names pod)"
    by (auto simp: running_names_def injectable_def)
  moreover from this have "running_names pod \<noteq> []" by auto
  ultimately show ?thesis by (auto simp: resolve_pods_def resolve_pod_def intro!: bexI [of _ "resolve_pod pod"])
qed

theorem resolve_previews_create_witness:
  "\<exists>hs st'. inject_pods demo_api [demo_pod] 5 True (newController None, demo_kube0) = (hs, st') \<and>
     (\<exists>rp \<in> set (resolve_pods [demo_pod]). ch_container (hd hs) \<in> set (rp_Containers rp))"
proof -
  obtain st' where run: "inject_pods demo_api [demo_pod] 5 True (newController None, demo_kube0) = ([demo_handle_a], st')"
    by (simp add: inject_pods_def injectPod_def demo_pod_def injectable_def demo_api_def yes_agents_def
        demo_handle_a_def)
  have "demo_handle_a \<in> set [demo_handle_a]" by simp
  from resolve_previews_create [OF run this] run show ?thesis by auto
qed

end
