(* ===== verification/Interleave.thy ===== *)
theory Interleave
  imports ControllerSteps
begin

text \<open>
  The controller with requests in flight. Handlers, sweeper and pod watcher run as goroutines; a
  request is cut where the code takes or releases the lock or calls out, so that the turns of
  different requests interleave. A turn is a function, so a schedule can be evaluated.

  A timeshift is a shared object behind a pointer. An id is never used twice, so it serves as the
  pointer; an object that was removed from the registry while requests still hold it lives on in
  a second map.
\<close>

section \<open>Shared state\<close>

type_synonym 'a shared = "controller \<times> (string, timeshift) gomap \<times> 'a"

definition deref :: "string \<Rightarrow> 'a shared \<Rightarrow> timeshift option" where
  "deref tid st = (case st of (c, g, w) \<Rightarrow>
     case map_of (co_timeshifts c) tid of Some s \<Rightarrow> Some s | None \<Rightarrow> map_of g tid)"

text \<open>A write through the pointer.\<close>

definition mutate :: "string \<Rightarrow> (timeshift \<Rightarrow> timeshift) \<Rightarrow> 'a shared \<Rightarrow> 'a shared" where
  "mutate tid f st = (case st of (c, g, w) \<Rightarrow>
     case map_of (co_timeshifts c) tid of
       Some s \<Rightarrow> (c\<lparr>co_timeshifts := AList.update tid (f s) (co_timeshifts c)\<rparr>, g, w)
     | None \<Rightarrow> (case map_of g tid of
           Some s \<Rightarrow> (c, AList.update tid (f s) g, w)
         | None \<Rightarrow> st))"

section \<open>Where a request stands\<close>

datatype call =
    Create string string gotime duration bool
  | Checking string string gotime duration bool "k8s_pod list"
  | Injecting string string gotime duration bool "(k8s_pod \<times> container_status) list" "containerHandle list"
  | Stamping string string gotime duration bool "containerHandle list"
  | Registering string string gotime duration bool "containerHandle list" gotime string
  | Counting string
  | Update string gotime bool
  | Snapshot string gotime bool
  | Setting string gotime bool "containerHandle list" nat "(nat \<times> string) list"
  | Repairing string gotime bool "containerHandle list" nat "(nat \<times> string) list"
  | Committing string gotime bool "containerHandle list" "(nat \<times> string) list" gotime
  | Advance string duration bool
  | Measuring string duration bool
  | Delete string
  | Dropping string
  | Sweep
  | Sweeping gotime
  | Expiring "string list"
  | Resetting string nat call
  | PodEvent k8s_pod
  | Rejoining k8s_pod "(string \<times> timeshift) list"
  | Reinjecting k8s_pod string gotime bool "container_status list" "containerHandle list" "(string \<times> timeshift) list"
  | Rejoined k8s_pod string "containerHandle list" "(string \<times> timeshift) list"
  | Encoding call
  | Flushing string string call
  | Writing bool string string call
  | Return string
  | Returned "cerr + timeshift option"

text \<open>The requests that arrive from outside.\<close>

fun request :: "call \<Rightarrow> bool" where
  "request (Create ns sel t ttl fr) = True"
| "request (Update tid t fr) = True"
| "request (Advance tid d fr) = True"
| "request (Delete tid) = True"
| "request Sweep = True"
| "request (PodEvent pod) = True"
| "request k = False"

section \<open>The sections between two lock operations\<close>

definition handle_for :: "k8s_pod \<Rightarrow> container_status \<Rightarrow> string \<Rightarrow> containerHandle" where
  "handle_for pod cs hid = \<lparr>ch_pod = pod_Name pod, ch_container = cs_Name cs, ch_nodeIP = pod_HostIP pod,
     ch_containerID = cs_ContainerID cs, ch_agentHandle = hid\<rparr>"

definition pod_containers :: "k8s_pod list \<Rightarrow> (k8s_pod \<times> container_status) list" where
  "pod_containers pods =
     concat (map (\<lambda>pod. map (Pair pod) (filter injectable (pod_ContainerStatuses pod))) pods)"

text \<open>One call to an agent for a container, with its count; the handle when it succeeds.\<close>

definition inject_one :: "'a cenv \<Rightarrow> k8s_pod \<Rightarrow> container_status \<Rightarrow> gotime \<Rightarrow> bool \<Rightarrow> 'a shared
    \<Rightarrow> containerHandle list \<times> 'a shared" where
  "inject_one E pod cs t fr st = (case st of (c, g, w) \<Rightarrow>
     case ag_Inject (ce_agents E) (pod_HostIP pod) (cs_ContainerID cs) t fr w of
       (Inl e, w1) \<Rightarrow> ([], (count_inject False c, g, w1))
     | (Inr hid, w1) \<Rightarrow> ([handle_for pod cs hid], (count_inject True c, g, w1)))"

text \<open>The write under the lock of a create, before the gauge is increased.\<close>

definition put_timeshift :: "timeshift \<Rightarrow> 'a shared \<Rightarrow> 'a shared" where
  "put_timeshift s st = (case st of (c, g, w) \<Rightarrow>
     (c\<lparr>co_timeshifts := AList.update (ts_id s) s (co_timeshifts c)\<rparr>, g, w))"

definition gauge_add :: "int \<Rightarrow> 'a shared \<Rightarrow> 'a shared" where
  "gauge_add d st = (case st of (c, g, w) \<Rightarrow> (add_active d c, g, w))"

text \<open>SetTime for one handle of the snapshot: done with it, or its agent does not know it.\<close>

definition set_one :: "'a cenv \<Rightarrow> containerHandle \<Rightarrow> gotime \<Rightarrow> bool \<Rightarrow> 'a shared \<Rightarrow> bool \<times> 'a shared" where
  "set_one E h t fr st = (case st of (c, g, w) \<Rightarrow>
     case ag_SetTime (ce_agents E) (ch_nodeIP h) (ch_agentHandle h) t fr w of
       (Inr _, w1) \<Rightarrow> (True, (count_setTime True c, g, w1))
     | (Inl e, w1) \<Rightarrow> (\<not> isAgentNotFound e, (count_setTime False c, g, w1)))"

definition repair_one :: "'a cenv \<Rightarrow> nat \<Rightarrow> containerHandle \<Rightarrow> gotime \<Rightarrow> bool \<Rightarrow> 'a shared
    \<Rightarrow> (nat \<times> string) list \<times> 'a shared" where
  "repair_one E i h t fr st = (case st of (c, g, w) \<Rightarrow>
     case ag_Inject (ce_agents E) (ch_nodeIP h) (ch_containerID h) t fr w of
       (Inl e, w1) \<Rightarrow> ([], (count_inject False c, g, w1))
     | (Inr hid, w1) \<Rightarrow> ([(i, hid)], (count_inject True c, g, w1)))"

definition take_timeshift :: "string \<Rightarrow> 'a shared \<Rightarrow> 'a shared" where
  "take_timeshift tid st = (case st of (c, g, w) \<Rightarrow>
     case map_of (co_timeshifts c) tid of
       None \<Rightarrow> st
     | Some s \<Rightarrow> (c\<lparr>co_timeshifts := AList.delete tid (co_timeshifts c)\<rparr>, AList.update tid s g, w))"

definition expired_at :: "gotime \<Rightarrow> controller \<Rightarrow> (string, timeshift) gomap" where
  "expired_at now c = filter (\<lambda>kv. is_expired now (snd kv)) (co_timeshifts c)"

definition take_expired :: "gotime \<Rightarrow> 'a shared \<Rightarrow> 'a shared" where
  "take_expired now st = (case st of (c, g, w) \<Rightarrow>
     (c\<lparr>co_timeshifts := filter (\<lambda>kv. \<not> is_expired now (snd kv)) (co_timeshifts c)\<rparr>,
      fold (\<lambda>kv. AList.update (fst kv) (snd kv)) (expired_at now c) g, w))"

text \<open>What the sweeper does for an expired timeshift before it resets the handles.\<close>

definition expire_counts :: "'a cenv \<Rightarrow> timeshift \<Rightarrow> 'a shared \<Rightarrow> 'a shared" where
  "expire_counts E s st = (case st of (c, g, w) \<Rightarrow>
     let m = co_met c;
         c1 = add_active (-1) (c\<lparr>co_met := m\<lparr>m_sweepExpired := m_sweepExpired m + 1\<rparr>\<rparr>)
     in (c1, g, postExpiryEvents E s (c1, w)))"

definition not_found :: "cerr + timeshift option" where
  "not_found = Inl (NotFoundError ''timeshift not found'')"

definition plain_error :: "goerr \<Rightarrow> cerr + timeshift option" where
  "plain_error e = Inl (PlainError e)"

section \<open>One turn of a request\<close>

fun turn :: "'a cenv \<Rightarrow> call \<Rightarrow> 'a shared \<Rightarrow> call \<times> 'a shared" where
  "turn E (Create ns sel t ttl fr) (c, g, w) =
     (case ce_ListPods E ns sel w of
        (Inl e, w1) \<Rightarrow> (Returned (plain_error (Wrap ''list pods'' e)), (c, g, w1))
      | (Inr pods, w1) \<Rightarrow>
          (if pods = [] then Returned (Inl (NotFoundError ''no pods match selector''))
           else Checking ns sel t ttl fr pods, (c, g, w1)))"
| "turn E (Checking ns sel t ttl fr pods) (c, g, w) =
     (case checkConflicts ns pods c of
        Some e \<Rightarrow> (Returned (Inl e), (c, g, w))
      | None \<Rightarrow> (Injecting ns sel t ttl fr (pod_containers pods) [], (c, g, w)))"
| "turn E (Injecting ns sel t ttl fr [] hs) st =
     (if hs = [] then Returned (plain_error (Msg ''no running containers found in matched pods''))
      else Stamping ns sel t ttl fr hs, st)"
| "turn E (Injecting ns sel t ttl fr (pc # todo) hs) st =
     (case inject_one E (fst pc) (snd pc) t fr st of (new, st1) \<Rightarrow>
        (Injecting ns sel t ttl fr todo (hs @ new), st1))"
| "turn E (Stamping ns sel t ttl fr hs) (c, g, w) =
     (case ce_now E w of (now, w1) \<Rightarrow> case newID E w1 of (tid, w2) \<Rightarrow>
        (Registering ns sel t ttl fr hs now tid, (c, g, w2)))"
| "turn E (Registering ns sel t ttl fr hs now tid) st =
     (Counting tid, put_timeshift (new_timeshift tid ns sel t ttl fr now hs) st)"
| "turn E (Counting tid) st = (Encoding (Return tid), gauge_add 1 st)"
| "turn E (Update tid t fr) (c, g, w) =
     (case getTimeshift tid c of
        Inl e \<Rightarrow> (Returned (Inl e), (c, g, w))
      | Inr _ \<Rightarrow> (Snapshot tid t fr, (c, g, w)))"
| "turn E (Snapshot tid t fr) st =
     (case deref tid st of
        None \<Rightarrow> (Returned not_found, st)
      | Some s \<Rightarrow> (Setting tid t fr (ts_handles s) 0 [], st))"
| "turn E (Setting tid t fr snap i us) st =
     (if i < length snap then
        (case set_one E (snap ! i) t fr st of (fin, st1) \<Rightarrow>
           (if fin then Setting tid t fr snap (i + 1) us else Repairing tid t fr snap i us, st1))
      else case st of (c, g, w) \<Rightarrow> case ce_now E w of (now, w1) \<Rightarrow>
        (Committing tid t fr snap us now, (c, g, w1)))"
| "turn E (Repairing tid t fr snap i us) st =
     (case repair_one E i (snap ! i) t fr st of (new, st1) \<Rightarrow>
        (Setting tid t fr snap (i + 1) (us @ new), st1))"
| "turn E (Committing tid t fr snap us now) st =
     (Encoding (Return tid), mutate tid (commit_update snap us t now fr) st)"
| "turn E (Advance tid d fr) (c, g, w) =
     (case getTimeshift tid c of
        Inl e \<Rightarrow> (Returned (Inl e), (c, g, w))
      | Inr _ \<Rightarrow> (Measuring tid d fr, (c, g, w)))"
| "turn E (Measuring tid d fr) st =
     (case deref tid st of
        None \<Rightarrow> (Returned not_found, st)
      | Some s \<Rightarrow>
          if ts_frozen s then (Update tid (time_Add (ts_frozenAt s) d) fr, st)
          else case st of (c, g, w) \<Rightarrow> case ce_now E w of (now, w1) \<Rightarrow>
            (Update tid (time_Add now (dur_add (ts_offset s) d)) fr, (c, g, w1)))"
| "turn E (Delete tid) st =
     (case map_of (co_timeshifts (fst st)) tid of
        None \<Rightarrow> (Returned not_found, st)
      | Some s \<Rightarrow> (Dropping tid, take_timeshift tid st))"
| "turn E (Dropping tid) st = (Encoding (Resetting tid 0 (Returned (Inr None))), gauge_add (-1) st)"
| "turn E (Resetting tid i k) st =
     (case deref tid st of
        None \<Rightarrow> (k, st)
      | Some s \<Rightarrow>
          if i < length (ts_handles s) then
            (case st of (c, g, w) \<Rightarrow>
               (Resetting tid (i + 1) k, (c, g, snd (reset_handle E (ts_handles s ! i) w))))
          else (k, st))"
| "turn E Sweep (c, g, w) = (case ce_now E w of (now, w1) \<Rightarrow> (Sweeping now, (c, g, w1)))"
| "turn E (Sweeping now) st =
     (let ids = keys (expired_at now (fst st))
      in (if ids = [] then Expiring [] else Encoding (Expiring ids), take_expired now st))"
| "turn E (Expiring []) st = (Returned (Inr None), st)"
| "turn E (Expiring (tid # ids)) st =
     (case deref tid st of
        None \<Rightarrow> (Expiring ids, st)
      | Some s \<Rightarrow> (Resetting tid 0 (Expiring ids), expire_counts E s st))"
| "turn E (PodEvent pod) st =
     (if pod_Phase pod \<noteq> ''Running'' then Returned (Inr None) else Rejoining pod (matched E pod (fst st)), st)"
| "turn E (Rejoining pod []) st = (Returned (Inr None), st)"
| "turn E (Rejoining pod (m # ms)) (c, g, w) =
     (case ts_effectiveTime E (snd m) w of (t, w1) \<Rightarrow>
        (Reinjecting pod (fst m) t (ts_frozen (snd m)) (filter injectable (pod_ContainerStatuses pod)) [] ms,
         (c, g, w1)))"
| "turn E (Reinjecting pod tid t fr [] new ms) st =
     (if new = [] then Rejoining pod ms else Rejoined pod tid new ms, st)"
| "turn E (Reinjecting pod tid t fr (cs # css) new ms) st =
     (case inject_one E pod cs t fr st of (hs, st1) \<Rightarrow> (Reinjecting pod tid t fr css (new @ hs) ms, st1))"
| "turn E (Rejoined pod tid new ms) (c, g, w) = (Rejoining pod ms, (store_handles tid pod new c, g, w))"
| "turn E (Encoding k) (c, g, w) =
     (case co_store c of
        None \<Rightarrow> (k, (c, g, w))
      | Some ns \<Rightarrow>
          (case encode E (co_timeshifts c) of
             Inl e \<Rightarrow> (k, (c, g, w))
           | Inr data \<Rightarrow> (Flushing ns data k, (c, g, w))))"
| "turn E (Flushing ns data k) (c, g, w) =
     (case ce_GetConfigMap E ns storeConfigMapName w of
        (Inl e, w1) \<Rightarrow> (if ce_IsNotFound E e then Writing False ns data k else k, (c, g, w1))
      | (Inr _, w1) \<Rightarrow> (Writing True ns data k, (c, g, w1)))"
| "turn E (Writing found ns data k) (c, g, w) =
     (k, (c, g, snd ((if found then ce_UpdateConfigMap else ce_CreateConfigMap)
            E ns storeConfigMapName [(storeDataKey, data)] w)))"
| "turn E (Return tid) st = (Returned (Inr (deref tid st)), st)"
| "turn E (Returned r) st = (Returned r, st)"

end
