(* ===== verification/InterleaveAlone.thy ===== *)
theory InterleaveAlone
  imports Interleave
begin

text \<open>
  A request that is left alone: its turns, one after the other, do exactly what the operation of
  \<open>Controller\<close> does in one piece, and they come to an end.
\<close>

inductive alone :: "'a cenv \<Rightarrow> call \<times> 'a shared \<Rightarrow> call \<times> 'a shared \<Rightarrow> bool" for E :: "'a cenv" where
  stay [simp, intro]: "alone E x x"
| move: "alone E (turn E k st) y \<Longrightarrow> alone E (k, st) y"

lemma alone_trans [trans]: "alone E x y \<Longrightarrow> alone E y z \<Longrightarrow> alone E x z"
  by (induction rule: alone.induct) (auto intro: alone.move)

lemma alone_turn: "turn E k st = x \<Longrightarrow> alone E x y \<Longrightarrow> alone E (k, st) y"
  by (auto intro: alone.move)

section \<open>Storing\<close>

lemma persist_alone:
  assumes "persist E (c, w) = (c', w')"
  shows "alone E (Encoding k, (c, g, w)) (k, (c', g, w'))"
proof -
  have c': "c' = c" using persist_eqD [of c' w' E c w] assms by simp
  show ?thesis
  proof (cases "co_store c")
    case None
    with assms c' show ?thesis by (auto intro!: alone.move simp: persist_def)
  next
    case (Some ns)
    show ?thesis
    proof (cases "encode E (co_timeshifts c)")
      case (Inl e)
      with assms c' Some show ?thesis by (auto intro!: alone.move simp: persist_def)
    next
      case (Inr data)
      with assms Some have w': "w' = snd (flush E ns data w)" by (simp add: persist_def)
      obtain r w1 where get: "ce_GetConfigMap E ns storeConfigMapName w = (r, w1)" by (rule prod.exhaust)
      have "alone E (Flushing ns data k, (c, g, w)) (k, (c, g, w'))"
        using w' get
        by (cases r) (auto intro!: alone.move simp: flush_def Let_def split: prod.splits)
      with Some Inr c' show ?thesis by (auto intro: alone_turn)
    qed
  qed
qed

lemma return_alone:
  assumes "persist E (c, w) = (c', w')" and "deref tid (c', g, w') = Some s"
  shows "alone E (Encoding (Return tid), (c, g, w)) (Returned (Inr (Some s)), (c', g, w'))"
proof -
  note persist_alone [OF assms(1), of "Return tid" g]
  also have "alone E (Return tid, (c', g, w')) (Returned (Inr (Some s)), (c', g, w'))"
    using assms(2) by (auto intro: alone_turn)
  finally show ?thesis .
qed

section \<open>Create\<close>

lemma inject_containers_alone:
  "inject_containers E pod t fr css (c, w) = (hs, (c', w')) \<Longrightarrow>
     alone E (Injecting ns sel t ttl fr (map (Pair pod) (filter injectable css) @ todo) hs0, (c, g, w))
       (Injecting ns sel t ttl fr todo (hs0 @ hs), (c', g, w'))"
proof (induction css arbitrary: c w hs hs0)
  case Nil
  then show ?case by simp
next
  case (Cons cs css)
  show ?case
  proof (cases "injectable cs")
    case False
    with Cons.prems Cons.IH show ?thesis by simp
  next
    case True
    obtain r w1 where inj: "ag_Inject (ce_agents E) (pod_HostIP pod) (cs_ContainerID cs) t fr w = (r, w1)"
      by (rule prod.exhaust)
    show ?thesis
    proof (cases r)
      case (Inl e)
      with Cons.prems True inj
      have "inject_containers E pod t fr css (count_inject False c, w1) = (hs, (c', w'))" by simp
      from Cons.IH [OF this, of hs0] True inj Inl show ?thesis
        by (auto intro: alone_turn simp: inject_one_def)
    next
      case (Inr hid)
      obtain hs1 where rest: "inject_containers E pod t fr css (count_inject True c, w1) = (hs1, (c', w'))"
        and hs: "hs = handle_for pod cs hid # hs1"
        using Cons.prems True inj Inr by (auto simp: handle_for_def split: prod.splits)
      from Cons.IH [OF rest, of "hs0 @ [handle_for pod cs hid]"] True inj Inr hs show ?thesis
        by (auto intro: alone_turn simp: inject_one_def)
    qed
  qed
qed

lemma inject_pods_alone:
  assumes "inject_pods E pods t fr (c, w) = (hs, (c', w'))"
  shows "alone E (Injecting ns sel t ttl fr (pod_containers pods) [], (c, g, w))
    (Injecting ns sel t ttl fr [] hs, (c', g, w'))"
proof -
  have "map_step (\<lambda>pod. injectPod E pod t fr) pods (c, w) = (hss, (c', w')) \<Longrightarrow>
      alone E (Injecting ns sel t ttl fr (pod_containers pods) hs0, (c, g, w))
        (Injecting ns sel t ttl fr [] (hs0 @ concat hss), (c', g, w'))" for hss hs0
  proof (induction pods arbitrary: c w hss hs0)
    case (Cons pod pods)
    from Cons.prems obtain hs1 c1 w1 hss1 where
      one: "injectPod E pod t fr (c, w) = (hs1, (c1, w1))"
      and rest: "map_step (\<lambda>pod. injectPod E pod t fr) pods (c1, w1) = (hss1, (c', w'))"
      and hss: "hss = hs1 # hss1"
      by (auto split: prod.splits)
    have "pod_containers (pod # pods) =
        map (Pair pod) (filter injectable (pod_ContainerStatuses pod)) @ pod_containers pods"
      by (simp add: pod_containers_def)
    then have "alone E (Injecting ns sel t ttl fr (pod_containers (pod # pods)) hs0, (c, g, w))
        (Injecting ns sel t ttl fr (pod_containers pods) (hs0 @ hs1), (c1, g, w1))"
      using inject_containers_alone [OF one [unfolded injectPod_def], of ns sel ttl "pod_containers pods" hs0 g] by simp
    also have "alone E \<dots> (Injecting ns sel t ttl fr [] ((hs0 @ hs1) @ concat hss1), (c', g, w'))"
      by (rule Cons.IH [OF rest])
    finally show ?case by (simp add: hss)
  qed (simp add: pod_containers_def)
  from this [of _ "[]"] assms show ?thesis
    by (auto simp: inject_pods_def split: prod.splits)
qed

lemma create_alone:
  assumes run: "createTimeshift E ns sel t ttl fr (c, w) = (r, (c', w'))"
  shows "alone E (Create ns sel t ttl fr, (c, g, w)) (Returned (map_sum id Some r), (c', g, w'))"
proof -
  obtain pods w1 where list: "ce_ListPods E ns sel w = (pods, w1)" by (rule prod.exhaust)
  show ?thesis
  proof (cases pods)
    case (Inl e)
    with run list show ?thesis
      by (auto intro!: alone.move simp: createTimeshift_def plain_error_def)
  next
    case (Inr ps)
    consider (none) "ps = []" | (conflict) e where "ps \<noteq> []" "checkConflicts ns ps c = Some e"
      | (free) "ps \<noteq> []" "checkConflicts ns ps c = None"
      by (cases "checkConflicts ns ps c") auto
    then show ?thesis
    proof cases
      case none
      with run list Inr show ?thesis by (auto intro!: alone.move simp: createTimeshift_def)
    next
      case (conflict e)
      with run list Inr show ?thesis by (auto intro!: alone.move simp: createTimeshift_def)
    next
      case free
      obtain hs c1 w2 where inj: "inject_pods E ps t fr (c, w1) = (hs, (c1, w2))"
        by (metis prod.exhaust)
      have start: "alone E (Injecting ns sel t ttl fr (pod_containers ps) [], (c, g, w1)) z \<Longrightarrow>
          alone E (Create ns sel t ttl fr, (c, g, w)) z" for z
        using list Inr free by (auto intro!: alone.move)
      show ?thesis
      proof (cases "hs = []")
        case True
        then have "alone E (Injecting ns sel t ttl fr [] hs, (c1, g, w2)) (Returned (map_sum id Some r), (c', g, w'))"
          using run list Inr free inj by (auto intro!: alone.move simp: createTimeshift_def plain_error_def)
        with start inject_pods_alone [OF inj] show ?thesis by (blast intro: alone_trans)
      next
        case False
        obtain now w3 where now: "ce_now E w2 = (now, w3)" by (rule prod.exhaust)
        obtain tid w4 where new: "newID E w3 = (tid, w4)" by (rule prod.exhaust)
        let ?s = "new_timeshift tid ns sel t ttl fr now hs"
        have "r = Inr ?s" and per: "persist E (register ?s c1, w4) = (c', w')"
          using run list Inr free inj False now new by (auto simp: createTimeshift_def Let_def)
        moreover have "deref tid (register ?s c1, g, w') = Some ?s"
          by (simp add: deref_def register_def new_timeshift_def)
        moreover have "c' = register ?s c1" using persist_eqD [of c' w'] per by metis
        ultimately have "alone E (Encoding (Return tid), (register ?s c1, g, w4))
            (Returned (map_sum id Some r), (c', g, w'))"
          using return_alone [OF per, of tid g ?s] by simp
        then have "alone E (Injecting ns sel t ttl fr [] hs, (c1, g, w2)) (Returned (map_sum id Some r), (c', g, w'))"
          using False now new
          by (auto intro!: alone.move simp: put_timeshift_def gauge_add_def register_def new_timeshift_def)
        with start inject_pods_alone [OF inj] show ?thesis by (blast intro: alone_trans)
      qed
    qed
  qed
qed

section \<open>Update and advance\<close>

lemma set_handles_alone:
  "set_handles E t fr i (drop i snap) (c, w) = (us, (c', w')) \<Longrightarrow>
     alone E (Setting tid t fr snap i us0, (c, g, w))
       (Setting tid t fr snap (max i (length snap)) (us0 @ us), (c', g, w'))"
proof (induction "length snap - i" arbitrary: i c w us us0)
  case 0
  then show ?case by (simp add: max_def)
next
  case (Suc n)
  then have i: "i < length snap" "n = length snap - Suc i" by simp_all
  then have d: "drop i snap = snap ! i # drop (Suc i) snap" by (simp add: Cons_nth_drop_Suc)
  have IH: "alone E (Setting tid t fr snap (Suc i) us1, (c1, g, w1))
      (Setting tid t fr snap (max i (length snap)) (us1 @ us'), (c', g, w'))"
    if "set_handles E t fr (Suc i) (drop (Suc i) snap) (c1, w1) = (us', (c', w'))" for c1 w1 us' us1
    using Suc.hyps(1) [OF i(2) that, of us1] i(1) by (simp add: max_def)
  obtain r w1 where set: "ag_SetTime (ce_agents E) (ch_nodeIP (snap ! i)) (ch_agentHandle (snap ! i)) t fr w = (r, w1)"
    by (rule prod.exhaust)
  consider (done1) c1 where "set_handles E t fr (Suc i) (drop (Suc i) snap) (c1, w1) = (us, (c', w'))"
      "set_one E (snap ! i) t fr (c, g, w) = (True, (c1, g, w1))"
    | (lost) e where "r = Inl e" "isAgentNotFound e"
    using Suc.prems set by (cases r) (auto simp: d set_one_def Let_def split: if_splits)
  then show ?case
  proof cases
    case (done1 c1)
    with IH [OF done1(1), of us0] i show ?thesis by (auto intro: alone_turn)
  next
    case (lost e)
    obtain r2 w2 where inj: "ag_Inject (ce_agents E) (ch_nodeIP (snap ! i)) (ch_containerID (snap ! i)) t fr w1 = (r2, w2)"
      by (rule prod.exhaust)
    obtain c2 us' new where "set_handles E t fr (Suc i) (drop (Suc i) snap) (c2, w2) = (us', (c', w'))"
      "us = new @ us'" "repair_one E i (snap ! i) t fr (count_setTime False c, g, w1) = (new, (c2, g, w2))"
      using Suc.prems set lost inj by (cases r2) (auto simp: d repair_one_def Let_def split: prod.splits)
    with IH [OF this(1), of "us0 @ new"] i set lost show ?thesis
      by (auto intro!: alone.move simp: set_one_def)
  qed
qed

lemma update_alone:
  assumes run: "updateTimeshift E tid t fr (c, w) = (r, (c', w'))"
  shows "alone E (Update tid t fr, (c, g, w)) (Returned (map_sum id Some r), (c', g, w'))"
  using run
proof (cases rule: updateTimeshift_cases)
  case missing
  then show ?thesis by (auto intro: alone_turn simp: getTimeshift_def)
next
  case (updated s us c1 w1 now w2 s')
  let ?c = "c1\<lparr>co_timeshifts := AList.update tid s' (co_timeshifts c1)\<rparr>"
  have ts: "co_timeshifts c1 = co_timeshifts c" using updated(6) by (simp add: same_registry_def)
  have "alone E (Update tid t fr, (c, g, w)) (Setting tid t fr (ts_handles s) 0 [], (c, g, w))"
    using updated(1) by (auto intro!: alone.move simp: getTimeshift_def deref_def)
  also have "alone E \<dots> (Setting tid t fr (ts_handles s) (length (ts_handles s)) us, (c1, g, w1))"
    using set_handles_alone [of E t fr 0 "ts_handles s" c w us c1 w1 tid "[]" g] updated(2) by simp
  also have "alone E \<dots> (Encoding (Return tid), (?c, g, w2))"
    using updated(1,3,4) ts by (auto intro!: alone.move simp: mutate_def)
  also have "alone E \<dots> (Returned (Inr (Some s')), (c', g, w'))"
    using persist_eqD [OF updated(7)]
    by (intro return_alone) (simp_all add: updated(7) [symmetric] deref_def)
  finally show ?thesis by (simp add: updated(5))
qed

lemma advance_alone:
  assumes run: "advanceTimeshift E tid d fr (c, w) = (r, (c', w'))"
  shows "alone E (Advance tid d fr, (c, g, w)) (Returned (map_sum id Some r), (c', g, w'))"
proof (cases "map_of (co_timeshifts c) tid")
  case None
  with run show ?thesis by (auto intro: alone_turn simp: advanceTimeshift_def getTimeshift_def)
next
  case (Some s)
  obtain now w1 where now: "ce_now E w = (now, w1)" by (rule prod.exhaust)
  have "alone E (Measuring tid d fr, (c, g, w)) (Returned (map_sum id Some r), (c', g, w'))"
    using run Some now
    by (auto intro!: alone.move update_alone simp: advanceTimeshift_def getTimeshift_def deref_def split: if_splits)
  then show ?thesis using Some by (auto intro: alone_turn simp: getTimeshift_def)
qed

section \<open>Delete, sweep and pod events\<close>

lemma reset_alone:
  assumes "deref tid (c, g, w) = Some s" and "map_step (reset_handle E) (drop i (ts_handles s)) w = (rs, w')"
  shows "alone E (Resetting tid i k, (c, g, w)) (k, (c, g, w'))"
  using assms
proof (induction "length (ts_handles s) - i" arbitrary: i w rs)
  case 0
  then show ?case by (auto intro: alone_turn)
next
  case (Suc n)
  then have i: "i < length (ts_handles s)" "n = length (ts_handles s) - Suc i" by simp_all
  then have "drop i (ts_handles s) = ts_handles s ! i # drop (Suc i) (ts_handles s)"
    by (simp add: Cons_nth_drop_Suc)
  with Suc.prems(2) obtain e w1 rs' where r: "reset_handle E (ts_handles s ! i) w = (e, w1)"
    and rest: "map_step (reset_handle E) (drop (Suc i) (ts_handles s)) w1 = (rs', w')"
    by (auto split: prod.splits)
  have "deref tid (c, g, w1) = Some s" using Suc.prems(1) by (simp add: deref_def)
  from Suc.hyps(1) [OF i(2) this rest] i(1) Suc.prems(1) r show ?case by (auto intro: alone_turn)
qed

lemma resetHandles_alone:
  "deref tid (c, g, w) = Some s \<Longrightarrow> alone E (Resetting tid 0 k, (c, g, w)) (k, (c, g, resetHandles E s w))"
  using reset_alone [where i = 0, OF _ prod.collapse [symmetric]] by (simp add: resetHandles_def)

lemma delete_alone:
  assumes run: "deleteTimeshift E tid (c, w) = (e, (c', w'))"
  shows "\<exists>g' r. alone E (Delete tid, (c, g, w)) (Returned r, (c', g', w')) \<and>
    r = (case e of None \<Rightarrow> Inr None | Some err \<Rightarrow> Inl err)"
proof (cases "map_of (co_timeshifts c) tid")
  case None
  then have "AList.delete tid (co_timeshifts c) = co_timeshifts c"
    by (simp add: delete_id map_of_eq_None_iff)
  with None run have "c' = c" "w' = w" "e = Some (NotFoundError ''timeshift not found'')"
    by (auto simp: deleteTimeshift_def)
  moreover have "alone E (Delete tid, (c, g, w)) (Returned not_found, (c, g, w))"
    using None by (auto intro: alone_turn)
  ultimately show ?thesis by (auto simp: not_found_def)
next
  case (Some s)
  let ?c = "c\<lparr>co_timeshifts := AList.delete tid (co_timeshifts c)\<rparr>" and ?g = "AList.update tid s g"
  obtain w1 where per: "persist E (add_active (-1) ?c, w) = (c', w1)" and e: "e = None"
    and w': "w' = resetHandles E s w1"
    using run Some by (auto simp: deleteTimeshift_def split: prod.splits)
  have c': "c' = add_active (-1) ?c" using persist_eqD [of c' w1] per by metis
  have d: "deref tid (c', ?g, w1) = Some s" by (simp add: deref_def c')
  have "alone E (Delete tid, (c, g, w)) (Encoding (Resetting tid 0 (Returned (Inr None))), (add_active (-1) ?c, ?g, w))"
    using Some by (auto intro!: alone.move simp: take_timeshift_def gauge_add_def)
  also note persist_alone [OF per]
  also note resetHandles_alone [OF d]
  finally show ?thesis using e w' by auto
qed

lemma expire_alone:
  assumes "\<And>kv. kv \<in> set ms \<Longrightarrow> map_of (co_timeshifts c) (fst kv) = None \<and> map_of g (fst kv) = Some (snd kv)"
    and "fold (expire_one E) (map snd ms) (c, w) = (c', w')"
  shows "alone E (Expiring (keys ms), (c, g, w)) (Returned (Inr None), (c', g, w'))"
  using assms
proof (induction ms arbitrary: c w)
  case Nil
  then show ?case by (auto intro: alone_turn)
next
  case (Cons kv ms)
  obtain tid s where kv: "kv = (tid, s)" by (rule prod.exhaust)
  obtain c1 w1 where exp: "expire_counts E s (c, g, w) = (c1, g, w1)"
    and one: "expire_one E s (c, w) = (c1, resetHandles E s w1)"
    and same: "co_timeshifts c1 = co_timeshifts c"
    by (simp add: expire_counts_def expire_one_def Let_def)
  have d: "deref tid (c, g, w) = Some s" "deref tid (c1, g, w1) = Some s"
    using Cons.prems(1) [of kv] by (auto simp: deref_def kv same)
  have "alone E (Expiring (keys (kv # ms)), (c, g, w)) (Resetting tid 0 (Expiring (keys ms)), (c1, g, w1))"
    using d(1) exp by (auto intro: alone_turn simp: kv)
  also note resetHandles_alone [OF d(2)]
  also have "alone E (Expiring (keys ms), (c1, g, resetHandles E s w1)) (Returned (Inr None), (c', g, w'))"
    using Cons.prems one by (intro Cons.IH) (auto simp: kv same)
  finally show ?case .
qed

lemma map_of_fold_update:
  "wf_map ms \<Longrightarrow> map_of (fold (\<lambda>kv. AList.update (fst kv) (snd kv)) ms g) = map_of g ++ map_of ms"
proof (induction ms arbitrary: g)
  case (Cons kv ms)
  then have "wf_map ms" "fst kv \<notin> dom (map_of ms)" by (auto simp: wf_map_def dom_map_of_conv_image_fst)
  with Cons.IH [of "AList.update (fst kv) (snd kv) g"] show ?case
    by (cases kv) (auto simp: map_add_def fun_eq_iff split: option.splits)
qed simp

lemma sweep_alone:
  assumes run: "sweepExpired E (c, w) = (c', w')" and wf: "wf_map (co_timeshifts c)"
  shows "\<exists>g'. alone E (Sweep, (c, g, w)) (Returned (Inr None), (c', g', w'))"
proof -
  obtain now w1 where now: "ce_now E w = (now, w1)" by (rule prod.exhaust)
  let ?ms = "expired_at now c"
  obtain c1 g1 where t: "take_expired now (c, g, w1) = (c1, g1, w1)"
    and c1: "c1 = c\<lparr>co_timeshifts := filter (\<lambda>kv. \<not> is_expired now (snd kv)) (co_timeshifts c)\<rparr>"
    and g1: "g1 = fold (\<lambda>kv. AList.update (fst kv) (snd kv)) ?ms g"
    by (simp add: take_expired_def)
  have "wf_map ?ms" using wf by (simp add: expired_at_def)
  then have g1': "map_of g1 (fst kv) = Some (snd kv)" if "kv \<in> set ?ms" for kv
    using that by (cases kv) (simp add: g1 map_of_fold_update wf_map_mem_iff)
  have gone: "map_of (co_timeshifts c1) (fst kv) = None" if "kv \<in> set ?ms" for kv
  proof -
    have "map_of (co_timeshifts c) (fst kv) = Some (snd kv)" "is_expired now (snd kv)"
      using that wf by (auto simp: expired_at_def wf_map_mem_iff [symmetric])
    then show ?thesis
      by (simp add: c1 map_of_filter_keys [OF wf, where P = "\<lambda>s. \<not> is_expired now s"])
  qed
  obtain w2 where st1: "(if ?ms \<noteq> [] then persist E (c1, w1) else (c1, w1)) = (c1, w2)"
    using persist_registry [of E c1 w1] by (metis prod.collapse)
  have fold: "fold (expire_one E) (map snd ?ms) (c1, w2) = (c', w')"
    using run now st1 [unfolded c1, folded expired_at_def]
    by (simp add: sweepExpired_def expired_at_def [symmetric] c1 Let_def del: fold_map)
  have "alone E (Sweep, (c, g, w)) (Sweeping now, (c, g, w1))" using now by (auto intro: alone_turn)
  also have "alone E \<dots> (Expiring (keys ?ms), (c1, g1, w2))"
  proof (cases "?ms = []")
    case True
    with st1 t show ?thesis by (auto intro: alone_turn)
  next
    case False
    with st1 have per: "persist E (c1, w1) = (c1, w2)" by simp
    from False t have "turn E (Sweeping now) (c, g, w1) = (Encoding (Expiring (keys ?ms)), (c1, g1, w1))" by simp
    from alone_turn [OF this persist_alone [OF per]] show ?thesis .
  qed
  also have "alone E \<dots> (Returned (Inr None), (c', g1, w'))"
    using gone g1' fold by (intro expire_alone) blast+
  finally show ?thesis by blast
qed

lemma reinject_alone:
  assumes "reinject E pod m (c, w) = (c', w')"
  shows "alone E (Rejoining pod (m # ms), (c, g, w)) (Rejoining pod ms, (c', g, w'))"
proof -
  obtain t w1 where t: "ts_effectiveTime E (snd m) w = (t, w1)" by (rule prod.exhaust)
  obtain new c1 w2 where inj: "injectPod E pod t (ts_frozen (snd m)) (c, w1) = (new, (c1, w2))"
    by (metis prod.exhaust)
  have loop: "inject_containers E pod t fr css (c, w) = (hs, (c1, w1)) \<Longrightarrow>
      alone E (Reinjecting pod tid t fr (filter injectable css) hs0 ms, (c, g, w))
        (Reinjecting pod tid t fr [] (hs0 @ hs) ms, (c1, g, w1))" for tid t fr css c w hs hs0 c1 w1
  proof (induction css arbitrary: c w hs hs0)
    case (Cons cs css)
    show ?case
    proof (cases "injectable cs")
      case True
      obtain new c2 w2 hs' where "inject_one E pod cs t fr (c, g, w) = (new, (c2, g, w2))"
        "inject_containers E pod t fr css (c2, w2) = (hs', (c1, w1))" "hs = new @ hs'"
        using Cons.prems True by (auto simp: inject_one_def handle_for_def split: prod.splits sum.splits)
      with Cons.IH [of c2 w2 hs' "hs0 @ new"] True show ?thesis by (auto intro: alone_turn)
    qed (use Cons in simp)
  qed simp
  have "alone E (Rejoining pod (m # ms), (c, g, w))
      (Reinjecting pod (fst m) t (ts_frozen (snd m)) (filter injectable (pod_ContainerStatuses pod)) [] ms, (c, g, w1))"
    using t by (auto intro: alone_turn)
  also note loop [OF inj [unfolded injectPod_def]]
  also have "alone E (Reinjecting pod (fst m) t (ts_frozen (snd m)) [] ([] @ new) ms, (c1, g, w2))
      (Rejoining pod ms, (c', g, w'))"
    using assms t inj by (cases "new = []") (auto intro!: alone_turn [OF refl] simp: reinject_def)
  finally show ?thesis .
qed

lemma pod_event_alone:
  assumes "handlePodEvent E pod (c, w) = (c', w')"
  shows "alone E (PodEvent pod, (c, g, w)) (Returned (Inr None), (c', g, w'))"
proof -
  have loop: "fold (reinject E pod) ms (c, w) = (c', w') \<Longrightarrow>
      alone E (Rejoining pod ms, (c, g, w)) (Returned (Inr None), (c', g, w'))" for ms
  proof (induction ms arbitrary: c w)
    case Nil
    then show ?case by (auto intro: alone_turn)
  next
    case (Cons m ms)
    obtain c1 w1 where one: "reinject E pod m (c, w) = (c1, w1)" by (rule prod.exhaust)
    note reinject_alone [OF one]
    also have "alone E (Rejoining pod ms, (c1, g, w1)) (Returned (Inr None), (c', g, w'))"
      using Cons.prems one by (intro Cons.IH) simp
    finally show ?case .
  qed
  show ?thesis
    using assms loop [of "matched E pod c"]
    by (cases "pod_Phase pod = ''Running''") (auto intro: alone_turn simp: handlePodEvent_def)
qed

section \<open>The operation that a request asks for\<close>

fun sequential :: "'a cenv \<Rightarrow> call \<Rightarrow> 'a cst \<Rightarrow> ((cerr + timeshift option) \<times> 'a cst) option" where
  "sequential E (Create ns sel t ttl fr) st =
     (case createTimeshift E ns sel t ttl fr st of (r, st') \<Rightarrow> Some (map_sum id Some r, st'))"
| "sequential E (Update tid t fr) st =
     (case updateTimeshift E tid t fr st of (r, st') \<Rightarrow> Some (map_sum id Some r, st'))"
| "sequential E (Advance tid d fr) st =
     (case advanceTimeshift E tid d fr st of (r, st') \<Rightarrow> Some (map_sum id Some r, st'))"
| "sequential E (Delete tid) st =
     (case deleteTimeshift E tid st of (e, st') \<Rightarrow>
        Some (case e of None \<Rightarrow> Inr None | Some err \<Rightarrow> Inl err, st'))"
| "sequential E Sweep st = Some (Inr None, sweepExpired E st)"
| "sequential E (PodEvent pod) st = Some (Inr None, handlePodEvent E pod st)"
| "sequential E k st = None"

end
