(* ===== verification/InterleaveInv.thy ===== *)
theory InterleaveInv
  imports InterleaveAlone
begin

text \<open>
  Any number of requests in flight, in any order of their turns: what holds in every state, and
  how each turn acts on the abstract map of clocks.
\<close>

section \<open>The system\<close>

type_synonym 'a system = "call list \<times> 'a shared"

text \<open>A new id is assumed to differ from those in use: it is 16 random bytes.\<close>

fun fresh_id :: "call \<Rightarrow> 'a shared \<Rightarrow> bool" where
  "fresh_id (Registering ns sel t ttl fr hs now tid) st = (deref tid st = None)"
| "fresh_id k st = True"

inductive sys_step :: "'a cenv \<Rightarrow> call option \<Rightarrow> 'a system \<Rightarrow> 'a system \<Rightarrow> bool" for E :: "'a cenv" where
  arrive: "request k \<Longrightarrow> sys_step E None (ks, st) (ks @ [k], st)"
| turn: "i < length ks \<Longrightarrow> ks ! i = k \<Longrightarrow> fresh_id k st \<Longrightarrow> turn E k st = (k', st') \<Longrightarrow>
    sys_step E (Some k) (ks, st) (ks[i := k'], st')"
| world: "sys_step E None (ks, (c, g, w)) (ks, (c, g, w'))"

inductive_cases sys_stepE: "sys_step E l x y"

abbreviation ctl_of :: "'a system \<Rightarrow> controller" where
  "ctl_of x \<equiv> fst (snd x)"

text \<open>A start, or a restart, finds the registry that the store holds, and no request.\<close>

inductive sys_reach :: "'a cenv \<Rightarrow> string option \<Rightarrow> 'a system \<Rightarrow> bool" for E :: "'a cenv" and store where
  start: "restore E (newController store, w) = (c, w') \<Longrightarrow> sys_reach E store ([], (c, [], w'))"
| step: "sys_reach E store x \<Longrightarrow> sys_step E l x y \<Longrightarrow> sys_reach E store y"

text \<open>Runs of turns only: nothing arrives and nothing else touches the world.\<close>

definition turns :: "'a cenv \<Rightarrow> 'a system \<Rightarrow> 'a system \<Rightarrow> bool" where
  "turns E = (\<lambda>x y. \<exists>k. sys_step E (Some k) x y)\<^sup>*\<^sup>*"

lemma turns_refl [simp, intro]: "turns E x x"
  by (simp add: turns_def)

lemma turns_trans [trans]: "turns E x y \<Longrightarrow> turns E y z \<Longrightarrow> turns E x z"
  by (simp add: turns_def)

lemma turns_turn:
  "i < length ks \<Longrightarrow> ks ! i = k \<Longrightarrow> fresh_id k st \<Longrightarrow> turn E k st = (k', st') \<Longrightarrow>
     turns E (ks, st) (ks[i := k'], st')"
  unfolding turns_def by (blast intro: sys_step.turn)

lemma turns_reach: "turns E x y \<Longrightarrow> sys_reach E store x \<Longrightarrow> sys_reach E store y"
  unfolding turns_def by (induction rule: rtranclp_induct) (auto intro: sys_reach.step)

text \<open>Requests that create nothing draw no id; left alone among others they run as by themselves.\<close>

fun no_create :: "call \<Rightarrow> bool" where
  "no_create (Create ns sel t ttl fr) = False"
| "no_create (Checking ns sel t ttl fr pods) = False"
| "no_create (Injecting ns sel t ttl fr todo hs) = False"
| "no_create (Stamping ns sel t ttl fr hs) = False"
| "no_create (Registering ns sel t ttl fr hs now tid) = False"
| "no_create (Resetting tid i k) = no_create k"
| "no_create (Encoding k) = no_create k"
| "no_create (Flushing ns data k) = no_create k"
| "no_create (Writing b ns data k) = no_create k"
| "no_create k = True"

lemma no_create_fresh: "no_create k \<Longrightarrow> fresh_id k st"
  by (cases k) simp_all

lemma turn_no_create: "turn E k st = (k', st') \<Longrightarrow> no_create k \<Longrightarrow> no_create k'"
proof -
  assume run: "turn E k st = (k', st')" and no: "no_create k"
  obtain c g w where st: "st = (c, g, w)" by (metis prod.exhaust)
  note [split] = prod.splits sum.splits if_splits option.splits
  show ?thesis
  proof (cases k)
    case (Reinjecting pod tid t fr css new ms)
    with run no show ?thesis by (cases css) (auto simp: st)
  next
    case (Rejoining pod ms)
    with run no show ?thesis by (cases ms) (auto simp: st)
  next
    case (Expiring ids)
    with run no show ?thesis by (cases ids) (auto simp: st)
  qed (use run no in \<open>auto simp: st Let_def\<close>)
qed

lemma alone_turns:
  "alone E x y \<Longrightarrow> no_create (fst x) \<Longrightarrow> i < length ks \<Longrightarrow> ks ! i = fst x \<Longrightarrow>
     turns E (ks, snd x) (ks[i := fst y], snd y)"
proof (induction arbitrary: ks rule: alone.induct)
  case (stay x)
  then show ?case by (metis list_update_id turns_refl)
next
  case (move k st y)
  obtain k' st' where t: "turn E k st = (k', st')" by (rule prod.exhaust)
  have "turns E (ks, st) (ks[i := k'], st')"
    using move.prems t by (intro turns_turn) (simp_all add: no_create_fresh)
  also have "turns E (ks[i := k'], st') (ks[i := k', i := fst y], snd y)"
    using move.IH [of "ks[i := k']"] move.prems turn_no_create [OF t] by (simp add: t)
  finally show ?case by simp
qed

section \<open>What requests in flight owe\<close>

text \<open>How far the gauge is ahead of the size of the registry because of a request.\<close>

fun ahead :: "call \<Rightarrow> int" where
  "ahead (Counting tid) = -1"
| "ahead (Dropping tid) = 1"
| "ahead (Expiring ids) = int (length ids)"
| "ahead (Resetting tid i k) = ahead k"
| "ahead (Encoding k) = ahead k"
| "ahead (Flushing ns data k) = ahead k"
| "ahead (Writing b ns data k) = ahead k"
| "ahead k = 0"

text \<open>The timeshifts a request holds pointers to.\<close>

fun pointers :: "call \<Rightarrow> string set" where
  "pointers (Counting tid) = {tid}"
| "pointers (Snapshot tid t fr) = {tid}"
| "pointers (Setting tid t fr snap i us) = {tid}"
| "pointers (Repairing tid t fr snap i us) = {tid}"
| "pointers (Committing tid t fr snap us now) = {tid}"
| "pointers (Measuring tid d fr) = {tid}"
| "pointers (Dropping tid) = {tid}"
| "pointers (Expiring ids) = set ids"
| "pointers (Resetting tid i k) = {tid} \<union> pointers k"
| "pointers (Encoding k) = pointers k"
| "pointers (Flushing ns data k) = pointers k"
| "pointers (Writing b ns data k) = pointers k"
| "pointers (Return tid) = {tid}"
| "pointers k = {}"

definition alive :: "'a shared \<Rightarrow> string set" where
  "alive st = (case st of (c, g, w) \<Rightarrow> dom (map_of (co_timeshifts c)) \<union> dom (map_of g))"

lemma deref_alive: "deref tid st \<noteq> None \<longleftrightarrow> tid \<in> alive st"
  by (cases st) (auto simp: deref_def alive_def split: option.splits)

definition gauge :: "'a shared \<Rightarrow> int" where
  "gauge st = m_timeshiftsActive (co_met (fst st))"

definition same_objects :: "'a shared \<Rightarrow> 'a shared \<Rightarrow> bool" where
  "same_objects st st' \<longleftrightarrow> co_timeshifts (fst st') = co_timeshifts (fst st) \<and> fst (snd st') = fst (snd st)"

text \<open>A turn that leaves the objects alone.\<close>

definition quiet :: "call \<Rightarrow> 'a shared \<Rightarrow> call \<Rightarrow> 'a shared \<Rightarrow> bool" where
  "quiet k st k' st' \<longleftrightarrow> same_objects st st' \<and> gauge st' - ahead k' = gauge st - ahead k \<and>
     pointers k' \<subseteq> pointers k \<union> alive st"

lemma inject_one_quiet:
  "inject_one E pod cs t fr st = (hs, st') \<Longrightarrow> same_objects st st' \<and> gauge st' = gauge st"
  by (cases st) (auto simp: inject_one_def same_objects_def gauge_def split: prod.splits sum.splits)

lemma set_one_quiet: "set_one E h t fr st = (fin, st') \<Longrightarrow> same_objects st st' \<and> gauge st' = gauge st"
  by (cases st) (auto simp: set_one_def same_objects_def gauge_def split: prod.splits sum.splits)

lemma repair_one_quiet: "repair_one E i h t fr st = (us, st') \<Longrightarrow> same_objects st st' \<and> gauge st' = gauge st"
  by (cases st) (auto simp: repair_one_def same_objects_def gauge_def split: prod.splits sum.splits)

lemma gauge_add_quiet: "same_objects st (gauge_add d st) \<and> gauge (gauge_add d st) = gauge st + d"
  by (cases st) (simp add: gauge_add_def same_objects_def gauge_def)

lemma expire_counts_quiet: "same_objects st (expire_counts E s st) \<and> gauge (expire_counts E s st) = gauge st - 1"
  by (cases st) (simp add: expire_counts_def same_objects_def gauge_def Let_def add_active_def)

lemmas one_quiet = inject_one_quiet set_one_quiet repair_one_quiet

text \<open>The turns that change an object.\<close>

fun effective :: "call \<Rightarrow> bool" where
  "effective (Registering ns sel t ttl fr hs now tid) = True"
| "effective (Committing tid t fr snap us now) = True"
| "effective (Delete tid) = True"
| "effective (Sweeping now) = True"
| "effective (Rejoined pod tid new ms) = True"
| "effective k = False"

lemma same_objects_refl [simp]: "same_objects st st"
  by (simp add: same_objects_def)

lemma same_objects_world [simp]: "same_objects (c, g, w) (c, g, w')" "gauge (c, g, w) = m_timeshiftsActive (co_met c)"
  by (simp_all add: same_objects_def gauge_def)

lemma deref_None_alive: "deref tid st = None \<longleftrightarrow> tid \<notin> alive st"
  using deref_alive [of tid st] by blast

lemma getTimeshift_alive: "getTimeshift tid c = Inr s \<Longrightarrow> tid \<in> alive (c, g, w)"
  by (auto simp: getTimeshift_def alive_def split: option.splits)

lemma turn_quiet:
  assumes "turn E k st = (k', st')" and "pointers k \<subseteq> alive st" and "\<not> effective k"
  shows "quiet k st k' st'"
proof -
  obtain c g w where st: "st = (c, g, w)" by (metis prod.exhaust)
  note [simp] = st quiet_def deref_None_alive
  note [split] = prod.splits sum.splits if_splits
  show ?thesis
  proof (cases k)
    case (Injecting ns sel t ttl fr todo hs)
    with assms show ?thesis by (cases todo) (auto dest!: one_quiet)
  next
    case (Update tid t fr)
    with assms show ?thesis by (auto dest: getTimeshift_alive [where g = g and w = w])
  next
    case (Advance tid d fr)
    with assms show ?thesis by (auto dest: getTimeshift_alive [where g = g and w = w])
  next
    case (Setting tid t fr snap i us)
    with assms show ?thesis by (auto dest!: one_quiet)
  next
    case (Repairing tid t fr snap i us)
    with assms show ?thesis by (auto dest!: one_quiet)
  next
    case (Reinjecting pod tid t fr css new ms)
    with assms show ?thesis by (cases css) (auto dest!: one_quiet)
  next
    case (Rejoining pod ms)
    with assms show ?thesis by (cases ms) auto
  next
    case (Counting tid)
    with assms gauge_add_quiet [of st 1] show ?thesis by auto
  next
    case (Dropping tid)
    with assms gauge_add_quiet [of st "-1"] show ?thesis by auto
  next
    case (Expiring ids)
    with assms show ?thesis by (cases ids) (auto split: option.splits simp: expire_counts_quiet)
  next
    case (Resetting tid i k)
    with assms show ?thesis by (auto split: option.splits)
  next
    case (Snapshot tid t fr)
    with assms show ?thesis by (auto split: option.splits)
  next
    case (Measuring tid d fr)
    with assms show ?thesis by (auto split: option.splits)
  next
    case (Checking ns sel t ttl fr pods)
    with assms show ?thesis by (auto split: option.splits)
  next
    case (Encoding k)
    with assms show ?thesis by (auto split: option.splits)
  qed (use assms in auto)
qed

section \<open>The invariant\<close>

definition objects_ok :: "'a shared \<Rightarrow> bool" where
  "objects_ok st \<longleftrightarrow> (case st of (c, g, w) \<Rightarrow>
     well_keyed (co_timeshifts c) \<and> dom (map_of (co_timeshifts c)) \<inter> dom (map_of g) = {})"

definition excess :: "'a shared \<Rightarrow> int" where
  "excess st = gauge st - int (length (co_timeshifts (fst st)))"

text \<open>What every turn has to do for the invariant.\<close>

definition sound :: "call \<Rightarrow> 'a shared \<Rightarrow> call \<Rightarrow> 'a shared \<Rightarrow> bool" where
  "sound k st k' st' \<longleftrightarrow> objects_ok st' \<and> excess st' - ahead k' = excess st - ahead k \<and>
     alive st \<subseteq> alive st' \<and> pointers k' \<subseteq> pointers k \<union> alive st'"

lemma quiet_sound: "quiet k st k' st' \<Longrightarrow> objects_ok st \<Longrightarrow> sound k st k' st'"
  by (cases st; cases st') (auto simp: quiet_def sound_def objects_ok_def excess_def same_objects_def alive_def)

lemma length_update_registered: "map_of m k = Some v \<Longrightarrow> length (AList.update k v' m) = length m"
  by (rule length_update_mem [OF map_of_mem_keys])

lemma put_sound:
  assumes "objects_ok st" and "deref (ts_id s) st = None"
  shows "sound (Registering ns sel t ttl fr hs now tid) st (Counting (ts_id s)) (put_timeshift s st)"
proof -
  obtain c g w where st: "st = (c, g, w)" by (metis prod.exhaust)
  from assms(2) have new: "map_of (co_timeshifts c) (ts_id s) = None" "map_of g (ts_id s) = None"
    by (simp_all add: st deref_def split: option.splits)
  then have "length (AList.update (ts_id s) s (co_timeshifts c)) = length (co_timeshifts c) + 1"
    by (simp add: length_update_new map_of_eq_None_iff)
  with assms(1) new show ?thesis
    by (auto simp: st sound_def objects_ok_def put_timeshift_def excess_def gauge_def alive_def
        well_keyed_update split: if_splits)
qed

lemma mutate_sound:
  assumes "objects_ok st" and "\<And>s. ts_id (f s) = ts_id s" and "tid \<in> alive st"
  shows "sound (Committing tid t fr snap us now) st (Encoding (Return tid)) (mutate tid f st)"
proof -
  obtain c g w where st: "st = (c, g, w)" by (metis prod.exhaust)
  show ?thesis
  proof (cases "map_of (co_timeshifts c) tid")
    case None
    with assms show ?thesis
      by (auto simp: st sound_def objects_ok_def mutate_def excess_def gauge_def alive_def split: option.splits if_splits)
  next
    case (Some s)
    then have "ts_id s = tid" using assms(1) well_keyed_id by (auto simp: st objects_ok_def)
    with assms Some show ?thesis
      by (auto simp: st sound_def objects_ok_def mutate_def excess_def gauge_def alive_def
          length_update_registered well_keyed_update split: if_splits)
  qed
qed

lemma take_sound:
  assumes "objects_ok st" and "map_of (co_timeshifts (fst st)) tid = Some s"
  shows "sound (Delete tid) st (Dropping tid) (take_timeshift tid st)"
proof -
  obtain c g w where st: "st = (c, g, w)" by (metis prod.exhaust)
  have "length (AList.delete tid (co_timeshifts c)) + 1 = length (co_timeshifts c)"
    using assms by (intro length_delete_mem map_of_mem_keys) (auto simp: st objects_ok_def)
  with assms show ?thesis
    by (auto simp: st sound_def objects_ok_def take_timeshift_def excess_def gauge_def alive_def
        well_keyed_delete split: if_splits)
qed

lemma length_filter_not: "length (filter P xs) + length (filter (\<lambda>x. \<not> P x) xs) = length xs"
  by (induction xs) auto

lemma sweep_sound:
  assumes "objects_ok st"
  shows "sound (Sweeping now) st (Expiring (keys (expired_at now (fst st)))) (take_expired now st)"
proof -
  obtain c g w where st: "st = (c, g, w)" by (metis prod.exhaust)
  let ?ms = "expired_at now c" and ?ms' = "filter (\<lambda>kv. \<not> is_expired now (snd kv)) (co_timeshifts c)"
  have wf: "wf_map (co_timeshifts c)" using assms by (simp add: st objects_ok_def well_keyed_def)
  have ms: "map_of ?ms tid = (case map_of (co_timeshifts c) tid of None \<Rightarrow> None
      | Some v \<Rightarrow> if is_expired now v then Some v else None)"
    and ms': "map_of ?ms' tid = (case map_of (co_timeshifts c) tid of None \<Rightarrow> None
      | Some v \<Rightarrow> if is_expired now v then None else Some v)" for tid
    using map_of_filter_keys [OF wf, of "is_expired now"] map_of_filter_keys [OF wf, of "\<lambda>v. \<not> is_expired now v"]
    by (simp_all add: expired_at_def split: option.splits)
  have g: "map_of (fold (\<lambda>kv. AList.update (fst kv) (snd kv)) ?ms g) = map_of g ++ map_of ?ms"
    using wf by (intro map_of_fold_update) (simp add: expired_at_def)
  have len: "int (length ?ms) + int (length ?ms') = int (length (co_timeshifts c))"
    using length_filter_not [of "\<lambda>kv. is_expired now (snd kv)" "co_timeshifts c"] by (simp add: expired_at_def)
  have "well_keyed ?ms'" using assms by (intro well_keyed_filter) (simp add: st objects_ok_def)
  moreover have "dom (map_of ?ms') \<inter> (dom (map_of ?ms) \<union> dom (map_of g)) = {}"
    using assms by (auto simp: st objects_ok_def ms ms' dom_def split: option.splits if_splits)
  moreover have "dom (map_of (co_timeshifts c)) \<subseteq> dom (map_of ?ms) \<union> dom (map_of ?ms')"
    by (auto simp: ms ms' dom_def split: option.splits)
  moreover have "set (keys ?ms) = dom (map_of ?ms)" by (simp add: dom_map_of_conv_image_fst)
  ultimately show ?thesis
    using len by (auto simp: st sound_def objects_ok_def take_expired_def excess_def gauge_def alive_def g)
qed

lemma store_handles_sound:
  assumes "objects_ok (c, g, w)"
  shows "sound (Rejoined pod tid new ms) (c, g, w) (Rejoining pod ms) (store_handles tid pod new c, g, w)"
  using assms well_keyed_id [of "co_timeshifts c" tid]
  by (auto simp: sound_def objects_ok_def store_handles_def excess_def gauge_def alive_def
      length_update_registered well_keyed_update split: option.splits if_splits)

lemma turn_sound:
  assumes run: "turn E k st = (k', st')" and ptr: "pointers k \<subseteq> alive st" and ok: "objects_ok st"
    and fresh: "fresh_id k st"
  shows "sound k st k' st'"
proof (cases "effective k")
  case False
  with quiet_sound [OF turn_quiet [OF run ptr]] ok show ?thesis by blast
next
  case True
  obtain c g w where st: "st = (c, g, w)" by (metis prod.exhaust)
  from True show ?thesis
  proof (cases k)
    case (Registering ns sel t ttl fr hs now tid)
    have "ts_id (new_timeshift tid ns sel t ttl fr now hs) = tid" by (simp add: new_timeshift_def)
    with put_sound [OF ok, of "new_timeshift tid ns sel t ttl fr now hs"] run fresh Registering
    show ?thesis by auto
  next
    case (Committing tid t fr snap us now)
    with mutate_sound [OF ok] run ptr show ?thesis by auto
  next
    case (Delete tid)
    show ?thesis
    proof (cases "map_of (co_timeshifts (fst st)) tid")
      case None
      with Delete run ok show ?thesis by (auto simp: sound_def)
    next
      case (Some s)
      with take_sound [OF ok Some] Delete run show ?thesis by auto
    qed
  next
    case (Sweeping now)
    with sweep_sound [OF ok, of now] run show ?thesis by (auto simp: sound_def Let_def split: if_splits)
  next
    case (Rejoined pod tid new ms)
    with store_handles_sound [OF ok [unfolded st]] run show ?thesis by (auto simp: st)
  qed auto
qed

definition sys_ok :: "'a system \<Rightarrow> bool" where
  "sys_ok x \<longleftrightarrow> (case x of (ks, st) \<Rightarrow> objects_ok st \<and> excess st = sum_list (map ahead ks) \<and>
     (\<forall>k \<in> set ks. pointers k \<subseteq> alive st))"

lemma sum_list_map_update:
  "i < length xs \<Longrightarrow> sum_list (map f (xs[i := y])) = sum_list (map f xs) - f (xs ! i) + (f y :: int)"
  by (induction xs arbitrary: i) (auto split: nat.split)

lemma request_clean: "request k \<Longrightarrow> ahead k = 0 \<and> pointers k = {}"
  by (cases k) simp_all

lemma sys_step_ok: "sys_step E l x y \<Longrightarrow> sys_ok x \<Longrightarrow> sys_ok y"
proof (induction rule: sys_step.induct)
  case (arrive k ks st)
  then show ?case by (auto simp: sys_ok_def dest!: request_clean)
next
  case (turn i ks k st k' st')
  then have mem: "k \<in> set ks" by auto
  with turn have s: "sound k st k' st'" by (intro turn_sound) (auto simp: sys_ok_def)
  have "\<forall>j \<in> set (ks[i := k']). pointers j \<subseteq> alive st'"
  proof
    fix j assume "j \<in> set (ks[i := k'])"
    then have "j = k' \<or> j \<in> set ks" using set_update_subset_insert by fastforce
    with s turn.prems mem show "pointers j \<subseteq> alive st'" by (auto simp: sound_def sys_ok_def)
  qed
  with s turn show ?case by (simp add: sys_ok_def sound_def sum_list_map_update)
next
  case (world ks c g w w')
  then show ?case by (simp add: sys_ok_def objects_ok_def excess_def gauge_def alive_def)
qed

lemma sys_reach_ok: "sys_reach E store x \<Longrightarrow> sys_ok x"
proof (induction rule: sys_reach.induct)
  case (start w c w')
  then have "registry_ok c" using restore_ok [OF registry_ok_new [of store], of E w c w'] by simp
  then show ?case by (simp add: sys_ok_def objects_ok_def excess_def gauge_def registry_ok_def)
next
  case (step x l y)
  then show ?case by (blast intro: sys_step_ok)
qed

section \<open>Each turn on the abstract clocks\<close>

text \<open>The operation that a turn carries out, if any.\<close>

fun op_of :: "call \<Rightarrow> ctl_op" where
  "op_of (Registering ns sel t ttl fr hs now tid) = OpCreate t fr"
| "op_of (Committing tid t fr snap us now) = OpUpdate tid t fr"
| "op_of (Delete tid) = OpDelete tid"
| "op_of (Sweeping now) = OpSweep"
| "op_of (Rejoined pod tid new ms) = OpEvent"
| "op_of k = OpWorld"

lemma clocks_alt: "clocks c i = map_option clock_of (map_of (co_timeshifts c) i)"
  by (simp add: clocks_def)

text \<open>The reading of the wall clock that a request carries to its commit was taken from the clock.\<close>

definition is_reading :: "'a cenv \<Rightarrow> gotime \<Rightarrow> bool" where
  "is_reading E now \<longleftrightarrow> (\<exists>w. fst (ce_now E w) = now)"

lemma is_readingI: "ce_now E w = (now, w') \<Longrightarrow> is_reading E now"
  unfolding is_reading_def by (metis fst_conv)

fun carries_reading :: "(gotime \<Rightarrow> bool) \<Rightarrow> call \<Rightarrow> bool" where
  "carries_reading R (Registering ns sel t ttl fr hs now tid) = R now"
| "carries_reading R (Committing tid t fr snap us now) = R now"
| "carries_reading R (Resetting tid i k) = carries_reading R k"
| "carries_reading R (Encoding k) = carries_reading R k"
| "carries_reading R (Flushing ns data k) = carries_reading R k"
| "carries_reading R (Writing b ns data k) = carries_reading R k"
| "carries_reading R k = True"

lemma carries_any: "carries_reading (\<lambda>_. True) k"
  by (induction k) simp_all

lemma turn_carries:
  assumes "turn E k st = (k', st')" and "carries_reading (is_reading E) k"
  shows "carries_reading (is_reading E) k'"
proof -
  obtain c g w where st: "st = (c, g, w)" by (metis prod.exhaust)
  note [split] = prod.splits sum.splits if_splits option.splits
  show ?thesis
  proof (cases k)
    case (Injecting ns sel t ttl fr todo hs)
    with assms show ?thesis by (cases todo) (auto simp: st)
  next
    case (Reinjecting pod tid t fr css new ms)
    with assms show ?thesis by (cases css) (auto simp: st)
  next
    case (Rejoining pod ms)
    with assms show ?thesis by (cases ms) (auto simp: st)
  next
    case (Expiring ids)
    with assms show ?thesis by (cases ids) (auto simp: st)
  qed (use assms in \<open>auto simp: st Let_def dest: is_readingI\<close>)
qed

definition all_carry :: "'a cenv \<Rightarrow> 'a system \<Rightarrow> bool" where
  "all_carry E x \<longleftrightarrow> (\<forall>k \<in> set (fst x). carries_reading (is_reading E) k)"

lemma request_carries: "request k \<Longrightarrow> carries_reading (is_reading E) k"
  by (cases k) simp_all

lemma sys_step_carries: "sys_step E l x y \<Longrightarrow> all_carry E x \<Longrightarrow> all_carry E y"
proof (induction rule: sys_step.induct)
  case (arrive k ks st)
  then show ?case by (auto simp: all_carry_def dest: request_carries)
next
  case (turn i ks k st k' st')
  then have "carries_reading (is_reading E) k'" using turn_carries [OF turn(4)] by (auto simp: all_carry_def)
  with turn.prems show ?case
    using set_update_subset_insert [of ks i k'] by (auto simp: all_carry_def)
qed (simp add: all_carry_def)

lemma sys_reach_carries: "sys_reach E store x \<Longrightarrow> all_carry E x"
  by (induction rule: sys_reach.induct) (simp add: all_carry_def, blast intro: sys_step_carries)

lemma turn_clocks:
  assumes run: "turn E k st = (k', st')" and ptr: "pointers k \<subseteq> alive st" and ok: "objects_ok st"
    and fresh: "fresh_id k st" and carries: "carries_reading R k"
  shows "clock_step R (op_of k) (clocks (fst st)) (clocks (fst st'))"
proof (cases "effective k")
  case False
  with turn_quiet [OF run ptr] have "clocks (fst st') = clocks (fst st)"
    by (simp add: quiet_def same_objects_def clocks_def)
  moreover from False have "op_of k = OpWorld" by (cases k) simp_all
  ultimately show ?thesis by (simp add: clock_step.world)
next
  case True
  obtain c g w where st: "st = (c, g, w)" by (metis prod.exhaust)
  from True show ?thesis
  proof (cases k)
    case (Registering ns sel t ttl fr hs now tid)
    let ?s = "new_timeshift tid ns sel t ttl fr now hs"
    have s: "ts_id ?s = tid" "clock_of ?s = clock_at t fr now"
      by (simp_all add: new_timeshift_def clock_of_def clock_at_def)
    have "clocks c tid = None"
      using fresh Registering by (auto simp: st clocks_alt deref_def split: option.splits)
    moreover have "clocks (fst st') = (clocks c)(tid \<mapsto> clock_at t fr now)"
      using run Registering s by (auto simp: st put_timeshift_def clocks_def)
    moreover have "R now" using carries Registering by simp
    ultimately show ?thesis using Registering by (simp add: st clock_step.created del: fun_upd_apply)
  next
    case (Committing tid t fr snap us now)
    show ?thesis
    proof (cases "map_of (co_timeshifts c) tid")
      case None
      with run Committing have "clocks (fst st') = clocks c"
        by (auto simp: st mutate_def split: option.splits)
      with None Committing show ?thesis by (simp add: st clock_step.no_update clocks_alt)
    next
      case (Some s)
      have "clock_of (commit_update snap us t now fr s) = clock_at t fr now"
        by (simp add: commit_update_def clock_of_mark)
      then have "clocks (fst st') = (clocks c)(tid \<mapsto> clock_at t fr now)"
        using run Committing Some by (auto simp: st mutate_def clocks_def)
      moreover have "R now" using carries Committing by simp
      ultimately show ?thesis
        using clock_step.updated [of "clocks c" tid R now t fr] Some Committing by (simp add: st clocks_alt del: fun_upd_apply)
    qed
  next
    case (Delete tid)
    then have "clocks (fst st') = (clocks c)(tid := None)"
      using run by (auto simp: st take_timeshift_def clocks_def split: option.splits)
    with Delete show ?thesis by (simp add: st clock_step.deleted del: fun_upd_apply)
  next
    case (Sweeping now)
    have wf: "wf_map (co_timeshifts c)" using ok by (simp add: st objects_ok_def well_keyed_def)
    let ?I = "{i. \<exists>s. map_of (co_timeshifts c) i = Some s \<and> is_expired now s}"
    have "co_timeshifts (fst st') = filter (\<lambda>kv. \<not> is_expired now (snd kv)) (co_timeshifts c)"
      using run Sweeping by (auto simp: st take_expired_def Let_def)
    then have "clocks (fst st') = clocks c |` (- ?I)"
      by (auto simp: clocks_def map_of_filter_keys [OF wf, where P = "\<lambda>s. \<not> is_expired now s"]
          restrict_map_def fun_eq_iff split: option.splits)
    with Sweeping show ?thesis by (simp add: st clock_step.swept)
  next
    case (Rejoined pod tid new ms)
    with run store_handles_clocks [of tid pod new c] show ?thesis by (auto simp: st clock_step.event)
  qed auto
qed

lemma sys_step_clocks:
  assumes "sys_step E l x y" and "sys_ok x" and "all_carry E x"
  shows "clock_step (is_reading E) (case l of None \<Rightarrow> OpWorld | Some k \<Rightarrow> op_of k)
    (clocks (fst (snd x))) (clocks (fst (snd y)))"
  using assms(1)
proof (cases rule: sys_step.cases)
  case (turn i ks k st k' st')
  then have "k \<in> set ks" by auto
  then have "pointers k \<subseteq> alive st" "objects_ok st" "carries_reading (is_reading E) k"
    using assms(2,3) turn by (auto simp: sys_ok_def all_carry_def)
  with turn_clocks [OF turn(7)] turn show ?thesis by simp
qed (simp_all add: clock_step.world)

section \<open>Removed timeshifts stay removed\<close>

definition removed :: "string \<Rightarrow> 'a system \<Rightarrow> bool" where
  "removed tid x \<longleftrightarrow> (case x of (ks, (c, g, w)) \<Rightarrow> map_of (co_timeshifts c) tid = None \<and> map_of g tid \<noteq> None)"

inductive sys_run :: "'a cenv \<Rightarrow> 'a system \<Rightarrow> 'a system \<Rightarrow> bool" for E :: "'a cenv" where
  none [simp, intro]: "sys_run E x x"
| more: "sys_run E x y \<Longrightarrow> sys_step E l y z \<Longrightarrow> sys_run E x z"

lemma delete_removes:
  assumes "sys_step E (Some (Delete tid)) x y" and "map_of (co_timeshifts (ctl_of x)) tid \<noteq> None"
  shows "removed tid y"
  using assms(1)
proof (cases rule: sys_step.cases)
  case (turn i ks st k' st')
  with assms(2) show ?thesis by (cases st) (auto simp: removed_def take_timeshift_def)
qed

lemma clock_step_None:
  "clock_step R opn m m' \<Longrightarrow> m i = None \<Longrightarrow> \<forall>t fr. opn \<noteq> OpCreate t fr \<Longrightarrow> m' i = None"
  by (induction rule: clock_step.induct) (auto simp: restrict_map_def)

lemma turn_removed:
  assumes run: "turn E k (c, g, w) = (k', (c', g', w'))" and ptr: "pointers k \<subseteq> alive (c, g, w)"
    and ok: "objects_ok (c, g, w)" and fresh: "fresh_id k (c, g, w)"
    and gone: "map_of (co_timeshifts c) tid = None" "map_of g tid \<noteq> None"
  shows "map_of (co_timeshifts c') tid = None \<and> map_of g' tid \<noteq> None"
proof -
  have s: "sound k (c, g, w) k' (c', g', w')" by (rule turn_sound [OF run ptr ok fresh])
  have "map_of (co_timeshifts c') tid = None"
  proof (cases "\<exists>t fr. op_of k = OpCreate t fr")
    case True
    then obtain ns sel t ttl fr hs now tid' where k: "k = Registering ns sel t ttl fr hs now tid'"
      by (cases k) auto
    then have "tid' \<noteq> tid" using fresh gone by (auto simp: deref_def split: option.splits)
    with k run gone show ?thesis by (auto simp: put_timeshift_def new_timeshift_def)
  next
    case False
    have "clock_step (\<lambda>_. True) (op_of k) (clocks c) (clocks c')"
      using turn_clocks [OF run ptr ok fresh carries_any] by simp
    moreover have "clocks c tid = None" using gone by (simp add: clocks_alt)
    ultimately have "clocks c' tid = None" using False by (blast intro: clock_step_None)
    then show ?thesis by (simp add: clocks_alt)
  qed
  with s gone show ?thesis by (auto simp: sound_def alive_def)
qed

lemma step_removed:
  assumes "sys_step E l x y" and "sys_ok x" and "removed tid x"
  shows "removed tid y"
  using assms
proof (cases rule: sys_step.cases)
  case (turn i ks k st k' st')
  obtain c g w c' g' w' where "st = (c, g, w)" "st' = (c', g', w')" by (metis prod.exhaust)
  with turn turn_removed [of E k c g w k' c' g' w' tid] assms show ?thesis
    by (auto simp: sys_ok_def removed_def)
qed (auto simp: removed_def)

lemma run_removed: "sys_run E x y \<Longrightarrow> sys_ok x \<Longrightarrow> removed tid x \<Longrightarrow> removed tid y \<and> sys_ok y"
  by (induction rule: sys_run.induct) (auto intro: step_removed sys_step_ok)

end
