(* ===== verification/Races.thy ===== *)
theory Races
  imports InterleaveInv
begin

text \<open>
  A world in which requests interfere: one pod with one container, whose clock the agent sets,
  and one ConfigMap. It is used to run schedules; it is not part of the program.
\<close>

record race_world =
  rw_ids :: nat
  rw_clock :: "(gotime \<times> bool) option"
  rw_cm :: "(string \<times> string) list option"

definition race_pod :: k8s_pod where
  "race_pod = \<lparr>pod_Name = ''web-0'', pod_Namespace = ''default'', pod_Labels = [],
     pod_Phase = ''Running'', pod_HostIP = ''10.0.0.1'',
     pod_ContainerStatuses = [\<lparr>cs_Name = ''app'', cs_ContainerID = ''c'', cs_Running = True\<rparr>]\<rparr>"

definition race_agents :: "race_world agents" where
  "race_agents = \<lparr>ag_Inject = (\<lambda>n cid t f w. (Inr ''h'', w\<lparr>rw_clock := Some (t, f)\<rparr>)),
     ag_SetTime = (\<lambda>n h t f w. (Inr (), w\<lparr>rw_clock := Some (t, f)\<rparr>)),
     ag_Reset = (\<lambda>n h w. (Inr (), w\<lparr>rw_clock := None\<rparr>)), ag_GetStatus = (\<lambda>n h w. (Inl (Msg ''none''), w))\<rparr>"

text \<open>The texts of the codec are an empty array and an array of one timeshift, by its frozen time.\<close>

definition race_stored :: "int \<Rightarrow> storedTimeshift" where
  "race_stored t = \<lparr>st_ID = hex_encode (replicate 16 0), st_Namespace = ''default'', st_LabelSelector = ''app=web'',
     st_Offset = 0, st_FrozenAt = t, st_Frozen = True, st_TTL = 0, st_ExpiresAt = zero_time,
     st_CreatedAt = 0, st_Handles = [\<lparr>sh_Pod = ''web-0'', sh_Container = ''app'', sh_NodeIP = ''10.0.0.1'',
       sh_ContainerID = ''c'', sh_AgentHandle = ''h''\<rparr>]\<rparr>"

definition race_Marshal :: "storedTimeshift list \<Rightarrow> goerr + string" where
  "race_Marshal x = (if x = [] then Inr ''[]'' else if x = [race_stored 1] then Inr ''[1]''
     else if x = [race_stored 2] then Inr ''[2]'' else Inl (Msg ''unsupported''))"

definition race_Unmarshal :: "string \<Rightarrow> goerr + storedTimeshift list" where
  "race_Unmarshal s = (if s = ''[]'' then Inr [] else if s = ''[1]'' then Inr [race_stored 1]
     else if s = ''[2]'' then Inr [race_stored 2] else Inl (Msg ''syntax''))"

definition race_env :: "race_world cenv" where
  "race_env =
     \<lparr>ce_agents = race_agents,
      ce_ListPods = (\<lambda>ns sel w. (Inr [race_pod], w)),
      ce_GetConfigMap = (\<lambda>ns n w. (case rw_cm w of None \<Rightarrow> Inl (Msg ''not found'') | Some d \<Rightarrow> Inr d, w)),
      ce_CreateConfigMap = (\<lambda>ns n d w. (None, w\<lparr>rw_cm := Some d\<rparr>)),
      ce_UpdateConfigMap = (\<lambda>ns n d w. (None, w\<lparr>rw_cm := Some d\<rparr>)),
      ce_IsNotFound = (\<lambda>e. e = Msg ''not found''),
      ce_Matches = (\<lambda>sel labels. Some True),
      ce_Event = (\<lambda>ns p msg w. w),
      ce_now = (\<lambda>w. (0, w)),
      ce_rand = (\<lambda>n w. (replicate n (of_nat (rw_ids w)), w\<lparr>rw_ids := rw_ids w + 1\<rparr>)),
      ce_Marshal = race_Marshal, ce_Unmarshal = race_Unmarshal\<rparr>"

definition race_world0 :: race_world where
  "race_world0 = \<lparr>rw_ids = 0, rw_clock = None, rw_cm = None\<rparr>"

lemma case_SomeE:
  assumes "case x of None \<Rightarrow> False | Some y \<Rightarrow> P y"
  obtains y where "x = Some y" and "P y"
  using assms by (cases x) simp_all

text \<open>A schedule: which request makes the next turn.\<close>

fun play :: "'a cenv \<Rightarrow> nat list \<Rightarrow> 'a system \<Rightarrow> 'a system option" where
  "play E [] x = Some x"
| "play E (i # is) (ks, st) =
     (if i < length ks \<and> fresh_id (ks ! i) st
      then case turn E (ks ! i) st of (k, st') \<Rightarrow> play E is (ks[i := k], st') else None)"

lemma play_reach: "play E is x = Some y \<Longrightarrow> sys_reach E store x \<Longrightarrow> sys_reach E store y"
proof (induction E "is" x rule: play.induct)
  case (2 E i "is" ks st)
  then show ?case by (auto split: if_splits prod.splits intro: sys_reach.step sys_step.turn)
qed simp

lemma play_turns: "play E is x = Some y \<Longrightarrow> turns E x y"
proof (induction E "is" x rule: play.induct)
  case (2 E i "is" ks st)
  then show ?case by (auto split: if_splits prod.splits intro: turns_trans turns_turn)
qed simp

lemma sys_run_step: "sys_run E y z \<Longrightarrow> sys_step E l x y \<Longrightarrow> sys_run E x z"
proof (induction rule: sys_run.induct)
  case (none x')
  then show ?case using sys_run.more [OF sys_run.none] by blast
next
  case (more y' y'' l' z)
  then show ?case using sys_run.more by blast
qed

lemma play_run: "play E is x = Some y \<Longrightarrow> sys_run E x y"
proof (induction E "is" x rule: play.induct)
  case (2 E i "is" ks st)
  then show ?case by (auto split: if_splits prod.splits intro: sys_run_step sys_step.turn)
qed simp

lemma run_run: "sys_run E y z \<Longrightarrow> sys_run E x y \<Longrightarrow> sys_run E x z"
  by (induction rule: sys_run.induct) (auto intro: sys_run.more)

lemma run_reach: "sys_run E x y \<Longrightarrow> sys_reach E store x \<Longrightarrow> sys_reach E store y"
  by (induction rule: sys_run.induct) (auto intro: sys_reach.step)

text \<open>Requests that arrive together.\<close>

lemma arrive_reach: "sys_reach E store (ks, st) \<Longrightarrow> list_all request new \<Longrightarrow> sys_reach E store (ks @ new, st)"
proof (induction new arbitrary: ks)
  case (Cons k new)
  then have "sys_reach E store (ks @ [k], st)" by (auto intro: sys_reach.step sys_step.arrive)
  from Cons.IH [OF this] Cons.prems show ?case by simp
qed simp

definition race_start :: "race_world shared" where
  "race_start = (newController (Some ''ns''), [], race_world0)"

lemma race_start_reach: "sys_reach race_env (Some ''ns'') ([], race_start)"
  using sys_reach.start [of race_env "Some ''ns''" race_world0]
  by (simp add: race_start_def restore_def newController_def load_def race_env_def race_world0_def)

definition race_id :: string where "race_id = hex_encode (replicate 16 0)"

section \<open>Three schedules\<close>

text \<open>The first request creates the timeshift, two more act on it.\<close>

definition race_calls :: "call \<Rightarrow> call \<Rightarrow> call list" where
  "race_calls a b = [Create ''default'' ''app=web'' 1 0 True, a, b]"

fun finished :: "call \<Rightarrow> bool" where
  "finished (Returned (Inr r)) = True"
| "finished k = False"

definition ends_in :: "nat list \<Rightarrow> call list \<Rightarrow> (race_world shared \<Rightarrow> bool) \<Rightarrow> bool" where
  "ends_in is ks P =
     (case play race_env is (ks, race_start) of
        None \<Rightarrow> False
      | Some (ks', st) \<Rightarrow> list_all finished ks' \<and> P st)"

lemma ends_in_turns:
  assumes "ends_in is ks P"
  shows "\<exists>ks' st. turns race_env (ks, race_start) (ks', st) \<and> list_all finished ks' \<and> P st"
proof -
  obtain ks' st where run: "play race_env is (ks, race_start) = Some (ks', st)" "list_all finished ks'" "P st"
    using assms(1) by (auto simp: ends_in_def split: option.splits)
  from play_turns [OF run(1)] run show ?thesis by blast
qed

text \<open>An update has read the handles, a delete runs, then the update writes the clock.\<close>

lemma orphan_schedule:
  "ends_in (replicate 12 0 @ replicate 2 1 @ replicate 8 2 @ replicate 7 1)
     (race_calls (Update race_id 2 True) (Delete race_id))
     (\<lambda>(c, g, w). co_timeshifts c = [] \<and> rw_clock w = Some (2, True))"
  by code_simp

text \<open>Two updates write the clock in one order and commit in the other.\<close>

lemma disagree_schedule:
  "ends_in (replicate 12 0 @ replicate 3 1 @ replicate 9 2 @ replicate 6 1)
     (race_calls (Update race_id 2 True) (Update race_id 1 True))
     (\<lambda>(c, g, w). map (ts_frozenAt \<circ> snd) (co_timeshifts c) = [2] \<and> rw_clock w = Some (1, True))"
  by code_simp

text \<open>Two creates both check before either registers.\<close>

lemma double_schedule:
  "ends_in (replicate 2 0 @ replicate 2 1 @ replicate 9 0 @ replicate 9 1)
     [Create ''default'' ''app=web'' 1 0 True, Create ''default'' ''app=web'' 2 0 True]
     (\<lambda>(c, g, w). map (appliedTo \<circ> snd) (co_timeshifts c) = [[''web-0/app''], [''web-0/app'']])"
  by code_simp

end
