(* ===== verification/TimeshiftType.thy ===== *)
theory TimeshiftType
  imports InterleaveInv
begin

text \<open>
  What a timeshift of the running controller looks like: the fields that go together, and the
  lengths that the code's slices rely on. It holds under every schedule.
\<close>

section \<open>Well-formed timeshifts\<close>

text \<open>
  The id has 32 characters, some container is shifted, the offset is a duration, only the field
  of the present mode is set, and without a time to live there is no expiry.
\<close>

definition ts_typed :: "timeshift \<Rightarrow> bool" where
  "ts_typed s \<longleftrightarrow> length (ts_id s) = 32 \<and> ts_handles s \<noteq> [] \<and> in_int64 (ts_offset s) \<and>
     (if ts_frozen s then ts_offset s = 0 else ts_frozenAt s = zero_time) \<and>
     (ts_ttl s \<le> 0 \<longrightarrow> ts_expiresAt s = zero_time)"

lemma new_typed:
  "length tid = 32 \<Longrightarrow> hs \<noteq> [] \<Longrightarrow> ts_typed (new_timeshift tid ns sel t ttl fr now hs)"
  by (simp add: ts_typed_def new_timeshift_def)

lemma length_apply_update [simp]: "length (apply_update snap u hs) = length hs"
  by (cases u) (simp add: apply_update_def)

lemma length_apply_updates [simp]: "length (fold (apply_update snap) us hs) = length hs"
  by (induction us arbitrary: hs) simp_all

lemma commit_typed: "ts_typed s \<Longrightarrow> ts_typed (commit_update snap us t now fr s)"
  using length_apply_updates [of snap us "ts_handles s"]
  by (auto simp: ts_typed_def commit_update_def ts_mark_def ts_mark_frozen_def ts_mark_set_def
      simp del: length_apply_updates)

lemma replace_typed: "ts_typed s \<Longrightarrow> new \<noteq> [] \<Longrightarrow> ts_typed (replace_handles pod new s)"
  by (simp add: ts_typed_def replace_handles_def)

lemma typed_never_expires: "ts_typed s \<Longrightarrow> ts_ttl s \<le> 0 \<Longrightarrow> \<not> is_expired now s"
  by (simp add: ts_typed_def is_expired_def time_IsZero_def)

section \<open>In every state\<close>

text \<open>What a map has filed under one id.\<close>

definition typed_at :: "string \<Rightarrow> (string, timeshift) gomap \<Rightarrow> bool" where
  "typed_at i m \<longleftrightarrow> (\<forall>s. map_of m i = Some s \<longrightarrow> ts_typed s)"

lemma typed_at_new: "typed_at i m \<Longrightarrow> ts_typed s \<Longrightarrow> typed_at i (AList.update tid s m)"
  by (simp add: typed_at_def)

lemma typed_at_change:
  "typed_at i m \<Longrightarrow> map_of m tid = Some s \<Longrightarrow> (ts_typed s \<Longrightarrow> ts_typed s') \<Longrightarrow> typed_at i (AList.update tid s' m)"
  by (auto simp: typed_at_def)

lemma typed_at_move: "typed_at i m \<Longrightarrow> typed_at i g \<Longrightarrow> map_of m tid = Some s \<Longrightarrow> typed_at i (AList.update tid s g)"
  by (auto simp: typed_at_def)

lemma typed_at_delete: "typed_at i m \<Longrightarrow> typed_at i (AList.delete tid m)"
  by (simp add: typed_at_def)

lemma typed_at_filter: "wf_map m \<Longrightarrow> typed_at i m \<Longrightarrow> typed_at i (filter (\<lambda>kv. P (snd kv)) m)"
  by (auto simp: typed_at_def map_of_filter_keys split: option.splits if_splits)

definition objects_typed :: "string \<Rightarrow> 'a shared \<Rightarrow> bool" where
  "objects_typed i st \<longleftrightarrow> (case st of (c, g, w) \<Rightarrow> typed_at i (co_timeshifts c) \<and> typed_at i g)"

text \<open>What a request carries to a timeshift.\<close>

fun call_typed :: "call \<Rightarrow> bool" where
  "call_typed (Stamping ns sel t ttl fr hs) = (hs \<noteq> [])"
| "call_typed (Registering ns sel t ttl fr hs now tid) = (hs \<noteq> [] \<and> length tid = 32)"
| "call_typed (Rejoined pod tid new ms) = (new \<noteq> [])"
| "call_typed (Resetting tid i k) = call_typed k"
| "call_typed (Encoding k) = call_typed k"
| "call_typed (Flushing ns data k) = call_typed k"
| "call_typed (Writing b ns data k) = call_typed k"
| "call_typed k = True"

text \<open>The random source fills the buffer it is given.\<close>

definition rand_fills :: "'a cenv \<Rightarrow> bool" where
  "rand_fills E \<longleftrightarrow> (\<forall>n w. length (fst (ce_rand E n w)) = n)"

lemma length_newID: "rand_fills E \<Longrightarrow> length (fst (newID E w)) = 32"
  unfolding rand_fills_def by (auto simp: newID_def length_hex_encode split: prod.splits) (metis fst_conv)

lemma turn_objects_typed:
  assumes run: "turn E k st = (k', st')" and ptr: "pointers k \<subseteq> alive st" and ok: "objects_ok st"
    and typed: "objects_typed i st" "call_typed k"
  shows "objects_typed i st'"
proof (cases "effective k")
  case False
  with turn_quiet [OF run ptr] have "same_objects st st'" by (simp add: quiet_def)
  with typed(1) show ?thesis
    by (cases st; cases st') (simp add: objects_typed_def same_objects_def)
next
  case True
  obtain c g w where st: "st = (c, g, w)" by (metis prod.exhaust)
  have c: "typed_at i (co_timeshifts c)" and g: "typed_at i g" using typed(1) by (simp_all add: st objects_typed_def)
  from True show ?thesis
  proof (cases k)
    case (Registering ns sel t ttl fr hs now tid)
    with run c g typed(2) new_typed [of tid hs ns sel t ttl fr now] show ?thesis
      by (auto simp: st put_timeshift_def objects_typed_def intro: typed_at_new)
  next
    case (Committing tid t fr snap us now)
    with run c g show ?thesis
      by (auto simp: st mutate_def objects_typed_def split: option.splits
          intro: typed_at_change [OF _ _ commit_typed])
  next
    case (Delete tid)
    with run c g show ?thesis
      by (auto simp: st take_timeshift_def objects_typed_def split: option.splits
          intro: typed_at_move typed_at_delete)
  next
    case (Sweeping now)
    have wf: "wf_map (co_timeshifts c)" using ok by (simp add: st objects_ok_def well_keyed_def)
    then have "wf_map (expired_at now c)" by (simp add: expired_at_def)
    moreover have "typed_at i (expired_at now c)" using typed_at_filter [OF wf c] by (simp add: expired_at_def)
    ultimately have "typed_at i (fold (\<lambda>kv. AList.update (fst kv) (snd kv)) (expired_at now c) g)"
      using g by (auto simp: typed_at_def map_of_fold_update)
    with Sweeping run typed_at_filter [OF wf c, of "\<lambda>s. \<not> is_expired now s"] show ?thesis
      by (auto simp: st take_expired_def objects_typed_def Let_def)
  next
    case (Rejoined pod tid new ms)
    with run c g typed(2) show ?thesis
      by (auto simp: st store_handles_def objects_typed_def split: option.splits
          intro!: typed_at_change [OF _ _ replace_typed])
  qed auto
qed

lemma turn_call_typed:
  assumes "turn E k st = (k', st')" and "call_typed k" and "rand_fills E"
  shows "call_typed k'"
proof -
  obtain c g w where st: "st = (c, g, w)" by (metis prod.exhaust)
  note [split] = prod.splits sum.splits if_splits option.splits
  show ?thesis
  proof (cases k)
    case (Stamping ns sel t ttl fr hs)
    obtain now w1 where now: "ce_now E w = (now, w1)" by (rule prod.exhaust)
    obtain tid w2 where new: "newID E w1 = (tid, w2)" by (rule prod.exhaust)
    with length_newID [OF assms(3), of w1] assms Stamping now show ?thesis by (auto simp: st)
  next
    case (Injecting ns sel t ttl fr todo hs)
    with assms show ?thesis by (cases todo) (auto simp: st)
  next
    case (Reinjecting pod tid t fr css new ms)
    with assms show ?thesis by (cases css) (auto simp: st)
  next
    case (Rejoining pod ms)
    with assms show ?thesis by (cases ms) (auto simp: st)
  next
    case (Expiring ids)
    with assms show ?thesis by (cases ids) (auto simp: st)
  qed (use assms in \<open>auto simp: st Let_def\<close>)
qed

definition sys_typed :: "string \<Rightarrow> 'a system \<Rightarrow> bool" where
  "sys_typed i x \<longleftrightarrow> (case x of (ks, st) \<Rightarrow> objects_typed i st \<and> (\<forall>k \<in> set ks. call_typed k))"

lemma request_typed: "request k \<Longrightarrow> call_typed k"
  by (cases k) simp_all

lemma sys_step_typed: "sys_step E l x y \<Longrightarrow> rand_fills E \<Longrightarrow> sys_ok x \<Longrightarrow> sys_typed i x \<Longrightarrow> sys_typed i y"
proof (induction rule: sys_step.induct)
  case (arrive k ks st)
  then show ?case by (auto simp: sys_typed_def dest: request_typed)
next
  case (turn j ks k st k' st')
  then have mem: "k \<in> set ks" by auto
  with turn.prems have "pointers k \<subseteq> alive st" "objects_ok st" "objects_typed i st" "call_typed k"
    by (auto simp: sys_ok_def sys_typed_def)
  with turn_objects_typed [OF turn(4)] turn_call_typed [OF turn(4)] turn.prems
  have "objects_typed i st'" "call_typed k'" by blast+
  with turn.prems show ?case
    using set_update_subset_insert [of ks j k'] by (auto simp: sys_typed_def)
next
  case (world ks c g w w')
  then show ?case by (simp add: sys_typed_def objects_typed_def)
qed

lemma sys_run_typed:
  "sys_run E x y \<Longrightarrow> rand_fills E \<Longrightarrow> sys_ok x \<Longrightarrow> sys_typed i x \<Longrightarrow> sys_typed i y \<and> sys_ok y"
  by (induction rule: sys_run.induct) (auto intro: sys_step_typed sys_step_ok)

text \<open>The start of a process: the registry that it restored, and no request.\<close>

lemma start_ok: "restore E (newController store, w0) = (c0, w1) \<Longrightarrow> sys_ok ([], (c0, [], w1))"
  by (rule sys_reach_ok [OF sys_reach.start])

lemma start_typed: "typed_at i (co_timeshifts c0) \<Longrightarrow> sys_typed i ([], (c0, [], w1))"
  by (simp add: sys_typed_def objects_typed_def typed_at_def)

end
