(* ===== verification/InterleaveClaims.thy ===== *)
theory InterleaveClaims
  imports Races TimeshiftType
begin

text \<open>
  The properties of the controller with requests in flight: what holds under every schedule, that
  a request left alone does what its sequential operation does, and the schedules that go wrong.
\<close>

section \<open>Under every schedule\<close>

text \<open>
  C16. In every state that the controller can reach with any number of requests in flight, each
  timeshift is filed once and under its own id, no request holds a pointer to nothing, and the
  gauge of active timeshifts is the size of the registry but for the requests between their
  registry change and their gauge change: with none of them it is exact.
\<close>

theorem interleaved_registry_consistent:
  assumes "sys_reach E store (ks, (c, g, w))"
  shows "wf_map (co_timeshifts c) \<and>
    (\<forall>tid s. map_of (co_timeshifts c) tid = Some s \<longrightarrow> ts_id s = tid) \<and>
    (\<forall>k \<in> set ks. \<forall>tid \<in> pointers k. deref tid (c, g, w) \<noteq> None) \<and>
    m_timeshiftsActive (co_met c) = int (length (co_timeshifts c)) + sum_list (map ahead ks)"
proof -
  have ok: "sys_ok (ks, (c, g, w))" using sys_reach_ok [OF assms] .
  then have "well_keyed (co_timeshifts c)" "excess (c, g, w) = sum_list (map ahead ks)"
    "\<forall>k \<in> set ks. pointers k \<subseteq> alive (c, g, w)"
    by (simp_all add: sys_ok_def objects_ok_def)
  then show ?thesis
    using well_keyed_id [of "co_timeshifts c"] deref_alive [of _ "(c, g, w)"]
    by (auto simp: well_keyed_def excess_def gauge_def)
qed

lemma race_create_reach:
  "\<exists>ks' c g w. sys_reach race_env (Some ''ns'') (ks', (c, g, w)) \<and> length (co_timeshifts c) = 1 \<and>
     sum_list (map ahead ks') = -1"
proof -
  have "case play race_env (replicate 6 0) ([Create ''default'' ''app=web'' 1 0 True], race_start) of
      None \<Rightarrow> False | Some (ks, (c, g, w)) \<Rightarrow> length (co_timeshifts c) = 1 \<and> sum_list (map ahead ks) = -1"
    by code_simp
  then obtain ks c g w where
    run: "play race_env (replicate 6 0) ([Create ''default'' ''app=web'' 1 0 True], race_start) = Some (ks, (c, g, w))"
    and "length (co_timeshifts c) = 1 \<and> sum_list (map ahead ks) = -1"
    by (auto split: option.splits)
  moreover have "sys_reach race_env (Some ''ns'') ([Create ''default'' ''app=web'' 1 0 True], race_start)"
    using arrive_reach [OF race_start_reach, of "[Create ''default'' ''app=web'' 1 0 True]"] by simp
  ultimately show ?thesis using play_reach [OF run] by blast
qed

theorem interleaved_registry_consistent_witness:
  "\<exists>ks c g w. sys_reach race_env (Some ''ns'') (ks, (c, g, w)) \<and> length (co_timeshifts c) = 1 \<and>
     m_timeshiftsActive (co_met c) = 0"
proof -
  obtain ks c g w where r: "sys_reach race_env (Some ''ns'') (ks, (c, g, w))"
    and n: "length (co_timeshifts c) = 1" "sum_list (map ahead ks) = -1"
    using race_create_reach by blast
  from interleaved_registry_consistent [OF r] n have "m_timeshiftsActive (co_met c) = 0" by simp
  with r n show ?thesis by blast
qed

text \<open>
  C22. Whatever requests are in flight and in whatever order they take their turns, each
  registered timeshift that this process created is well formed, and so is each one that was well
  formed when the process restored it at its start: its id, under which it is filed, has 32
  characters, so the slices of the log lines are in range; some container is shifted; the offset is
  a duration and only the field of the present mode is set; and without a time to live it never
  expires. Nothing is assumed of what the store holds.
\<close>

theorem registered_timeshift_well_formed:
  assumes "rand_fills E" and "restore E (newController store, w0) = (c0, w1)"
    and "sys_run E ([], (c0, [], w1)) (ks, (c, g, w))"
    and "map_of (co_timeshifts c) tid = Some s"
    and "\<And>s0. map_of (co_timeshifts c0) tid = Some s0 \<Longrightarrow> ts_typed s0"
  shows "length tid = 32 \<and> ts_id s = tid \<and> ts_handles s \<noteq> [] \<and> in_int64 (ts_offset s) \<and>
    (ts_frozen s \<longrightarrow> ts_offset s = 0) \<and> (\<not> ts_frozen s \<longrightarrow> ts_frozenAt s = zero_time) \<and>
    (ts_ttl s \<le> 0 \<longrightarrow> \<not> is_expired now s)"
proof -
  have "typed_at tid (co_timeshifts c0)" using assms(5) by (simp add: typed_at_def)
  from sys_run_typed [OF assms(3,1) start_ok [OF assms(2)] start_typed [OF this]]
  have typed: "sys_typed tid (ks, (c, g, w))" and ok: "sys_ok (ks, (c, g, w))" by blast+
  have "well_keyed (co_timeshifts c)" using ok by (simp add: sys_ok_def objects_ok_def)
  then have "ts_id s = tid" using assms(4) well_keyed_id by blast
  moreover have "ts_typed s"
    using typed assms(4) by (simp add: sys_typed_def objects_typed_def typed_at_def)
  ultimately show ?thesis using typed_never_expires [of s now] by (auto simp: ts_typed_def split: if_splits)
qed

lemma race_rand: "rand_fills race_env"
  by (simp add: rand_fills_def race_env_def)

lemma race_restore0: "restore race_env (newController (Some ''ns''), race_world0) = (newController (Some ''ns''), race_world0)"
  by (simp add: restore_def newController_def load_def race_env_def race_world0_def)

text \<open>Requests that arrive after the start.\<close>

lemma arrive_run: "sys_run E x (ks, st) \<Longrightarrow> list_all request new \<Longrightarrow> sys_run E x (ks @ new, st)"
proof (induction new arbitrary: ks)
  case (Cons k new)
  then have "sys_run E x (ks @ [k], st)" by (auto intro: sys_run.more sys_step.arrive)
  from Cons.IH [OF this] Cons.prems show ?case by simp
qed simp

lemma race_run:
  assumes "play race_env is (ks, race_start) = Some x" and "list_all request ks"
  shows "sys_run race_env ([], race_start) x"
proof -
  have "sys_run race_env ([], race_start) (ks, race_start)" using arrive_run [of _ "([], race_start)" "[]" race_start ks] assms(2) by simp
  with play_run [OF assms(1)] show ?thesis by (rule run_run)
qed

theorem registered_timeshift_well_formed_witness:
  "\<exists>ks c g w tid s. sys_run race_env ([], race_start) (ks, (c, g, w)) \<and>
     map_of (co_timeshifts c) tid = Some s \<and> length tid = 32 \<and> ts_handles s \<noteq> []"
proof -
  have "case play race_env (replicate 6 0) ([Create ''default'' ''app=web'' 1 0 True], race_start) of
      None \<Rightarrow> False | Some (ks, (c, g, w)) \<Rightarrow> length (co_timeshifts c) = 1"
    by code_simp
  then obtain ks c g w where
    run: "play race_env (replicate 6 0) ([Create ''default'' ''app=web'' 1 0 True], race_start) = Some (ks, (c, g, w))"
    and n: "length (co_timeshifts c) = 1"
    by (auto split: option.splits)
  have r: "sys_run race_env ([], race_start) (ks, (c, g, w))" using race_run [OF run] by simp
  from n obtain tid s' where "co_timeshifts c = [(tid, s')]" by (auto simp: length_Suc_conv)
  then have s: "map_of (co_timeshifts c) tid = Some s'" by simp
  have none: "map_of (co_timeshifts (newController (Some ''ns''))) tid = Some s0 \<Longrightarrow> ts_typed s0" for s0
    by (simp add: newController_def)
  from registered_timeshift_well_formed [OF race_rand race_restore0 r [unfolded race_start_def] s none]
  show ?thesis using r s by blast
qed

text \<open>
  C17. Under every schedule each turn is one step of the abstract map of clocks: the turn that
  registers sets one clock at a fresh id, the commit of an update sets the clock of its own id
  if that is still registered and nothing otherwise, a delete removes exactly its id, a sweep
  only removes, and every other turn leaves all clocks alone. A running clock gets its offset from
  a reading of the wall clock.
\<close>

theorem interleaved_refines_clocks:
  assumes "sys_reach E store x" and "sys_step E l x y"
  shows "clock_step (is_reading E) (case l of None \<Rightarrow> OpWorld | Some k \<Rightarrow> op_of k)
    (clocks (ctl_of x)) (clocks (ctl_of y))"
  by (rule sys_step_clocks [OF assms(2) sys_reach_ok [OF assms(1)] sys_reach_carries [OF assms(1)]])

lemma race_reach: "play race_env is (ks, race_start) = Some x \<Longrightarrow> list_all request ks \<Longrightarrow>
    sys_reach race_env (Some ''ns'') x"
  using play_reach arrive_reach [OF race_start_reach, of ks] by fastforce

lemma turn_step: "i < length (fst x) \<Longrightarrow> fresh_id (fst x ! i) (snd x) \<Longrightarrow>
    sys_step E (Some (fst x ! i)) x ((fst x)[i := fst (turn E (fst x ! i) (snd x))], snd (turn E (fst x ! i) (snd x)))"
  by (cases x) (auto intro: sys_step.turn)

lemma race_register_turn:
  "\<exists>x k y. sys_reach race_env (Some ''ns'') x \<and> op_of k = OpCreate 1 True \<and> sys_step race_env (Some k) x y \<and>
     clocks (ctl_of x) race_id = None \<and> clocks (ctl_of y) race_id = Some (Frozen 1)"
proof -
  have "case play race_env (replicate 5 0) ([Create ''default'' ''app=web'' 1 0 True], race_start) of
      None \<Rightarrow> False
    | Some x \<Rightarrow> 0 < length (fst x) \<and> op_of (fst x ! 0) = OpCreate 1 True \<and> fresh_id (fst x ! 0) (snd x) \<and>
        clocks (ctl_of x) race_id = None \<and>
        clocks (fst (snd (turn race_env (fst x ! 0) (snd x)))) race_id = Some (Frozen 1)"
    by code_simp
  then obtain x where p: "play race_env (replicate 5 0) ([Create ''default'' ''app=web'' 1 0 True], race_start) = Some x"
    and n: "0 < length (fst x)" "op_of (fst x ! 0) = OpCreate 1 True" "fresh_id (fst x ! 0) (snd x)"
      "clocks (ctl_of x) race_id = None" "clocks (fst (snd (turn race_env (fst x ! 0) (snd x)))) race_id = Some (Frozen 1)"
    by (rule case_SomeE) blast
  have "sys_reach race_env (Some ''ns'') x" using race_reach [OF p] by simp
  with turn_step [OF n(1,3), of race_env] n show ?thesis by fastforce
qed

theorem interleaved_refines_clocks_witness:
  "\<exists>c c'. clock_step (is_reading race_env) (OpCreate 1 True) (clocks c) (clocks c') \<and>
     clocks c race_id = None \<and> clocks c' race_id = Some (Frozen 1)"
proof -
  obtain x k y where r: "sys_reach race_env (Some ''ns'') x" and o: "op_of k = OpCreate 1 True"
    and s: "sys_step race_env (Some k) x y"
    and cl: "clocks (ctl_of x) race_id = None" "clocks (ctl_of y) race_id = Some (Frozen 1)"
    using race_register_turn by blast
  from interleaved_refines_clocks [OF r s] o
  have "clock_step (is_reading race_env) (OpCreate 1 True) (clocks (ctl_of x)) (clocks (ctl_of y))"
    by simp
  with cl show ?thesis by blast
qed

text \<open>
  C19. A deleted timeshift never comes back while the controller runs: whatever requests were in
  flight for it when the delete took it, and whatever is asked afterwards, its id stays out of
  the registry.
\<close>

theorem deleted_never_returns:
  assumes "sys_reach E store x" and "clocks (ctl_of x) tid \<noteq> None"
    and "sys_step E (Some (Delete tid)) x y" and "sys_run E y z"
  shows "clocks (ctl_of z) tid = None"
proof -
  have "removed tid y" using delete_removes [OF assms(3)] assms(2) by (simp add: clocks_alt)
  with run_removed [OF assms(4)] have "removed tid z"
    using sys_step_ok [OF assms(3) sys_reach_ok [OF assms(1)]] by blast
  then show ?thesis by (auto simp: removed_def clocks_alt split: prod.splits)
qed

lemma race_delete_turn:
  "\<exists>x y z. sys_reach race_env (Some ''ns'') x \<and> clocks (ctl_of x) race_id \<noteq> None \<and>
     sys_step race_env (Some (Delete race_id)) x y \<and> sys_run race_env y z \<and> list_all finished (fst z)"
proof -
  let ?ks = "race_calls (Update race_id 2 True) (Delete race_id)" and ?is = "replicate 12 0 @ replicate 2 (1::nat)"
  let ?next = "\<lambda>x. ((fst x)[2 := fst (turn race_env (fst x ! 2) (snd x))], snd (turn race_env (fst x ! 2) (snd x)))"
  have "case play race_env ?is (?ks, race_start) of
      None \<Rightarrow> False
    | Some x \<Rightarrow> 2 < length (fst x) \<and> fresh_id (fst x ! 2) (snd x) \<and> fst x ! 2 = Delete race_id \<and>
        clocks (ctl_of x) race_id \<noteq> None \<and>
        (case play race_env (replicate 7 1 @ replicate 7 2) (?next x) of
           None \<Rightarrow> False
         | Some z \<Rightarrow> list_all finished (fst z))"
    by code_simp
  then obtain x where p: "play race_env ?is (?ks, race_start) = Some x"
    and n: "2 < length (fst x)" "fresh_id (fst x ! 2) (snd x)" "fst x ! 2 = Delete race_id"
      "clocks (ctl_of x) race_id \<noteq> None"
    and q: "case play race_env (replicate 7 1 @ replicate 7 2) (?next x) of
       None \<Rightarrow> False | Some z \<Rightarrow> list_all finished (fst z)"
    by (rule case_SomeE) blast
  from q obtain z where q': "play race_env (replicate 7 1 @ replicate 7 2) (?next x) = Some z"
    and f: "list_all finished (fst z)"
    by (rule case_SomeE)
  have "sys_reach race_env (Some ''ns'') x" using race_reach [OF p] by (simp add: race_calls_def)
  moreover have "sys_step race_env (Some (Delete race_id)) x (?next x)"
    using turn_step [OF n(1,2), of race_env] unfolding n(3) .
  ultimately show ?thesis using play_run [OF q'] n(4) f by blast
qed

theorem deleted_never_returns_witness:
  "\<exists>x z. sys_reach race_env (Some ''ns'') x \<and> clocks (ctl_of x) race_id \<noteq> None \<and>
     sys_reach race_env (Some ''ns'') z \<and> list_all finished (fst z) \<and> clocks (ctl_of z) race_id = None"
proof -
  obtain x y z where r: "sys_reach race_env (Some ''ns'') x" and n: "clocks (ctl_of x) race_id \<noteq> None"
    and s: "sys_step race_env (Some (Delete race_id)) x y" and u: "sys_run race_env y z"
    and f: "list_all finished (fst z)"
    using race_delete_turn by blast
  have "sys_reach race_env (Some ''ns'') z" using run_reach [OF u] sys_reach.step [OF r s] by blast
  with deleted_never_returns [OF r n s u] r n f show ?thesis by blast
qed

text \<open>
  C18. A request that is left alone ends, with exactly the answer, the registry, the counters and
  the calls to the agents, the clock and the Kubernetes API of the operation that it asks for.
\<close>

theorem request_alone_is_operation:
  assumes "wf_map (co_timeshifts c)" and "sequential E k (c, w) = Some (r, (c', w'))"
  shows "\<exists>g'. alone E (k, (c, g, w)) (Returned r, (c', g', w'))"
proof (cases k)
  case (Create ns sel t ttl fr)
  obtain r0 where run: "createTimeshift E ns sel t ttl fr (c, w) = (r0, (c', w'))" "r = map_sum id Some r0"
    using assms Create by (auto split: prod.splits)
  from create_alone [OF run(1)] run(2) Create show ?thesis by blast
next
  case (Update tid t fr)
  obtain r0 where run: "updateTimeshift E tid t fr (c, w) = (r0, (c', w'))" "r = map_sum id Some r0"
    using assms Update by (auto split: prod.splits)
  from update_alone [OF run(1)] run(2) Update show ?thesis by blast
next
  case (Advance tid d fr)
  obtain r0 where run: "advanceTimeshift E tid d fr (c, w) = (r0, (c', w'))" "r = map_sum id Some r0"
    using assms Advance by (auto split: prod.splits)
  from advance_alone [OF run(1)] run(2) Advance show ?thesis by blast
next
  case (Delete tid)
  obtain e where run: "deleteTimeshift E tid (c, w) = (e, (c', w'))"
    "r = (case e of None \<Rightarrow> Inr None | Some err \<Rightarrow> Inl err)"
    using assms Delete by (auto split: prod.splits)
  from delete_alone [OF run(1)] run(2) Delete show ?thesis by blast
next
  case Sweep
  with sweep_alone [OF _ assms(1)] assms(2) show ?thesis by auto
next
  case (PodEvent pod)
  with pod_event_alone assms(2) show ?thesis by fastforce
qed (use assms in auto)

theorem request_alone_is_operation_witness:
  "\<exists>c' w' g'. alone race_env (Create ''default'' ''app=web'' 1 0 True, race_start)
     (Returned (Inr (Some (load_timeshift (race_stored 1)))), (c', g', w')) \<and>
     rw_cm w' = Some [(storeDataKey, ''[1]'')] \<and> rw_clock w' = Some (1, True)"
proof -
  have "case sequential race_env (Create ''default'' ''app=web'' 1 0 True) (newController (Some ''ns''), race_world0) of
      None \<Rightarrow> False
    | Some (r, (c', w')) \<Rightarrow> r = Inr (Some (load_timeshift (race_stored 1))) \<and>
        rw_cm w' = Some [(storeDataKey, ''[1]'')] \<and> rw_clock w' = Some (1, True)"
    by code_simp
  then obtain c' w' where s: "sequential race_env (Create ''default'' ''app=web'' 1 0 True)
      (newController (Some ''ns''), race_world0) = Some (Inr (Some (load_timeshift (race_stored 1))), (c', w'))"
    and w: "rw_cm w' = Some [(storeDataKey, ''[1]'')]" "rw_clock w' = Some (1, True)"
    by (auto split: option.splits)
  have "wf_map (co_timeshifts (newController (Some ''ns'')))" by (simp add: newController_def)
  from request_alone_is_operation [OF this s, of "[]"] w show ?thesis
    unfolding race_start_def by blast
qed

section \<open>Schedules that go wrong\<close>

text \<open>
  C39. The ConfigMap can end up older than the registry. The text is encoded under the lock and
  written after it is released: whenever a request is about to store the registry while a delete
  of a registered timeshift waits, the turns can come in an order in which the delete runs from
  its first step to its last, with success, between the encoding and the write. Then the timeshift
  is gone from the registry, but a restart recovers the registry as it was before the delete. The
  run consists of turns of these two requests only.
\<close>

theorem deleted_timeshift_survives_in_store:
  assumes "sys_reach E store (ks, (c, g, w))"
    and "i < length ks" and "ks ! i = Encoding k" and "j < length ks" and "ks ! j = Delete tid"
    and "co_store c = Some ns" and "map_of (co_timeshifts c) tid = Some s"
    and "encode E (co_timeshifts c) = Inr data"
    and "ce_GetConfigMap E ns storeConfigMapName w = (Inr cm, w0)"
    and "deleteTimeshift E tid (c, w0) = (e, (c1, w1))"
    and "ce_UpdateConfigMap E ns storeConfigMapName [(storeDataKey, data)] w1 = (None, w2)"
    and "store_laws E cms" and "load E ns w2 = (Inr m, w3)"
  shows "\<exists>g'. turns E (ks, (c, g, w)) (ks[j := Returned (Inr None), i := k], (c1, g', w2)) \<and>
    map_of (co_timeshifts c1) tid = None \<and>
    map_of (co_timeshifts (fst (restore E (newController (Some ns), w2)))) = map_of (co_timeshifts c)"
proof -
  let ?W = "Writing True ns data k"
  have ij: "i \<noteq> j" using assms(3,5) by auto
  have e: "e = None" and gone: "map_of (co_timeshifts c1) tid = None"
    using assms(7,10) deleteTimeshift_eq [OF assms(10)] by (auto simp: deleteTimeshift_def split: prod.splits)
  obtain g' where "alone E (Delete tid, (c, g, w0)) (Returned (Inr None), (c1, g', w1))"
    using delete_alone [OF assms(10), of g] e by auto
  from alone_turns [OF this, of j "ks[i := ?W]"] assms(4,5) ij
  have del: "turns E (ks[i := ?W], (c, g, w0)) (ks[i := ?W, j := Returned (Inr None)], (c1, g', w1))" by simp
  have "turns E (ks, (c, g, w)) (ks[i := Flushing ns data k], (c, g, w))"
    using assms(2,3,6,8) by (intro turns_turn [of i ks "Encoding k"]) simp_all
  also have "turns E \<dots> (ks[i := ?W], (c, g, w0))"
    using turns_turn [of i "ks[i := Flushing ns data k]" "Flushing ns data k" "(c, g, w)" E ?W "(c, g, w0)"] assms(2,9)
    by simp
  also note del
  also have "turns E (ks[i := ?W, j := Returned (Inr None)], (c1, g', w1))
      (ks[i := ?W, j := Returned (Inr None), i := k], (c1, g', w2))"
    using assms(2,11) ij by (intro turns_turn [of i _ ?W]) simp_all
  also have "ks[i := ?W, j := Returned (Inr None), i := k] = ks[j := Returned (Inr None), i := k]"
    using ij by (metis list_update_overwrite list_update_swap)
  finally have run: "turns E (ks, (c, g, w)) (ks[j := Returned (Inr None), i := k], (c1, g', w2))" .
  have cm: "cms w2 ns storeConfigMapName = Some [(storeDataKey, data)]"
    using assms(11,12) unfolding store_laws_def by blast
  have wk: "well_keyed (co_timeshifts c)"
    using sys_reach_ok [OF assms(1)] by (simp add: sys_ok_def objects_ok_def)
  have "m = decode (map (\<lambda>kv. store_timeshift (snd kv)) (co_timeshifts c))"
    using load_reads [OF assms(12) cm assms(8) [unfolded encode_def] assms(13)] .
  then have "map_of m = map_of (co_timeshifts c)" using map_of_decode_store [OF wk] by simp
  then have "map_of (co_timeshifts (fst (restore E (newController (Some ns), w2)))) = map_of (co_timeshifts c)"
    using assms(13) by (auto simp: restore_def newController_def)
  with run gone show ?thesis by blast
qed

text \<open>An update to 2 has committed; before it stores the registry, a delete comes in between.\<close>

lemma race_stored_eq: "store_timeshift (load_timeshift (race_stored t)) = race_stored t"
  by (simp add: race_stored_def store_timeshift_def load_timeshift_def store_handle_def load_handle_def)

lemma race_store_laws: "store_laws race_env (\<lambda>w ns n. rw_cm w)"
  by (auto simp: store_laws_def race_env_def race_Marshal_def race_Unmarshal_def race_stored_def
      split: option.splits if_splits)

lemma race_before_store:
  "\<exists>ks c g w. sys_reach race_env (Some ''ns'') (ks, (c, g, w)) \<and> length ks = 3 \<and>
     ks ! 1 = Encoding (Return race_id) \<and> ks ! 2 = Delete race_id \<and> co_store c = Some ''ns'' \<and>
     co_timeshifts c = [(race_id, load_timeshift (race_stored 2))] \<and> rw_cm w \<noteq> None"
proof -
  let ?ks = "race_calls (Update race_id 2 True) (Delete race_id)"
  have "case play race_env (replicate 12 0 @ replicate 5 1) (?ks, race_start) of
      None \<Rightarrow> False
    | Some (ks, (c, g, w)) \<Rightarrow> length ks = 3 \<and> ks ! 1 = Encoding (Return race_id) \<and> ks ! 2 = Delete race_id \<and>
        co_store c = Some ''ns'' \<and> co_timeshifts c = [(race_id, load_timeshift (race_stored 2))] \<and> rw_cm w \<noteq> None"
    by code_simp
  then obtain ks c g w where
    run: "play race_env (replicate 12 0 @ replicate 5 1) (?ks, race_start) = Some (ks, (c, g, w))"
    and x: "length ks = 3 \<and> ks ! 1 = Encoding (Return race_id) \<and> ks ! 2 = Delete race_id \<and>
        co_store c = Some ''ns'' \<and> co_timeshifts c = [(race_id, load_timeshift (race_stored 2))] \<and> rw_cm w \<noteq> None"
    by (auto split: option.splits)
  have "sys_reach race_env (Some ''ns'') (ks, (c, g, w))" using race_reach [OF run] by (simp add: race_calls_def)
  with x show ?thesis by blast
qed

theorem deleted_timeshift_survives_in_store_witness:
  "\<exists>x ks c g w. sys_reach race_env (Some ''ns'') x \<and> turns race_env x (ks, (c, g, w)) \<and>
     Returned (Inr None) \<in> set ks \<and> map_of (co_timeshifts c) race_id = None \<and>
     map_of (co_timeshifts (fst (restore race_env (newController (Some ''ns''), w)))) race_id =
       Some (load_timeshift (race_stored 2))"
proof -
  obtain ks c g w where r: "sys_reach race_env (Some ''ns'') (ks, (c, g, w))" and n: "length ks = 3"
    and k: "ks ! 1 = Encoding (Return race_id)" "ks ! 2 = Delete race_id"
    and st: "co_store c = Some ''ns''" and ts: "co_timeshifts c = [(race_id, load_timeshift (race_stored 2))]"
    and cm: "rw_cm w \<noteq> None"
    using race_before_store by blast
  obtain d where get: "ce_GetConfigMap race_env ''ns'' storeConfigMapName w = (Inr d, w)"
    using cm by (auto simp: race_env_def)
  have enc: "encode race_env (co_timeshifts c) = Inr ''[2]''"
    by (simp add: encode_def ts race_stored_eq) (simp add: race_env_def race_Marshal_def race_stored_def)
  obtain e c1 w1 where del: "deleteTimeshift race_env race_id (c, w) = (e, (c1, w1))" by (metis prod.exhaust)
  let ?w2 = "w1\<lparr>rw_cm := Some [(storeDataKey, ''[2]'')]\<rparr>"
  have upd: "ce_UpdateConfigMap race_env ''ns'' storeConfigMapName [(storeDataKey, ''[2]'')] w1 = (None, ?w2)"
    by (simp add: race_env_def)
  have ld: "load race_env ''ns'' ?w2 = (Inr (decode [race_stored 2]), ?w2)"
    by (simp add: load_def race_env_def race_Unmarshal_def)
  have reg: "map_of (co_timeshifts c) race_id = Some (load_timeshift (race_stored 2))" by (simp add: ts)
  have len: "1 < length ks" "2 < length ks" using n by simp_all
  obtain g' where run: "turns race_env (ks, (c, g, w)) (ks[2 := Returned (Inr None), 1 := Return race_id], (c1, g', ?w2))"
    and gone: "map_of (co_timeshifts c1) race_id = None"
    and again: "map_of (co_timeshifts (fst (restore race_env (newController (Some ''ns''), ?w2)))) = map_of (co_timeshifts c)"
    using deleted_timeshift_survives_in_store [OF r len(1) k(1) len(2) k(2) st reg enc get del upd race_store_laws ld]
    by blast
  have "Returned (Inr None) \<in> set (ks[2 := Returned (Inr None), 1 := Return race_id])"
    using len by (simp add: set_conv_nth) (metis One_nat_def len(2) length_list_update nth_list_update_eq
        nth_list_update_neq numeral_eq_one_iff one_eq_numeral_iff semiring_norm(85))
  with r run gone again reg show ?thesis by metis
qed

text \<open>
  Two updates in flight can leave the registry and the container apart: their turns can come in
  an order in which both are answered with success, the registry says that the clock is frozen at 2
  and the container's clock is frozen at 1. The agents are called outside the lock, in an order
  of their own.
\<close>

theorem racing_updates_disagree:
  "\<exists>ks c g w. turns race_env (race_calls (Update race_id 2 True) (Update race_id 1 True), race_start) (ks, (c, g, w)) \<and>
     list_all finished ks \<and> map (ts_frozenAt \<circ> snd) (co_timeshifts c) = [2] \<and> rw_clock w = Some (1, True)"
  using ends_in_turns [OF disagree_schedule] by auto

text \<open>
  An update in flight can outlive a delete: their turns can come in an order in which both are
  answered with success and the registry is empty, but the container keeps the frozen clock.
\<close>

theorem delete_leaves_shifted_container:
  "\<exists>ks c g w. turns race_env (race_calls (Update race_id 2 True) (Delete race_id), race_start) (ks, (c, g, w)) \<and>
     list_all finished ks \<and> co_timeshifts c = [] \<and> rw_clock w = Some (2, True)"
  using ends_in_turns [OF orphan_schedule] by auto

text \<open>Two creates in flight can both take the same container.\<close>

lemma racing_creates_overlap:
  "\<exists>ks c g w. turns race_env ([Create ''default'' ''app=web'' 1 0 True, Create ''default'' ''app=web'' 2 0 True],
       race_start) (ks, (c, g, w)) \<and> list_all finished ks \<and>
     map (appliedTo \<circ> snd) (co_timeshifts c) = [[''web-0/app''], [''web-0/app'']]"
  using ends_in_turns [OF double_schedule] by auto

end
