(* ===== verification/GoFlag.thy ===== *)
theory GoFlag
  imports GoDuration
begin

text \<open>
  Go's package flag, as the three programs use it: string, bool, int and duration flags in front
  of the positional arguments. Parsing stops at the first argument that is not a flag.
\<close>

datatype flag_kind = StringFlag | BoolFlag | IntFlag | DurationFlag

type_synonym flag_specs = "(string \<times> flag_kind) list"

datatype flag_value = FString string | FBool bool | FInt int | FDuration duration

record flag_set =
  fs_values :: "(string \<times> flag_value) list"
  fs_args :: "string list"

definition ParseBool :: "string \<Rightarrow> bool option" where
  "ParseBool s =
     (if s \<in> set [''1'', ''t'', ''T'', ''true'', ''TRUE'', ''True''] then Some True
      else if s \<in> set [''0'', ''f'', ''F'', ''false'', ''FALSE'', ''False''] then Some False
      else None)"

text \<open>\<open>strconv.ParseInt(s, 0, 64)\<close> for decimal numbers; other bases and underscores are left out.\<close>

definition set_flag :: "flag_kind \<Rightarrow> string \<Rightarrow> flag_value option" where
  "set_flag k v =
     (case k of
        StringFlag \<Rightarrow> Some (FString v)
      | BoolFlag \<Rightarrow> map_option FBool (ParseBool v)
      | IntFlag \<Rightarrow> map_option FInt (Atoi v)
      | DurationFlag \<Rightarrow> (case ParseDuration v of Inl e \<Rightarrow> None | Inr d \<Rightarrow> Some (FDuration d)))"

text \<open>The name and the value after the first equals sign, which cannot come first.\<close>

definition split_flag :: "string \<Rightarrow> string \<times> string option" where
  "split_flag s =
     (let name = takeWhile (\<lambda>ch. ch \<noteq> CHR ''='') s
      in (name, if name = s then None else Some (drop (length name + 1) s)))"

text \<open>\<open>None\<close>: not a flag; otherwise the text after the dashes (\<open>[]\<close> for two dashes alone).\<close>

definition flag_text :: "string \<Rightarrow> string option" where
  "flag_text s =
     (if length s < 2 \<or> hd s \<noteq> CHR ''-'' then None
      else Some (if s ! 1 = CHR ''-'' then drop 2 s else drop 1 s))"

fun Parse :: "flag_specs \<Rightarrow> string list \<Rightarrow> (string \<times> flag_value) list \<Rightarrow> string + flag_set" where
  "Parse specs [] vals = Inr \<lparr>fs_values = vals, fs_args = []\<rparr>"
| "Parse specs (s # rest) vals =
     (case flag_text s of
        None \<Rightarrow> Inr \<lparr>fs_values = vals, fs_args = s # rest\<rparr>
      | Some text \<Rightarrow>
          if s = ''--'' then Inr \<lparr>fs_values = vals, fs_args = rest\<rparr>
          else if text = [] \<or> hd text = CHR ''-'' \<or> hd text = CHR ''='' then Inl (''bad flag syntax: '' @ s)
          else (case split_flag text of (name, val) \<Rightarrow>
            (case map_of specs name of
               None \<Rightarrow> Inl (if name = ''help'' \<or> name = ''h'' then ''flag: help requested''
                            else ''flag provided but not defined: -'' @ name)
             | Some k \<Rightarrow>
                 (let value = (case val of Some v \<Rightarrow> Some v
                               | None \<Rightarrow> if k = BoolFlag then Some ''true''
                                         else case rest of [] \<Rightarrow> None | v # _ \<Rightarrow> Some v);
                      used = (val = None \<and> k \<noteq> BoolFlag)
                  in case value of
                       None \<Rightarrow> Inl (''flag needs an argument: -'' @ name)
                     | Some v \<Rightarrow>
                         (case set_flag k v of
                            None \<Rightarrow> Inl (''invalid value for flag -'' @ name)
                          | Some x \<Rightarrow>
                              if used then (case rest of
                                  [] \<Rightarrow> Inl (''flag needs an argument: -'' @ name)
                                | _ # rest' \<Rightarrow> Parse specs rest' (AList.update name x vals))
                              else Parse specs rest (AList.update name x vals))))))"

definition parse_args :: "flag_specs \<Rightarrow> string list \<Rightarrow> string + flag_set" where
  "parse_args specs args = Parse specs args []"

definition flag_string :: "flag_set \<Rightarrow> string \<Rightarrow> string" where
  "flag_string fs n = (case map_of (fs_values fs) n of Some (FString s) \<Rightarrow> s | _ \<Rightarrow> [])"

definition flag_bool :: "flag_set \<Rightarrow> string \<Rightarrow> bool" where
  "flag_bool fs n = (case map_of (fs_values fs) n of Some (FBool b) \<Rightarrow> b | _ \<Rightarrow> False)"

definition flag_int :: "flag_set \<Rightarrow> string \<Rightarrow> int" where
  "flag_int fs n = (case map_of (fs_values fs) n of Some (FInt i) \<Rightarrow> i | _ \<Rightarrow> 0)"

text \<open>Flags with a default of their own.\<close>

definition flag_string_or :: "flag_set \<Rightarrow> string \<Rightarrow> string \<Rightarrow> string" where
  "flag_string_or fs n d = (case map_of (fs_values fs) n of Some (FString s) \<Rightarrow> s | _ \<Rightarrow> d)"

definition flag_duration_or :: "flag_set \<Rightarrow> string \<Rightarrow> duration \<Rightarrow> duration" where
  "flag_duration_or fs n d = (case map_of (fs_values fs) n of Some (FDuration x) \<Rightarrow> x | _ \<Rightarrow> d)"

text \<open>The exit code of a program whose flags do not parse: 0 after a request for help.\<close>

definition flag_exit :: "string \<Rightarrow> nat" where
  "flag_exit e = (if e = ''flag: help requested'' then 0 else 2)"

section \<open>Laws\<close>

text \<open>What follows a positional argument is not parsed.\<close>

definition positional :: "string \<Rightarrow> bool" where
  "positional s \<longleftrightarrow> s = [] \<or> hd s \<noteq> CHR ''-'' \<or> s = ''-''"

lemma flag_text_positional: "positional s \<Longrightarrow> flag_text s = None"
  by (auto simp: positional_def flag_text_def)

lemma parse_positional_first:
  "positional s \<Longrightarrow> parse_args specs (s # rest) = Inr \<lparr>fs_values = [], fs_args = s # rest\<rparr>"
  by (simp add: parse_args_def flag_text_positional)

end
