(* ===== verification/Faketimectl.thy ===== *)
theory Faketimectl
  imports GoFlag Sdk
begin

text \<open>
  cmd/faketimectl: the command line tool. A command takes the arguments after its name and gives
  the error it returns and the lines it prints; a row is a line whose cells the tab writer aligns.
  The injecting commands are in the theory \<open>Runner\<close>.
\<close>

datatype out_line = Line string | Row "string list"

type_synonym 'w cmd_result = "(string option \<times> out_line list) \<times> 'w"

text \<open>\<open>cv_http\<close> is the HTTP client, \<open>cv_getenv\<close> the value of EPOCHD_URL.\<close>

record ('b, 'w) cli_env =
  cv_json :: "'b json"
  cv_http :: "('b, 'w) http"
  cv_getenv :: string

fun sdk_text :: "sdk_error \<Rightarrow> string" where
  "sdk_text (APIError code msg) = ''epochd: HTTP '' @ dec_digits code @ '': '' @ msg"
| "sdk_text (SdkErr e) = err_text e"
| "sdk_text (SdkWrap s e) = s @ '': '' @ sdk_text e"

definition NewClient :: "('b, 'w) cli_env \<Rightarrow> string \<Rightarrow> ('b, 'w) client" where
  "NewClient V url = \<lparr>cl_baseURL = url, cl_http = cv_http V\<rparr>"

definition clientFromURL :: "('b, 'w) cli_env \<Rightarrow> string \<Rightarrow> string + ('b, 'w) client" where
  "clientFromURL V url =
     (let u = (if url = [] then cv_getenv V else url)
      in if u = [] then Inl ''controller URL required: set EPOCHD_URL or pass --url''
         else Inr (NewClient V u))"

definition applied_text :: "string list \<Rightarrow> string" where
  "applied_text xs = (let s = strings_Join xs '', '' in if s = [] then ''-'' else s)"

definition printTimeshift :: "string \<Rightarrow> Timeshift \<Rightarrow> out_line list" where
  "printTimeshift prefix ts =
     [Line ((if prefix \<noteq> [] then prefix @ '' '' else []) @ ''timeshift '' @ T_ID ts),
      Line (''  namespace:  '' @ T_Namespace ts),
      Line (''  time:       '' @ fmt_rfc3339 (T_Time ts))] @
     (if T_Frozen ts then [Line ''  frozen:     yes''] else []) @
     (if time_IsZero (T_ExpiresAt ts) then []
      else [Line (''  expires at: '' @ fmt_rfc3339 (T_ExpiresAt ts))]) @
     [Line (''  applied to: '' @ applied_text (T_AppliedTo ts))]"

text \<open>An error before anything is printed; the parsed flags and the client of a command.\<close>

definition cmd_fail :: "string \<Rightarrow> 'w \<Rightarrow> 'w cmd_result" where
  "cmd_fail e w = ((Some e, []), w)"

definition with_flags :: "flag_specs \<Rightarrow> string list \<Rightarrow> (flag_set \<Rightarrow> 'w \<Rightarrow> 'w cmd_result) \<Rightarrow> 'w \<Rightarrow> 'w cmd_result" where
  "with_flags specs args k w =
     (case parse_args ((''url'', StringFlag) # specs) args of Inl e \<Rightarrow> cmd_fail e w | Inr fs \<Rightarrow> k fs w)"

definition with_client :: "('b, 'w) cli_env \<Rightarrow> flag_set \<Rightarrow> (('b, 'w) client \<Rightarrow> 'w \<Rightarrow> 'w cmd_result) \<Rightarrow> 'w \<Rightarrow> 'w cmd_result" where
  "with_client V fs k w =
     (case clientFromURL V (flag_string fs ''url'') of Inl e \<Rightarrow> cmd_fail e w | Inr C \<Rightarrow> k C w)"

definition not_found_text :: "string \<Rightarrow> string \<Rightarrow> sdk_error \<Rightarrow> string" where
  "not_found_text cmd tid e =
     (if sdk_IsNotFound (Some e) then cmd @ '': timeshift '' @ [CHR 0x22] @ tid @ [CHR 0x22] @ '' not found''
      else cmd @ '': '' @ sdk_text e)"

section \<open>The commands of the controller\<close>

definition cmdCreate :: "('b, 'w) cli_env \<Rightarrow> string list \<Rightarrow> 'w \<Rightarrow> 'w cmd_result" where
  "cmdCreate V args =
     with_flags [(''namespace'', StringFlag), (''selector'', StringFlag), (''time'', StringFlag),
         (''ttl'', StringFlag), (''freeze'', BoolFlag)] args (\<lambda>fs.
     if flag_string fs ''namespace'' = [] then cmd_fail ''create: --namespace is required''
     else if flag_string fs ''selector'' = [] then cmd_fail ''create: --selector is required''
     else if flag_string fs ''time'' = [] then cmd_fail ''create: --time is required''
     else (case time_Parse (flag_string fs ''time'') of
         Inl e \<Rightarrow> cmd_fail (''create: --time: '' @ err_text e)
       | Inr target \<Rightarrow>
           (case (if flag_string fs ''ttl'' = [] then Inr 0
                  else case ParseDuration (flag_string fs ''ttl'') of
                      Inl e \<Rightarrow> Inl ()
                    | Inr ttl \<Rightarrow> if ttl \<le> 0 then Inl () else Inr ttl) of
              Inl _ \<Rightarrow> cmd_fail ''create: --ttl must be a positive Go duration (e.g. 1h)''
            | Inr ttl \<Rightarrow> with_client V fs (\<lambda>C w.
                (case (if flag_bool fs ''freeze'' then CreateFrozenTimeshift (cv_json V) C
                       else CreateTimeshift (cv_json V) C)
                        (flag_string fs ''namespace'') (flag_string fs ''selector'') target ttl w of
                   (Inl e, w1) \<Rightarrow> cmd_fail (''create: '' @ sdk_text e @
                     (if sdk_IsConflict (Some e)
                      then '' (use 'delete' to remove the existing timeshift first)'' else [])) w1
                 | (Inr ts, w1) \<Rightarrow> ((None, printTimeshift ''created'' ts), w1))))))"

definition list_row :: "Timeshift \<Rightarrow> out_line" where
  "list_row ts = Row [T_ID ts, T_Namespace ts, fmt_rfc3339 (T_Time ts),
     (if T_Frozen ts then ''frozen'' else ''advancing''),
     (if time_IsZero (T_ExpiresAt ts) then ''-'' else fmt_rfc3339 (T_ExpiresAt ts)),
     applied_text (T_AppliedTo ts)]"

definition cmdList :: "('b, 'w) cli_env \<Rightarrow> string list \<Rightarrow> 'w \<Rightarrow> 'w cmd_result" where
  "cmdList V args =
     with_flags [] args (\<lambda>fs. with_client V fs (\<lambda>C w.
       (case ListTimeshifts (cv_json V) C w of
          (Inl e, w1) \<Rightarrow> cmd_fail (''list: '' @ sdk_text e) w1
        | (Inr ts, w1) \<Rightarrow>
            if ts = [] then ((None, [Line ''no active timeshifts'']), w1)
            else ((None, Row [''ID'', ''NAMESPACE'', ''TARGET TIME'', ''MODE'', ''EXPIRES AT'', ''APPLIED TO'']
                         # map list_row ts), w1))))"

definition cmdGet :: "('b, 'w) cli_env \<Rightarrow> string list \<Rightarrow> 'w \<Rightarrow> 'w cmd_result" where
  "cmdGet V args =
     with_flags [] args (\<lambda>fs.
       case fs_args fs of
         [] \<Rightarrow> cmd_fail ''get: timeshift ID required''
       | tid # _ \<Rightarrow> with_client V fs (\<lambda>C w.
           (case GetTimeshift (cv_json V) C tid w of
              (Inl e, w1) \<Rightarrow> cmd_fail (not_found_text ''get'' tid e) w1
            | (Inr ts, w1) \<Rightarrow> ((None, printTimeshift [] ts), w1))))"

definition cmdUpdate :: "('b, 'w) cli_env \<Rightarrow> string list \<Rightarrow> 'w \<Rightarrow> 'w cmd_result" where
  "cmdUpdate V args =
     with_flags [(''time'', StringFlag), (''freeze'', BoolFlag)] args (\<lambda>fs.
       case fs_args fs of
         [] \<Rightarrow> cmd_fail ''update: timeshift ID required''
       | tid # _ \<Rightarrow>
           if flag_string fs ''time'' = [] then cmd_fail ''update: --time is required''
           else (case time_Parse (flag_string fs ''time'') of
               Inl e \<Rightarrow> cmd_fail (''update: --time: '' @ err_text e)
             | Inr target \<Rightarrow> with_client V fs (\<lambda>C w.
                 (case (if flag_bool fs ''freeze'' then FreezeTimeshift (cv_json V) C
                        else UpdateTimeshift (cv_json V) C) tid target w of
                    (Inl e, w1) \<Rightarrow> cmd_fail (not_found_text ''update'' tid e) w1
                  | (Inr ts, w1) \<Rightarrow> ((None, printTimeshift ''updated'' ts), w1)))))"

definition cmdAdvance :: "('b, 'w) cli_env \<Rightarrow> string list \<Rightarrow> 'w \<Rightarrow> 'w cmd_result" where
  "cmdAdvance V args =
     with_flags [(''by'', StringFlag)] args (\<lambda>fs.
       case fs_args fs of
         [] \<Rightarrow> cmd_fail ''advance: timeshift ID required''
       | tid # _ \<Rightarrow>
           if flag_string fs ''by'' = [] then cmd_fail ''advance: --by is required''
           else (case ParseDuration (flag_string fs ''by'') of
               Inl e \<Rightarrow> cmd_fail (''advance: --by: '' @ err_text e)
             | Inr delta \<Rightarrow> with_client V fs (\<lambda>C w.
                 (case AdvanceTimeshift (cv_json V) C tid delta w of
                    (Inl e, w1) \<Rightarrow> cmd_fail (not_found_text ''advance'' tid e) w1
                  | (Inr ts, w1) \<Rightarrow> ((None, printTimeshift ''advanced'' ts), w1)))))"

definition cmdDelete :: "('b, 'w) cli_env \<Rightarrow> string list \<Rightarrow> 'w \<Rightarrow> 'w cmd_result" where
  "cmdDelete V args =
     with_flags [] args (\<lambda>fs.
       case fs_args fs of
         [] \<Rightarrow> cmd_fail ''delete: timeshift ID required''
       | tid # _ \<Rightarrow> with_client V fs (\<lambda>C w.
           (case DeleteTimeshift (cv_json V) C tid w of
              (Some e, w1) \<Rightarrow> cmd_fail (not_found_text ''delete'' tid e) w1
            | (None, w1) \<Rightarrow> ((None, [Line (''deleted timeshift '' @ tid)]), w1))))"

text \<open>Numbers of a status as text.\<close>

definition int_text :: "int \<Rightarrow> string" where
  "int_text i = (if i < 0 then ''-'' else []) @ dec_digits (nat \<bar>i\<bar>)"

definition status_row :: "status_entry \<Rightarrow> out_line" where
  "status_row e =
     (case se_Status e of
        Some hs \<Rightarrow> Row [se_Pod e, se_Container e, dec_digits (unat (hs_Generation hs)), hs_LastTarget hs,
                       int_text (hs_PID hs), se_Error e]
      | None \<Rightarrow> Row [se_Pod e, se_Container e, ''-'', ''-'', ''-'', se_Error e])"

definition printStatus :: "timeshift_status \<Rightarrow> out_line list" where
  "printStatus resp =
     Line (''timeshift '' @ sl_ID resp @ ''  namespace: '' @ sl_Namespace resp) # Line [] #
     Row [''POD'', ''CONTAINER'', ''GENERATION'', ''TARGET TIME'', ''PID'', ''ERROR''] #
     map status_row (sl_Containers resp)"

definition cmdStatus :: "('b, 'w) cli_env \<Rightarrow> string list \<Rightarrow> 'w \<Rightarrow> 'w cmd_result" where
  "cmdStatus V args =
     with_flags [] args (\<lambda>fs.
       case fs_args fs of
         [] \<Rightarrow> cmd_fail ''status: timeshift ID required''
       | tid # _ \<Rightarrow> with_client V fs (\<lambda>C w.
           (case TimeshiftStatus (cv_json V) C tid w of
              (Inl e, w1) \<Rightarrow> cmd_fail (not_found_text ''status'' tid e) w1
            | (Inr resp, w1) \<Rightarrow> ((None, printStatus resp), w1))))"

definition cmdResolve :: "('b, 'w) cli_env \<Rightarrow> string list \<Rightarrow> 'w \<Rightarrow> 'w cmd_result" where
  "cmdResolve V args =
     with_flags [(''namespace'', StringFlag), (''selector'', StringFlag)] args (\<lambda>fs.
       if flag_string fs ''namespace'' = [] then cmd_fail ''resolve: --namespace is required''
       else if flag_string fs ''selector'' = [] then cmd_fail ''resolve: --selector is required''
       else with_client V fs (\<lambda>C w.
         (case sdk_Resolve (cv_json V) C (flag_string fs ''namespace'') (flag_string fs ''selector'') w of
            (Inl e, w1) \<Rightarrow> cmd_fail (''resolve: '' @ sdk_text e) w1
          | (Inr pods, w1) \<Rightarrow>
              if pods = [] then ((None, [Line ''no matching pods'']), w1)
              else ((None, Row [''POD'', ''NAMESPACE'', ''NODE IP'', ''CONTAINERS'']
                     # map (\<lambda>p. Row [rp_Name p, rp_Namespace p, rp_NodeIP p,
                                      strings_Join (rp_Containers p) '', '']) pods), w1))))"

end
