(* ===== verification/Runner.thy ===== *)
theory Runner
  imports Faketimectl ChildTracker
begin

text \<open>
  cmd/faketimectl: the commands that inject, and the watch loop of \<open>run --track\<close>. The loop keeps
  its own maps of handles; unlike the ChildTracker it waits for any child.
\<close>

section \<open>The watch loop\<close>

record watch =
  wl_tracer :: tracer
  wl_parentIH :: inj_handle
  wl_childHandles :: "(pid, inj_handle) gomap"
  wl_pendingStop :: "(pid, bool) gomap"
  wl_log :: "string list"

type_synonym 'w wst = "watch \<times> 'w"

definition wl_with_tracer :: "('w tw \<Rightarrow> 'r \<times> 'w tw) \<Rightarrow> 'w wst \<Rightarrow> 'r \<times> 'w wst" where
  "wl_with_tracer m ws =
     (case ws of (l, w) \<Rightarrow>
        (case m (wl_tracer l, w) of (r, (t', w')) \<Rightarrow> (r, (l\<lparr>wl_tracer := t'\<rparr>, w'))))"

definition wl_cont :: "'w kernel \<Rightarrow> pid \<Rightarrow> int \<Rightarrow> 'w wst \<Rightarrow> 'w wst" where
  "wl_cont K pid sg = ignore_err (wl_with_tracer (ContPID K pid sg))"

definition wl_say :: "string \<Rightarrow> 'w wst \<Rightarrow> 'w wst" where
  "wl_say msg ws = (case ws of (l, w) \<Rightarrow> (l\<lparr>wl_log := wl_log l @ [msg]\<rparr>, w))"

text \<open>The source of a forked child: nil (\<open>None\<close>) for a process the loop does not know.\<close>

definition wl_source :: "pid \<Rightarrow> pid \<Rightarrow> watch \<Rightarrow> inj_handle option" where
  "wl_source parentPID pid l =
     (if pid = parentPID then Some (wl_parentIH l) else map_of (wl_childHandles l) pid)"

definition wl_fork :: "'w kernel \<Rightarrow> pid \<Rightarrow> pid \<Rightarrow> 'w wst \<Rightarrow> 'w wst" where
  "wl_fork K parentPID pid ws =
     (case wl_with_tracer (GetEventMsgPID K pid) ws of
        (Inl _, ws1) \<Rightarrow> wl_cont K pid 0 ws1
      | (Inr msg, (l, w)) \<Rightarrow>
          let childPID = int msg in
          (case wl_source parentPID pid l of
             None \<Rightarrow> wl_cont K pid 0 (l, w)
           | Some src \<Rightarrow>
               wl_cont K pid 0
                 (wl_say ''faketimectl: fork''
                   (l\<lparr>wl_childHandles := AList.update childPID (ChildHandle src childPID) (wl_childHandles l),
                      wl_pendingStop := AList.update childPID True (wl_pendingStop l)\<rparr>, w))))"

definition wl_target :: "'w kernel \<Rightarrow> gotime \<Rightarrow> duration \<Rightarrow> bool \<Rightarrow> 'w \<Rightarrow> gotime \<times> 'w" where
  "wl_target K target injectOffset frozen w =
     (if frozen then (target, w)
      else case k_now K w of (now, w1) \<Rightarrow> (time_Add now injectOffset, w1))"

definition wl_exec :: "'w kernel \<Rightarrow> elf_reader \<Rightarrow> pid \<Rightarrow> gotime \<Rightarrow> duration \<Rightarrow> bool \<Rightarrow> pid \<Rightarrow> 'w wst \<Rightarrow> 'w wst" where
  "wl_exec K elf parentPID target injectOffset frozen pid ws =
     (case ws of (l, w) \<Rightarrow>
      case wl_target K target injectOffset frozen w of (t, w1) \<Rightarrow>
      (case wl_with_tracer
             (if frozen then ReInjectFrozenAfterExec K elf parentPID pid t
              else ReInjectAtTimeAfterExec K elf parentPID pid t) (l, w1) of
         (Inl e, ws2) \<Rightarrow> wl_cont K pid 0 (wl_say (''faketimectl: exec re-inject: '' @ err_text e) ws2)
       | (Inr newIH, (l2, w2)) \<Rightarrow>
           wl_cont K pid 0
             (wl_say ''faketimectl: exec: re-injected''
               (if pid = parentPID then l2\<lparr>wl_parentIH := newIH\<rparr>
                else l2\<lparr>wl_childHandles := AList.update pid newIH (wl_childHandles l2)\<rparr>, w2))))"

definition wl_event :: "'w kernel \<Rightarrow> elf_reader \<Rightarrow> pid \<Rightarrow> gotime \<Rightarrow> duration \<Rightarrow> bool \<Rightarrow> pid \<Rightarrow> wait_status
    \<Rightarrow> 'w wst \<Rightarrow> 'w wst" where
  "wl_event K elf parentPID target injectOffset frozen pid st ws =
     (case ws of (l, w) \<Rightarrow>
        if ws_Exited st \<or> ws_Signaled st then
          (l\<lparr>wl_childHandles := AList.delete pid (wl_childHandles l),
             wl_pendingStop := AList.delete pid (wl_pendingStop l)\<rparr>, w)
        else if \<not> ws_Stopped st then ws
        else if is_fork_event st then wl_fork K parentPID pid ws
        else if is_exec_event st then wl_exec K elf parentPID target injectOffset frozen pid ws
        else if map_of (wl_pendingStop l) pid = Some True then
          wl_cont K pid 0 (ignore_err (wl_with_tracer (SetOptionsPID K pid trace_options))
            (l\<lparr>wl_pendingStop := AList.delete pid (wl_pendingStop l)\<rparr>, w))
        else wl_cont K pid (if ws_StopSignal st \<noteq> SIGTRAP then ws_StopSignal st else 0) ws)"

text \<open>One turn after \<open>done\<close> was found open: the loop returns an error, or nil, or goes on.\<close>

datatype turn = Return "goerr option" | Continue

definition wl_turn :: "'w kernel \<Rightarrow> elf_reader \<Rightarrow> pid \<Rightarrow> gotime \<Rightarrow> duration \<Rightarrow> bool \<Rightarrow> 'w wst \<Rightarrow> turn \<times> 'w wst" where
  "wl_turn K elf parentPID target injectOffset frozen ws =
     (case wl_with_tracer (WaitAnyNonBlocking K) ws of
        (Inl e, ws1) \<Rightarrow> (Return (if errors_Is e ECHILD then None else Some (Wrap ''wait'' e)), ws1)
      | (Inr (pid, st), ws1) \<Rightarrow>
          (Continue, if pid = 0 then ws1
                     else wl_event K elf parentPID target injectOffset frozen pid st ws1))"

definition wl_cleanup :: "'w kernel \<Rightarrow> 'w wst \<Rightarrow> 'w wst" where
  "wl_cleanup K ws =
     ignore_err (wl_with_tracer (InterruptDetach K))
       (ignore_err (wl_with_tracer (DetachAll K (keys (wl_childHandles (fst ws))))) ws)"

text \<open>The loop gets \<open>n\<close> turns before it finds \<open>done\<close> closed.\<close>

fun wl_loop :: "'w kernel \<Rightarrow> elf_reader \<Rightarrow> pid \<Rightarrow> gotime \<Rightarrow> duration \<Rightarrow> bool \<Rightarrow> nat \<Rightarrow> 'w wst
    \<Rightarrow> goerr option \<times> 'w wst" where
  "wl_loop K elf parentPID target off frozen 0 ws = (None, ws)"
| "wl_loop K elf parentPID target off frozen (Suc n) ws =
     (case wl_turn K elf parentPID target off frozen ws of
        (Return e, ws1) \<Rightarrow> (e, ws1)
      | (Continue, ws1) \<Rightarrow> wl_loop K elf parentPID target off frozen n ws1)"

definition runWatchLoop :: "'w kernel \<Rightarrow> elf_reader \<Rightarrow> tracer \<Rightarrow> pid \<Rightarrow> inj_handle \<Rightarrow> gotime \<Rightarrow> duration \<Rightarrow> bool
    \<Rightarrow> nat \<Rightarrow> 'w \<Rightarrow> goerr option \<times> 'w wst" where
  "runWatchLoop K elf tr parentPID parentIH target injectOffset frozen turns w =
     (case wl_loop K elf parentPID target injectOffset frozen turns
             (\<lparr>wl_tracer = tr, wl_parentIH = parentIH, wl_childHandles = [], wl_pendingStop = [], wl_log = []\<rparr>, w) of
        (e, ws) \<Rightarrow> (e, wl_cleanup K ws))"

section \<open>run\<close>

text \<open>
  What \<open>cmd.Wait\<close> returns: success, an exit error with its status, another error. \<open>rv_turns\<close>
  is how often the watch loop came around before that; \<open>rv_look\<close> resolves the command's path.
\<close>

datatype cmd_wait = WaitOk | WaitExit wait_status | WaitFailed goerr

record 'w run_env =
  rv_look :: "string \<Rightarrow> string"
  rv_wait :: "'w \<Rightarrow> cmd_wait \<times> 'w"
  rv_turns :: nat

text \<open>\<open>ExitCode\<close> is -1 for a killed process; then the code is 128 plus the signal.\<close>

definition exit_code :: "wait_status \<Rightarrow> int" where
  "exit_code st =
     (if ws_Exited st then uint (drop_bit 8 st AND 0xFF)
      else if ws_Signaled st then 128 + uint (st AND 0x7F)
      else 1)"

text \<open>How the command ends: an error of the command, or a status for \<open>os.Exit\<close>.\<close>

datatype run_end = RunError string | Exited int

definition start_run :: "'w kernel \<Rightarrow> elf_reader \<Rightarrow> bool \<Rightarrow> bool \<Rightarrow> gocmd \<Rightarrow> gotime \<Rightarrow> 'w
    \<Rightarrow> (goerr + inj_handle \<times> tracer option) \<times> 'w" where
  "start_run K elf track freeze cmd target w =
     (if track then
        (case (if freeze then InjectFrozenFollowChildKeepTracer K elf cmd target
               else InjectAtTimeFollowChildKeepTracer K elf cmd target) w of
           (Inl e, w1) \<Rightarrow> (Inl e, w1) | (Inr (h, tr), w1) \<Rightarrow> (Inr (h, Some tr), w1))
      else
        (case (if freeze then InjectFrozenFollowChild K elf cmd target
               else InjectAtTimeFollowChild K elf cmd target) w of
           (Inl e, w1) \<Rightarrow> (Inl e, w1) | (Inr h, w1) \<Rightarrow> (Inr (h, None), w1)))"

definition watch_run :: "'w kernel \<Rightarrow> elf_reader \<Rightarrow> 'w run_env \<Rightarrow> gotime \<Rightarrow> bool \<Rightarrow> inj_handle \<Rightarrow> tracer option
    \<Rightarrow> 'w \<Rightarrow> (goerr option \<times> string list) \<times> 'w" where
  "watch_run K elf R target freeze h tr w =
     (case tr of
        None \<Rightarrow> ((None, []), w)
      | Some t \<Rightarrow>
          (case k_now K w of (now, w1) \<Rightarrow>
           case runWatchLoop K elf t (ih_PID h) h target (time_Sub target now) freeze (rv_turns R) w1 of
             (e, (l, w2)) \<Rightarrow> ((e, wl_log l), w2)))"

definition cmdRun :: "'w kernel \<Rightarrow> elf_reader \<Rightarrow> 'w run_env \<Rightarrow> string list \<Rightarrow> 'w \<Rightarrow> (run_end \<times> string list) \<times> 'w" where
  "cmdRun K elf R args w =
     (case parse_args [(''time'', StringFlag), (''freeze'', BoolFlag), (''track'', BoolFlag)] args of
        Inl e \<Rightarrow> ((RunError e, []), w)
      | Inr fs \<Rightarrow>
          (case fs_args fs of
             [] \<Rightarrow> ((RunError ''run: a command is required'', []), w)
           | prog # _ \<Rightarrow>
               if flag_string fs ''time'' = [] then ((RunError ''run: --time is required'', []), w)
               else (case time_Parse (flag_string fs ''time'') of
                   Inl e \<Rightarrow> ((RunError (''run: --time: '' @ err_text e), []), w)
                 | Inr target \<Rightarrow>
                     let cmd = \<lparr>cmd_path = rv_look R prog, cmd_ptrace = True\<rparr>;
                         freeze = flag_bool fs ''freeze''; track = flag_bool fs ''track'' in
                     (case start_run K elf track freeze cmd target w of
                        (Inl e, w1) \<Rightarrow> ((RunError (''run: inject: '' @ err_text e), []), k_reap_cmd K cmd w1)
                      | (Inr (h, tr), w1) \<Rightarrow>
                          (case watch_run K elf R target freeze h tr w1 of ((we, log), w2) \<Rightarrow>
                           case rv_wait R w2 of
                             (WaitFailed e, w3) \<Rightarrow> ((RunError (''run: wait: '' @ err_text e), log), w3)
                           | (res, w3) \<Rightarrow>
                               ((Exited (case res of WaitExit st \<Rightarrow> exit_code st | _ \<Rightarrow> 0),
                                 log @ (case we of None \<Rightarrow> [] | Some e \<Rightarrow> [''faketimectl: watch: '' @ err_text e])),
                                w3))))))"

section \<open>inject and reset\<close>

definition cmdInject :: "'w kernel \<Rightarrow> elf_reader \<Rightarrow> string list \<Rightarrow> 'w \<Rightarrow> 'w cmd_result" where
  "cmdInject K elf args w =
     (case parse_args [(''pid'', IntFlag), (''time'', StringFlag), (''freeze'', BoolFlag)] args of
        Inl e \<Rightarrow> cmd_fail e w
      | Inr fs \<Rightarrow>
          if flag_int fs ''pid'' = 0 then cmd_fail ''inject: --pid is required'' w
          else if flag_string fs ''time'' = [] then cmd_fail ''inject: --time is required'' w
          else (case time_Parse (flag_string fs ''time'') of
              Inl e \<Rightarrow> cmd_fail (''inject: --time: '' @ err_text e) w
            | Inr target \<Rightarrow>
                (case (if flag_bool fs ''freeze'' then InjectFrozen K elf (flag_int fs ''pid'') target
                       else InjectAtTime K elf (flag_int fs ''pid'') target) w of
                   (Inl e, w1) \<Rightarrow> cmd_fail (''inject: '' @ err_text e) w1
                 | (Inr h, w1) \<Rightarrow>
                     ((None, [Line (''pid '' @ int_text (ih_PID h) @ '': clock set to '' @ fmt_rfc3339 target @
                        '' ('' @ (if flag_bool fs ''freeze'' then ''frozen'' else ''advancing'') @
                        '', state=0x'' @ hex_digits (unat (ih_StateAddr h)) @ '')'')]), w1))))"

definition cmdReset :: "'w kernel \<Rightarrow> elf_reader \<Rightarrow> string list \<Rightarrow> 'w \<Rightarrow> 'w cmd_result" where
  "cmdReset K elf args w =
     (case parse_args [(''pid'', IntFlag)] args of
        Inl e \<Rightarrow> cmd_fail e w
      | Inr fs \<Rightarrow>
          if flag_int fs ''pid'' = 0 then cmd_fail ''reset: --pid is required'' w
          else (case k_now K w of (now, w1) \<Rightarrow>
                 (case InjectAtTime K elf (flag_int fs ''pid'') now w1 of
                    (Inl e, w2) \<Rightarrow> cmd_fail (''reset: '' @ err_text e) w2
                  | (Inr h, w2) \<Rightarrow>
                      ((None, [Line (''pid '' @ int_text (ih_PID h) @
                         '': clock reset to real time (state=0x'' @ hex_digits (unat (ih_StateAddr h)) @ '')'')]), w2))))"

section \<open>The dispatch\<close>

definition usage :: "out_line list" where
  "usage = [
     Line ''Usage: faketimectl <command> [flags]'',
     Line [],
     Line ''Controller subcommands (require --url flag or EPOCHD_URL environment variable):'',
     Line ''  create   --namespace=NS --selector=SEL --time=RFC3339 [--ttl=DURATION]'',
     Line ''  list'',
     Line ''  get      <id>'',
     Line ''  update   <id> --time=RFC3339'',
     Line ''  advance  <id> --by=DURATION'',
     Line ''  delete   <id>'',
     Line ''  status   <id>'',
     Line ''  resolve  --namespace=NS --selector=SEL'',
     Line [],
     Line ''Local injection subcommands (Linux only, requires CAP_SYS_PTRACE or root):'',
     Line ''  inject   --pid=PID --time=RFC3339 [--freeze]'',
     Line ''  reset    --pid=PID'',
     Line ''  run      --time=RFC3339 [--freeze] [--track] [--] COMMAND [ARGS]'']"

definition faketimectl :: "('b, 'w) cli_env \<Rightarrow> 'w kernel \<Rightarrow> elf_reader \<Rightarrow> 'w run_env \<Rightarrow> string list \<Rightarrow> 'w
    \<Rightarrow> (run_end + (string option \<times> out_line list)) \<times> 'w" where
  "faketimectl V K elf R args w =
     (case args of
        [] \<Rightarrow> (Inr (None, usage), w)
      | cmd # rest \<Rightarrow>
          let res = (\<lambda>(r, w1). (Inr r, w1)) in
          if cmd \<in> set [''-h'', ''--help'', ''help''] then (Inr (None, usage), w)
          else if cmd = ''create'' then res (cmdCreate V rest w)
          else if cmd = ''list'' then res (cmdList V rest w)
          else if cmd = ''get'' then res (cmdGet V rest w)
          else if cmd = ''update'' then res (cmdUpdate V rest w)
          else if cmd = ''advance'' then res (cmdAdvance V rest w)
          else if cmd = ''delete'' then res (cmdDelete V rest w)
          else if cmd = ''status'' then res (cmdStatus V rest w)
          else if cmd = ''resolve'' then res (cmdResolve V rest w)
          else if cmd = ''inject'' then res (cmdInject K elf rest w)
          else if cmd = ''reset'' then res (cmdReset K elf rest w)
          else if cmd = ''run'' then (case cmdRun K elf R rest w of ((e, log), w1) \<Rightarrow> (Inl e, w1))
          else (Inr (Some (''unknown command '' @ cmd), []), w))"

end
