(* ===== verification/FakeTesting.thy ===== *)
theory FakeTesting
  imports Session
begin

text \<open>
  pkg/faketime/testing.go and pkg/log/log.go: the helpers for Go tests, and the log level. A
  helper ends the test when it cannot start (the error), otherwise it runs the test function,
  which may change the handle, and then the cleanup; a panic of the cleanup is \<open>None\<close>.
\<close>

section \<open>Helpers over one handle\<close>

text \<open>Reset errors are only logged; a started process is killed and waited for.\<close>

definition handle_cleanup :: "'w kernel \<Rightarrow> gocmd option \<Rightarrow> fhandle \<Rightarrow> 'w \<Rightarrow> 'w" where
  "handle_cleanup K cmd h w =
     (case fh_Reset K h w of (e, h', w1) \<Rightarrow> (case cmd of None \<Rightarrow> w1 | Some cm \<Rightarrow> k_reap_cmd K cm w1))"

definition with_handle :: "'w kernel \<Rightarrow> gocmd option \<Rightarrow> ('w \<Rightarrow> (goerr + fhandle) \<times> 'w)
    \<Rightarrow> (fhandle \<Rightarrow> 'w \<Rightarrow> fhandle \<times> 'w) \<Rightarrow> 'w \<Rightarrow> goerr option \<times> 'w" where
  "with_handle K cmd begin_fn fn w =
     (case begin_fn w of
        (Inl e, w1) \<Rightarrow> (Some e, w1)
      | (Inr h, w1) \<Rightarrow> (case fn h w1 of (h', w2) \<Rightarrow> (None, handle_cleanup K cmd h' w2)))"

definition WithProcess :: "'w kernel \<Rightarrow> elf_reader \<Rightarrow> gocmd \<Rightarrow> gotime
    \<Rightarrow> (fhandle \<Rightarrow> 'w \<Rightarrow> fhandle \<times> 'w) \<Rightarrow> 'w \<Rightarrow> goerr option \<times> 'w" where
  "WithProcess K elf cmd target = with_handle K (Some cmd) (fh_Start K elf cmd target)"

definition WithFrozenProcess :: "'w kernel \<Rightarrow> elf_reader \<Rightarrow> gocmd \<Rightarrow> gotime
    \<Rightarrow> (fhandle \<Rightarrow> 'w \<Rightarrow> fhandle \<times> 'w) \<Rightarrow> 'w \<Rightarrow> goerr option \<times> 'w" where
  "WithFrozenProcess K elf cmd target = with_handle K (Some cmd) (fh_StartFrozen K elf cmd target)"

definition WithPID :: "'w kernel \<Rightarrow> elf_reader \<Rightarrow> pid \<Rightarrow> gotime
    \<Rightarrow> (fhandle \<Rightarrow> 'w \<Rightarrow> fhandle \<times> 'w) \<Rightarrow> 'w \<Rightarrow> goerr option \<times> 'w" where
  "WithPID K elf pid target = with_handle K None (fh_Attach K elf pid target)"

definition WithFrozenPID :: "'w kernel \<Rightarrow> elf_reader \<Rightarrow> pid \<Rightarrow> gotime
    \<Rightarrow> (fhandle \<Rightarrow> 'w \<Rightarrow> fhandle \<times> 'w) \<Rightarrow> 'w \<Rightarrow> goerr option \<times> 'w" where
  "WithFrozenPID K elf pid target = with_handle K None (fh_AttachFrozen K elf pid target)"

section \<open>Helpers over a tracker\<close>

definition reap :: "'w kernel \<Rightarrow> gocmd \<Rightarrow> 'w fenv \<Rightarrow> 'w fenv" where
  "reap K cmd s = s\<lparr>fe_world := k_reap_cmd K cmd (fe_world s)\<rparr>"

definition with_tracker :: "'w kernel \<Rightarrow> gocmd \<Rightarrow> ('w fenv \<Rightarrow> (goerr + ctracker) \<times> 'w fenv)
    \<Rightarrow> ('w cts \<Rightarrow> 'w cts) \<Rightarrow> 'w fenv \<Rightarrow> (goerr option \<times> 'w fenv) option" where
  "with_tracker K cmd begin_fn fn s =
     (case begin_fn s of
        (Inl e, s1) \<Rightarrow> Some (Some e, s1)
      | (Inr ct, s1) \<Rightarrow>
          (case ct_Reset K (fn (ct, s1)) of (e, cs2) \<Rightarrow>
             (case ct_Close K cs2 of
                None \<Rightarrow> None
              | Some (e', (ct3, s3)) \<Rightarrow> Some (None, reap K cmd s3))))"

definition WithChildTracker :: "'w kernel \<Rightarrow> elf_reader \<Rightarrow> gocmd \<Rightarrow> gotime
    \<Rightarrow> ('w cts \<Rightarrow> 'w cts) \<Rightarrow> 'w fenv \<Rightarrow> (goerr option \<times> 'w fenv) option" where
  "WithChildTracker K elf cmd target = with_tracker K cmd (StartWithTracking K elf cmd target)"

definition WithFrozenChildTracker :: "'w kernel \<Rightarrow> elf_reader \<Rightarrow> gocmd \<Rightarrow> gotime
    \<Rightarrow> ('w cts \<Rightarrow> 'w cts) \<Rightarrow> 'w fenv \<Rightarrow> (goerr option \<times> 'w fenv) option" where
  "WithFrozenChildTracker K elf cmd target = with_tracker K cmd (StartFrozenWithTracking K elf cmd target)"

section \<open>The helper over a session\<close>

definition session_cleanup :: "'w kernel \<Rightarrow> 'w sst \<Rightarrow> 'w fenv option" where
  "session_cleanup K st =
     (case ss_Reset K st of (e, st1) \<Rightarrow>
        (case ss_Close K st1 of
           None \<Rightarrow> None
         | Some (e', (ss2, s2)) \<Rightarrow> Some (fold (reap K) (ss_cmds ss2) s2)))"

definition WithSession :: "'w kernel \<Rightarrow> gotime \<Rightarrow> ('w sst \<Rightarrow> goerr option \<times> 'w sst)
    \<Rightarrow> ('w sst \<Rightarrow> 'w sst) \<Rightarrow> session_option list \<Rightarrow> 'w fenv \<Rightarrow> (goerr option \<times> 'w fenv) option" where
  "WithSession K target setup fn opts s =
     (case setup (NewSession K target opts s) of
        (Some e, (ss1, s1)) \<Rightarrow> Some (Some e, s1)
      | (None, st1) \<Rightarrow> map_option (\<lambda>s2. (None, s2)) (session_cleanup K (fn st1)))"

section \<open>Log levels\<close>

datatype log_level = LevelDebug | LevelInfo | LevelWarn | LevelError

definition to_lower :: "char \<Rightarrow> char" where
  "to_lower ch = (let n = (of_char ch :: nat) in if 65 \<le> n \<and> n \<le> 90 then char_of (n + 32) else ch)"

definition TrimSpace :: "string \<Rightarrow> string" where
  "TrimSpace s = rev (dropWhile is_space (rev (dropWhile is_space s)))"

definition parseLevel :: "string \<Rightarrow> log_level" where
  "parseLevel s =
     (let l = map to_lower (TrimSpace s) in
      if l = ''debug'' then LevelDebug
      else if l = ''warn'' \<or> l = ''warning'' then LevelWarn
      else if l = ''error'' then LevelError
      else LevelInfo)"

text \<open>A logger drops what is below its level; \<open>env\<close> is the value of LOG_LEVEL.\<close>

datatype logger = JSONLogger log_level | DiscardLogger

definition log_New :: "string \<Rightarrow> logger" where
  "log_New env = JSONLogger (parseLevel env)"

definition log_Discard :: logger where
  "log_Discard = DiscardLogger"

end
