(* ===== verification/CliClaims.thy ===== *)
theory CliClaims
  imports Runner FakeTesting
begin

text \<open>The properties of the command line tool.\<close>

lemma with_flags_positional:
  assumes "positional tid"
  shows "with_flags specs (tid # rest) k w = k \<lparr>fs_values = [], fs_args = tid # rest\<rparr> w"
  by (simp add: with_flags_def parse_positional_first [OF assms])

lemma flags_empty [simp]: "flag_string \<lparr>fs_values = [], fs_args = as\<rparr> n = []"
  by (simp add: flag_string_def)

text \<open>
  C40. The calls of the usage text and the README, \<open>update ID --time=T\<close> and
  \<open>advance ID --by=D\<close>, always fail without sending a request: flag parsing stops at the id, so the
  flag behind it is not seen.
\<close>

theorem documented_update_fails:
  assumes "positional tid"
  shows "faketimectl V K elf R [''update'', tid, ''--time='' @ t] w =
      (Inr (Some ''update: --time is required'', []), w) \<and>
    faketimectl V K elf R [''advance'', tid, ''--by='' @ d] w =
      (Inr (Some ''advance: --by is required'', []), w)"
  by (simp add: faketimectl_def cmdUpdate_def cmdAdvance_def with_flags_positional [OF assms] cmd_fail_def)

theorem documented_update_fails_witness:
  "\<forall>(V :: ('b, 'w) cli_env) K elf R w. faketimectl V K elf R [''advance'', ''a1b2c3d4'', ''--by=24h''] w =
     (Inr (Some ''advance: --by is required'', []), w)"
proof (intro allI)
  fix V :: "('b, 'w) cli_env" and K :: "'w kernel" and elf R w
  have "positional ''a1b2c3d4''" by (simp add: positional_def)
  from documented_update_fails [OF this, of V K elf R "[]" w "''24h''"]
  show "faketimectl V K elf R [''advance'', ''a1b2c3d4'', ''--by=24h''] w =
      (Inr (Some ''advance: --by is required'', []), w)" by simp
qed

end
