(* ===== verification/KernelLaws.thy ===== *)
theory KernelLaws
  imports Inject
begin

text \<open>
  What the properties of a whole node rely on: the documented behaviour of the kernel calls that
  an agent makes, and a small logic for invariants of programs made of such calls.
\<close>

section \<open>What a call may change\<close>

text \<open>
  A part of the world that only \<open>process_vm_writev\<close> and PTRACE_POKETEXT can change. For the
  memory of the processes this means: as this program writes it; what a process stores itself is
  not seen, and an address that is not mapped reads as zero, as a fresh page does.
\<close>

definition calm :: "'w kernel \<Rightarrow> ('w \<Rightarrow> 'v) \<Rightarrow> bool" where
  "calm K f \<longleftrightarrow>
     (\<forall>w. f (snd (k_now K w)) = f w) \<and> (\<forall>p w. f (snd (k_seize K p w)) = f w) \<and>
     (\<forall>p w. f (snd (k_interrupt K p w)) = f w) \<and> (\<forall>p w. f (snd (k_detach K p w)) = f w) \<and>
     (\<forall>p opts w. f (snd (k_wait4 K p opts w)) = f w) \<and> (\<forall>p sg w. f (snd (k_cont K p sg w)) = f w) \<and>
     (\<forall>p w. f (snd (k_getregs K p w)) = f w) \<and> (\<forall>p r w. f (snd (k_setregs K p r w)) = f w) \<and>
     (\<forall>p a n w. f (snd (k_vm_readv K p a n w)) = f w) \<and> (\<forall>p w. f (snd (k_maps K p w)) = f w) \<and>
     (\<forall>p a n w. f (snd (k_read_procmem K p a n w)) = f w) \<and> (\<forall>w. f (snd (k_proc_dir K w)) = f w) \<and>
     (\<forall>n w. f (snd (k_cgroup K n w)) = f w) \<and> (\<forall>n w. f (snd (k_rand K n w)) = f w)"

lemma calmD:
  assumes "calm K f"
  shows "k_now K w = (t, w') \<Longrightarrow> f w' = f w" "k_seize K p w = (u, w') \<Longrightarrow> f w' = f w"
    "k_interrupt K p w = (u, w') \<Longrightarrow> f w' = f w" "k_detach K p w = (u, w') \<Longrightarrow> f w' = f w"
    "k_wait4 K p opts w = (s, w') \<Longrightarrow> f w' = f w" "k_cont K p sg w = (u, w') \<Longrightarrow> f w' = f w"
    "k_getregs K p w = (r, w') \<Longrightarrow> f w' = f w" "k_setregs K p rs w = (u, w') \<Longrightarrow> f w' = f w"
    "k_vm_readv K p a n w = (b, w') \<Longrightarrow> f w' = f w" "k_maps K p w = (ls, w') \<Longrightarrow> f w' = f w"
    "k_read_procmem K p a n w = (b, w') \<Longrightarrow> f w' = f w" "k_proc_dir K w = (ls, w') \<Longrightarrow> f w' = f w"
    "k_cgroup K nm w = (c, w') \<Longrightarrow> f w' = f w" "k_rand K n w = (bs, w') \<Longrightarrow> f w' = f w"
  using assms unfolding calm_def by (metis snd_conv)+

text \<open>The addresses of a process's vDSO, and whether the process is there.\<close>

record layout =
  ly_vdso :: "pid \<Rightarrow> addr \<times> addr"
  ly_alive :: "pid \<Rightarrow> bool"

text \<open>
  The kernel's answer to the borrowed system call: with \<open>syscall; int3\<close> in the text at the
  instruction pointer and the registers set for mmap, the process runs into the trap.
\<close>

definition mmap_answer :: "'w kernel \<Rightarrow> ('w \<Rightarrow> pid \<Rightarrow> memory) \<Rightarrow> pid \<Rightarrow> addr \<Rightarrow> 'w \<Rightarrow> uregs \<Rightarrow> 'w \<Rightarrow> bool" where
  "mmap_answer K view p pa w post w4 \<longleftrightarrow> read_bytes (view w p) pa 3 = syscall_int3 \<and>
     (\<exists>r att w1 w2 w3 q ws. k_setregs K p (mmap_regs r pa att) w = (Inr (), w1) \<and>
        k_cont K p 0 w1 = (Inr (), w2) \<and> k_wait4 K p 0 w2 = (Inr (q, ws), w3) \<and>
        ws_Stopped ws \<and> ws_StopSignal ws = SIGTRAP \<and> k_getregs K p w3 = (Inr post, w4))"

text \<open>Where the state struct of an injection can be: at its offset in a page outside the vDSO.\<close>

definition clear_page :: "addr \<times> addr \<Rightarrow> addr \<Rightarrow> bool" where
  "clear_page vd page \<longleftrightarrow> 4096 dvd unat page \<and> \<not> in_range (fst vd) (snd vd) page"

definition struct_place :: "addr \<times> addr \<Rightarrow> addr \<Rightarrow> bool" where
  "struct_place vd a \<longleftrightarrow> (\<exists>page. clear_page vd page \<and> a = page + of_nat StateOffset)"

text \<open>
  The laws. A write to a process that is there succeeds, one that fails changes nothing. A poke
  that fails changes at most the bytes it names. No call moves a vDSO or ends a process. The maps
  file gives the vDSO as a range of whole pages, and mmap answers with the start of a page that
  does not lie in it, or with an error number.
\<close>

definition kernel_laws :: "'w kernel \<Rightarrow> ('w \<Rightarrow> pid \<Rightarrow> memory) \<Rightarrow> ('w \<Rightarrow> layout) \<Rightarrow> bool" where
  "kernel_laws K view lay \<longleftrightarrow> mem_laws K view \<and> calm K view \<and> calm K lay \<and>
     (\<forall>p a bs w. lay (snd (k_vm_writev K p a bs w)) = lay w \<and> lay (snd (k_poketext K p a bs w)) = lay w) \<and>
     (\<forall>p a bs w. ly_alive (lay w) p \<longrightarrow> (\<exists>n w'. k_vm_writev K p a bs w = (Inr n, w'))) \<and>
     (\<forall>p a bs w e w'. k_vm_writev K p a bs w = (Inl e, w') \<longrightarrow> view w' = view w) \<and>
     (\<forall>p a bs w e w' q b. k_poketext K p a bs w = (Inl e, w') \<and> (q \<noteq> p \<or> apart b 32 a (length bs)) \<longrightarrow>
        read_bytes (view w' q) b 32 = read_bytes (view w q) b 32) \<and>
     (\<forall>p w s e w'. findVDSORange K p w = (Inr (s, e), w') \<longrightarrow>
        ly_vdso (lay w) p = (s, e) \<and> 4096 dvd unat s \<and> 4096 dvd unat e) \<and>
     (\<forall>p pa w post w4. mmap_answer K view p pa w post w4 \<and> 0 \<le> sint (Rax post) \<longrightarrow>
        clear_page (ly_vdso (lay w) p) (Rax post))"

lemma kernel_lawsD:
  assumes "kernel_laws K view lay"
  shows "mem_laws K view" and "calm K view" and "calm K lay"
    and "k_vm_writev K p a bs w = (r, w') \<Longrightarrow> lay w' = lay w"
    and "k_poketext K p a bs w = (r', w') \<Longrightarrow> lay w' = lay w"
    and "ly_alive (lay w) p \<Longrightarrow> \<exists>n w'. k_vm_writev K p a bs w = (Inr n, w')"
    and "k_vm_writev K p a bs w = (Inl e, w') \<Longrightarrow> view w' = view w"
    and "k_poketext K p a bs w = (Inl e, w') \<Longrightarrow> q \<noteq> p \<or> apart b 32 a (length bs) \<Longrightarrow>
      read_bytes (view w' q) b 32 = read_bytes (view w q) b 32"
    and "findVDSORange K p w = (Inr (s, en), w') \<Longrightarrow>
      ly_vdso (lay w) p = (s, en) \<and> 4096 dvd unat s \<and> 4096 dvd unat en"
    and "mmap_answer K view p pa w post w4 \<Longrightarrow> 0 \<le> sint (Rax post) \<Longrightarrow> clear_page (ly_vdso (lay w) p) (Rax post)"
  using assms unfolding kernel_laws_def by (blast | metis snd_conv)+

lemma quiet_calm: "calm K view \<Longrightarrow> quiet_laws K view"
  by (simp add: calm_def quiet_laws_def)

section \<open>Invariants of programs\<close>

definition keeps :: "('s \<Rightarrow> bool) \<Rightarrow> ('s \<Rightarrow> 'r \<times> 's) \<Rightarrow> bool" where
  "keeps I m \<longleftrightarrow> (\<forall>s x s'. I s \<longrightarrow> m s = (x, s') \<longrightarrow> I s')"

lemma keepsI: "(\<And>s x s'. I s \<Longrightarrow> m s = (x, s') \<Longrightarrow> I s') \<Longrightarrow> keeps I m"
  by (auto simp: keeps_def)

lemma keepsD: "keeps I m \<Longrightarrow> I s \<Longrightarrow> m s = (x, s') \<Longrightarrow> I s'"
  by (auto simp: keeps_def)

text \<open>The continuation may use what the first step returned, from a state with the invariant.\<close>

lemma keeps_attempt:
  assumes "keeps I m" and "\<And>a s s'. I s \<Longrightarrow> m s = (Inr a, s') \<Longrightarrow> keeps I (k a)"
  shows "keeps I (attempt m wr k)"
proof (rule keepsI)
  fix s x s' assume I: "I s" and run: "attempt m wr k s = (x, s')"
  obtain y s1 where m: "m s = (y, s1)" by (rule prod.exhaust)
  note I1 = keepsD [OF assms(1) I m]
  show "I s'"
  proof (cases y)
    case (Inl e)
    with run m I1 show ?thesis by (simp add: attempt_def)
  next
    case (Inr a)
    with run m have "k a s1 = (x, s')" by (simp add: attempt_def)
    from keepsD [OF assms(2) [OF I m [unfolded Inr]] I1 this] show ?thesis .
  qed
qed

lemma keeps_return [simp]: "keeps I (Pair x)" "keeps I (\<lambda>s. (x, s))"
  by (simp_all add: keeps_def)

lemma keeps_if: "(c \<Longrightarrow> keeps I m) \<Longrightarrow> (\<not> c \<Longrightarrow> keeps I m') \<Longrightarrow> keeps I (\<lambda>s. if c then m s else m' s)"
  by (cases c) simp_all

text \<open>A program whose result differs but whose effect is the same.\<close>

lemma keeps_same: "keeps I m \<Longrightarrow> (\<And>s. snd (m' s) = snd (m s)) \<Longrightarrow> keeps I m'"
  unfolding keeps_def by (metis prod.collapse snd_conv)

lemma keeps_ignore: "keeps I m \<Longrightarrow> I s \<Longrightarrow> I (ignore_err m s)"
  by (auto simp: keeps_def ignore_err_def split: prod.splits) (metis snd_conv prod.collapse)

lemma keeps_unless_restored:
  assumes "keeps I m" and "\<And>s. I s \<Longrightarrow> I (cleanup s)"
  shows "keeps I (unless_restored cleanup m)"
proof (rule keepsI)
  fix s x s' assume I: "I s" and run: "unless_restored cleanup m s = (x, s')"
  obtain y s1 where m: "m s = (y, s1)" by (rule prod.exhaust)
  from run have "s' = s1 \<or> s' = cleanup s1" by (cases y) (simp_all add: unless_restored_def m)
  with keepsD [OF assms(1) I m] assms(2) show "I s'" by blast
qed

section \<open>Pages\<close>

lemma aligned_offset:
  assumes "4096 dvd unat (p :: addr)" and "i < 4096"
  shows "unat (p + of_nat i) = unat p + i"
proof -
  obtain k where k: "unat p = 4096 * k" using assms(1) by (auto elim: dvdE)
  have "unat p < 2 ^ 64" using unsigned_less [of p, where 'a = nat] by simp
  with k assms(2) have "unat p + i < 2 ^ 64" by simp
  then show ?thesis by (simp add: unat_word_ariths unat_of_nat)
qed

lemma aligned_distinct:
  assumes "4096 dvd unat (p :: addr)" and "4096 dvd unat (q :: addr)" and "i < 4096" and "j < 4096"
    and "p + of_nat i = q + of_nat j"
  shows "p = q"
proof -
  have "unat p + i = unat q + j"
    using aligned_offset [OF assms(1,3)] aligned_offset [OF assms(2,4)] assms(5) by simp
  with assms(1-4) have "unat p = unat q" by (auto elim!: dvdE)
  then show ?thesis by (simp add: word_unat_eq_iff)
qed

lemma pages_apart:
  assumes "4096 dvd unat (p :: addr)" and "4096 dvd unat (q :: addr)" and "p \<noteq> q"
  shows "apart p 4096 q 4096"
proof -
  have far: "4096 \<le> unat (q - p)" if "4096 dvd unat p" "4096 dvd unat q" "p \<noteq> q" for p q :: addr
  proof (rule ccontr)
    assume "\<not> 4096 \<le> unat (q - p)"
    then have "unat (q - p) < 4096" by simp
    moreover have "p + of_nat (unat (q - p)) = q + of_nat 0" by simp
    ultimately show False using aligned_distinct [OF that(1,2)] that(3) by force
  qed
  from far [OF assms] far [OF assms(2,1)] assms(3) show ?thesis by (simp add: apart_def)
qed

lemma struct_places_apart:
  assumes "struct_place vd a" and "struct_place vd' b" and "a \<noteq> b"
  shows "apart a 32 b 32"
proof -
  obtain p q where p: "4096 dvd unat p" "a = p + of_nat 436" and q: "4096 dvd unat q" "b = q + of_nat 436"
    using assms(1,2) by (auto simp: struct_place_def clear_page_def StateOffset_def)
  with assms(3) have "p \<noteq> q" by blast
  from apart_sub [OF pages_apart [OF p(1) q(1) this], of 436 32 436 32] p q show ?thesis by simp
qed

text \<open>A window of a few bytes that starts in the vDSO does not touch a struct.\<close>

lemma vdso_window_apart:
  assumes "struct_place (s, e) a" and "4096 dvd unat s" and "4096 dvd unat e" and "in_range s e x" and "n \<le> 8"
  shows "apart a 32 x n"
proof -
  obtain p where p: "4096 dvd unat p" "\<not> (s \<le> p \<and> p < e)" "a = p + 436"
    using assms(1) by (auto simp: struct_place_def clear_page_def in_range_def StateOffset_def)
  have a: "unat a = unat p + 436" using aligned_offset [OF p(1), of 436] p(3) by simp
  have x: "unat s \<le> unat x" "unat x < unat e"
    using assms(4) by (simp_all add: in_range_def word_le_nat_alt word_less_nat_alt)
  have top: "unat p + 4096 \<le> 2 ^ 64" "unat e + 4096 \<le> 2 ^ 64"
    using aligned_offset [OF p(1), of 4095] aligned_offset [OF assms(3), of 4095]
      unsigned_less [of "p + 4095", where 'a = nat] unsigned_less [of "e + 4095", where 'a = nat] by simp_all
  consider "unat p + 4096 \<le> unat s" | "unat e \<le> unat p"
  proof -
    have "unat p < unat s \<or> unat e \<le> unat p"
      using p(2) by (auto simp: word_le_nat_alt word_less_nat_alt)
    moreover have "unat p + 4096 \<le> unat s" if "unat p < unat s"
      using that p(1) assms(2) by (auto elim!: dvdE)
    ultimately show ?thesis using that by blast
  qed
  then show ?thesis
  proof cases
    case 1
    then have "unat (x - a) = unat x - unat a" using a x by (simp add: unat_sub word_le_nat_alt)
    moreover have "unat (a - x) = 2 ^ 64 - (unat x - unat a)"
      using 1 a x by (simp add: unat_sub_if' word_le_nat_alt)
    ultimately show ?thesis
      using 1 a x top assms(5) unfolding apart_def by simp arith
  next
    case 2
    then have "unat (a - x) = unat a - unat x" using a x by (simp add: unat_sub word_le_nat_alt)
    moreover have "unat (x - a) = 2 ^ 64 - (unat a - unat x)"
      using 2 a x by (simp add: unat_sub_if' word_le_nat_alt)
    ultimately show ?thesis
      using 2 a x top assms(5) unfolding apart_def by simp arith
  qed
qed

end
