(* ===== verification/InjectFrame.thy ===== *)
theory InjectFrame
  imports KernelLaws
begin

text \<open>
  What an injection leaves alone: the state structs of other injections, in the same process or
  another. One of them can only be overwritten by the new payload, when the kernel maps its page
  anew, and holds the new state then. And what it leaves behind: the new state.
\<close>

section \<open>The invariant\<close>

text \<open>
  From the memory \<open>v0\<close> on, with the layout \<open>l\<close>: each place of a struct has the bytes it had, or
  a state of \<open>S\<close>.
\<close>

definition framed :: "('w \<Rightarrow> pid \<Rightarrow> memory) \<Rightarrow> ('w \<Rightarrow> layout) \<Rightarrow> layout \<Rightarrow> (tramp_state \<Rightarrow> bool)
    \<Rightarrow> (pid \<Rightarrow> memory) \<Rightarrow> 'w \<Rightarrow> bool" where
  "framed view lay l S v0 w \<longleftrightarrow> lay w = l \<and>
     (\<forall>q b. struct_place (ly_vdso l q) b \<longrightarrow>
        read_bytes (view w q) b 32 = read_bytes (v0 q) b 32 \<or> (\<exists>s. S s \<and> state_at (view w q) b s))"

lemma framed_start: "framed view lay (lay w) S (view w) w"
  by (simp add: framed_def)

lemma framed_calm: "framed view lay l S v0 w \<Longrightarrow> view w' = view w \<Longrightarrow> lay w' = lay w \<Longrightarrow> framed view lay l S v0 w'"
  by (simp add: framed_def)

lemma framed_change:
  assumes "framed view lay l S v0 w" and "lay w' = lay w"
    and "\<And>q b. struct_place (ly_vdso l q) b \<Longrightarrow>
      read_bytes (view w' q) b 32 = read_bytes (view w q) b 32 \<or> (\<exists>s. S s \<and> state_at (view w' q) b s)"
  shows "framed view lay l S v0 w'"
  using assms unfolding framed_def state_at_def StateSize_def by metis

text \<open>The same of a tracer that acts on one process.\<close>

definition traced :: "pid \<Rightarrow> ('w \<Rightarrow> bool) \<Rightarrow> 'w tw \<Rightarrow> bool" where
  "traced pid I tw \<longleftrightarrow> t_pid (fst tw) = pid \<and> I (snd tw)"

lemma keeps_on_world: "keeps I m \<Longrightarrow> keeps (traced pid I) (on_world m)"
  by (auto simp: keeps_def traced_def on_world_def split: prod.splits)

lemma keeps_syscall: "keeps I m \<Longrightarrow> keeps (traced pid I) (syscall_as ctx m)"
  by (auto simp: keeps_def traced_def syscall_as_def split: prod.splits sum.splits)

section \<open>Every step of an injection\<close>

lemma framed_calls:
  assumes laws: "kernel_laws K view lay"
  shows "keeps (framed view lay l S v0) (k_seize K p)" "keeps (framed view lay l S v0) (k_interrupt K p)"
    "keeps (framed view lay l S v0) (k_detach K p)" "keeps (framed view lay l S v0) (k_wait4 K i opts)"
    "keeps (framed view lay l S v0) (k_cont K p sg)" "keeps (framed view lay l S v0) (k_getregs K p)"
    "keeps (framed view lay l S v0) (k_setregs K p r)" "keeps (framed view lay l S v0) (k_vm_readv K p a n)"
    "keeps (framed view lay l S v0) (k_maps K p)" "keeps (framed view lay l S v0) (k_read_procmem K p a n)"
    "keeps (framed view lay l S v0) (k_proc_dir K)" "keeps (framed view lay l S v0) (k_cgroup K nm)"
    "keeps (framed view lay l S v0) (k_now K)" "keeps (framed view lay l S v0) (k_rand K n)"
  unfolding keeps_def
  by (blast intro: framed_calm dest: calmD [OF kernel_lawsD(2) [OF laws]] calmD [OF kernel_lawsD(3) [OF laws]])+

lemma framed_poke:
  assumes laws: "kernel_laws K view lay" and vd: "ly_vdso l p = (st, en)" "4096 dvd unat st" "4096 dvd unat en"
    and x: "in_range st en x" and bs: "length bs \<le> 8"
  shows "keeps (framed view lay l S v0) (k_poketext K p x bs)"
proof (rule keepsI)
  fix w r w' assume I: "framed view lay l S v0 w" and run: "k_poketext K p x bs w = (r, w')"
  show "framed view lay l S v0 w'"
  proof (rule framed_change [OF I kernel_lawsD(5) [OF laws run]])
    fix q b assume b: "struct_place (ly_vdso l q) b"
    have ap: "q \<noteq> p \<or> apart b 32 x (length bs)"
      using vdso_window_apart [OF _ vd(2,3) x bs, of b] b vd(1) by force
    have "read_bytes (view w' q) b 32 = read_bytes (view w q) b 32"
    proof (cases r)
      case (Inl e)
      from kernel_lawsD(8) [OF laws run [unfolded Inl] ap] show ?thesis .
    next
      case (Inr u)
      from mem_laws_poketext [OF kernel_lawsD(1) [OF laws] run [unfolded Inr]] ap show ?thesis
        by (auto simp: read_bytes_write_apart)
    qed
    then show "read_bytes (view w' q) b 32 = read_bytes (view w q) b 32 \<or> (\<exists>s. S s \<and> state_at (view w' q) b s)" ..
  qed
qed

lemma payload_state:
  "state_at (write_bytes m page (payload_with_state sec nsec msk)) (page + of_nat StateOffset)
     \<lparr>offsetSec = sec, offsetNsec = nsec, enabledMask = msk, generation = 0\<rparr>"
proof -
  let ?m = "write_bytes m page (payload_with_state sec nsec msk)"
  have "read_bytes ?m page 468 = payload_with_state sec nsec msk"
    using read_bytes_write_same [of "payload_with_state sec nsec msk" m page]
    by (simp add: StateOffset_def StateSize_def)
  moreover have "read_bytes ?m (page + of_nat StateOffset) StateSize = slice StateOffset StateSize (read_bytes ?m page 468)"
    by (rule read_bytes_slice [symmetric]) (simp add: StateOffset_def StateSize_def)
  ultimately show ?thesis by (simp add: payload_state_slice state_at_def encode_state_def)
qed

abbreviation fresh_state :: "int \<Rightarrow> int \<Rightarrow> 64 word \<Rightarrow> tramp_state" where
  "fresh_state sec nsec msk \<equiv> \<lparr>offsetSec = sec, offsetNsec = nsec, enabledMask = msk, generation = 0\<rparr>"

lemma framed_payload:
  assumes laws: "kernel_laws K view lay" and page: "4096 dvd unat page" and S: "S (fresh_state sec nsec msk)"
  shows "keeps (framed view lay l S v0) (WriteMem K p page (payload_with_state sec nsec msk))"
proof (rule keepsI)
  let ?s = "fresh_state sec nsec msk" and ?pl = "payload_with_state sec nsec msk"
  fix w r w' assume I: "framed view lay l S v0 w" and run: "WriteMem K p page ?pl w = (r, w')"
  then have lay': "lay w' = lay w"
    by (auto simp: WriteMem_def dest: kernel_lawsD(4) [OF laws] split: if_splits prod.splits sum.splits)
  show "framed view lay l S v0 w'"
  proof (rule framed_change [OF I lay'])
    fix q b assume b: "struct_place (ly_vdso l q) b"
    show "read_bytes (view w' q) b 32 = read_bytes (view w q) b 32 \<or> (\<exists>s. S s \<and> state_at (view w' q) b s)"
    proof (cases r)
      case (Inl e)
      with run have "view w' = view w"
        by (auto simp: WriteMem_def dest: kernel_lawsD(7) [OF laws] split: if_splits prod.splits sum.splits)
      then show ?thesis by simp
    next
      case (Inr n)
      note v = WriteMem_Inr [OF kernel_lawsD(1) [OF laws] run [unfolded Inr]]
      obtain pg where pg: "4096 dvd unat pg" "b = pg + of_nat 436"
        using b by (auto simp: struct_place_def clear_page_def StateOffset_def)
      consider "q \<noteq> p" | "q = p" "pg = page" | "q = p" "pg \<noteq> page" by blast
      then show ?thesis
      proof cases
        case 1
        then show ?thesis by (simp add: v)
      next
        case 2
        then have "state_at (view w' q) b ?s" using payload_state by (simp add: v pg(2) StateOffset_def)
        with S show ?thesis by blast
      next
        case 3
        have "apart b 32 page (length ?pl)"
          using apart_sub [OF pages_apart [OF pg(1) page 3(2)], of 436 32 0 468] pg(2)
          by (simp add: StateOffset_def StateSize_def)
        with 3 show ?thesis by (simp add: v read_bytes_write_apart)
      qed
    qed
  qed
qed

section \<open>The tracer's methods\<close>

lemma keeps_method:
  assumes "keeps I (f pid)"
  shows "keeps (traced pid I) (\<lambda>tw. syscall_as ctx (f (t_pid (fst tw))) tw)"
proof (rule keepsI)
  fix tw x tw' assume I: "traced pid I tw" and "syscall_as ctx (f (t_pid (fst tw))) tw = (x, tw')"
  then have "syscall_as ctx (f pid) tw = (x, tw')" by (simp add: traced_def)
  from keepsD [OF keeps_syscall [OF assms] I this] show "traced pid I tw'" .
qed

lemma keeps_GetRegs: "keeps I (k_getregs K pid) \<Longrightarrow> keeps (traced pid I) (GetRegs K)"
  using keeps_method [of I "k_getregs K"] unfolding GetRegs_def [abs_def] .

lemma keeps_SetRegs: "keeps I (k_setregs K pid r) \<Longrightarrow> keeps (traced pid I) (SetRegs K r)"
  using keeps_method [of I "\<lambda>p. k_setregs K p r"] unfolding SetRegs_def [abs_def] .

lemma keeps_Cont: "keeps I (k_cont K pid sg) \<Longrightarrow> keeps (traced pid I) (Cont K sg)"
  using keeps_method [of I "\<lambda>p. k_cont K p sg"] unfolding Cont_def [abs_def] .

lemma keeps_PokeText: "keeps I (k_poketext K pid a bs) \<Longrightarrow> keeps (traced pid I) (PokeText K a bs)"
  using keeps_method [of I "\<lambda>p. k_poketext K p a bs"] unfolding PokeText_def [abs_def] .

lemma keeps_Wait:
  assumes "keeps I (k_wait4 K pid 0)"
  shows "keeps (traced pid I) (Wait K)"
proof (rule keepsI)
  fix tw x tw' assume I: "traced pid I tw" and "Wait K tw = (x, tw')"
  then obtain y where "syscall_as ''procmem: wait4'' (k_wait4 K (t_pid (fst tw)) 0) tw = (y, tw')"
    by (auto simp: Wait_def attempt_def split: prod.splits sum.splits)
  from keepsD [OF keeps_method [where f = "\<lambda>p. k_wait4 K p 0", OF assms] I this] show "traced pid I tw'" .
qed

lemma keeps_ReadMem: "keeps I (k_vm_readv K p a n) \<Longrightarrow> keeps I (ReadMem K p a n)"
  by (auto simp: keeps_def ReadMem_def split: if_splits prod.splits sum.splits)

section \<open>The remote mmap\<close>

lemma ReadMem_length:
  "mem_laws K view \<Longrightarrow> ReadMem K p a n w = (Inr (k, bs), w') \<Longrightarrow> length bs = n"
  by (auto dest: ReadMem_Inr)

lemma keeps_mmap_attempts:
  assumes laws: "kernel_laws K view lay" and orig: "keeps (framed view lay l S v0) (k_poketext K pid a b)"
  shows "keeps (traced pid (framed view lay l S v0)) (mmap_attempts K a r b atts)"
proof (induction atts)
  case (Cons att atts)
  note calls = framed_calls [OF laws, of l S v0]
  show ?case
    unfolding mmap_attempts.simps(2) Let_def
    by (intro keeps_attempt keeps_if keeps_return keeps_SetRegs keeps_Cont keeps_Wait keeps_GetRegs
        keeps_PokeText calls orig Cons.IH)
qed (simp add: keeps_def)

lemma keeps_remoteMmap:
  assumes laws: "kernel_laws K view lay" and vd: "ly_vdso l pid = (st, en)" "4096 dvd unat st" "4096 dvd unat en"
    and x: "in_range st en a"
  shows "keeps (traced pid (framed view lay l S v0)) (remoteMmap K pid a f)"
proof -
  note calls = framed_calls [OF laws, of l S v0]
  note poke = framed_poke [OF laws vd x, of _ S v0]
  have restore: "traced pid (framed view lay l S v0) (restore_tracee K a r b tw)"
    if "length b = 8" "traced pid (framed view lay l S v0) tw" for r b tw
    unfolding restore_tracee_def
    by (intro keeps_ignore [OF keeps_SetRegs] keeps_ignore [OF keeps_PokeText] poke calls that(2)) (simp add: that(1))
  have len: "length b = 8"
    if "on_world (ReadMem K pid a 8) tw = (Inr kb, tw')" "kb = (k, b)" for tw kb tw' k b
    using that ReadMem_length [OF kernel_lawsD(1) [OF laws]] by (cases tw) (auto simp: on_world_Inr_iff)
  show ?thesis
    unfolding remoteMmap_def case_prod_beta
  proof (intro keeps_attempt keeps_GetRegs keeps_on_world keeps_ReadMem calls keeps_unless_restored
      keeps_PokeText keeps_mmap_attempts [OF laws] poke)
    fix kb :: "nat \<times> byte list" and tw tw' :: "'a tw" assume "on_world (ReadMem K pid a 8) tw = (Inr kb, tw')"
    from len [OF this surjective_pairing] show "length (snd kb) \<le> 8" by simp
  next
    fix r and kb :: "nat \<times> byte list" and tw tw' tw1 :: "'a tw"
    assume "on_world (ReadMem K pid a 8) tw = (Inr kb, tw')" and I: "traced pid (framed view lay l S v0) tw1"
    from restore [OF len [OF this(1) surjective_pairing] I]
    show "traced pid (framed view lay l S v0) (restore_tracee K a r (snd kb) tw1)" .
  qed (simp add: syscall_int3_def)
qed

text \<open>The page that it returns.\<close>

lemma mmap_attempts_page:
  assumes laws: "kernel_laws K view lay"
  shows "mmap_attempts K a r b atts (t, w) = (Inr page, tw') \<Longrightarrow>
    read_bytes (view w (t_pid t)) a 3 = syscall_int3 \<Longrightarrow> clear_page (ly_vdso (lay w) (t_pid t)) page"
proof (induction atts arbitrary: w)
  case (Cons att atts)
  obtain w1 w2 q ws w3 post w4 where
    run: "k_setregs K (t_pid t) (mmap_regs r a att) w = (Inr (), w1)" "k_cont K (t_pid t) 0 w1 = (Inr (), w2)"
      "k_wait4 K (t_pid t) 0 w2 = (Inr (q, ws), w3)" "ws_Stopped ws" "ws_StopSignal ws = SIGTRAP"
      "k_getregs K (t_pid t) w3 = (Inr post, w4)"
    and rest: "if 0 \<le> sint (Rax post) then page = Rax post
       else mmap_attempts K a r b atts (t, w4) = (Inr page, tw')"
    using Cons.prems(1)
    by (auto simp: Let_def SetRegs_def Cont_def Wait_def GetRegs_def syscall_as_Inr_iff
        elim!: attempt_InrE split: if_splits)
  note calm = calmD(8,6,5,7) [OF kernel_lawsD(2) [OF laws]] calmD(8,6,5,7) [OF kernel_lawsD(3) [OF laws]]
  have same: "view w4 = view w" "lay w4 = lay w"
    using calm(1) [OF run(1)] calm(2) [OF run(2)] calm(3) [OF run(3)] calm(4) [OF run(6)]
      calm(5) [OF run(1)] calm(6) [OF run(2)] calm(7) [OF run(3)] calm(8) [OF run(6)] by simp_all
  show ?case
  proof (cases "0 \<le> sint (Rax post)")
    case True
    have "mmap_answer K view (t_pid t) a w post w4"
      unfolding mmap_answer_def using run Cons.prems(2) by blast
    from kernel_lawsD(10) [OF laws this True] rest True show ?thesis by simp
  next
    case False
    with rest Cons.IH [of w4] Cons.prems(2) show ?thesis by (simp add: same)
  qed
qed simp

lemma remoteMmap_page:
  assumes laws: "kernel_laws K view lay" and I: "t_pid t = p" "lay w = l"
    and run: "remoteMmap K p a f (t, w) = (Inr page, tw')"
  shows "clear_page (ly_vdso l p) page"
proof -
  obtain t1 w1 t2 w2 k orig t3 w3 regs u where
    g: "GetRegs K (t, w) = (Inr regs, (t1, w1))" and rd: "on_world (ReadMem K p a 8) (t1, w1) = (Inr (k, orig), (t2, w2))"
    and poke: "PokeText K a syscall_int3 (t2, w2) = (Inr u, (t3, w3))"
    and m: "mmap_attempts K a regs orig (mmap_list f) (t3, w3) = (Inr page, tw')"
    using run by (auto simp: remoteMmap_def unless_restored_Inr elim!: attempt_InrE)
  let ?I = "\<lambda>w. lay w = l"
  note calm = calmD [OF kernel_lawsD(3) [OF laws]]
  have "keeps ?I (k_getregs K p)" "keeps ?I (k_vm_readv K p a n)" "keeps ?I (k_poketext K p a bs)" for n bs
    using calm kernel_lawsD(5) [OF laws] by (auto simp: keeps_def)
  then have keep: "keeps (traced p ?I) (GetRegs K)" "keeps (traced p ?I) (on_world (ReadMem K p a 8))"
    "keeps (traced p ?I) (PokeText K a syscall_int3)"
    by (auto intro: keeps_GetRegs keeps_on_world keeps_ReadMem keeps_PokeText)
  have "traced p ?I (t, w)" by (simp add: traced_def I)
  from keepsD [OF keep(3) keepsD [OF keep(2) keepsD [OF keep(1) this g] rd] poke]
  have t3: "t_pid t3 = p" "lay w3 = l" by (simp_all add: traced_def)
  have "t3 = t2 \<and> read_bytes (view w3 (t_pid t2)) a 3 = syscall_int3"
    using PokeText_Inr [OF kernel_lawsD(1) [OF laws] poke] read_bytes_write_same [of syscall_int3 _ a]
    by (simp add: syscall_int3_def numeral_3_eq_3)
  with mmap_attempts_page [OF laws m] t3 show ?thesis by simp
qed

section \<open>The whole injection\<close>

text \<open>What the locator found is the vDSO of the process.\<close>

definition located :: "layout \<Rightarrow> pid \<Rightarrow> VDSOInfo \<Rightarrow> bool" where
  "located l pid info \<longleftrightarrow> ly_vdso l pid = (v_Start info, v_End info) \<and>
     4096 dvd unat (v_Start info) \<and> 4096 dvd unat (v_End info) \<and>
     (\<forall>hk \<in> set (hook_table info). in_range (v_Start info) (v_End info) (hk_addr hk))"

lemma Locate_located:
  assumes laws: "kernel_laws K view lay" and run: "Locate K elf pid w = (Inr info, w')"
  shows "located (lay w) pid info"
proof -
  obtain st en w1 syms where f: "findVDSORange K pid w = (Inr (st, en), w1)"
    and r: "resolve_all st en syms = Inr info"
    using run by (auto simp: Locate_def elim!: attempt_InrE split: sum.splits)
  from kernel_lawsD(9) [OF laws f] resolve_all_Inr [OF r] show ?thesis
    by (simp add: located_def hook_table_def)
qed

lemma keeps_Locate:
  assumes laws: "kernel_laws K view lay"
  shows "keeps (framed view lay l S v0) (Locate K elf pid)"
proof -
  note calls = framed_calls [OF laws, of l S v0]
  have "keeps (framed view lay l S v0) (findVDSORange K pid)"
    by (rule keeps_same [OF calls(9) [of pid]]) (simp add: findVDSORange_def split: prod.split sum.split)
  moreover have "keeps (framed view lay l S v0) (readProcMem K pid a n)" for a n
    by (rule keeps_same [OF calls(10) [of pid a "unat n"]]) (simp add: readProcMem_def split: prod.split sum.split)
  moreover have "keeps (framed view lay l S v0)
      (\<lambda>w. case elf data of Inl e \<Rightarrow> (Inl (Wrap ctx e), w) | Inr syms \<Rightarrow> (r syms, w))" for data ctx r
    by (cases "elf data") simp_all
  ultimately show ?thesis
    unfolding Locate_def case_prod_beta by (intro keeps_attempt)
qed

lemma keeps_findNearbyGap:
  assumes laws: "kernel_laws K view lay"
  shows "keeps (framed view lay l S v0) (findNearbyGap K pid a)"
  by (rule keeps_same [OF framed_calls(9) [OF laws, of _ _ _ pid]]) (simp add: findNearbyGap_def split: prod.split sum.split)

lemma keeps_patch_hooks:
  assumes laws: "kernel_laws K view lay" and vd: "ly_vdso l pid = (st, en)" "4096 dvd unat st" "4096 dvd unat en"
  shows "\<forall>hk \<in> set hks. in_range st en (hk_addr hk) \<Longrightarrow>
    keeps (traced pid (framed view lay l S v0)) (patch_hooks K pid page hks)"
proof (induction hks)
  case (Cons hk hks)
  note calls = framed_calls [OF laws, of l S v0]
  show ?case
    unfolding patch_hooks.simps(2) Let_def case_prod_beta
    by (intro keeps_if keeps_return keeps_attempt keeps_on_world keeps_ReadMem keeps_PokeText calls
        framed_poke [OF laws vd] Cons.IH) (use Cons.prems in simp_all)
qed (simp add: keeps_def)

lemma keeps_injectWithTracer:
  assumes laws: "kernel_laws K view lay" and at: "located l pid info" and S: "S (fresh_state sec nsec msk)"
  shows "keeps (traced pid (framed view lay l S v0)) (injectWithTracer K pid info sec nsec msk)"
proof -
  have vd: "ly_vdso l pid = (v_Start info, v_End info)" "4096 dvd unat (v_Start info)" "4096 dvd unat (v_End info)"
    and entries: "\<forall>hk \<in> set (hook_table info). in_range (v_Start info) (v_End info) (hk_addr hk)"
    using at by (simp_all add: located_def)
  then have x: "in_range (v_Start info) (v_End info) (ClockGettimeAddr info)" by (simp add: hook_table_def)
  have page: "4096 dvd unat page"
    if "traced pid (framed view lay l S v0) tw"
      "remoteMmap K pid a f tw = (Inr page, tw')" for tw tw' a f page
    using that remoteMmap_page [OF laws, of "fst tw" pid "snd tw" l]
    by (cases tw) (auto simp: traced_def framed_def clear_page_def)
  show ?thesis
    unfolding injectWithTracer_def
    by (intro keeps_attempt keeps_on_world keeps_findNearbyGap [OF laws] keeps_remoteMmap [OF laws vd x]
        framed_payload [where S = S, OF laws _ S] keeps_patch_hooks [OF laws vd entries] keeps_return) (rule page)
qed

text \<open>The new struct holds the state of the payload: the jumps are written elsewhere.\<close>

lemma injected_state:
  assumes laws: "kernel_laws K view lay" and at: "located (lay w) (t_pid t) info"
    and run: "injectWithTracer K (t_pid t) info sec nsec msk (t, w) = (Inr h, (t', w'))"
  shows "ih_PID h = t_pid t \<and> struct_place (ly_vdso (lay w) (t_pid t)) (ih_StateAddr h) \<and>
    state_at (view w' (t_pid t)) (ih_StateAddr h) (fresh_state sec nsec msk) \<and> t' = t"
proof -
  obtain f w1 page t2 w2 n w3 phs
    where gap: "findNearbyGap K (t_pid t) (ClockGettimeAddr info) w = (Inr f, w1)"
      and mm: "remoteMmap K (t_pid t) (ClockGettimeAddr info) f (t, w1) = (Inr page, (t2, w2))"
      and wr: "WriteMem K (t_pid t) page (payload_with_state sec nsec msk) w2 = (Inr n, w3)"
      and pt: "patch_hooks K (t_pid t) page (hook_table info) (t2, w3) = (Inr phs, (t', w'))"
      and h: "h = \<lparr>ih_PID = t_pid t, ih_StateAddr = page + of_nat StateOffset, ih_patched = phs, ih_gen = 0\<rparr>"
    using run by (auto simp: injectWithTracer_def on_world_Inr_iff elim!: attempt_InrE)
  have "lay w1 = lay w"
    using gap by (auto simp: findNearbyGap_def dest: calmD(10) [OF kernel_lawsD(3) [OF laws]]
        split: prod.splits sum.splits)
  from remoteMmap_page [OF laws refl this mm] have free: "clear_page (ly_vdso (lay w) (t_pid t)) page" .
  have t2: "t2 = t" by (rule remoteMmap_pid [OF mm])
  have place: "struct_place (ly_vdso (lay w) (t_pid t)) (ih_StateAddr h)"
    using free by (auto simp: struct_place_def h)
  have v: "view w3 (t_pid t) = write_bytes (view w2 (t_pid t)) page (payload_with_state sec nsec msk)"
    using WriteMem_Inr [OF kernel_lawsD(1) [OF laws] wr] by simp
  have "apart (ih_StateAddr h) 32 (hk_addr hk) 5" if "hk \<in> set (hook_table info)" for hk
    using vdso_window_apart [of "v_Start info" "v_End info" "ih_StateAddr h" "hk_addr hk" 5] place at that
    by (simp add: located_def)
  then have "read_bytes (view w' (t_pid t)) (ih_StateAddr h) 32 = read_bytes (view w3 (t_pid t)) (ih_StateAddr h) 32"
    using patch_hooks_memory [OF kernel_lawsD(1) [OF laws] refl pt [unfolded t2]] read_fold_apart by simp
  moreover have "state_at (view w3 (t_pid t)) (ih_StateAddr h) (fresh_state sec nsec msk)"
    using payload_state by (simp add: v h)
  ultimately show ?thesis
    using place patch_hooks_memory [OF kernel_lawsD(1) [OF laws] refl pt [unfolded t2]]
    by (simp add: state_at_def StateSize_def h t2)
qed

section \<open>The entry points\<close>

lemma Seize_effect:
  assumes "keeps I (k_seize K pid)" "keeps I (k_interrupt K pid)" "keeps I (k_detach K pid)" "keeps I (k_wait4 K pid 0)"
    and "I w" and run: "Seize K pid (t, w) = (r, (t', w'))"
  shows "I w' \<and> (\<forall>u. r = Inr u \<longrightarrow> t_pid t' = pid)"
proof -
  obtain x1 w1 where c1: "k_seize K pid w = (x1, w1)" by (rule prod.exhaust)
  obtain x2 w2 where c2: "k_interrupt K pid w1 = (x2, w2)" by (rule prod.exhaust)
  obtain x3 w3 where c3: "k_wait4 K pid 0 w2 = (x3, w3)" by (rule prod.exhaust)
  note I1 = keepsD [OF assms(1) assms(5) c1]
  note I2 = keepsD [OF assms(2) I1 c2] and detach = keeps_ignore [OF assms(3)]
  note I3 = keepsD [OF assms(4) I2 c3]
  have "w' \<in> {w1, ignore_err (k_detach K pid) w2, ignore_err (k_detach K pid) w3, w3}"
    using run by (cases x1; cases x2; cases x3) (simp_all add: Seize_def c1 c2 c3)
  with I1 detach [OF I2] detach [OF I3] I3 have "I w'" by blast
  moreover have "t_pid t' = pid" if "r = Inr u" for u using Seize_pid(1) run [unfolded that] .
  ultimately show ?thesis by blast
qed

lemma Detach_effect: "keeps I (k_detach K (t_pid t)) \<Longrightarrow> I w \<Longrightarrow> I (snd (ignore_err (Detach K) (t, w)))"
  by (auto simp: ignore_err_def Detach_def attempt_def syscall_as_def dest: keepsD split: prod.splits sum.splits)

lemma injectCore_effect:
  assumes laws: "kernel_laws K view lay" and S: "S (fresh_state sec nsec msk)" and run: "injectCore K elf pid sec nsec msk w = (r, w')"
  shows "framed view lay (lay w) S (view w) w'"
    and "r = Inr h \<Longrightarrow> ih_PID h = pid \<and> struct_place (ly_vdso (lay w) pid) (ih_StateAddr h) \<and>
      state_at (view w' pid) (ih_StateAddr h) (fresh_state sec nsec msk)"
proof -
  let ?s = "fresh_state sec nsec msk" and ?l = "lay w"
  let ?I = "framed view lay ?l S (view w)"
  note calls = framed_calls [OF laws, of ?l S "view w"]
  obtain x t1 w1 where sz: "Seize K pid (NewTracer, w) = (x, (t1, w1))" by (metis prod.exhaust)
  note s1 = Seize_effect [OF calls(1-4) framed_start sz]
  have "?I w' \<and> (r = Inr h \<longrightarrow> ih_PID h = pid \<and> struct_place (ly_vdso ?l pid) (ih_StateAddr h) \<and>
      state_at (view w' pid) (ih_StateAddr h) ?s)"
  proof (cases x)
    case (Inl e)
    with run sz s1 show ?thesis by (auto simp: injectCore_def with_new_tracer_def attempt_def)
  next
    case (Inr u)
    with s1 have t1: "t_pid t1 = pid" and I1: "?I w1" by simp_all
    then have l1: "lay w1 = ?l" by (simp add: framed_def)
    obtain y w2 where loc: "Locate K elf pid w1 = (y, w2)" by (rule prod.exhaust)
    have I2: "?I w2" by (rule keepsD [OF keeps_Locate [OF laws] I1 loc])
    have core: "injectCore K elf pid sec nsec msk w =
        with_new_tracer (\<lambda>tw. deferring (ignore_err (Detach K))
          (attempt (on_world (Locate K elf pid)) (Wrap ''inject: vdso.Locate'')
             (\<lambda>info. injectWithTracer K pid info sec nsec msk)) (t1, w1)) w"
      by (simp add: injectCore_def with_new_tracer_def attempt_def [of "Seize K pid"] sz Inr)
    have found: "on_world (Locate K elf pid) (t1, w1) = (y, (t1, w2))" by (simp add: on_world_def loc)
    show ?thesis
    proof (cases y)
      case (Inl e)
      have "(r, w') = (Inl (Wrap ''inject: vdso.Locate'' e), snd (ignore_err (Detach K) (t1, w2)))"
        unfolding run [symmetric] core
        by (simp add: with_new_tracer_def deferring_def attempt_def found [unfolded Inl] split: prod.split)
      with Detach_effect [OF calls(3) I2] show ?thesis by simp
    next
      case info: (Inr info)
      have at: "located ?l pid info" using Locate_located [OF laws loc [unfolded info]] l1 by simp
      obtain z t3 w3 where inj: "injectWithTracer K pid info sec nsec msk (t1, w2) = (z, (t3, w3))" by (metis prod.exhaust)
      have "traced pid ?I (t1, w2)" using t1 I2 by (simp add: traced_def)
      from keepsD [OF keeps_injectWithTracer [where S = S, OF laws at S] this inj] have I3: "t_pid t3 = pid" "?I w3"
        by (simp_all add: traced_def)
      have "(r, w') = (z, snd (ignore_err (Detach K) (t3, w3)))"
        unfolding run [symmetric] core
        by (simp add: with_new_tracer_def deferring_def attempt_def found [unfolded info] inj split: prod.split)
      then have r: "r = z" and w': "w' = snd (ignore_err (Detach K) (t3, w3))" by simp_all
      have "?I w'" using Detach_effect [OF calls(3) I3(2)] w' by simp
      moreover have "view w' = view w3"
        unfolding w' using calmD(4) [OF kernel_lawsD(2) [OF laws]]
        by (intro Detach_effect [where I = "\<lambda>v. view v = view w3"]) (auto simp: keeps_def)
      moreover have "lay w2 = ?l" using I2 by (simp add: framed_def)
      ultimately show ?thesis
        using injected_state [OF laws, of w2 t1 info sec nsec msk h t3 w3] at inj r t1 by auto
    qed
  qed
  then show "?I w'" and "r = Inr h \<Longrightarrow> ih_PID h = pid \<and> struct_place (ly_vdso ?l pid) (ih_StateAddr h) \<and>
      state_at (view w' pid) (ih_StateAddr h) ?s" by blast+
qed

text \<open>
  The two modes of an agent's injection: the state is one that makes the hooks show the target.
  \<open>target_state\<close> leaves the generation open, so it also describes what a later write leaves.
\<close>

definition target_state :: "'w kernel \<Rightarrow> gotime \<Rightarrow> bool \<Rightarrow> tramp_state \<Rightarrow> bool" where
  "target_state K t fr s \<longleftrightarrow>
     (if fr then enabledMask s = MaskFrozen \<and> offsetSec s = time_Unix t \<and> offsetNsec s = time_Nanosecond t
      else \<exists>w. enabledMask s = MaskEnabled \<and> (offsetSec s, offsetNsec s) = diffSecNsec t (fst (k_now K w)))"

lemma inject_effect:
  assumes laws: "kernel_laws K view lay"
    and run: "(if fr then InjectFrozen K elf pid t else InjectAtTime K elf pid t) w = (r, w')"
  shows "framed view lay (lay w) (target_state K t fr) (view w) w'"
    and "r = Inr h \<Longrightarrow> ih_PID h = pid \<and> struct_place (ly_vdso (lay w) pid) (ih_StateAddr h) \<and>
       (\<exists>s. target_state K t fr s \<and> state_at (view w' pid) (ih_StateAddr h) s)"
proof -
  have "\<exists>sec nsec msk w1. target_state K t fr (fresh_state sec nsec msk) \<and>
      view w1 = view w \<and> lay w1 = lay w \<and> injectCore K elf pid sec nsec msk w1 = (r, w')"
  proof (cases fr)
    case True
    with run show ?thesis by (auto simp: target_state_def InjectFrozen_def frozen_at_def)
  next
    case False
    obtain now w1 where now: "k_now K w = (now, w1)" by (rule prod.exhaust)
    obtain sec nsec where d: "diffSecNsec t now = (sec, nsec)" by (rule prod.exhaust)
    have "view w1 = view w" "lay w1 = lay w"
      using calmD(1) [OF kernel_lawsD(2) [OF laws] now] calmD(1) [OF kernel_lawsD(3) [OF laws] now] by simp_all
    moreover have "injectCore K elf pid sec nsec MaskEnabled w1 = (r, w')"
      using run False by (simp add: InjectAtTime_def at_time_def now d)
    moreover have "target_state K t fr (fresh_state sec nsec MaskEnabled)"
      using False d unfolding target_state_def by (auto simp: now intro: exI [of _ w])
    ultimately show ?thesis by blast
  qed
  then obtain sec nsec msk w1 where c: "target_state K t fr (fresh_state sec nsec msk)"
    "view w1 = view w" "lay w1 = lay w" "injectCore K elf pid sec nsec msk w1 = (r, w')"
    by blast
  from injectCore_effect [where S = "target_state K t fr", OF laws c(1,4)] c(1)
  show "framed view lay (lay w) (target_state K t fr) (view w) w'"
    and "r = Inr h \<Longrightarrow> ih_PID h = pid \<and> struct_place (ly_vdso (lay w) pid) (ih_StateAddr h) \<and>
       (\<exists>s. target_state K t fr s \<and> state_at (view w' pid) (ih_StateAddr h) s)"
    unfolding c(2,3) by blast+
qed

end
