(* ===== verification/AgentReach.thy ===== *)
theory AgentReach
  imports Agent InjectFrame
begin

text \<open>
  What the calls that an agent serves do to the state structs of its handles, and the states it
  can reach by serving them: each struct stands at its place in a page outside the vDSO, so the
  handles of one process share a struct or have disjoint ones, and no call disturbs another's.
\<close>

section \<open>Serving calls\<close>

datatype agent_rpc =
    RpcInject string "gotime option" bool
  | RpcSetTime string "gotime option" bool
  | RpcReset string
  | RpcGetStatus string

fun agent_serve :: "'w kernel \<Rightarrow> elf_reader \<Rightarrow> agent_rpc \<Rightarrow> 'w node \<Rightarrow> 'w node" where
  "agent_serve K elf (RpcInject cid t fr) st = snd (agent_Inject K elf cid t fr st)"
| "agent_serve K elf (RpcSetTime hid t fr) st = snd (agent_SetTime K hid t fr st)"
| "agent_serve K elf (RpcReset hid) st = snd (agent_Reset K hid st)"
| "agent_serve K elf (RpcGetStatus hid) st = snd (agent_Status hid st)"

lemma agent_serve_wf:
  "wf_map (as_handles (fst st)) \<Longrightarrow> wf_map (as_handles (fst (agent_serve K elf r st)))"
  by (cases r; cases st)
    (auto simp: agent_Inject_def agent_SetTime_def agent_Reset_def agent_Status_def set_entry_def
      split: if_splits option.splits prod.splits sum.splits)

lemma agent_serves_wf:
  "wf_map (as_handles (fst st)) \<Longrightarrow> wf_map (as_handles (fst (fold (agent_serve K elf) rpcs st)))"
  by (induction rpcs arbitrary: st) (simp_all add: agent_serve_wf)

section \<open>The structs of a server\<close>

text \<open>Where the state struct of a handle is.\<close>

definition struct_of :: "agent_entry \<Rightarrow> pid \<times> addr" where
  "struct_of e = (ih_PID (ae_handle e), ih_StateAddr (ae_handle e))"

definition structs :: "agent_server \<Rightarrow> string \<Rightarrow> (pid \<times> addr) option" where
  "structs srv hid = map_option struct_of (map_of (as_handles srv) hid)"

lemma structs_known: "known srv hid \<longleftrightarrow> structs srv hid \<noteq> None"
  by (auto simp: known_def structs_def)

lemma structs_set_entry: "structs (set_entry hid e srv) = (structs srv)(hid \<mapsto> struct_of e)"
  by (auto simp: structs_def set_entry_def fun_eq_iff)

lemma structs_rewritten:
  assumes "map_of (as_handles srv) hid = Some e" and "struct_of e' = struct_of e"
  shows "structs (set_entry hid e' srv) = structs srv"
  using assms by (auto simp: structs_set_entry structs_def fun_eq_iff)

definition placed :: "('w \<Rightarrow> layout) \<Rightarrow> 'w node \<Rightarrow> bool" where
  "placed lay nd \<longleftrightarrow> (\<forall>hid p a. structs (fst nd) hid = Some (p, a) \<longrightarrow> struct_place (ly_vdso (lay (snd nd)) p) a)"

text \<open>The process of a handle has a state of \<open>S\<close>; or it can be given one, as it is still there.\<close>

definition node_shows :: "('w \<Rightarrow> pid \<Rightarrow> memory) \<Rightarrow> (tramp_state \<Rightarrow> bool) \<Rightarrow> 'w node \<Rightarrow> string \<Rightarrow> bool" where
  "node_shows view S nd hid \<longleftrightarrow>
     (\<exists>p a s. structs (fst nd) hid = Some (p, a) \<and> S s \<and> state_at (view (snd nd) p) a s)"

definition node_up :: "('w \<Rightarrow> layout) \<Rightarrow> 'w node \<Rightarrow> string \<Rightarrow> bool" where
  "node_up lay nd hid \<longleftrightarrow> (\<exists>p a. structs (fst nd) hid = Some (p, a) \<and> ly_alive (lay (snd nd)) p)"

definition node_ready :: "('w \<Rightarrow> pid \<Rightarrow> memory) \<Rightarrow> ('w \<Rightarrow> layout) \<Rightarrow> (tramp_state \<Rightarrow> bool) \<Rightarrow> 'w node \<Rightarrow> string \<Rightarrow> bool" where
  "node_ready view lay S nd hid \<longleftrightarrow> node_up lay nd hid \<or> node_shows view S nd hid"

text \<open>
  What a call for one target does to all handles: those that have the target keep it, and those
  whose process is there can still be given it, unless they have it.
\<close>

definition retimes :: "('w \<Rightarrow> pid \<Rightarrow> memory) \<Rightarrow> ('w \<Rightarrow> layout) \<Rightarrow> (tramp_state \<Rightarrow> bool) \<Rightarrow> 'w node \<Rightarrow> 'w node \<Rightarrow> bool" where
  "retimes view lay S nd nd' \<longleftrightarrow> lay (snd nd') = lay (snd nd) \<and> placed lay nd' \<and>
     (\<forall>hid. node_shows view S nd hid \<longrightarrow> node_shows view S nd' hid) \<and>
     (\<forall>hid. node_ready view lay S nd hid \<longrightarrow> node_ready view lay S nd' hid)"

lemma retimes_refl: "placed lay nd \<Longrightarrow> retimes view lay S nd nd"
  by (simp add: retimes_def)

lemma retimes_trans: "retimes view lay S nd nd1 \<Longrightarrow> retimes view lay S nd1 nd2 \<Longrightarrow> retimes view lay S nd nd2"
  by (simp add: retimes_def)

lemma retimes_still:
  assumes "view w1 = view w" and "lay w1 = lay w"
  shows "retimes view lay S (srv, w1) nd' = retimes view lay S (srv, w) nd'"
    and "node_up lay (srv, w1) hid = node_up lay (srv, w) hid"
  by (simp_all add: retimes_def node_ready_def node_shows_def node_up_def assms)

text \<open>A step that keeps the structs, and one that adds a handle with the target.\<close>

lemma shown_again:
  assumes "placed lay (srv, w)" and "framed view lay (lay w) S (view w) w'"
    and "structs srv' hid = structs srv hid" and "node_shows view S (srv, w) hid"
  shows "node_shows view S (srv', w') hid"
proof -
  obtain p a s where s: "structs srv hid = Some (p, a)" "S s" "state_at (view w p) a s"
    using assms(4) by (auto simp: node_shows_def)
  then have "struct_place (ly_vdso (lay w) p) a" using assms(1) by (simp add: placed_def)
  with assms(2) have "read_bytes (view w' p) a 32 = read_bytes (view w p) a 32 \<or> (\<exists>s. S s \<and> state_at (view w' p) a s)"
    by (simp add: framed_def)
  with s assms(3) show ?thesis by (auto simp: node_shows_def state_at_def StateSize_def)
qed

lemma framed_retimes:
  assumes "placed lay (srv, w)" and "framed view lay (lay w) S (view w) w'" and "structs srv' = structs srv"
  shows "retimes view lay S (srv, w) (srv', w')"
  using assms shown_again [OF assms(1,2), of srv']
  by (auto simp: retimes_def node_ready_def framed_def placed_def node_up_def)

lemma framed_retimes_new:
  assumes "placed lay (srv, w)" and fr: "framed view lay (lay w) S (view w) w'"
    and new: "structs srv' = (structs srv)(hid \<mapsto> (p, a))" "struct_place (ly_vdso (lay w) p) a"
    and s: "S s" "state_at (view w' p) a s"
  shows "retimes view lay S (srv, w) (srv', w') \<and> node_shows view S (srv', w') hid"
proof -
  have shown: "node_shows view S (srv', w') hid" using new(1) s by (auto simp: node_shows_def)
  moreover have "lay w' = lay w" using fr by (simp add: framed_def)
  moreover have "node_shows view S (srv', w') h" if "node_shows view S (srv, w) h" for h
    using shown shown_again [OF assms(1) fr, of srv' h] that new(1) by (cases "h = hid") auto
  ultimately show ?thesis
    using assms(1) new unfolding retimes_def placed_def node_ready_def node_up_def by (simp split: if_splits)
qed

section \<open>A write through a handle\<close>

lemma writeState_effect:
  assumes laws: "kernel_laws K view lay" and wr: "writeState K h sec nsec msk w = (r, h', w')"
    and place: "struct_place (ly_vdso (lay w) (ih_PID h)) (ih_StateAddr h)"
    and S: "S \<lparr>offsetSec = sec, offsetNsec = nsec, enabledMask = msk, generation = ih_gen h + 1\<rparr>"
  shows "framed view lay (lay w) S (view w) w'"
    and "r = None \<Longrightarrow> \<exists>s. S s \<and> state_at (view w' (ih_PID h)) (ih_StateAddr h) s"
    and "ly_alive (lay w) (ih_PID h) \<Longrightarrow> r = None"
proof -
  let ?bs = "EncodeState sec nsec msk (ih_gen h + 1)" and ?p = "ih_PID h" and ?a = "ih_StateAddr h"
  have ne: "?bs \<noteq> []" by (simp add: StateSize_def flip: length_greater_0_conv)
  obtain x where v: "k_vm_writev K ?p ?a ?bs w = (x, w')" and r: "r = None \<longleftrightarrow> (\<exists>n. x = Inr n)"
    using wr ne by (auto simp: writeState_def WriteMem_def Let_def split: prod.splits sum.splits)
  note laws1 = kernel_lawsD(1) [OF laws]
  show "ly_alive (lay w) ?p \<Longrightarrow> r = None" using kernel_lawsD(6) [OF laws, of w ?p ?a ?bs] v r by auto
  show st: "\<exists>s. S s \<and> state_at (view w' ?p) ?a s" if "r = None"
    using writeState_ok(2) [OF laws1 wr [unfolded that]] S by blast
  show "framed view lay (lay w) S (view w) w'"
  proof (rule framed_change [where w = w, OF framed_start kernel_lawsD(4) [OF laws v]])
    fix q b assume b: "struct_place (ly_vdso (lay w) q) b"
    show "read_bytes (view w' q) b 32 = read_bytes (view w q) b 32 \<or> (\<exists>s. S s \<and> state_at (view w' q) b s)"
    proof (cases x)
      case (Inl e)
      then show ?thesis using kernel_lawsD(7) [OF laws] v by simp
    next
      case (Inr n)
      consider "q = ?p" "b = ?a" | "q \<noteq> ?p \<or> apart b 32 ?a (length ?bs)"
        using struct_places_apart [OF b place] by (auto simp: StateSize_def)
      then show ?thesis
      proof cases
        case 1
        then show ?thesis using st r Inr by blast
      next
        case 2
        then show ?thesis
          using mem_laws_writev [OF laws1 v [unfolded Inr]] by (auto simp: read_bytes_write_apart)
      qed
    qed
  qed
qed

text \<open>Both writes of a target.\<close>

definition set_clock :: "'w kernel \<Rightarrow> inj_handle \<Rightarrow> gotime \<Rightarrow> bool \<Rightarrow> 'w \<Rightarrow> goerr option \<times> inj_handle \<times> 'w" where
  "set_clock K h t fr = (if fr then Freeze K h t else SetTime K h t)"

lemma set_clock_identity:
  "set_clock K h t fr w = (e, h', w') \<Longrightarrow> ih_PID h' = ih_PID h \<and> ih_StateAddr h' = ih_StateAddr h"
  by (auto simp: set_clock_def Freeze_def SetTime_def split: if_splits prod.splits dest!: writeState_identity)

text \<open>What a write leaves that begins in the world \<open>w\<close>, where it reads the clock if it has to.\<close>

definition target_at :: "'w kernel \<Rightarrow> gotime \<Rightarrow> bool \<Rightarrow> 'w \<Rightarrow> tramp_state \<Rightarrow> bool" where
  "target_at K t fr w s \<longleftrightarrow>
     (if fr then enabledMask s = MaskFrozen \<and> offsetSec s = time_Unix t \<and> offsetNsec s = time_Nanosecond t
      else enabledMask s = MaskEnabled \<and> (offsetSec s, offsetNsec s) = diffSecNsec t (fst (k_now K w)))"

lemma target_at_state: "target_at K t fr w s \<Longrightarrow> target_state K t fr s"
  by (auto simp: target_at_def target_state_def split: if_splits)

lemma set_clock_effect:
  assumes laws: "kernel_laws K view lay" and set: "set_clock K h t fr w = (r, h', w')"
    and place: "struct_place (ly_vdso (lay w) (ih_PID h)) (ih_StateAddr h)"
  shows "framed view lay (lay w) (target_at K t fr w) (view w) w'"
    and "r = None \<Longrightarrow> \<exists>s. target_at K t fr w s \<and> state_at (view w' (ih_PID h)) (ih_StateAddr h) s"
    and "ly_alive (lay w) (ih_PID h) \<Longrightarrow> r = None"
proof -
  have "\<exists>sec nsec msk w1. writeState K h sec nsec msk w1 = (r, h', w') \<and> view w1 = view w \<and> lay w1 = lay w \<and>
      (\<forall>g. target_at K t fr w \<lparr>offsetSec = sec, offsetNsec = nsec, enabledMask = msk, generation = g\<rparr>)"
  proof (cases fr)
    case True
    with set show ?thesis unfolding target_at_def by (auto simp: set_clock_def Freeze_def)
  next
    case False
    obtain now w1 where now: "k_now K w = (now, w1)" by (rule prod.exhaust)
    obtain sec nsec where d: "diffSecNsec t now = (sec, nsec)" by (rule prod.exhaust)
    from set False have "writeState K h sec nsec MaskEnabled w1 = (r, h', w')" by (simp add: set_clock_def SetTime_def now d)
    moreover have "view w1 = view w" "lay w1 = lay w"
      using calmD(1) [OF kernel_lawsD(2) [OF laws] now] calmD(1) [OF kernel_lawsD(3) [OF laws] now] by simp_all
    moreover have "target_at K t fr w \<lparr>offsetSec = sec, offsetNsec = nsec, enabledMask = MaskEnabled, generation = g\<rparr>" for g
      using False d unfolding target_at_def by (simp add: now)
    ultimately show ?thesis by blast
  qed
  then obtain sec nsec msk w1 where wr: "writeState K h sec nsec msk w1 = (r, h', w')"
    and same: "view w1 = view w" "lay w1 = lay w"
    and S: "target_at K t fr w \<lparr>offsetSec = sec, offsetNsec = nsec, enabledMask = msk, generation = ih_gen h + 1\<rparr>"
    by blast
  note effect = writeState_effect [where S = "target_at K t fr w", OF laws wr _ S, unfolded same, OF place]
  show "framed view lay (lay w) (target_at K t fr w) (view w) w'"
    and "r = None \<Longrightarrow> \<exists>s. target_at K t fr w s \<and> state_at (view w' (ih_PID h)) (ih_StateAddr h) s"
    and "ly_alive (lay w) (ih_PID h) \<Longrightarrow> r = None"
    using effect by blast+
qed

section \<open>The calls of an agent\<close>

text \<open>A reset writes a reading of the wall clock as the target; the write takes the next one.\<close>

definition real_state :: "'w kernel \<Rightarrow> tramp_state \<Rightarrow> bool" where
  "real_state K s \<longleftrightarrow> (\<exists>w n w1. k_now K w = (n, w1) \<and> target_at K n False w1 s)"

lemma framed_mono: "framed view lay l S v0 w \<Longrightarrow> (\<And>s. S s \<Longrightarrow> S' s) \<Longrightarrow> framed view lay l S' v0 w"
  unfolding framed_def by blast

lemma written_retimes:
  assumes laws: "kernel_laws K view lay" and pl: "placed lay (srv, w)"
    and e: "map_of (as_handles srv) hid = Some e" and set: "set_clock K (ae_handle e) t fr w = (r, h, w')"
    and e': "ae_handle e' = h" and S: "\<And>s. target_at K t fr w s \<Longrightarrow> S s"
  shows "retimes view lay S (srv, w) (set_entry hid e' srv, w')"
    and "r = None \<Longrightarrow> node_shows view S (set_entry hid e' srv, w') hid"
    and "node_up lay (srv, w) hid \<Longrightarrow> r = None"
proof -
  have s: "structs srv hid = Some (ih_PID (ae_handle e), ih_StateAddr (ae_handle e))"
    using e by (simp add: structs_def struct_of_def)
  have same: "structs (set_entry hid e' srv) = structs srv"
    using e set_clock_identity [OF set] e' by (intro structs_rewritten) (simp_all add: struct_of_def)
  have place: "struct_place (ly_vdso (lay w) (ih_PID (ae_handle e))) (ih_StateAddr (ae_handle e))"
    using pl s by (simp add: placed_def)
  note effect = set_clock_effect [OF laws set place]
  show "retimes view lay S (srv, w) (set_entry hid e' srv, w')"
    by (rule framed_retimes [OF pl framed_mono [OF effect(1)] same]) (rule S)
  show "r = None \<Longrightarrow> node_shows view S (set_entry hid e' srv, w') hid"
    using effect(2) S s same by (auto simp: node_shows_def)
  show "node_up lay (srv, w) hid \<Longrightarrow> r = None"
    using effect(3) s by (simp add: node_up_def)
qed

lemma node_up_entry: "node_up lay (srv, w) hid \<Longrightarrow> \<exists>e. map_of (as_handles srv) hid = Some e"
  by (auto simp: node_up_def structs_def)

lemma agent_SetTime_effect:
  assumes laws: "kernel_laws K view lay" and pl: "placed lay nd"
    and run: "agent_SetTime K hid (Some t) fr nd = (r, nd')"
  shows "retimes view lay (target_state K t fr) nd nd'"
    and "r = Inr u \<Longrightarrow> node_shows view (target_state K t fr) nd' hid"
    and "hid \<noteq> [] \<Longrightarrow> node_up lay nd hid \<Longrightarrow> r = Inr ()"
proof -
  obtain srv w where nd: "nd = (srv, w)" by (rule prod.exhaust)
  have "retimes view lay (target_state K t fr) nd nd' \<and> (r = Inr () \<longrightarrow> node_shows view (target_state K t fr) nd' hid) \<and>
      (hid \<noteq> [] \<and> node_up lay nd hid \<longrightarrow> r = Inr ())"
  proof (cases "hid = [] \<or> map_of (as_handles srv) hid = None")
    case True
    then have "nd' = nd" "hid = [] \<or> \<not> node_up lay nd hid" "r \<noteq> Inr ()"
      using run node_up_entry [of lay srv w hid]
      by (auto simp: nd agent_SetTime_def lookupHandle_def split: if_splits)
    then show ?thesis using retimes_refl [OF pl] by auto
  next
    case False
    then obtain e where e: "map_of (as_handles srv) hid = Some e" by auto
    obtain x h w' where set: "set_clock K (ae_handle e) t fr w = (x, h, w')" by (metis prod.exhaust)
    obtain e' where e': "nd' = (set_entry hid e' srv, w')" "ae_handle e' = h" "r = Inr () \<longleftrightarrow> x = None"
      using run set False e
      by (cases x) (auto simp: nd agent_SetTime_def lookupHandle_def set_clock_def split: if_splits)
    have S: "target_state K t fr s" if "target_at K t fr w s" for s
      using that by (rule target_at_state)
    note wr = written_retimes [where S = "target_state K t fr", OF laws pl [unfolded nd] e set e'(2) S]
    show ?thesis using wr e' nd by simp
  qed
  then show "retimes view lay (target_state K t fr) nd nd'"
    and "r = Inr u \<Longrightarrow> node_shows view (target_state K t fr) nd' hid" and "hid \<noteq> [] \<Longrightarrow> node_up lay nd hid \<Longrightarrow> r = Inr ()"
    by simp_all
qed

lemma agent_Reset_effect:
  assumes laws: "kernel_laws K view lay" and pl: "placed lay nd" and run: "agent_Reset K hid nd = (r, nd')"
  shows "retimes view lay (real_state K) nd nd'" and "r = Inr u \<Longrightarrow> node_shows view (real_state K) nd' hid"
    and "hid \<noteq> [] \<Longrightarrow> node_up lay nd hid \<Longrightarrow> r = Inr ()"
proof -
  obtain srv w where nd: "nd = (srv, w)" by (rule prod.exhaust)
  have "retimes view lay (real_state K) nd nd' \<and> (r = Inr () \<longrightarrow> node_shows view (real_state K) nd' hid) \<and>
      (hid \<noteq> [] \<and> node_up lay nd hid \<longrightarrow> r = Inr ())"
  proof (cases "hid = [] \<or> map_of (as_handles srv) hid = None")
    case True
    then have "nd' = nd" "hid = [] \<or> \<not> node_up lay nd hid" "r \<noteq> Inr ()"
      using run node_up_entry [of lay srv w hid]
      by (auto simp: nd agent_Reset_def lookupHandle_def split: if_splits)
    then show ?thesis using retimes_refl [OF pl] by auto
  next
    case False
    then obtain e where e: "map_of (as_handles srv) hid = Some e" by auto
    obtain t w1 where t: "k_now K w = (t, w1)" by (rule prod.exhaust)
    have same: "view w1 = view w" "lay w1 = lay w"
      using calmD(1) [OF kernel_lawsD(2) [OF laws] t] calmD(1) [OF kernel_lawsD(3) [OF laws] t] by simp_all
    obtain x h w' where set: "set_clock K (ae_handle e) t False w1 = (x, h, w')" by (metis prod.exhaust)
    obtain e' where e': "nd' = (set_entry hid e' srv, w')" "ae_handle e' = h" "r = Inr () \<longleftrightarrow> x = None"
      using run set False e t
      by (cases x) (auto simp: nd agent_Reset_def lookupHandle_def set_clock_def split: if_splits)
    have S: "real_state K s" if "target_at K t False w1 s" for s
      using that t unfolding real_state_def by blast
    have "placed lay (srv, w1)" using pl same by (simp add: nd placed_def)
    note wr = written_retimes [where S = "real_state K", OF laws this e set e'(2) S]
    from wr e' show ?thesis by (simp add: nd retimes_still [OF same])
  qed
  then show "retimes view lay (real_state K) nd nd'" and "r = Inr u \<Longrightarrow> node_shows view (real_state K) nd' hid"
    and "hid \<noteq> [] \<Longrightarrow> node_up lay nd hid \<Longrightarrow> r = Inr ()"
    by simp_all
qed

lemma keeps_matching_pids:
  assumes laws: "kernel_laws K view lay"
  shows "keeps (framed view lay l S v0) (matching_pids K pre names)"
proof (induction names)
  case (Cons name names)
  show ?case
  proof (rule keepsI)
    fix w x w' assume I: "framed view lay l S v0 w" and run: "matching_pids K pre (name # names) w = (x, w')"
    obtain c w1 where c: "k_cgroup K name w = (c, w1)" by (rule prod.exhaust)
    obtain ps w2 where m: "matching_pids K pre names w1 = (ps, w2)" by (rule prod.exhaust)
    note I1 = keepsD [OF framed_calls(12) [OF laws] I c]
    have "matching_pids K pre names w = (x, w') \<or> w' = w2"
      using run c m by (auto split: option.splits if_splits sum.splits)
    with keepsD [OF Cons.IH I] keepsD [OF Cons.IH I1 m] show "framed view lay l S v0 w'" by blast
  qed
qed (simp add: keeps_def)

lemma keeps_LookupPID:
  assumes laws: "kernel_laws K view lay"
  shows "keeps (framed view lay l S v0) (LookupPID K cid)"
proof (rule keepsI)
  fix w x w' assume I: "framed view lay l S v0 w" and run: "LookupPID K cid w = (x, w')"
  obtain y w1 where d: "k_proc_dir K w = (y, w1)" by (rule prod.exhaust)
  note I1 = keepsD [OF framed_calls(11) [OF laws] I d]
  have "w' = w \<or> w' = w1 \<or> (\<exists>pre ns ps. matching_pids K pre ns w1 = (ps, w'))"
    using run d by (auto simp: LookupPID_def Let_def split: if_splits sum.splits prod.splits list.splits)
  with I I1 keepsD [OF keeps_matching_pids [OF laws] I1] show "framed view lay l S v0 w'" by blast
qed

lemma framed_trans:
  assumes "framed view lay (lay w) S (view w) w1" and "framed view lay (lay w1) S (view w1) w2"
  shows "framed view lay (lay w) S (view w) w2"
  using assms unfolding framed_def state_at_def StateSize_def by (auto; metis)

lemma agent_Inject_effect:
  assumes laws: "kernel_laws K view lay" and pl: "placed lay nd"
    and run: "agent_Inject K elf cid (Some t) fr nd = (r, nd')"
  shows "retimes view lay (target_state K t fr) nd nd'"
    and "r = Inr hid \<Longrightarrow> node_shows view (target_state K t fr) nd' hid"
proof -
  let ?S = "target_state K t fr"
  obtain srv w where nd: "nd = (srv, w)" by (rule prod.exhaust)
  obtain x w1 where lk: "LookupPID K cid w = (x, w1)" by (rule prod.exhaust)
  note I1 = keepsD [OF keeps_LookupPID [OF laws] framed_start lk]
  have "retimes view lay ?S nd nd' \<and> (\<forall>hid. r = Inr hid \<longrightarrow> node_shows view ?S nd' hid)"
  proof (cases "cid = [] \<or> (\<exists>e. x = Inl e)")
    case True
    then have "(nd' = nd \<or> nd' = (srv, w1)) \<and> (\<forall>hid. r \<noteq> Inr hid)"
      using run by (auto simp: nd agent_Inject_def lk split: if_splits)
    then show ?thesis
      using retimes_refl [OF pl] framed_retimes [OF pl [unfolded nd] I1 refl] nd by auto
  next
    case False
    then obtain pid where x: "x = Inr pid" by (cases x) auto
    obtain y w2 where inj: "(if fr then InjectFrozen K elf pid t else InjectAtTime K elf pid t) w1 = (y, w2)"
      by (rule prod.exhaust)
    have l1: "lay w1 = lay w" using I1 by (simp add: framed_def)
    note effect = inject_effect [OF laws inj]
    note I2 = framed_trans [OF I1 effect(1)]
    show ?thesis
    proof (cases y)
      case (Inl e)
      then have "nd' = (srv, w2) \<and> (\<forall>hid. r \<noteq> Inr hid)"
        using run False x inj by (auto simp: nd agent_Inject_def lk)
      then show ?thesis using framed_retimes [OF pl [unfolded nd] I2 refl] nd by auto
    next
      case (Inr h)
      obtain hid w3 where hid: "newHandleID K w2 = (hid, w3)" by (rule prod.exhaust)
      then have same: "view w3 = view w2" "lay w3 = lay w2"
        using calmD(14) [OF kernel_lawsD(2) [OF laws]] calmD(14) [OF kernel_lawsD(3) [OF laws]]
        by (auto simp: newHandleID_def split: prod.splits)
      define e where "e = \<lparr>ae_handle = h, ae_lastTarget = t, ae_containerID = cid\<rparr>"
      have e: "nd' = (set_entry hid e srv, w3)" "ae_handle e = h" "r = Inr hid"
        using run False x inj Inr hid by (auto simp: nd agent_Inject_def lk e_def)
      have h: "ih_PID h = pid" "struct_place (ly_vdso (lay w) pid) (ih_StateAddr h)"
        and "\<exists>s. ?S s \<and> state_at (view w2 pid) (ih_StateAddr h) s"
        using effect(2) [OF Inr] by (simp_all add: l1)
      then obtain s where s: "?S s" "state_at (view w3 pid) (ih_StateAddr h) s" by (auto simp: same)
      have "structs (set_entry hid e srv) = (structs srv)(hid \<mapsto> (pid, ih_StateAddr h))"
        by (simp add: structs_set_entry struct_of_def e(2) h(1))
      from framed_retimes_new [OF pl [unfolded nd] framed_calm [OF I2 same] this h(2) s] e(1,3) nd
      show ?thesis by auto
    qed
  qed
  then show "retimes view lay ?S nd nd'" and "r = Inr hid \<Longrightarrow> node_shows view ?S nd' hid" by blast+
qed

section \<open>Reachable states\<close>

text \<open>
  The states of an agent between two calls. Time passes between calls, and the processes of the
  node run, end and start: the world moves on and the server's handles do not, as long as the
  processes that they name keep the program they run.
\<close>

inductive agent_reach :: "'w kernel \<Rightarrow> elf_reader \<Rightarrow> ('w \<Rightarrow> layout) \<Rightarrow> 'w node \<Rightarrow> bool"
  for K :: "'w kernel" and elf :: elf_reader and lay :: "'w \<Rightarrow> layout" where
  start: "agent_reach K elf lay (newServer, w)"
| serve: "agent_reach K elf lay nd \<Longrightarrow> agent_reach K elf lay (agent_serve K elf r nd)"
| idle: "agent_reach K elf lay (srv, w) \<Longrightarrow>
    \<forall>hid p a. structs srv hid = Some (p, a) \<longrightarrow> ly_vdso (lay w') p = ly_vdso (lay w) p \<Longrightarrow>
    agent_reach K elf lay (srv, w')"

lemma agent_reach_served: "agent_reach K elf lay nd \<Longrightarrow> agent_reach K elf lay (fold (agent_serve K elf) rpcs nd)"
  by (induction rpcs arbitrary: nd) (simp_all add: agent_reach.serve)

lemma agent_serve_placed:
  assumes laws: "kernel_laws K view lay" and pl: "placed lay nd"
  shows "placed lay (agent_serve K elf r nd)"
proof (cases r)
  case (RpcInject cid tgt fr)
  show ?thesis
  proof (cases tgt)
    case None
    then show ?thesis using pl by (cases nd) (simp add: RpcInject agent_Inject_def)
  next
    case (Some t)
    from agent_Inject_effect(1) [OF laws pl surjective_pairing] show ?thesis by (simp add: RpcInject Some retimes_def)
  qed
next
  case (RpcSetTime hid tgt fr)
  show ?thesis
  proof (cases tgt)
    case None
    then show ?thesis using pl by (cases nd) (simp add: RpcSetTime agent_SetTime_def)
  next
    case (Some t)
    from agent_SetTime_effect(1) [OF laws pl surjective_pairing] show ?thesis by (simp add: RpcSetTime Some retimes_def)
  qed
next
  case (RpcReset hid)
  from agent_Reset_effect(1) [OF laws pl surjective_pairing] show ?thesis by (simp add: RpcReset retimes_def)
next
  case (RpcGetStatus hid)
  then show ?thesis using pl by (cases nd) (auto simp: agent_Status_def split: sum.splits)
qed

lemma agent_reach_placed:
  assumes laws: "kernel_laws K view lay"
  shows "agent_reach K elf lay nd \<Longrightarrow> placed lay nd"
proof (induction rule: agent_reach.induct)
  case (serve nd r)
  show ?case by (rule agent_serve_placed [OF laws serve.IH])
next
  case (idle srv w w')
  then show ?case unfolding placed_def fst_conv snd_conv by metis
qed (simp add: placed_def structs_def newServer_def)

lemma agent_reach_wf: "agent_reach K elf lay nd \<Longrightarrow> wf_map (as_handles (fst nd))"
proof (induction rule: agent_reach.induct)
  case (serve nd r)
  show ?case by (rule agent_serve_wf [OF serve.IH])
qed (simp_all add: newServer_def wf_map_def)

end
