(* ===== verification/Processes.thy ===== *)
theory Processes
  imports AgentReach Handlers Watcher GoFlag
begin

text \<open>
  The two daemons: main of cmd/agent and of cmd/controller with the loops they start. What
  arrives from outside (remote calls, HTTP requests, ticks, pod events) is a list of inputs, in
  the order in which they are handled; requests that overlap are the subject of \<open>Interleave\<close>.
  What net, grpc, net/http and client-go answer at start-up is a parameter.
\<close>

text \<open>How a process ends: an exit code, or a panic that no one recovers.\<close>

datatype process_end = Exited nat | Panicked

section \<open>The agent\<close>

text \<open>
  \<open>lis\<close> opens the listening socket; \<open>failed\<close> says whether Serve ends with an error instead of
  after a signal. After a signal GracefulStop has let the calls end, then the handles are drained.
\<close>

definition agent_main :: "'w kernel \<Rightarrow> elf_reader \<Rightarrow> (string \<Rightarrow> 'w \<Rightarrow> goerr option \<times> 'w) \<Rightarrow> bool
    \<Rightarrow> ('w \<Rightarrow> bool) \<Rightarrow> string list \<Rightarrow> agent_rpc list \<Rightarrow> 'w \<Rightarrow> process_end \<times> 'w node" where
  "agent_main K elf lis failed ctx_done args rpcs w =
     (case parse_args [(''listen'', StringFlag)] args of
        Inl e \<Rightarrow> (Exited (flag_exit e), (newServer, w))
      | Inr fs \<Rightarrow>
          (case lis (flag_string_or fs ''listen'' '':9100'') w of
             (Some e, w1) \<Rightarrow> (Exited 1, (newServer, w1))
           | (None, w1) \<Rightarrow>
               let st = fold (agent_serve K elf) rpcs (newServer, w1)
               in if failed then (Exited 1, st) else (Exited 0, drain K ctx_done st)))"

text \<open>The container id in the log lines.\<close>

fun strip_scheme :: "char \<Rightarrow> string \<Rightarrow> string option" where
  "strip_scheme prev [] = None"
| "strip_scheme prev (ch # s) =
     (if ch = CHR ''/'' \<and> prev = CHR ''/'' then Some s else strip_scheme ch s)"

definition shortID :: "string \<Rightarrow> string" where
  "shortID cid =
     (let s = (case cid of
                 [] \<Rightarrow> cid
               | ch # rest \<Rightarrow> (case strip_scheme ch rest of None \<Rightarrow> cid | Some s \<Rightarrow> s))
      in if 12 < length s then take 12 s else s)"

lemma length_shortID: "length (shortID cid) \<le> 12"
  by (simp add: shortID_def Let_def)

lemma agent_main_served:
  assumes "agent_main K elf lis False ctx_done args rpcs w = (Exited 0, st)"
    and "parse_args [(''listen'', StringFlag)] args = Inr fs"
  shows "\<exists>w1. lis (flag_string_or fs ''listen'' '':9100'') w = (None, w1) \<and>
    st = drain K ctx_done (fold (agent_serve K elf) rpcs (newServer, w1))"
  using assms by (auto simp: agent_main_def Let_def split: prod.splits option.splits)

section \<open>The controller\<close>

text \<open>
  What a running controller reacts to. The informer also delivers deletions of pods, for which no
  handler is registered. \<open>SweeperRuns\<close> is the first time that the Go scheduler runs the
  sweeper's goroutine, which may be before, between or after the other inputs.
\<close>

datatype 'b input = HttpRequest "'b request" | SweeperRuns | SweepTick
  | PodAdded k8s_pod | PodUpdated k8s_pod | PodDeleted k8s_pod

fun react :: "'b json \<Rightarrow> 'a cenv \<Rightarrow> 'b \<Rightarrow> 'b input \<Rightarrow> 'b response list \<times> 'a cst \<Rightarrow> 'b response list \<times> 'a cst" where
  "react J E page (HttpRequest rq) (out, st) = (case routes J E page rq st of (resp, st') \<Rightarrow> (out @ [resp], st'))"
| "react J E page SweeperRuns (out, st) = (out, st)"
| "react J E page SweepTick (out, st) = (out, sweepExpired E st)"
| "react J E page (PodAdded pod) (out, st) = (out, handlePodEvent E pod st)"
| "react J E page (PodUpdated pod) (out, st) = (out, handlePodEvent E pod st)"
| "react J E page (PodDeleted pod) (out, st) = (out, st)"

record controller_flags =
  cf_listen :: string
  cf_agentPort :: string
  cf_kubeconfig :: string
  cf_sweepInterval :: duration

definition controller_args :: "string \<Rightarrow> string list \<Rightarrow> string + controller_flags" where
  "controller_args kubeconfig_env args =
     (case parse_args [(''listen'', StringFlag), (''agent-port'', StringFlag),
             (''kubeconfig'', StringFlag), (''sweep-interval'', DurationFlag)] args of
        Inl e \<Rightarrow> Inl e
      | Inr fs \<Rightarrow> Inr \<lparr>cf_listen = flag_string_or fs ''listen'' '':8080'',
                       cf_agentPort = flag_string_or fs ''agent-port'' ''9100'',
                       cf_kubeconfig = flag_string_or fs ''kubeconfig'' kubeconfig_env,
                       cf_sweepInterval = flag_duration_or fs ''sweep-interval'' (30 * second)\<rparr>)"

text \<open>An empty path means the configuration that Kubernetes gives to a pod.\<close>

record 'a kube_config =
  kc_file :: "string \<Rightarrow> 'a \<Rightarrow> goerr option \<times> 'a"
  kc_in_cluster :: "'a \<Rightarrow> goerr option \<times> 'a"
  kc_new_client :: "'a \<Rightarrow> goerr option \<times> 'a"

definition buildK8sClient :: "'a kube_config \<Rightarrow> string \<Rightarrow> 'a \<Rightarrow> goerr option \<times> 'a" where
  "buildK8sClient kc path w =
     (case (if path \<noteq> [] then kc_file kc path w else kc_in_cluster kc w) of
        (Some e, w1) \<Rightarrow> (Some e, w1)
      | (None, w1) \<Rightarrow> kc_new_client kc w1)"

text \<open>
  The sweeper's goroutine: \<open>startSweeper\<close> only starts it. When it first runs it makes the
  ticker, and \<open>time.NewTicker\<close> panics unless its interval is positive (\<open>None\<close>); from then on
  it waits for ticks, and before that there are none.
\<close>

datatype sweeper = Starting duration | Ticking

definition startSweeper :: "duration \<Rightarrow> sweeper" where
  "startSweeper interval = Starting interval"

fun sweeper_turn :: "sweeper \<Rightarrow> sweeper option" where
  "sweeper_turn (Starting interval) = (if 0 < interval then Some Ticking else None)"
| "sweeper_turn Ticking = Some Ticking"

text \<open>
  The process serves its inputs in turn until it is shut down, which is the end of the list
  (\<open>None\<close>). A panic of the goroutine ends it where it stands: what has been answered by then
  has been answered, and what comes later finds no process.
\<close>

fun serve :: "'b json \<Rightarrow> 'a cenv \<Rightarrow> 'b \<Rightarrow> sweeper \<Rightarrow> 'b input list \<Rightarrow> 'b response list \<times> 'a cst
    \<Rightarrow> process_end option \<times> 'b response list \<times> 'a cst" where
  "serve J E page sw [] acc = (None, acc)"
| "serve J E page sw (i # inputs) acc =
     (case i of
        SweeperRuns \<Rightarrow>
          (case sweeper_turn sw of
             None \<Rightarrow> (Some Panicked, acc)
           | Some sw' \<Rightarrow> serve J E page sw' inputs acc)
      | SweepTick \<Rightarrow>
          serve J E page sw inputs (if sw = Ticking then react J E page SweepTick acc else acc)
      | _ \<Rightarrow> serve J E page sw inputs (react J E page i acc))"

text \<open>The registry before the first input. \<open>ns\<close> is CONTROLLER_NAMESPACE, \<open>dial\<close> gives the pool its port.\<close>

definition controller_setup :: "'a cenv \<Rightarrow> string \<Rightarrow> 'a \<Rightarrow> 'a cst" where
  "controller_setup E ns w =
     restore E (setRecorder (newController (if ns = [] then None else Some ns)), w)"

text \<open>\<open>listen_err\<close> is an error of ListenAndServe other than the one after a shutdown.\<close>

definition controller_main :: "'b json \<Rightarrow> (string \<Rightarrow> 'a cenv) \<Rightarrow> 'b \<Rightarrow> 'a kube_config \<Rightarrow> bool \<Rightarrow> string \<Rightarrow> string
    \<Rightarrow> string list \<Rightarrow> 'b input list \<Rightarrow> 'a \<Rightarrow> process_end \<times> 'b response list \<times> 'a cst" where
  "controller_main J env page kc listen_err kubeconfig_env ns args inputs w =
     (case controller_args kubeconfig_env args of
        Inl e \<Rightarrow> (Exited (flag_exit e), [], (newController None, w))
      | Inr cf \<Rightarrow>
          (case buildK8sClient kc (cf_kubeconfig cf) w of
             (Some e, w1) \<Rightarrow> (Exited 1, [], (newController None, w1))
           | (None, w1) \<Rightarrow>
               let E = env (cf_agentPort cf);
                   st = controller_setup E ns w1
               in (case serve J E page (startSweeper (cf_sweepInterval cf)) inputs ([], st) of
                     (Some e, out) \<Rightarrow> (e, out)
                   | (None, out) \<Rightarrow> (Exited (if listen_err then 1 else 0), out))))"

text \<open>Until the goroutine runs, ticks do not exist; once it ticks, every input is reacted to.\<close>

lemma serve_ticking: "serve J E page Ticking inputs acc = (None, fold (react J E page) inputs acc)"
  by (induction inputs arbitrary: acc) (auto split: input.splits)

lemma serve_starting:
  assumes "SweeperRuns \<notin> set pre"
  shows "serve J E page (Starting d) (pre @ post) acc =
    serve J E page (Starting d) post (fold (react J E page) (filter (\<lambda>i. i \<noteq> SweepTick) pre) acc)"
  using assms by (induction pre arbitrary: acc) (auto split: input.splits)

end
