(* ===== verification/ApiSteps.thy ===== *)
theory ApiSteps
  imports Processes ControllerSteps
begin

text \<open>
  The REST API in front of the state machine: which operation of the controller a request asks
  for, and that the routes carry out that operation and nothing else.
\<close>

section \<open>The operation of a request\<close>

definition create_op :: "'b json \<Rightarrow> 'b option \<Rightarrow> ctl_op" where
  "create_op J body =
     (case decode_body (js_create_of J) body of
        Inl e \<Rightarrow> OpWorld
      | Inr req \<Rightarrow>
          (case time_Parse (cr_Time req) of Inl e \<Rightarrow> OpWorld | Inr t \<Rightarrow> OpCreate t (cr_Freeze req)))"

definition update_op :: "'b json \<Rightarrow> string \<Rightarrow> 'b option \<Rightarrow> ctl_op" where
  "update_op J tid body =
     (case decode_body (js_update_of J) body of
        Inl e \<Rightarrow> OpWorld
      | Inr req \<Rightarrow>
          if (ur_Time req = []) = (ur_Duration req = []) then OpWorld
          else if ur_Duration req \<noteq> [] then
            (case ParseDuration (ur_Duration req) of Inl e \<Rightarrow> OpWorld | Inr d \<Rightarrow> OpAdvance tid d (ur_Freeze req))
          else (case time_Parse (ur_Time req) of Inl e \<Rightarrow> OpWorld | Inr t \<Rightarrow> OpUpdate tid t (ur_Freeze req)))"

definition api_op :: "'b json \<Rightarrow> 'b request \<Rightarrow> ctl_op" where
  "api_op J rq =
     (case rq_Path rq of
        [p] \<Rightarrow> if p = ''timeshifts'' \<and> rq_Method rq = ''POST'' then create_op J (rq_Body rq) else OpWorld
      | [p, tid] \<Rightarrow>
          if p \<noteq> ''timeshifts'' \<or> tid = [] then OpWorld
          else if rq_Method rq = ''PATCH'' then update_op J tid (rq_Body rq)
          else if rq_Method rq = ''DELETE'' then OpDelete tid else OpWorld
      | _ \<Rightarrow> OpWorld)"

section \<open>Handlers\<close>

text \<open>The same timeshifts are registered in both states.\<close>

definition same_timeshifts :: "'a cst \<Rightarrow> 'a cst \<Rightarrow> bool" where
  "same_timeshifts st st' \<longleftrightarrow> co_timeshifts (fst st') = co_timeshifts (fst st)"

lemma same_timeshifts_refl [simp]: "same_timeshifts st st"
  by (simp add: same_timeshifts_def)

lemma same_timeshifts_trans [trans]:
  "same_timeshifts st st1 \<Longrightarrow> same_timeshifts st1 st2 \<Longrightarrow> same_timeshifts st st2"
  by (simp add: same_timeshifts_def)

text \<open>What a handler does after its operation: it changes no timeshift and calls out further.\<close>

definition settles :: "'a cenv \<Rightarrow> 'a cst \<Rightarrow> 'a cst \<Rightarrow> bool" where
  "settles E st st' \<longleftrightarrow> same_timeshifts st st' \<and> env_path E (snd st) (snd st')"

lemma settles_refl [simp]: "settles E st st"
  by (simp add: settles_def)

lemma settles_trans: "settles E st st1 \<Longrightarrow> settles E st1 st2 \<Longrightarrow> settles E st st2"
  by (auto simp: settles_def intro: same_timeshifts_trans env_path_trans)

lemma settles_same: "settles E st st' \<Longrightarrow> same_timeshifts st st'"
  by (simp add: settles_def)

text \<open>
  A request carries out an operation: it succeeds and answers with a status below 400, or it is
  refused and no timeshift changes.
\<close>

inductive does :: "'a cenv \<Rightarrow> ctl_op \<Rightarrow> 'a cst \<Rightarrow> nat \<Rightarrow> 'a cst \<Rightarrow> bool" for E :: "'a cenv" where
  nothing: "same_timeshifts st st' \<Longrightarrow> does E OpWorld st code st'"
| refused: "same_timeshifts st st' \<Longrightarrow> does E (OpCreate t fr) st code st'"
| created: "createTimeshift E ns sel t ttl fr st = (Inr s, st1) \<Longrightarrow> settles E st1 st' \<Longrightarrow> code < 400 \<Longrightarrow>
    does E (OpCreate t fr) st code st'"
| not_updated: "updateTimeshift E tid t fr st = (Inl e, st1) \<Longrightarrow> settles E st1 st' \<Longrightarrow>
    does E (OpUpdate tid t fr) st code st'"
| updated: "updateTimeshift E tid t fr st = (Inr s, st1) \<Longrightarrow> settles E st1 st' \<Longrightarrow> code < 400 \<Longrightarrow>
    does E (OpUpdate tid t fr) st code st'"
| not_advanced: "advanceTimeshift E tid d fr st = (Inl e, st1) \<Longrightarrow> settles E st1 st' \<Longrightarrow>
    does E (OpAdvance tid d fr) st code st'"
| advanced: "advanceTimeshift E tid d fr st = (Inr s, st1) \<Longrightarrow> settles E st1 st' \<Longrightarrow> code < 400 \<Longrightarrow>
    does E (OpAdvance tid d fr) st code st'"
| not_deleted: "deleteTimeshift E tid st = (Some e, st1) \<Longrightarrow> settles E st1 st' \<Longrightarrow>
    does E (OpDelete tid) st code st'"
| deleted: "deleteTimeshift E tid st = (None, st1) \<Longrightarrow> settles E st1 st' \<Longrightarrow> code < 400 \<Longrightarrow>
    does E (OpDelete tid) st code st'"

lemma refused_create_same: "createTimeshift E ns sel t ttl fr st = (Inl e, st') \<Longrightarrow> same_timeshifts st st'"
  by (cases st; cases st') (auto elim!: createTimeshift_cases simp: same_registry_def same_timeshifts_def)

lemma refused_update_same: "updateTimeshift E tid t fr st = (Inl e, st') \<Longrightarrow> same_timeshifts st st'"
  by (cases st) (auto simp: updateTimeshift_def Let_def split: sum.splits prod.splits)

lemma refused_advance_same: "advanceTimeshift E tid d fr st = (Inl e, st') \<Longrightarrow> same_timeshifts st st'"
  by (cases st) (auto simp: advanceTimeshift_def same_timeshifts_def split: sum.splits prod.splits if_splits
      dest!: refused_update_same)

lemma refused_delete_same: "deleteTimeshift E tid st = (Some e, st') \<Longrightarrow> same_timeshifts st st'"
  by (cases st) (auto simp: deleteTimeshift_def same_timeshifts_def Let_def delete_absent
      split: option.splits prod.splits)

lemmas refused_same = refused_create_same refused_update_same refused_advance_same refused_delete_same

lemma does_error: "does E opn st code st' \<Longrightarrow> 400 \<le> code \<Longrightarrow> same_timeshifts st st'"
  by (induction rule: does.induct) (auto dest!: refused_same settles_same intro: same_timeshifts_trans)

lemma respond_eq: "respond J E code s st = (resp, st') \<Longrightarrow> re_Code resp = code \<and> settles E st st'"
  using respond_code [of J E code s st]
  by (cases st; cases st') (auto simp: settles_def same_timeshifts_def respond_def split: prod.splits
      dest: toResponse_path)

lemma create_does:
  assumes "handleCreateTimeshift J E body st = (resp, st')"
  shows "does E (create_op J body) st (re_Code resp) st'"
proof (cases "decode_body (js_create_of J) body")
  case (Inl e)
  with assms show ?thesis by (auto simp: handleCreateTimeshift_def create_op_def intro: does.nothing)
next
  case (Inr req)
  show ?thesis
  proof (cases "time_Parse (cr_Time req)")
    case (Inl e)
    with assms Inr show ?thesis
      by (auto simp: handleCreateTimeshift_def create_op_def intro!: does.nothing split: if_splits)
  next
    fix t assume t: "time_Parse (cr_Time req) = Inr t"
    with Inr have opn: "create_op J body = OpCreate t (cr_Freeze req)" by (simp add: create_op_def)
    show ?thesis
    proof (cases "st' = st")
      case True
      then show ?thesis unfolding opn by (intro does.refused) simp
    next
      case False
      with assms Inr t obtain ttl r st1 where
        run: "createTimeshift E (cr_Namespace req) (cr_LabelSelector req) t ttl (cr_Freeze req) st = (r, st1)"
        and r: "case r of Inl e \<Rightarrow> st' = st1 | Inr s \<Rightarrow> respond J E 201 s st1 = (resp, st')"
        by (auto simp: handleCreateTimeshift_def split: if_splits sum.splits prod.splits)
      show ?thesis
      proof (cases r)
        case (Inl e)
        with run r show ?thesis unfolding opn by (auto intro!: does.refused dest!: refused_same)
      next
        case (Inr s)
        with run r show ?thesis unfolding opn by (auto intro: does.created dest!: respond_eq)
      qed
    qed
  qed
qed

text \<open>The answer to an update or an advance.\<close>

lemma answer_does:
  assumes "(case r of (Inl e, st1) \<Rightarrow> (failed_with J e, st1) | (Inr s, st1) \<Rightarrow> respond J E 200 s st1) = (resp, st')"
  shows "r = updateTimeshift E tid t fr st \<Longrightarrow> does E (OpUpdate tid t fr) st (re_Code resp) st'"
    and "r = advanceTimeshift E tid d fr st \<Longrightarrow> does E (OpAdvance tid d fr) st (re_Code resp) st'"
proof -
  obtain x st1 where r: "r = (x, st1)" by (rule prod.exhaust)
  have "(\<exists>e. x = Inl e) \<and> settles E st1 st' \<or> (\<exists>s. x = Inr s) \<and> re_Code resp = 200 \<and> settles E st1 st'"
    using assms by (cases x) (auto simp: r dest!: respond_eq)
  then show "r = updateTimeshift E tid t fr st \<Longrightarrow> does E (OpUpdate tid t fr) st (re_Code resp) st'"
    and "r = advanceTimeshift E tid d fr st \<Longrightarrow> does E (OpAdvance tid d fr) st (re_Code resp) st'"
    using r by (auto intro: does.not_updated does.updated does.not_advanced does.advanced dest: sym)
qed

lemma update_does:
  assumes "handleUpdateTimeshift J E tid body st = (resp, st')"
  shows "does E (update_op J tid body) st (re_Code resp) st'"
proof (cases "decode_body (js_update_of J) body")
  case (Inl e)
  with assms show ?thesis by (auto simp: handleUpdateTimeshift_def update_op_def intro: does.nothing)
next
  case (Inr req)
  note run = assms [unfolded handleUpdateTimeshift_def Inr, simplified]
  consider (neither) "(ur_Time req = []) = (ur_Duration req = [])"
    | (advance) "ur_Time req = []" "ur_Duration req \<noteq> []" | (update) "ur_Time req \<noteq> []" "ur_Duration req = []"
    by blast
  then show ?thesis
  proof cases
    case neither
    with run Inr show ?thesis by (auto simp: update_op_def intro!: does.nothing split: if_splits)
  next
    case advance
    with run Inr show ?thesis
      by (cases "ParseDuration (ur_Duration req)")
        (auto simp: update_op_def Let_def prod.case_distrib intro: does.nothing answer_does(2) [OF _ refl])
  next
    case update
    with run Inr show ?thesis
      by (cases "time_Parse (ur_Time req)")
        (auto simp: update_op_def Let_def intro: does.nothing answer_does(1) [OF _ refl])
  qed
qed

lemma delete_does:
  assumes "handleDeleteTimeshift J E tid st = (resp, st')"
  shows "does E (OpDelete tid) st (re_Code resp) st'"
  using assms unfolding handleDeleteTimeshift_def
  by (auto split: option.splits prod.splits intro: does.not_deleted does.deleted)

section \<open>Routes\<close>

lemma listTimeshifts_same: "listTimeshifts E st = (rs, st') \<Longrightarrow> same_timeshifts st st'"
  by (cases st) (auto simp: listTimeshifts_def same_timeshifts_def split: prod.splits)

lemma get_same: "handleGetTimeshift J E tid st = (resp, st') \<Longrightarrow> same_timeshifts st st'"
  by (auto simp: handleGetTimeshift_def split: sum.splits dest!: respond_eq settles_same)

lemma list_same: "handleListTimeshifts J E st = (resp, st') \<Longrightarrow> same_timeshifts st st'"
  by (auto simp: handleListTimeshifts_def split: prod.splits dest!: listTimeshifts_same)

lemma status_same: "handleTimeshiftStatus J E tid st = (resp, st') \<Longrightarrow> same_timeshifts st st'"
  by (cases st) (auto simp: handleTimeshiftStatus_def same_timeshifts_def split: sum.splits prod.splits)

lemma resolve_same: "handleResolve J E q st = (resp, st') \<Longrightarrow> same_timeshifts st st'"
  by (cases st) (auto simp: handleResolve_def same_timeshifts_def Let_def split: sum.splits prod.splits if_splits)

lemmas query_same = get_same list_same status_same resolve_same

lemma does_later: "does E opn st code st1 \<Longrightarrow> settles E st1 st2 \<Longrightarrow> does E opn st code st2"
  by (induction rule: does.induct) (blast intro: does.intros same_timeshifts_trans settles_same settles_trans)+

text \<open>The request counter does not belong to the registry.\<close>

lemma track_does:
  assumes "track meth path h st = (resp, st')"
    and "\<And>resp st1. h st = (resp, st1) \<Longrightarrow> does E opn st (re_Code resp) st1"
  shows "does E opn st (re_Code resp) st'"
proof -
  obtain r c w where h: "h st = (r, (c, w))" by (metis prod.exhaust)
  from track_eq [of h st r c w meth path, OF h] assms(1) have "r = resp" "settles E (c, w) st'"
    by (auto simp: settles_def same_timeshifts_def)
  with assms(2) [OF h] show ?thesis by (blast intro: does_later)
qed

lemma track_query:
  assumes "track meth path h st = (resp, st')" and "\<And>resp st1. h st = (resp, st1) \<Longrightarrow> same_timeshifts st st1"
  shows "does E OpWorld st code st'"
  using track_does [OF assms(1), of E OpWorld] assms(2) by (auto intro: does.nothing elim: does.cases)

lemma routes_does:
  assumes "routes J E page rq st = (resp, st')"
  shows "does E (api_op J rq) st (re_Code resp) st'"
proof -
  have *: "does E OpWorld st (re_Code resp) st" by (simp add: does.nothing)
  show ?thesis
    using assms * unfolding routes_def api_op_def Let_def by (auto split: list.splits if_splits intro: track_query track_does create_does update_does delete_does query_same)
qed

section \<open>On the abstract clocks\<close>

text \<open>A create that would succeed now draws an id that is not registered: it is 16 random bytes.\<close>

definition draws_fresh_id :: "'a cenv \<Rightarrow> 'a cst \<Rightarrow> bool" where
  "draws_fresh_id E st \<longleftrightarrow> (\<forall>ns sel t ttl fr s st1.
     createTimeshift E ns sel t ttl fr st = (Inr s, st1) \<longrightarrow> ts_id s \<notin> set (keys (co_timeshifts (fst st))))"

lemma draws_fresh_idD: "draws_fresh_id E st \<Longrightarrow> createTimeshift E ns sel t ttl fr st = (Inr s, st1) \<Longrightarrow>
    ts_id s \<notin> set (keys (co_timeshifts (fst st)))"
  unfolding draws_fresh_id_def by blast

lemma same_timeshifts_clocks: "same_timeshifts st st' \<Longrightarrow> clocks (fst st') = clocks (fst st)"
  by (simp add: same_timeshifts_def clocks_def)

lemma does_step:
  assumes "does E opn st code st'"
  obtains "same_timeshifts st st'" and "opn = OpWorld \<or> (\<exists>t fr. opn = OpCreate t fr)"
  | st1 where "draws_fresh_id E st \<Longrightarrow> ctl_step E opn st st1" and "settles E st1 st'"
proof -
  obtain c w where st: "st = (c, w)" by (rule prod.exhaust)
  have new: "ctl_step E (OpCreate t fr) (c, w) st1"
    if "draws_fresh_id E (c, w)" and run: "createTimeshift E ns sel t ttl fr (c, w) = (Inr s, st1)"
    for ns sel t ttl fr s st1
    using draws_fresh_idD [OF that] by (intro ctl_step.create [OF run]) simp
  from assms that show thesis unfolding st
    by cases (blast intro: new ctl_step.intros)+
qed

lemma does_clocks:
  assumes "does E opn st code st'" and "registry_ok (fst st)" and "draws_fresh_id E st"
  shows "clock_step (read_between E (snd st) (snd st')) opn (clocks (fst st)) (clocks (fst st'))"
  using assms(1)
proof (cases rule: does_step)
  case 1
  then show ?thesis using same_timeshifts_clocks [OF 1(1)] by (auto intro: clock_step.world clock_step.refused)
next
  case (2 st1)
  have same: "clocks (fst st') = clocks (fst st1)" and path: "env_path E (snd st1) (snd st')"
    using 2(2) same_timeshifts_clocks [OF settles_same [OF 2(2)]] by (simp_all add: settles_def)
  from clock_step_mono [OF ctl_step_clocks [OF 2(1) [OF assms(3)] assms(2)] read_between_later [OF _ path]]
  show ?thesis unfolding same .
qed

end
