(* ===== verification/ApiClaims.thy ===== *)
theory ApiClaims
  imports ApiSteps SdkClaims
begin

text \<open>
  Properties of the controller seen from outside: what a request may do to the clocks, what an
  error status means, and the start of the process.
\<close>

section \<open>Requests\<close>

text \<open>
  C20. Every HTTP request is one step of the abstract map of clocks, and of the operation that
  its method, path and body ask for: GET requests and unknown routes change no clock, a POST sets
  one clock at a new id or is refused, a PATCH sets the clock of the id in its path only, and a
  DELETE removes exactly the id in its path. A clock is set to the time of the body, or moved by
  its duration: a frozen one stands there, a running one has the offset from a reading of the wall
  clock that was taken between the world at the start of the request and the one at its end. When
  every call takes time forward, that reading lies between the times of the start and the end.
\<close>

theorem request_refines_clocks:
  assumes "registry_ok c" and "draws_fresh_id E (c, w)" and "routes J E page rq (c, w) = (resp, (c', w'))"
  shows "clock_step (read_between E w w') (api_op J rq) (clocks c) (clocks c') \<and>
    (\<forall>time. clock_advances E time \<longrightarrow>
      clock_step (\<lambda>now. time w \<le> now \<and> now \<le> time w') (api_op J rq) (clocks c) (clocks c'))"
  using does_clocks [OF routes_does [OF assms(3)]] assms(1,2)
  by (auto intro: clock_step_mono dest: read_between_time)

abbreviation demo_delete :: "string \<Rightarrow> demo_text request" where
  "demo_delete tid \<equiv> \<lparr>rq_Method = ''DELETE'', rq_Path = [''timeshifts'', tid], rq_Query = [], rq_Body = None\<rparr>"

lemma demo_registry_ok: "registry_ok (demo_ctl fr)"
  by (simp add: registry_ok_def demo_ctl_def well_keyed_def wf_map_def demo_ts_def new_timeshift_def)

lemma demo_fresh: "draws_fresh_id demo_api (demo_ctl fr, w)"
  unfolding draws_fresh_id_def
proof (intro allI impI)
  fix ns sel t ttl fr' s st1
  assume run: "createTimeshift demo_api ns sel t ttl fr' (demo_ctl fr, w) = (Inr s, st1)"
  obtain c1 w1 where "st1 = (c1, w1)" by (rule prod.exhaust)
  from run [unfolded this] have "length (ts_id s) = 32"
  proof (cases rule: createTimeshift_cases)
    case (created pods w1 hs c1 w2 now w3 tid w4 s')
    then show ?thesis
      by (auto simp: newID_def demo_api_def new_timeshift_def length_hex_encode)
  qed simp
  then have "ts_id s \<noteq> ''0101010101010101''" by auto
  then show "ts_id s \<notin> set (keys (co_timeshifts (fst (demo_ctl fr, w))))" by (simp add: demo_ctl_def)
qed

text \<open>The clock of the demo cluster stands still.\<close>

lemma demo_api_still: "env_call demo_api w w' \<Longrightarrow> dk_now w' = dk_now w"
proof (induction rule: env_call.induct)
  case (get_config ns m w r4 w')
  then show ?case by (cases "dk_cms w ns m") (simp_all add: demo_api_def)
next
  case (create_config ns m d w e w')
  then have "w' = set_cm ns m d w" by (simp add: demo_api_def)
  then show ?case by (simp add: set_cm_def)
next
  case (update_config ns m d w e w')
  then have "w' = set_cm ns m d w" by (simp add: demo_api_def)
  then show ?case by (simp add: set_cm_def)
qed (simp_all add: demo_api_def yes_agents_def)

lemma demo_api_reading:
  assumes "read_between demo_api w w' now"
  shows "now = dk_now w"
proof -
  have path: "dk_now v = dk_now w" if "env_path demo_api w v" for v
    using that unfolding env_path_def by (induction rule: rtranclp_induct) (auto dest: demo_api_still)
  obtain v v' where "env_path demo_api w v" and "ce_now demo_api v = (now, v')"
    using assms unfolding read_between_def by blast
  then show ?thesis using path [of v] by (simp add: demo_api_def)
qed

text \<open>A clock frozen at 7 seconds, moved by one second, runs on from 8 seconds.\<close>

abbreviation demo_advance :: "string \<Rightarrow> demo_text request" where
  "demo_advance tid \<equiv> \<lparr>rq_Method = ''PATCH'', rq_Path = [''timeshifts'', tid], rq_Query = [],
     rq_Body = Some (UpdateText \<lparr>ur_Time = [], ur_Duration = dur_String second, ur_Freeze = False\<rparr>)\<rparr>"

theorem request_refines_clocks_witness:
  "\<exists>resp c' w'. routes demo_json demo_api PageText (demo_advance ''0101010101010101'') (demo_ctl True, demo_kube0) =
     (resp, (c', w')) \<and> clocks (demo_ctl True) ''0101010101010101'' = Some (Frozen (7 * second)) \<and>
     clocks c' ''0101010101010101'' = Some (Running (time_Sub (8 * second) (1000000000 * second)))"
proof -
  let ?id = "''0101010101010101''"
  obtain resp c' w' where run: "routes demo_json demo_api PageText (demo_advance ?id)
      (demo_ctl True, demo_kube0) = (resp, (c', w'))" by (metis prod.exhaust)
  have d: "ParseDuration (dur_String second) = Inr second"
    by (rule ParseDuration_String) (simp add: in_int64_def min_duration_def max_duration_def second_def)
  moreover have "dur_String second \<noteq> []" by (simp add: dur_String_def Let_def)
  ultimately have "api_op demo_json (demo_advance ?id) = OpAdvance ?id second False"
    by (simp add: api_op_def update_op_def demo_json_def decode_body_def)
  with request_refines_clocks [OF demo_registry_ok demo_fresh run]
  have "clock_step (read_between demo_api demo_kube0 w') (OpAdvance ?id second False) (clocks (demo_ctl True)) (clocks c')"
    by simp
  moreover have before: "clocks (demo_ctl True) ?id = Some (Frozen (7 * second))"
    by (simp add: clocks_def demo_ctl_def demo_ts_def new_timeshift_def clock_of_def)
  ultimately have "clocks c' ?id = Some (Running (time_Sub (8 * second) (1000000000 * second)))"
    by (auto simp: clock_step_advance clock_at_def moved_to_def demo_kube0_def dest!: demo_api_reading)
  with run before show ?thesis by blast
qed

text \<open>
  C21. A request that is answered with an error status has changed nothing in the registry: the
  same timeshifts are registered, with the same clocks, handles and expiry.
\<close>

theorem refused_request_changes_nothing:
  assumes "routes J E page rq (c, w) = (resp, (c', w'))" and "400 \<le> re_Code resp"
  shows "co_timeshifts c' = co_timeshifts c"
  using does_error [OF routes_does [OF assms(1)] assms(2)] by (simp add: same_timeshifts_def)

theorem refused_request_changes_nothing_witness:
  "\<exists>resp c' w'. routes demo_json demo_api PageText (demo_delete ''7'') (demo_ctl True, demo_kube0) =
     (resp, (c', w')) \<and> re_Code resp = 404 \<and> co_timeshifts c' = co_timeshifts (demo_ctl True)"
proof -
  obtain resp c' w' where run: "routes demo_json demo_api PageText (demo_delete ''7'') (demo_ctl True, demo_kube0) =
      (resp, (c', w'))" by (metis prod.exhaust)
  then have code: "re_Code resp = 404"
    by (auto simp: routes_def track_def handleDeleteTimeshift_def deleteTimeshift_def demo_ctl_def Let_def
        failed_with_code isNotFound_def)
  from refused_request_changes_nothing [OF run] code run show ?thesis by auto
qed

section \<open>The start of the process\<close>

lemma interval_flag:
  assumes "in_int64 d"
  shows "controller_args kubeconfig [''--sweep-interval='' @ dur_String d] =
    Inr \<lparr>cf_listen = '':8080'', cf_agentPort = ''9100'', cf_kubeconfig = kubeconfig, cf_sweepInterval = d\<rparr>"
  using ParseDuration_String [OF assms]
  by (simp add: controller_args_def parse_args_def flag_text_def split_flag_def set_flag_def Let_def
      flag_string_or_def flag_duration_or_def)

text \<open>
  C23. The sweep interval reaches time.NewTicker unchecked. Whatever requests, pod events and
  ticks come before and after the moment at which the sweeper's goroutine first runs: with an
  interval that is not positive the process panics at that moment, having answered exactly the
  requests that came before it, and nothing after it is served; with a positive one it serves
  everything, and no sweep happens before that moment. A process that is shut down earlier ends
  normally, whatever its interval.
\<close>

theorem sweep_interval_unchecked:
  assumes "buildK8sClient kc kubeconfig w = (None, w1)" and "in_int64 d" and "SweeperRuns \<notin> set pre"
  shows "let run = (\<lambda>inputs. controller_main J env page kc False kubeconfig ns
           [''--sweep-interval='' @ dur_String d] inputs w);
         E = env ''9100'';
         before = fold (react J E page) (filter (\<lambda>i. i \<noteq> SweepTick) pre) ([], controller_setup E ns w1)
     in run (pre @ SweeperRuns # post) =
          (if d \<le> 0 then (Panicked, before) else (Exited 0, fold (react J E page) post before)) \<and>
        run pre = (Exited 0, before)"
  using assms(1) serve_starting [OF assms(3), of J "env ''9100''" page d "[]"]
  unfolding controller_main_def interval_flag [OF assms(2)]
  by (simp add: startSweeper_def serve_starting [OF assms(3)] serve_ticking Let_def)

definition demo_kube_config :: "demo_kube kube_config" where
  "demo_kube_config = \<lparr>kc_file = (\<lambda>p k. (None, k)), kc_in_cluster = (\<lambda>k. (None, k)), kc_new_client = (\<lambda>k. (None, k))\<rparr>"

theorem sweep_interval_unchecked_witness:
  "fst (controller_main demo_json (\<lambda>port. demo_api) PageText demo_kube_config False [] []
      [''--sweep-interval='' @ dur_String 0]
      [HttpRequest (demo_delete ''7''), SweeperRuns, HttpRequest (demo_delete ''8'')] demo_kube0) = Panicked \<and>
   length (fst (snd (controller_main demo_json (\<lambda>port. demo_api) PageText demo_kube_config False [] []
      [''--sweep-interval='' @ dur_String 0]
      [HttpRequest (demo_delete ''7''), SweeperRuns, HttpRequest (demo_delete ''8'')] demo_kube0))) = 1"
proof -
  have kc: "buildK8sClient demo_kube_config [] demo_kube0 = (None, demo_kube0)"
    by (simp add: buildK8sClient_def demo_kube_config_def)
  have "in_int64 0" by (simp add: in_int64_def min_duration_def max_duration_def)
  from sweep_interval_unchecked [OF kc this, of "[HttpRequest (demo_delete ''7'')]" demo_json
      "\<lambda>port. demo_api" PageText "[]" "[HttpRequest (demo_delete ''8'')]"]
  show ?thesis unfolding Let_def by (simp split: prod.split)
qed

end
