(* ===== verification/EndToEnd.thy ===== *)
theory EndToEnd
  imports AgentReach ControllerSteps
begin

text \<open>
  The clock that a process with a trampoline shows, which states of its struct make it show a
  target or the kernel's own clock, and the drain of an agent that shuts down.
\<close>

section \<open>The clock of a hooked process\<close>

text \<open>
  \<open>hooked_clock m st k\<close>: in a process with memory \<open>m\<close> whose hooks use the state struct at
  \<open>st\<close>, every call of the hooked \<open>clock_gettime\<close> for a wall clock stores the time of \<open>k\<close>: a
  fixed instant, or the kernel's reading plus an offset.
\<close>

definition hooked_clock :: "memory \<Rightarrow> addr \<Rightarrow> clock \<Rightarrow> bool" where
  "hooked_clock m st k \<longleftrightarrow>
     (\<forall>c sc rd rs rn. mem c = m \<and> hook_frame st (regs c RSI) (regs c RSP) \<and> regs c RSI \<noteq> 0 \<and>
        ucast (regs c RDI) \<in> {0, 5 :: 32 word} \<and> kernel_clock sc rd \<and>
        rd (ucast (regs c RDI)) = (rs, rn) \<and> 0 \<le> rn \<and> rn < second \<longrightarrow>
        (\<exists>c'. run hook sc st 4 Cgt_entry c = Some c' \<and> regs c' RAX = 0 \<and>
           (let u = (case k of Frozen u \<Rightarrow> u | Running off \<Rightarrow> rs * second + rn + off)
            in stores_pair (regs c RSI) (time_Unix u, time_Nanosecond u) c')))"

text \<open>The state struct that makes it so.\<close>

definition state_clock :: "memory \<Rightarrow> addr \<Rightarrow> clock \<Rightarrow> bool" where
  "state_clock m st k \<longleftrightarrow> (\<exists>s. state_at m st s \<and>
     (case k of
        Frozen u \<Rightarrow> enabledMask s = MaskFrozen \<and> offsetSec s = time_Unix u \<and> offsetNsec s = time_Nanosecond u
      | Running off \<Rightarrow> enabledMask s = MaskEnabled \<and> offsetSec s * second + offsetNsec s = off \<and>
          - second < offsetNsec s \<and> offsetNsec s < second))"

lemma state_clock_hooked:
  assumes "state_clock m st k"
  shows "hooked_clock m st k"
  unfolding hooked_clock_def
proof (intro allI impI, elim conjE)
  fix c :: cpu and sc rd rs rn
  assume c: "mem c = m" "hook_frame st (regs c RSI) (regs c RSP)" "regs c RSI \<noteq> 0"
      "ucast (regs c RDI) \<in> {0, 5 :: 32 word}" "kernel_clock sc rd" "rd (ucast (regs c RDI)) = (rs, rn)"
      "0 \<le> rn" "rn < second"
  from assms obtain s where s: "state_at (mem c) st s"
    and k: "case k of
        Frozen u \<Rightarrow> enabledMask s = MaskFrozen \<and> offsetSec s = time_Unix u \<and> offsetNsec s = time_Nanosecond u
      | Running off \<Rightarrow> enabledMask s = MaskEnabled \<and> offsetSec s * second + offsetNsec s = off \<and>
          - second < offsetNsec s \<and> offsetNsec s < second"
    using c(1) by (auto simp: state_clock_def)
  show "\<exists>c'. run hook sc st 4 Cgt_entry c = Some c' \<and> regs c' RAX = 0 \<and>
      (let u = (case k of Frozen u \<Rightarrow> u | Running off \<Rightarrow> rs * second + rn + off)
       in stores_pair (regs c RSI) (time_Unix u, time_Nanosecond u) c')"
  proof (cases k)
    case (Frozen u)
    with k cgt_frozen_run [OF c(2,3) s _ c(4), of sc] show ?thesis by auto
  next
    case (Running off)
    with k have on: "- second < offsetNsec s" "offsetNsec s < second" and m: "enabledMask s = MaskEnabled" by simp_all
    obtain c' where r: "run hook sc st 4 Cgt_entry c = Some c'" "regs c' RAX = 0"
      "stores_pair (regs c RSI) (adv_timespec (rs, rn) (offsetSec s, offsetNsec s)) c'"
      using cgt_advancing_run [OF c(2,3) s m c(4-6) c(7,8) [unfolded second_def] on [unfolded second_def]] by blast
    with adv_timespec_instant [OF c(7,8) on, of rs "offsetSec s"] k Running show ?thesis
      by (auto simp: Let_def)
  qed
qed

text \<open>
  The states that an injection or a write leaves make such a clock: one that shows the target, or,
  after a reset, the kernel's own, as the difference of two consecutive readings. The offset of a running clock must fit, so the target and every
  reading of the wall clock lie within 292 years of each other.
\<close>

definition target_clock :: "'w kernel \<Rightarrow> gotime \<Rightarrow> bool \<Rightarrow> clock \<Rightarrow> bool" where
  "target_clock K t fr k \<longleftrightarrow> (if fr then k = Frozen t else \<exists>w. k = Running (t - fst (k_now K w)))"

definition real_clock :: "'w kernel \<Rightarrow> clock \<Rightarrow> bool" where
  "real_clock K k \<longleftrightarrow> (\<exists>w n w1. k_now K w = (n, w1) \<and> k = Running (n - fst (k_now K w1)))"

definition clock_near :: "'w kernel \<Rightarrow> gotime \<Rightarrow> bool" where
  "clock_near K t \<longleftrightarrow> (\<forall>w. in_int64 (t - fst (k_now K w)))"

lemma target_at_clock:
  assumes "target_at K t fr w s" and "state_at m a s" and "fr \<or> clock_near K t"
  shows "state_clock m a (if fr then Frozen t else Running (t - fst (k_now K w)))"
proof (cases fr)
  case True
  with assms show ?thesis by (auto simp: state_clock_def target_at_def)
next
  case False
  then have m: "enabledMask s = MaskEnabled"
    and d: "diffSecNsec t (fst (k_now K w)) = (offsetSec s, offsetNsec s)"
    using assms(1) by (auto simp: target_at_def)
  have "in_int64 (t - fst (k_now K w))" using assms(3) False by (simp add: clock_near_def)
  with diffSecNsec_total [OF d] have "offsetSec s * second + offsetNsec s = t - fst (k_now K w)" by simp
  with m assms(2) diffSecNsec_nsec [OF d] False show ?thesis by (auto simp: state_clock_def)
qed

lemma target_state_clock:
  assumes "target_state K t fr s" and "state_at m a s" and "fr \<or> clock_near K t"
  shows "\<exists>k. target_clock K t fr k \<and> state_clock m a k"
proof -
  obtain w where "target_at K t fr w s"
    using assms(1) by (auto simp: target_state_def target_at_def split: if_splits)
  from target_at_clock [OF this assms(2,3)] show ?thesis by (cases fr) (auto simp: target_clock_def)
qed

lemma real_state_clock:
  assumes "real_state K s" and "state_at m a s" and "\<forall>w. clock_near K (fst (k_now K w))"
  shows "\<exists>k. real_clock K k \<and> state_clock m a k"
proof -
  obtain w n w1 where n: "k_now K w = (n, w1)" and s: "target_at K n False w1 s"
    using assms(1) by (auto simp: real_state_def)
  have "clock_near K n" using assms(3) n by (metis fst_conv)
  with target_at_clock [OF s assms(2)] n show ?thesis by (auto simp: real_clock_def)
qed

lemma shows_target_hooked:
  assumes "node_shows view (target_state K t fr) (srv, w) hid" and "fr \<or> clock_near K t"
  shows "\<exists>p a k. structs srv hid = Some (p, a) \<and> target_clock K t fr k \<and> hooked_clock (view w p) a k"
  using assms target_state_clock state_clock_hooked unfolding node_shows_def fst_conv snd_conv by meson

lemma shows_real_hooked:
  assumes "node_shows view (real_state K) (srv, w) hid" and "\<forall>w. clock_near K (fst (k_now K w))"
  shows "\<exists>p a k. structs srv hid = Some (p, a) \<and> real_clock K k \<and> hooked_clock (view w p) a k"
  using assms real_state_clock state_clock_hooked unfolding node_shows_def fst_conv snd_conv by meson

section \<open>The shutdown of an agent\<close>

lemma resetNow_effect:
  assumes laws: "kernel_laws K view lay" and pl: "placed lay (srv, w)"
    and e: "map_of (as_handles srv) hid = Some e" and run: "resetNow K e w = (r, e', w')"
  shows "retimes view lay (real_state K) (srv, w) (set_entry hid e' srv, w')"
    and "node_ready view lay (real_state K) (srv, w) hid \<Longrightarrow>
      node_shows view (real_state K) (set_entry hid e' srv, w') hid"
proof -
  obtain t w1 where t: "k_now K w = (t, w1)" by (rule prod.exhaust)
  obtain h where set: "set_clock K (ae_handle e) t False w1 = (r, h, w')" and e': "ae_handle e' = h"
    using run by (auto simp: resetNow_def t set_clock_def split: prod.splits)
  have same: "view w1 = view w" "lay w1 = lay w"
    using calmD(1) [OF kernel_lawsD(2) [OF laws] t] calmD(1) [OF kernel_lawsD(3) [OF laws] t] by simp_all
  have S: "real_state K s" if "target_at K t False w1 s" for s
    using that t unfolding real_state_def by blast
  have "placed lay (srv, w1)" using pl same by (simp add: placed_def)
  note wr = written_retimes [where S = "real_state K", OF laws this e set e' S, unfolded retimes_still [OF same]]
  show "retimes view lay (real_state K) (srv, w) (set_entry hid e' srv, w')" by (rule wr(1))
  show "node_ready view lay (real_state K) (srv, w) hid \<Longrightarrow>
      node_shows view (real_state K) (set_entry hid e' srv, w') hid"
    using wr unfolding node_ready_def retimes_def by blast
qed

lemma drain_loop_effect:
  assumes laws: "kernel_laws K view lay"
  shows "drain_loop K (\<lambda>_. False) es nd = nd' \<Longrightarrow> placed lay nd \<Longrightarrow> distinct (keys es) \<Longrightarrow>
    \<forall>(hid, e) \<in> set es. map_of (as_handles (fst nd)) hid = Some e \<Longrightarrow>
    retimes view lay (real_state K) nd nd' \<and>
    (\<forall>hid \<in> set (keys es). node_ready view lay (real_state K) nd hid \<longrightarrow> node_shows view (real_state K) nd' hid)"
proof (induction es arbitrary: nd)
  case Nil
  then show ?case using retimes_refl by simp
next
  case (Cons x es)
  obtain hid e where x: "x = (hid, e)" by (rule prod.exhaust)
  obtain srv w where nd: "nd = (srv, w)" by (rule prod.exhaust)
  obtain r e' w1 where one: "resetNow K e w = (r, e', w1)" by (metis prod.exhaust)
  let ?nd = "(set_entry hid e' srv, w1)"
  have e: "map_of (as_handles srv) hid = Some e" using Cons.prems(4) by (simp add: x nd)
  note step = resetNow_effect [OF laws Cons.prems(2) [unfolded nd] e one]
  have "drain_loop K (\<lambda>_. False) es ?nd = nd'" using Cons.prems(1) by (simp add: x nd one)
  moreover have "placed lay ?nd" using step(1) by (simp add: retimes_def)
  moreover have "\<forall>(h, e) \<in> set es. map_of (as_handles (fst ?nd)) h = Some e"
    using Cons.prems(3,4) by (force simp: x nd set_entry_def)
  ultimately have rest: "retimes view lay (real_state K) ?nd nd'"
    "\<forall>hid \<in> set (keys es). node_ready view lay (real_state K) ?nd hid \<longrightarrow> node_shows view (real_state K) nd' hid"
    using Cons.IH Cons.prems(3) by (simp_all add: x)
  then show ?case
    using retimes_trans [OF step(1) rest(1)] step unfolding x nd retimes_def by auto
qed

lemma drain_loop_structs:
  "\<forall>(hid, e) \<in> set es. structs srv hid = Some (struct_of e) \<Longrightarrow>
    structs (fst (drain_loop K ctx_done es (srv, w))) = structs srv"
proof (induction es arbitrary: srv w)
  case (Cons x es)
  obtain hid e where x: "x = (hid, e)" by (rule prod.exhaust)
  obtain er e' w1 where r: "resetNow K e w = (er, e', w1)" by (metis prod.exhaust)
  then have "struct_of e' = struct_of e"
    using set_clock_identity [of K "ae_handle e" _ False] unfolding set_clock_def
    by (auto simp: resetNow_def struct_of_def split: prod.splits)
  with Cons.prems have same: "structs (set_entry hid e' srv) = structs srv"
    by (auto simp: x structs_def set_entry_def fun_eq_iff)
  have "structs (fst (drain_loop K ctx_done es (set_entry hid e' srv, w1))) = structs (set_entry hid e' srv)"
    using Cons.prems by (intro Cons.IH) (simp add: same)
  then show ?case by (simp add: x r same)
qed simp

lemma drain_structs:
  assumes "wf_map (as_handles srv)"
  shows "structs (fst (drain K ctx_done (srv, w))) = structs srv"
  unfolding drain_def fst_conv
  by (rule drain_loop_structs) (use assms in \<open>auto simp: structs_def wf_map_mem_iff\<close>)

lemma drain_effect:
  assumes laws: "kernel_laws K view lay" and reach: "agent_reach K elf lay nd"
    and run: "drain K (\<lambda>_. False) nd = nd'"
  shows "retimes view lay (real_state K) nd nd'"
    and "node_up lay nd hid \<Longrightarrow> node_shows view (real_state K) nd' hid"
proof -
  have wf: "wf_map (as_handles (fst nd))" by (rule agent_reach_wf [OF reach])
  then have d: "distinct (keys (as_handles (fst nd)))" by (simp add: wf_map_def)
  have "\<forall>(hid, e) \<in> set (as_handles (fst nd)). map_of (as_handles (fst nd)) hid = Some e"
    using wf by (auto simp: wf_map_mem_iff)
  note loop = drain_loop_effect [OF laws run [unfolded drain_def] agent_reach_placed [OF laws reach] d this]
  show "retimes view lay (real_state K) nd nd'" using loop by blast
  show "node_shows view (real_state K) nd' hid" if up: "node_up lay nd hid"
  proof -
    have "hid \<in> set (keys (as_handles (fst nd)))"
      using node_up_entry [of lay "fst nd" "snd nd" hid] up by (auto dest: map_of_mem_keys)
    with loop up show ?thesis unfolding node_ready_def by blast
  qed
qed

end
