(* ===== verification/ClockSetting.thy ===== *)
theory ClockSetting
  imports ControllerEnv
begin

text \<open>
  What the controller may rely on when it sets one target: the contract between the agents' calls
  and a predicate that says which handles show the target, and what follows from it for creates
  and updates.
\<close>

section \<open>Predicates that the calls for a target keep\<close>

definition undisturbed :: "'a cenv \<Rightarrow> gotime \<Rightarrow> bool \<Rightarrow> ('a \<Rightarrow> bool) \<Rightarrow> bool" where
  "undisturbed E t fr Q \<longleftrightarrow> (\<forall>w. Q w \<longrightarrow>
     (\<forall>n h. Q (snd (ag_SetTime (ce_agents E) n h t fr w))) \<and>
     (\<forall>n cid. Q (snd (ag_Inject (ce_agents E) n cid t fr w))) \<and>
     Q (snd (ce_now E w)) \<and> (\<forall>k. Q (snd (ce_rand E k w))) \<and> (\<forall>ns sel. Q (snd (ce_ListPods E ns sel w))) \<and>
     (\<forall>ns nm. Q (snd (ce_GetConfigMap E ns nm w))) \<and> (\<forall>ns nm d. Q (snd (ce_CreateConfigMap E ns nm d w))) \<and>
     (\<forall>ns nm d. Q (snd (ce_UpdateConfigMap E ns nm d w))))"

lemma undisturbedD:
  assumes "undisturbed E t fr Q"
  shows "ag_SetTime (ce_agents E) n h t fr w = (r, w') \<Longrightarrow> Q w \<Longrightarrow> Q w'"
    and "ag_Inject (ce_agents E) n cid t fr w = (i, w') \<Longrightarrow> Q w \<Longrightarrow> Q w'"
    and "ce_now E w = (u, w') \<Longrightarrow> Q w \<Longrightarrow> Q w'" and "ce_rand E k w = (b, w') \<Longrightarrow> Q w \<Longrightarrow> Q w'"
    and "ce_ListPods E ns sel w = (ps, w') \<Longrightarrow> Q w \<Longrightarrow> Q w'"
    and "ce_GetConfigMap E ns nm w = (cm, w') \<Longrightarrow> Q w \<Longrightarrow> Q w'"
    and "ce_CreateConfigMap E ns nm d w = (e, w') \<Longrightarrow> Q w \<Longrightarrow> Q w'"
    and "ce_UpdateConfigMap E ns nm d w = (e, w') \<Longrightarrow> Q w \<Longrightarrow> Q w'"
  using assms unfolding undisturbed_def by (metis snd_conv)+

lemma flush_undisturbed: "undisturbed E t fr Q \<Longrightarrow> flush E ns d w = (e, w') \<Longrightarrow> Q w \<Longrightarrow> Q w'"
  by (auto simp: flush_def Let_def dest: undisturbedD(6-8) split: prod.splits sum.splits if_splits)

lemma persist_undisturbed: "undisturbed E t fr Q \<Longrightarrow> (c', w') = persist E (c, w) \<Longrightarrow> Q w \<Longrightarrow> Q w'"
  by (auto simp: persist_def dest: flush_undisturbed [OF _ surjective_pairing] split: option.splits sum.splits)

lemma set_handles_undisturbed:
  assumes "undisturbed E t fr Q"
  shows "set_handles E t fr i hs (c, w) = (us, (c', w')) \<Longrightarrow> Q w \<Longrightarrow> Q w'"
proof (induction hs arbitrary: i c w us)
  case (Cons h hs)
  from Cons.prems(1) show ?case
    by (cases rule: set_handles_Cons) (use Cons.IH Cons.prems(2) undisturbedD(1,2) [OF assms] in blast)+
qed simp

lemma inject_containers_undisturbed:
  assumes "undisturbed E t fr Q"
  shows "inject_containers E pod t fr css (c, w) = (hs, (c', w')) \<Longrightarrow> Q w \<Longrightarrow> Q w'"
proof (induction css arbitrary: c w hs)
  case (Cons cs css)
  from Cons.prems(1) show ?case
    by (cases rule: inject_containers_Cons) (use Cons.IH Cons.prems(2) undisturbedD(2) [OF assms] in blast)+
qed simp

lemma map_injectPod_undisturbed:
  assumes "undisturbed E t fr Q"
    and "map_step (\<lambda>pod. injectPod E pod t fr) pods (c, w) = (hss, (c', w'))" and "Q w"
  shows "Q w'"
proof -
  have "Q (snd (c', w'))"
    by (rule map_step_invariant [where P = "\<lambda>st. Q (snd st)", OF _ assms(2)])
      (use assms(3) in \<open>auto simp: injectPod_def dest: inject_containers_undisturbed [OF assms(1)]\<close>)
  then show ?thesis by simp
qed

section \<open>The contract\<close>

text \<open>
  \<open>shows_it\<close>: the process of the handle shows the target. \<open>ready\<close>: it does, or a SetTime will
  make it.
\<close>

locale clock_setting =
  fixes E :: "'a cenv" and t :: gotime and fr :: bool and ok :: "'a \<Rightarrow> bool"
    and shows_it ready :: "string \<Rightarrow> string \<Rightarrow> 'a \<Rightarrow> bool"
  assumes ok_stays: "undisturbed E t fr ok"
    and shown_stays: "undisturbed E t fr (\<lambda>w. ok w \<and> shows_it n h w)"
    and ready_stays: "undisturbed E t fr (\<lambda>w. ok w \<and> ready n h w)"
    and set_shows: "ok w \<Longrightarrow> ag_SetTime (ce_agents E) n h t fr w = (Inr u, w') \<Longrightarrow> shows_it n h w'"
    and ready_shows: "ok w \<Longrightarrow> ready n h w \<Longrightarrow> ag_SetTime (ce_agents E) n h t fr w = (r, w') \<Longrightarrow> shows_it n h w'"
    and inject_shows: "ok w \<Longrightarrow> ag_Inject (ce_agents E) n cid t fr w = (Inr h, w') \<Longrightarrow> shows_it n h w'"
begin

abbreviation handle_shows :: "containerHandle \<Rightarrow> 'a \<Rightarrow> bool" where
  "handle_shows h w \<equiv> shows_it (ch_nodeIP h) (ch_agentHandle h) w"

lemma errors_grow:
  "set_handles E t fr i hs (c, w) = (us, (c', w')) \<Longrightarrow> m_setTimeError (co_met c) \<le> m_setTimeError (co_met c')"
proof (induction hs arbitrary: i c w us)
  case (Cons h hs)
  from Cons.prems show ?case
    by (auto simp: Let_def count_setTime_def count_inject_def split: if_splits prod.splits sum.splits dest!: Cons.IH)
qed simp

text \<open>Without an error every handle shows the target.\<close>

lemma set_handles_shows:
  "set_handles E t fr i hs (c, w) = (us, (c', w')) \<Longrightarrow> ok w \<Longrightarrow>
    m_setTimeError (co_met c') = m_setTimeError (co_met c) \<Longrightarrow>
    us = [] \<and> (\<forall>h \<in> set hs. handle_shows h w')"
proof (induction hs arbitrary: i c w us)
  case (Cons h hs)
  obtain r w1 where set: "ag_SetTime (ce_agents E) (ch_nodeIP h) (ch_agentHandle h) t fr w = (r, w1)"
    by (rule prod.exhaust)
  note ok1 = undisturbedD(1) [OF ok_stays set Cons.prems(2)]
  show ?case
  proof (cases r)
    case (Inl e)
    then obtain c2 w2 us2 i2 where "set_handles E t fr i2 hs (c2, w2) = (us2, (c', w'))"
      "m_setTimeError (co_met c2) = m_setTimeError (co_met c) + 1"
      using Cons.prems(1) set
      by (auto simp: Let_def count_setTime_def count_inject_def split: if_splits prod.splits sum.splits)
    with errors_grow Cons.prems(3) show ?thesis by fastforce
  next
    case (Inr u)
    have rest: "set_handles E t fr (i + 1) hs (count_setTime True c, w1) = (us, (c', w'))"
      using Cons.prems(1) set Inr by simp
    have "handle_shows h w1" by (rule set_shows [OF Cons.prems(2) set [unfolded Inr]])
    with set_handles_undisturbed [OF shown_stays rest] ok1 have "handle_shows h w'" by blast
    moreover have "m_setTimeError (co_met c') = m_setTimeError (co_met (count_setTime True c))"
      using Cons.prems(3) by (simp add: count_setTime_def Let_def)
    ultimately show ?thesis using Cons.IH [OF rest ok1] by simp
  qed
qed simp

text \<open>A handle that is ready shows the target, whatever happens to the others; so does a new one.\<close>

lemma set_handles_ready:
  "set_handles E t fr i hs (c, w) = (us, (c', w')) \<Longrightarrow> ok w \<Longrightarrow> h \<in> set hs \<Longrightarrow>
    ready (ch_nodeIP h) (ch_agentHandle h) w \<Longrightarrow> handle_shows h w'"
proof (induction hs arbitrary: i c w us)
  case (Cons g hs)
  obtain r w1 where set: "ag_SetTime (ce_agents E) (ch_nodeIP g) (ch_agentHandle g) t fr w = (r, w1)"
    by (rule prod.exhaust)
  note ok1 = undisturbedD(1) [OF ok_stays set Cons.prems(2)]
  have head: "handle_shows h w1" if "h = g"
    using ready_shows [OF Cons.prems(2) _ set] Cons.prems(4) that by simp
  have later: "handle_shows h w'"
    if run: "set_handles E t fr (Suc i) hs (c2, w2) = (us2, (c', w'))" and ok2: "ok w2"
      and keep: "\<And>n k. shows_it n k w1 \<Longrightarrow> shows_it n k w2" "\<And>n k. ready n k w1 \<Longrightarrow> ready n k w2" for c2 w2 us2
  proof (cases "h = g")
    case True
    with head keep(1) set_handles_undisturbed [OF shown_stays run] ok2 show ?thesis by blast
  next
    case False
    have "ready (ch_nodeIP h) (ch_agentHandle h) w2"
      using undisturbedD(1) [OF ready_stays set] Cons.prems(2,4) keep(2) by blast
    with Cons.IH [OF run ok2] Cons.prems(3) False show ?thesis by simp
  qed
  from Cons.prems(1) show ?case
  proof (cases rule: set_handles_Cons)
    case (kept r2 c1 w2)
    with set have "w2 = w1" by simp
    with later [OF kept(3)] ok1 show ?thesis by simp
  next
    case (failed e w1' e' c1 w2)
    with set have w1: "w1' = w1" by simp
    note inj = failed(3) [unfolded w1]
    from later [OF failed(4) undisturbedD(2) [OF ok_stays inj ok1]] ok1
      undisturbedD(2) [OF shown_stays inj] undisturbedD(2) [OF ready_stays inj] show ?thesis by blast
  next
    case (moved e w1' hid c1 w2 us')
    with set have w1: "w1' = w1" by simp
    note inj = moved(3) [unfolded w1]
    from later [OF moved(4) undisturbedD(2) [OF ok_stays inj ok1]] ok1
      undisturbedD(2) [OF shown_stays inj] undisturbedD(2) [OF ready_stays inj] show ?thesis by blast
  qed
qed simp

lemma moved_handles_show:
  "set_handles E t fr i hs (c, w) = (us, (c', w')) \<Longrightarrow> ok w \<Longrightarrow> (j, hid) \<in> set us \<Longrightarrow>
     shows_it (ch_nodeIP (hs ! (j - i))) hid w'"
proof (induction hs arbitrary: i c w us)
  case (Cons h hs)
  have later: "shows_it (ch_nodeIP ((h # hs) ! (j - i))) hid w'"
    if "set_handles E t fr (Suc i) hs (c1, w1) = (us', (c', w'))" "ok w1" "(j, hid) \<in> set us'" for us' c1 w1
  proof -
    have "Suc i \<le> j" using set_handles_indices [OF that(1)] that(3) by force
    then have "(h # hs) ! (j - i) = hs ! (j - Suc i)" by (simp add: nth_Cons')
    with Cons.IH [OF that] show ?thesis by simp
  qed
  from Cons.prems(1) show ?case
  proof (cases rule: set_handles_Cons)
    case (kept r c1 w1)
    from later [OF kept(3) undisturbedD(1) [OF ok_stays kept(1) Cons.prems(2)] Cons.prems(3)] show ?thesis .
  next
    case (failed e w1 e' c1 w2)
    from later [OF failed(4) undisturbedD(2) [OF ok_stays failed(3) undisturbedD(1) [OF ok_stays failed(1) Cons.prems(2)]] Cons.prems(3)]
    show ?thesis .
  next
    case (moved e w1 hid' c1 w2 us')
    note ok1 = undisturbedD(1) [OF ok_stays moved(1) Cons.prems(2)]
    note ok2 = undisturbedD(2) [OF ok_stays moved(3) ok1]
    have "shows_it (ch_nodeIP h) hid' w'"
      using set_handles_undisturbed [OF shown_stays moved(4)] inject_shows [OF ok1 moved(3)] ok2 by blast
    with later [OF moved(4) ok2] moved(5) Cons.prems(3) show ?thesis by auto
  qed
qed simp

text \<open>
  After an update: a handle that was replaced shows the target; one that was not does when no
  SetTime failed, or when it was ready.
\<close>

lemma updated_shows:
  assumes run: "updateTimeshift E tid t fr (c, w) = (Inr s', (c', w'))" and "ok w"
    and s: "map_of (co_timeshifts c) tid = Some s" and h: "h \<in> set (ts_handles s')"
    and old: "h \<in> set (ts_handles s) \<Longrightarrow>
      m_setTimeError (co_met c') = m_setTimeError (co_met c) \<or> ready (ch_nodeIP h) (ch_agentHandle h) w"
  shows "ok w' \<and> handle_shows h w'"
  using run
proof (cases rule: updateTimeshift_cases)
  case (updated s0 us c1 w1 now w2 s1)
  then have eq: "s0 = s" "s' = commit_update (ts_handles s) us t now fr s" using s by simp_all
  note sh = updated(2) [unfolded eq(1)]
  have d: "distinct (map fst us)" using set_handles_indices [OF sh] by blast
  note hs = commit_handles [where s = s and t = t and now = now and fr = fr, OF d, folded eq(2)]
  obtain i where i: "i < length (ts_handles s)" "h = ts_handles s' ! i"
    using h hs(1) by (auto simp: in_set_conv_nth)
  have ok1: "ok w1" by (rule set_handles_undisturbed [OF ok_stays sh assms(2)])
  have "handle_shows h w1"
  proof (cases "map_of us i")
    case None
    then have same: "h = ts_handles s ! i" using hs(2) [OF i(1)] i(2) by simp
    then have mem: "h \<in> set (ts_handles s)" using i(1) by simp
    from old [OF mem] show ?thesis
    proof
      assume "m_setTimeError (co_met c') = m_setTimeError (co_met c)"
      then have "m_setTimeError (co_met c1) = m_setTimeError (co_met c)"
        using persist_eqD [OF updated(7)] by simp
      from set_handles_shows [OF sh assms(2) this] mem show ?thesis by blast
    next
      assume "ready (ch_nodeIP h) (ch_agentHandle h) w"
      from set_handles_ready [OF sh assms(2) mem this] show ?thesis .
    qed
  next
    case (Some hid)
    then have "shows_it (ch_nodeIP (ts_handles s ! i)) hid w1"
      using moved_handles_show [OF sh assms(2), of i hid] by (auto dest: map_of_SomeD)
    with Some hs(2) [OF i(1)] i(2) show ?thesis by simp
  qed
  with ok1 have "ok w2 \<and> handle_shows h w2" using undisturbedD(3) [OF shown_stays updated(3)] by blast
  with persist_undisturbed [OF shown_stays updated(7)] show ?thesis by blast
qed simp

section \<open>Creates\<close>

lemma inject_containers_show:
  "inject_containers E pod t fr css (c, w) = (hs, (c', w')) \<Longrightarrow> ok w \<Longrightarrow> h \<in> set hs \<Longrightarrow> handle_shows h w'"
proof (induction css arbitrary: c w hs)
  case (Cons cs css)
  from Cons.prems(1) show ?case
  proof (cases rule: inject_containers_Cons)
    case (skipped c1 w1)
    have "ok w1" using skipped(2) Cons.prems(2) undisturbedD(2) [OF ok_stays] by blast
    from Cons.IH [OF skipped(1) this Cons.prems(3)] show ?thesis .
  next
    case (injected c1 w1 hid hs1 g)
    note ok1 = undisturbedD(2) [OF ok_stays injected(1) Cons.prems(2)]
    have "handle_shows g w1" using inject_shows [OF Cons.prems(2) injected(1)] injected(4) by simp
    with inject_containers_undisturbed [OF shown_stays injected(2)] ok1 have "handle_shows g w'" by blast
    with Cons.IH [OF injected(2) ok1] Cons.prems(3) injected(3) show ?thesis by auto
  qed
qed simp

lemma map_injectPod_shows:
  "map_step (\<lambda>pod. injectPod E pod t fr) pods (c, w) = (hss, (c', w')) \<Longrightarrow> ok w \<Longrightarrow>
     h \<in> set (concat hss) \<Longrightarrow> handle_shows h w'"
proof (induction pods arbitrary: c w hss)
  case (Cons p ps)
  from Cons.prems(1) obtain hs1 c1 w1 hss1 where p: "injectPod E p t fr (c, w) = (hs1, (c1, w1))"
    and ps: "map_step (\<lambda>pod. injectPod E pod t fr) ps (c1, w1) = (hss1, (c', w'))" and hss: "hss = hs1 # hss1"
    unfolding map_step_Cons_eq by (metis surj_pair)
  note p = p [unfolded injectPod_def]
  note ok1 = inject_containers_undisturbed [OF ok_stays p Cons.prems(2)]
  have "handle_shows h w'" if "h \<in> set hs1"
    using map_injectPod_undisturbed [OF shown_stays ps] inject_containers_show [OF p Cons.prems(2) that] ok1 by blast
  with Cons.IH [OF ps ok1] Cons.prems(3) hss show ?case by auto
qed simp

lemma created_shows:
  assumes run: "createTimeshift E ns sel t ttl fr (c, w) = (Inr s, (c', w'))" and "ok w" and h: "h \<in> set (ts_handles s)"
  shows "ok w' \<and> handle_shows h w'"
  using run
proof (cases rule: createTimeshift_cases)
  case (created pods w1 hs c1 w2 now w3 tid w4 s1)
  have "h \<in> set hs" using created(8,9) h by (simp add: new_timeshift_def)
  obtain hss where inj: "map_step (\<lambda>pod. injectPod E pod t fr) pods (c, w1) = (hss, (c1, w2))" "hs = concat hss"
    using created(4) by (auto simp: inject_pods_def simp del: map_step.simps set_concat split: prod.splits)
  note ok1 = undisturbedD(5) [OF ok_stays created(1) assms(2)]
  have "ok w2 \<and> handle_shows h w2"
    using map_injectPod_undisturbed [OF ok_stays inj(1) ok1] map_injectPod_shows [OF inj(1) ok1] \<open>h \<in> set hs\<close> inj(2)
    by blast
  then have w3: "ok w3 \<and> handle_shows h w3" using undisturbedD(3) [OF shown_stays created(6)] by blast
  obtain b where "ce_rand E 16 w3 = (b, w4)" using created(7) by (auto simp: newID_def split: prod.splits)
  from undisturbedD(4) [OF shown_stays this] w3 have "ok w4 \<and> handle_shows h w4" by blast
  with persist_undisturbed [OF shown_stays created(11)] show ?thesis by blast
qed simp

end

end
