(* ===== verification/ClusterTime.thy ===== *)
theory ClusterTime
  imports EndToEnd ClockSetting Deployment
begin

text \<open>
  The cluster behind the controller's client pool: what a SetTime, an Inject or a Reset of one
  handle does to the state structs of all nodes, and the contract by which creates and updates
  reach the processes of all containers.
\<close>

section \<open>One call over the pool\<close>

definition cluster_ok :: "'w kernel \<Rightarrow> elf_reader \<Rightarrow> ('w \<Rightarrow> pid \<Rightarrow> memory) \<Rightarrow> ('w \<Rightarrow> layout) \<Rightarrow> 'w cluster \<Rightarrow> bool" where
  "cluster_ok K elf view lay cl \<longleftrightarrow> kernel_laws K view lay \<and>
     (\<forall>a nd. cl_nodes cl a = Some nd \<longrightarrow> agent_reach K elf lay nd)"

lemma cluster_okD:
  assumes "cluster_ok K elf view lay cl"
  shows "kernel_laws K view lay" and "cl_nodes cl a = Some nd \<Longrightarrow> agent_reach K elf lay nd"
    and "cl_nodes cl a = Some nd \<Longrightarrow> placed lay nd"
  using assms agent_reach_placed unfolding cluster_ok_def by blast+

definition cluster_shows :: "('w \<Rightarrow> pid \<Rightarrow> memory) \<Rightarrow> (tramp_state \<Rightarrow> bool) \<Rightarrow> string \<Rightarrow> string \<Rightarrow> 'w cluster \<Rightarrow> bool" where
  "cluster_shows view S n hid cl \<longleftrightarrow>
     (\<exists>nd. cl_nodes cl (node_addr (cl_pool cl) n) = Some nd \<and> node_shows view S nd hid)"

text \<open>A handle that can be reached: its node answers, and its process is there.\<close>

definition handle_up :: "(string \<Rightarrow> bool) \<Rightarrow> ('w \<Rightarrow> layout) \<Rightarrow> string \<Rightarrow> string \<Rightarrow> 'w cluster \<Rightarrow> bool" where
  "handle_up dialable lay n hid cl \<longleftrightarrow> hid \<noteq> [] \<and> dialable (node_addr (cl_pool cl) n) \<and>
     (\<exists>nd. cl_nodes cl (node_addr (cl_pool cl) n) = Some nd \<and> node_up lay nd hid)"

definition cluster_ready :: "(string \<Rightarrow> bool) \<Rightarrow> ('w \<Rightarrow> pid \<Rightarrow> memory) \<Rightarrow> ('w \<Rightarrow> layout) \<Rightarrow> (tramp_state \<Rightarrow> bool)
    \<Rightarrow> string \<Rightarrow> string \<Rightarrow> 'w cluster \<Rightarrow> bool" where
  "cluster_ready d view lay S n hid cl \<longleftrightarrow> cluster_shows view S n hid cl \<or>
     (hid \<noteq> [] \<and> d (node_addr (cl_pool cl) n) \<and>
      (\<exists>nd. cl_nodes cl (node_addr (cl_pool cl) n) = Some nd \<and> node_ready view lay S nd hid))"

lemma handle_up_ready: "handle_up d lay n hid cl \<Longrightarrow> cluster_ready d view lay S n hid cl"
  by (auto simp: handle_up_def cluster_ready_def node_ready_def)

text \<open>Every handle with the target keeps it, every one that can be given it still can.\<close>

definition advances :: "'w kernel \<Rightarrow> elf_reader \<Rightarrow> (string \<Rightarrow> bool) \<Rightarrow> ('w \<Rightarrow> pid \<Rightarrow> memory) \<Rightarrow> ('w \<Rightarrow> layout)
    \<Rightarrow> (tramp_state \<Rightarrow> bool) \<Rightarrow> 'w cluster \<Rightarrow> 'w cluster \<Rightarrow> bool" where
  "advances K elf d view lay S cl cl' \<longleftrightarrow> cluster_ok K elf view lay cl' \<and>
     (\<forall>n hid. cluster_shows view S n hid cl \<longrightarrow> cluster_shows view S n hid cl') \<and>
     (\<forall>n hid. cluster_ready d view lay S n hid cl \<longrightarrow> cluster_ready d view lay S n hid cl')"

lemma advances_refl: "cluster_ok K elf view lay cl \<Longrightarrow> advances K elf d view lay S cl cl"
  by (simp add: advances_def)

lemma advances_trans:
  "advances K elf d view lay S cl cl1 \<Longrightarrow> advances K elf d view lay S cl1 cl2 \<Longrightarrow> advances K elf d view lay S cl cl2"
  by (simp add: advances_def)

lemma advances_ok: "advances K elf d view lay S cl cl' \<Longrightarrow> cluster_ok K elf view lay cl'"
  by (simp add: advances_def)

text \<open>The nodes that a call can leave.\<close>

lemma pool_call_cases:
  assumes "pool_call d n ctx m cl = (r, cl')"
  obtains (silent) e where "r = Inl e" "cl_nodes cl' = cl_nodes cl" "\<And>ip. node_addr (cl_pool cl') ip = node_addr (cl_pool cl) ip"
      "d (node_addr (cl_pool cl) n) \<Longrightarrow> cl_nodes cl (node_addr (cl_pool cl) n) = None"
  | (served) nd x nd' where "cl_nodes cl (node_addr (cl_pool cl) n) = Some nd" "m nd = (x, nd')"
      "cl_nodes cl' = (cl_nodes cl)(node_addr (cl_pool cl) n \<mapsto> nd')"
      "\<And>ip. node_addr (cl_pool cl') ip = node_addr (cl_pool cl) ip" "\<And>u. r = Inr u \<longleftrightarrow> x = Inr u"
proof -
  obtain y p where c: "clientFor d n (cl_pool cl) = (y, p)" by (rule prod.exhaust)
  show thesis
  proof (cases y)
    case (Inl e)
    then have "p = cl_pool cl" "\<not> d (node_addr (cl_pool cl) n)"
      using c by (auto simp: clientFor_def Let_def split: if_splits)
    with assms Inl c show thesis by (auto simp: pool_call_def intro: silent)
  next
    case (Inr addr)
    from clientFor_addr [OF c [unfolded Inr]] have a: "addr = node_addr (cl_pool cl) n"
      and same: "\<And>ip. node_addr p ip = node_addr (cl_pool cl) ip" by (simp_all add: node_addr_def)
    show thesis
    proof (cases "cl_nodes cl addr")
      case None
      then have "r = Inl (Wrap ctx (Status Unavailable ''connection refused''))"
        "cl_pool cl' = p" "cl_nodes cl' = cl_nodes cl"
        using assms c Inr by (auto simp: pool_call_def rpc_def)
      with None a same show thesis by (simp add: silent)
    next
      case (Some nd)
      obtain x nd' where m: "m nd = (x, nd')" by (rule prod.exhaust)
      then have "cl' = cl\<lparr>cl_pool := p, cl_nodes := (cl_nodes cl)(addr \<mapsto> nd')\<rparr>" "r = Inr u \<longleftrightarrow> x = Inr u" for u
        using assms c Inr Some by (auto simp: pool_call_def rpc_def split: sum.splits)
      with Some m a same show thesis by (intro served) simp_all
    qed
  qed
qed

lemma pool_call_advances:
  assumes run: "pool_call d n ctx m cl = (r, cl')" and ok: "cluster_ok K elf view lay cl"
    and reach: "\<And>nd x nd'. m nd = (x, nd') \<Longrightarrow> agent_reach K elf lay nd \<Longrightarrow> agent_reach K elf lay nd'"
    and eff: "\<And>nd x nd'. placed lay nd \<Longrightarrow> m nd = (x, nd') \<Longrightarrow> retimes view lay S nd nd'"
  shows "advances K elf d view lay S cl cl'"
  using run
proof (cases rule: pool_call_cases)
  case (silent e)
  with ok show ?thesis
    by (auto simp: advances_def cluster_ok_def cluster_shows_def cluster_ready_def)
next
  case (served nd x nd')
  note laws = cluster_okD(1) [OF ok] and nd = cluster_okD(2) [OF ok served(1)]
  have rt: "retimes view lay S nd nd'" by (rule eff [OF agent_reach_placed [OF laws nd] served(2)])
  have "cluster_ok K elf view lay cl'"
    using laws cluster_okD(2) [OF ok] reach [OF served(2) nd] by (simp add: cluster_ok_def served(3) del: split_paired_All)
  moreover have shown: "cluster_shows view S ip hid cl'" if "cluster_shows view S ip hid cl" for ip hid
    using that rt served(1)
    by (cases "node_addr (cl_pool cl) ip = node_addr (cl_pool cl) n")
      (simp_all add: cluster_shows_def served(3,4) retimes_def del: split_paired_Ex)
  moreover have "cluster_ready d view lay S ip hid cl'" if "cluster_ready d view lay S ip hid cl" for ip hid
    using that rt served(1) shown
    by (cases "node_addr (cl_pool cl) ip = node_addr (cl_pool cl) n")
      (auto simp add: cluster_ready_def served(3,4) retimes_def simp del: split_paired_Ex)
  ultimately show ?thesis by (simp add: advances_def)
qed

text \<open>A call that gives a ready handle the target.\<close>

lemma pool_call_reaches:
  assumes run: "pool_call d n ctx m cl = (r, cl')" and ok: "cluster_ok K elf view lay cl"
    and adv: "advances K elf d view lay S cl cl'"
    and hit: "\<And>nd u nd'. placed lay nd \<Longrightarrow> m nd = (Inr u, nd') \<Longrightarrow> node_shows view S nd' hid"
    and up: "\<And>nd x nd'. placed lay nd \<Longrightarrow> m nd = (x, nd') \<Longrightarrow> hid \<noteq> [] \<Longrightarrow> node_up lay nd hid \<Longrightarrow> x = Inr ()"
  shows "r = Inr u \<Longrightarrow> cluster_shows view S n hid cl'"
    and "cluster_ready d view lay S n hid cl \<Longrightarrow> cluster_shows view S n hid cl'"
proof -
  note pl = cluster_okD(3) [OF ok]
  show "cluster_shows view S n hid cl'" if "r = Inr u"
    using run that by (cases rule: pool_call_cases) (auto simp: cluster_shows_def intro: hit pl)
  show "cluster_shows view S n hid cl'" if rd: "cluster_ready d view lay S n hid cl"
  proof (cases "cluster_shows view S n hid cl")
    case True
    with adv show ?thesis by (simp add: advances_def)
  next
    case False
    with rd obtain nd where nd: "cl_nodes cl (node_addr (cl_pool cl) n) = Some nd" "node_up lay nd hid"
      "hid \<noteq> []" "d (node_addr (cl_pool cl) n)"
      by (auto simp: cluster_ready_def cluster_shows_def node_ready_def)
    from run show ?thesis
    proof (cases rule: pool_call_cases)
      case (silent e)
      with nd show ?thesis by simp
    next
      case (served nd0 x nd')
      with nd have "m nd = (x, nd')" by simp
      with up [OF pl [OF nd(1)] this nd(3,2)] hit [OF pl [OF nd(1)]] served(3,4) show ?thesis
        by (auto simp: cluster_shows_def)
    qed
  qed
qed

section \<open>The three calls\<close>

lemma pool_SetTime_advances:
  assumes ok: "cluster_ok K elf view lay cl" and run: "pool_SetTime K d n hid t fr cl = (r, cl')"
  shows "advances K elf d view lay (target_state K t fr) cl cl'"
    and "r = Inr u \<Longrightarrow> cluster_shows view (target_state K t fr) n hid cl'"
    and "cluster_ready d view lay (target_state K t fr) n hid cl \<Longrightarrow> cluster_shows view (target_state K t fr) n hid cl'"
proof -
  note laws = cluster_okD(1) [OF ok] and run = run [unfolded pool_SetTime_def]
  have reach: "agent_reach K elf lay nd'" if "agent_SetTime K hid (Some t) fr nd = (x, nd')" "agent_reach K elf lay nd" for nd x nd'
    using agent_reach.serve [OF that(2), of "RpcSetTime hid (Some t) fr"] that(1) by simp
  show adv: "advances K elf d view lay (target_state K t fr) cl cl'"
    by (rule pool_call_advances [OF run ok reach agent_SetTime_effect(1) [OF laws]])
  have hit: "node_shows view (target_state K t fr) nd' hid" if "placed lay nd" "agent_SetTime K hid (Some t) fr nd = (Inr u, nd')" for nd u nd'
    using agent_SetTime_effect(2) [OF laws that refl] .
  have up: "x = Inr ()" if "placed lay nd" "agent_SetTime K hid (Some t) fr nd = (x, nd')" "hid \<noteq> []" "node_up lay nd hid" for nd x nd'
    using agent_SetTime_effect(3) [OF laws that] .
  show "r = Inr u \<Longrightarrow> cluster_shows view (target_state K t fr) n hid cl'"
    by (rule pool_call_reaches(1) [OF run ok adv]) (erule (1) hit, erule (3) up)
  show "cluster_ready d view lay (target_state K t fr) n hid cl \<Longrightarrow> cluster_shows view (target_state K t fr) n hid cl'"
    by (rule pool_call_reaches(2) [OF run ok adv]) (erule (1) hit, erule (3) up)
qed

lemma pool_Inject_advances:
  assumes ok: "cluster_ok K elf view lay cl" and run: "pool_Inject K elf d n cid t fr cl = (r, cl')"
  shows "advances K elf d view lay (target_state K t fr) cl cl'"
    and "r = Inr hid \<Longrightarrow> cluster_shows view (target_state K t fr) n hid cl'"
proof -
  note laws = cluster_okD(1) [OF ok] and run = run [unfolded pool_Inject_def]
  have reach: "agent_reach K elf lay nd'" if "agent_Inject K elf cid (Some t) fr nd = (x, nd')" "agent_reach K elf lay nd" for nd x nd'
    using agent_reach.serve [OF that(2), of "RpcInject cid (Some t) fr"] that(1) by simp
  show "advances K elf d view lay (target_state K t fr) cl cl'"
    by (rule pool_call_advances [OF run ok reach agent_Inject_effect(1) [OF laws]])
  show "cluster_shows view (target_state K t fr) n hid cl'" if "r = Inr hid"
    using run
  proof (cases rule: pool_call_cases)
    case (served nd x nd')
    then have "agent_Inject K elf cid (Some t) fr nd = (Inr hid, nd')" using that served(5) [of hid] by blast
    from agent_Inject_effect(2) [OF laws cluster_okD(3) [OF ok served(1)] this refl] served(3,4)
    show ?thesis by (simp add: cluster_shows_def)
  qed (simp add: that)
qed

lemma pool_Reset_advances:
  assumes ok: "cluster_ok K elf view lay cl" and run: "pool_Reset K d n hid cl = (r, cl')"
  shows "advances K elf d view lay (real_state K) cl cl'"
    and "cluster_ready d view lay (real_state K) n hid cl \<Longrightarrow> cluster_shows view (real_state K) n hid cl'"
proof -
  note laws = cluster_okD(1) [OF ok] and run = run [unfolded pool_Reset_def]
  have reach: "agent_reach K elf lay nd'" if "agent_Reset K hid nd = (x, nd')" "agent_reach K elf lay nd" for nd x nd'
    using agent_reach.serve [OF that(2), of "RpcReset hid"] that(1) by simp
  show adv: "advances K elf d view lay (real_state K) cl cl'"
    by (rule pool_call_advances [OF run ok reach agent_Reset_effect(1) [OF laws]])
  have hit: "node_shows view (real_state K) nd' hid" if "placed lay nd" "agent_Reset K hid nd = (Inr u, nd')" for nd u nd'
    using agent_Reset_effect(2) [OF laws that refl] .
  have up: "x = Inr ()" if "placed lay nd" "agent_Reset K hid nd = (x, nd')" "hid \<noteq> []" "node_up lay nd hid" for nd x nd'
    using agent_Reset_effect(3) [OF laws that] .
  show "cluster_ready d view lay (real_state K) n hid cl \<Longrightarrow> cluster_shows view (real_state K) n hid cl'"
    by (rule pool_call_reaches(2) [OF run ok adv]) (erule (1) hit, erule (3) up)
qed

section \<open>The deployed controller\<close>

lemma deployment_worlds:
  "fst (snd (ag_SetTime (ce_agents (deployment K elf d api)) n h t fr w)) = snd (pool_SetTime K d n h t fr (fst w))"
  "fst (snd (ag_Inject (ce_agents (deployment K elf d api)) n cid t fr w)) = snd (pool_Inject K elf d n cid t fr (fst w))"
  "fst (snd (ce_now (deployment K elf d api) w)) = fst w"
  "fst (snd (ce_rand (deployment K elf d api) k w)) = fst w"
  "fst (snd (ce_ListPods (deployment K elf d api) ns sel w)) = fst w"
  "fst (snd (ce_GetConfigMap (deployment K elf d api) ns nm w)) = fst w"
  "fst (snd (ce_CreateConfigMap (deployment K elf d api) ns nm dat w)) = fst w"
  "fst (snd (ce_UpdateConfigMap (deployment K elf d api) ns nm dat w)) = fst w"
  by (simp_all add: deployment_def lift_agents_def pool_agents_def on_cluster_def on_kube_def split: prod.split)

lemma undisturbed_cluster:
  assumes "\<And>cl cl' n h r. Q cl \<Longrightarrow> pool_SetTime K d n h t fr cl = (r, cl') \<Longrightarrow> Q cl'"
    and "\<And>cl cl' n cid r. Q cl \<Longrightarrow> pool_Inject K elf d n cid t fr cl = (r, cl') \<Longrightarrow> Q cl'"
  shows "undisturbed (deployment K elf d api) t fr (\<lambda>w. Q (fst w))"
  unfolding undisturbed_def deployment_worlds
  using assms(1) [OF _ surjective_pairing] assms(2) [OF _ surjective_pairing] by simp

interpretation deployed_clock: clock_setting "deployment K elf d api" t fr
    "\<lambda>w. cluster_ok K elf view lay (fst w)"
    "\<lambda>n h w. cluster_shows view (target_state K t fr) n h (fst w)"
    "\<lambda>n h w. cluster_ready d view lay (target_state K t fr) n h (fst w)"
  for K :: "'w kernel" and elf :: elf_reader and d :: "string \<Rightarrow> bool" and api :: "'k cenv"
    and t :: gotime and fr :: bool and view :: "'w \<Rightarrow> pid \<Rightarrow> memory" and lay :: "'w \<Rightarrow> layout"
proof
  let ?E = "deployment K elf d api" and ?S = "target_state K t fr"
  note set = pool_SetTime_advances(1) [where d = d, unfolded advances_def]
    and inj = pool_Inject_advances(1) [where d = d, unfolded advances_def]
  fix n h
  show "undisturbed ?E t fr (\<lambda>w. cluster_ok K elf view lay (fst w))"
    by (rule undisturbed_cluster) (use set in blast, use inj in blast)
  show "undisturbed ?E t fr (\<lambda>w. cluster_ok K elf view lay (fst w) \<and> cluster_shows view ?S n h (fst w))"
    by (rule undisturbed_cluster) (use set in blast, use inj in blast)
  show "undisturbed ?E t fr (\<lambda>w. cluster_ok K elf view lay (fst w) \<and> cluster_ready d view lay ?S n h (fst w))"
    by (rule undisturbed_cluster) (use set in blast, use inj in blast)
next
  let ?E = "deployment K elf d api" and ?S = "target_state K t fr"
  fix w w' :: "'w cluster \<times> 'k" and n h cid u r
  assume ok: "cluster_ok K elf view lay (fst w)"
  show "cluster_shows view ?S n h (fst w')" if "ag_SetTime (ce_agents ?E) n h t fr w = (Inr u, w')"
    using pool_SetTime_advances(2) [OF ok _ refl] that by (cases w) (auto simp: on_cluster_eq pool_agents_def)
  show "cluster_shows view ?S n h (fst w')"
    if "cluster_ready d view lay ?S n h (fst w)" "ag_SetTime (ce_agents ?E) n h t fr w = (r, w')"
    using pool_SetTime_advances(3) [OF ok _ that(1)] that(2) by (cases w) (auto simp: on_cluster_eq pool_agents_def)
  show "cluster_shows view ?S n h (fst w')" if "ag_Inject (ce_agents ?E) n cid t fr w = (Inr h, w')"
    using pool_Inject_advances(2) [OF ok _ refl] that by (cases w) (auto simp: on_cluster_eq pool_agents_def)
qed

section \<open>Resets\<close>

abbreviation handle_real :: "'w kernel \<Rightarrow> ('w \<Rightarrow> pid \<Rightarrow> memory) \<Rightarrow> containerHandle \<Rightarrow> 'w cluster \<Rightarrow> bool" where
  "handle_real K view h cl \<equiv> cluster_shows view (real_state K) (ch_nodeIP h) (ch_agentHandle h) cl"

abbreviation resettable :: "'w kernel \<Rightarrow> (string \<Rightarrow> bool) \<Rightarrow> ('w \<Rightarrow> pid \<Rightarrow> memory) \<Rightarrow> ('w \<Rightarrow> layout)
    \<Rightarrow> containerHandle \<Rightarrow> 'w cluster \<Rightarrow> bool" where
  "resettable K d view lay h cl \<equiv> cluster_ready d view lay (real_state K) (ch_nodeIP h) (ch_agentHandle h) cl"

lemma reset_handle_real:
  assumes "cluster_ok K elf view lay cl" and "reset_handle (deployment K elf d api) h (cl, k) = (r, (cl', k'))"
  shows "k' = k \<and> advances K elf d view lay (real_state K) cl cl' \<and>
    (resettable K d view lay h cl \<longrightarrow> handle_real K view h cl')"
proof -
  obtain x cl1 where run: "pool_Reset K d (ch_nodeIP h) (ch_agentHandle h) cl = (x, cl1)" by (rule prod.exhaust)
  then have "cl' = cl1" "k' = k"
    using assms(2) by (auto simp: reset_handle_def on_cluster_def pool_agents_def split: sum.splits)
  with pool_Reset_advances [OF assms(1) run] show ?thesis by blast
qed

text \<open>Every handle of the list that can be reset is, whatever happens to the others.\<close>

lemma resets_real:
  "map_step (reset_handle (deployment K elf d api)) hs (cl, k) = (rs, (cl', k')) \<Longrightarrow> cluster_ok K elf view lay cl \<Longrightarrow>
    k' = k \<and> advances K elf d view lay (real_state K) cl cl' \<and>
    (\<forall>h \<in> set hs. resettable K d view lay h cl \<longrightarrow> handle_real K view h cl')"
proof (induction hs arbitrary: cl rs)
  case Nil
  then show ?case using advances_refl by fastforce
next
  case (Cons h hs)
  from Cons.prems(1) obtain r cl1 k1 rs1 where
    one: "reset_handle (deployment K elf d api) h (cl, k) = (r, (cl1, k1))"
    and rest: "map_step (reset_handle (deployment K elf d api)) hs (cl1, k1) = (rs1, (cl', k'))"
    unfolding map_step_Cons_eq by (metis surj_pair)
  note s = reset_handle_real [OF Cons.prems(2) one]
  then have k1: "k1 = k" and a: "advances K elf d view lay (real_state K) cl cl1" by blast+
  note IH = Cons.IH [OF rest [unfolded k1] advances_ok [OF a]]
  then have a': "advances K elf d view lay (real_state K) cl1 cl'" by blast
  from IH s a' show ?case using advances_trans [OF a a'] a unfolding advances_def by (auto; blast)
qed

lemma events_keep_cluster:
  "fst (postExpiryEvents (deployment K elf d api) s (c, (cl, k))) = cl"
proof -
  have loop: "fst (event_loop (deployment K elf d api) ns msg seen hs v) = fst v" for ns msg seen hs and v :: "'a cluster \<times> 'b"
    by (induction hs arbitrary: seen v) (auto simp: deployment_def split: prod.splits)
  have "fst (snd (ts_effectiveTime (deployment K elf d api) s (cl, k))) = cl"
    by (auto simp: ts_effectiveTime_def deployment_def on_kube_def split: prod.splits)
  then show ?thesis
    by (auto simp: postExpiryEvents_def loop Let_def split: prod.splits)
qed

lemma expire_one_real:
  assumes ok: "cluster_ok K elf view lay cl"
    and run: "expire_one (deployment K elf d api) s (c, (cl, k)) = (c', (cl', k'))"
  shows "advances K elf d view lay (real_state K) cl cl' \<and>
    (\<forall>h \<in> set (ts_handles s). resettable K d view lay h cl \<longrightarrow> handle_real K view h cl')"
proof -
  let ?E = "deployment K elf d api"
  let ?c = "add_active (-1) (c\<lparr>co_met := (co_met c)\<lparr>m_sweepExpired := m_sweepExpired (co_met c) + 1\<rparr>\<rparr>)"
  obtain k1 where "postExpiryEvents ?E s (?c, (cl, k)) = (cl, k1)"
    using events_keep_cluster [of K elf d api s ?c cl k] by (metis prod.collapse)
  moreover obtain rs cl2 k2 where m: "map_step (reset_handle ?E) (ts_handles s) (cl, k1) = (rs, (cl2, k2))"
    by (metis surj_pair)
  ultimately have "cl' = cl2" using run by (simp add: expire_one_def resetHandles_def Let_def)
  with resets_real [OF m ok] show ?thesis by blast
qed

lemma expire_all_real:
  "fold (expire_one (deployment K elf d api)) ss (c, (cl, k)) = (c', (cl', k')) \<Longrightarrow> cluster_ok K elf view lay cl \<Longrightarrow>
    advances K elf d view lay (real_state K) cl cl' \<and>
    (\<forall>s \<in> set ss. \<forall>h \<in> set (ts_handles s). resettable K d view lay h cl \<longrightarrow> handle_real K view h cl')"
proof (induction ss arbitrary: c cl k)
  case Nil
  then show ?case using advances_refl by fastforce
next
  case (Cons s ss)
  obtain c1 cl1 k1 where one: "expire_one (deployment K elf d api) s (c, (cl, k)) = (c1, (cl1, k1))" by (metis surj_pair)
  note s = expire_one_real [OF Cons.prems(2) one]
  then have a: "advances K elf d view lay (real_state K) cl cl1" by blast
  have "fold (expire_one (deployment K elf d api)) ss (c1, (cl1, k1)) = (c', (cl', k'))" using Cons.prems(1) one by simp
  note IH = Cons.IH [OF this advances_ok [OF a]]
  then have a': "advances K elf d view lay (real_state K) cl1 cl'" by blast
  from IH s a' show ?case using advances_trans [OF a a'] a unfolding advances_def by (auto; blast)
qed

section \<open>What the processes read\<close>

text \<open>The clock of the process behind a handle, as the hooked functions show it.\<close>

definition process_clock :: "('w \<Rightarrow> pid \<Rightarrow> memory) \<Rightarrow> 'w cluster \<Rightarrow> string \<Rightarrow> string \<Rightarrow> clock \<Rightarrow> bool" where
  "process_clock view cl n hid k \<longleftrightarrow>
     (\<exists>srv w p a. cl_nodes cl (node_addr (cl_pool cl) n) = Some (srv, w) \<and>
        structs srv hid = Some (p, a) \<and> hooked_clock (view w p) a k)"

lemma cluster_target_clock:
  assumes "cluster_shows view (target_state K t fr) n hid cl" and "fr \<or> clock_near K t"
  shows "\<exists>k. target_clock K t fr k \<and> process_clock view cl n hid k"
  using assms shows_target_hooked unfolding cluster_shows_def process_clock_def by fastforce

lemma cluster_real_clock:
  assumes "cluster_shows view (real_state K) n hid cl" and "\<forall>w. clock_near K (fst (k_now K w))"
  shows "\<exists>k. real_clock K k \<and> process_clock view cl n hid k"
  using assms shows_real_hooked unfolding cluster_shows_def process_clock_def by fastforce

end
