(* ===== verification/EndToEndClaims.thy ===== *)
theory EndToEndClaims
  imports ClusterTime RegistryClaims Processes
begin

text \<open>
  Properties that span the whole program: what a create, an update, a delete, an expiry and the
  shutdown of an agent mean for the clocks that the processes read through the injected code.
\<close>

section \<open>The demo cluster\<close>

definition demo_layout :: "demo \<Rightarrow> layout" where
  "demo_layout w = \<lparr>ly_vdso = (\<lambda>_. (0x7FFFF7FC1000, 0x7FFFF7FC3000)), ly_alive = (\<lambda>_. True)\<rparr>"

lemma demo_kernel_laws: "kernel_laws demo_kernel d_mem demo_layout"
proof -
  have "calm demo_kernel d_mem" "calm demo_kernel demo_layout"
    by (simp_all add: calm_def demo_kernel_def demo_layout_def)
  moreover have "clear_page (ly_vdso (demo_layout w) p) (Rax post)"
    if "mmap_answer demo_kernel d_mem p pa w post w4" for p pa w post w4
  proof -
    have "Rax post = demo_page" using that by (auto simp: mmap_answer_def demo_kernel_def demo_regs_def)
    then show ?thesis by (simp add: clear_page_def in_range_def demo_layout_def demo_page_def)
  qed
  moreover have "k_vm_writev demo_kernel p a bs w = (Inr (length bs), poke p a bs w)"
      "k_poketext demo_kernel p a bs w = (Inr (), poke p a bs w)" for p a bs w
    by (simp_all add: demo_kernel_def poke_def)
  ultimately show ?thesis
    using demo_mem_laws demo_vdso_range unfolding kernel_laws_def by (auto simp: demo_layout_def)
qed

lemma demo_clock_near: "0 \<le> t \<Longrightarrow> t < 2 ^ 62 \<Longrightarrow> clock_near demo_kernel t"
proof -
  have diff: "in_int64 (a - b)" if "0 \<le> a" "a < 2 ^ 62" "0 \<le> b" "b < 2 ^ 62" for a b
    using that by (simp add: in_int64_def min_duration_def max_duration_def)
  show "0 \<le> t \<Longrightarrow> t < 2 ^ 62 \<Longrightarrow> clock_near demo_kernel t"
    unfolding clock_near_def by (auto simp: demo_kernel_def intro!: diff)
qed

lemma demo_now_near: "\<forall>w. clock_near demo_kernel (fst (k_now demo_kernel w))"
  using demo_clock_near by (simp add: demo_kernel_def)

lemma demo_cluster_ok: "cluster_ok demo_kernel demo_elf d_mem demo_layout demo_cluster"
  unfolding cluster_ok_def using demo_kernel_laws
  by (auto simp: demo_cluster_def intro: agent_reach.start split: if_splits)

text \<open>After the create of \<open>DemoCluster\<close>: its one handle is up.\<close>

abbreviation demo_tid :: string where
  "demo_tid \<equiv> hex_encode (replicate 16 1)"

definition demo_created :: "gotime \<Rightarrow> bool \<Rightarrow> demo cluster \<Rightarrow> bool" where
  "demo_created t fr cl \<longleftrightarrow>
     createTimeshift demo_dep ''default'' ''app=web'' t 0 fr (newController None, (demo_cluster, demo_kube0)) =
     (Inr (demo_timeshift t fr),
      (register (demo_timeshift t fr) (count_inject True (newController None)), (cl, demo_kube0)))"

definition demo_ctl_created :: "gotime \<Rightarrow> bool \<Rightarrow> controller" where
  "demo_ctl_created t fr = register (demo_timeshift t fr) (count_inject True (newController None))"

definition demo_one :: containerHandle where
  "demo_one = \<lparr>ch_pod = ''web-0'', ch_container = ''app'', ch_nodeIP = ''10.0.0.1'',
     ch_containerID = ''containerd://0123456789abcdef0123'', ch_agentHandle = demo_hid\<rparr>"

lemma demo_handles: "ts_handles (demo_timeshift t fr) = [demo_one]"
  by (simp add: demo_timeshift_def new_timeshift_def demo_one_def)

lemma demo_registered: "co_timeshifts (demo_ctl_created t fr) = [(demo_tid, demo_timeshift t fr)]"
  by (simp add: demo_ctl_created_def register_def add_active_def count_inject_def newController_def Let_def
      demo_timeshift_def new_timeshift_def)

lemma demo_created_up:
  assumes "demo_created t fr cl"
  shows "cluster_ok demo_kernel demo_elf d_mem demo_layout cl"
    and "handle_up (\<lambda>_. True) demo_layout ''10.0.0.1'' demo_hid cl"
proof -
  note run = assms [unfolded demo_created_def]
  have h: "demo_one \<in> set (ts_handles (demo_timeshift t fr))" by (simp add: demo_handles)
  from deployed_clock.created_shows [OF run _ h, of d_mem demo_layout] demo_cluster_ok
  show "cluster_ok demo_kernel demo_elf d_mem demo_layout cl" by simp
  have "pool_live ''10.0.0.1'' demo_hid cl"
    using deployed.created_handles_live [OF run h] by (simp add: deployed.handle_live_def node_live_def demo_one_def)
  then obtain srv w where nd: "cl_nodes cl (node_addr (cl_pool cl) ''10.0.0.1'') = Some (srv, w)" "known srv demo_hid"
    by (auto simp: pool_live_def split: option.splits)
  then obtain p a where "structs srv demo_hid = Some (p, a)" unfolding structs_known by (cases "structs srv demo_hid") auto
  with nd show "handle_up (\<lambda>_. True) demo_layout ''10.0.0.1'' demo_hid cl"
    by (auto simp: handle_up_def node_up_def demo_layout_def demo_hid_def hex_encode_def)
qed

lemma demo_created_ex: "\<exists>cl. demo_created t fr cl"
  unfolding demo_created_def by (rule demo_create)

section \<open>A create\<close>

text \<open>
  C1. A successful create reaches the injected code: for every handle of the new timeshift the
  node's agent knows a process and a state struct in it, and there every hooked call for a wall
  clock stores the target, as a fixed instant when the timeshift is frozen and otherwise advancing
  from the target. An injection does not disturb another one, on the same node or even in the same
  process, and a container whose injection fails does not matter to the others.
\<close>

theorem create_reaches_processes:
  assumes "cluster_ok K elf view lay cl" and "fr \<or> clock_near K t"
    and "createTimeshift (deployment K elf dialable api) ns sel t ttl fr (c, (cl, k)) = (Inr s, (c', (cl', k')))"
    and "h \<in> set (ts_handles s)"
  shows "\<exists>clk. target_clock K t fr clk \<and> process_clock view cl' (ch_nodeIP h) (ch_agentHandle h) clk"
proof -
  have "cluster_shows view (target_state K t fr) (ch_nodeIP h) (ch_agentHandle h) cl'"
    using deployed_clock.created_shows [OF assms(3) _ assms(4), of view lay] assms(1) by simp
  with assms(2) show ?thesis by (intro cluster_target_clock)
qed

theorem create_reaches_processes_witness:
  "\<exists>s c' cl' k'. createTimeshift demo_dep ''default'' ''app=web'' 5 0 True
       (newController None, (demo_cluster, demo_kube0)) = (Inr s, (c', (cl', k'))) \<and>
     ts_handles s = [demo_one] \<and> process_clock d_mem cl' ''10.0.0.1'' demo_hid (Frozen 5)"
proof -
  obtain cl where "demo_created 5 True cl" using demo_created_ex by blast
  note run = this [unfolded demo_created_def]
  from create_reaches_processes [OF demo_cluster_ok _ run, of demo_one]
  have "process_clock d_mem cl ''10.0.0.1'' demo_hid (Frozen 5)"
    by (auto simp: demo_handles demo_one_def target_clock_def)
  with run demo_handles show ?thesis by blast
qed

section \<open>An update\<close>

text \<open>
  C2. An update reaches the injected code. A handle that the update replaced, because the agent
  had lost it, shows the target; a handle it kept shows the target when no SetTime failed, and,
  whatever happened to the other handles, when its node can be dialled, the agent knows the handle
  and the process is alive.
\<close>

theorem update_reaches_processes:
  assumes "cluster_ok K elf view lay cl" and "fr \<or> clock_near K t"
    and "updateTimeshift (deployment K elf dialable api) tid t fr (c, (cl, k)) = (Inr s', (c', (cl', k')))"
    and "map_of (co_timeshifts c) tid = Some s" and "h \<in> set (ts_handles s')"
    and "h \<in> set (ts_handles s) \<longrightarrow> m_setTimeError (co_met c') = m_setTimeError (co_met c) \<or>
      handle_up dialable lay (ch_nodeIP h) (ch_agentHandle h) cl"
  shows "\<exists>clk. target_clock K t fr clk \<and> process_clock view cl' (ch_nodeIP h) (ch_agentHandle h) clk"
proof -
  have "cluster_shows view (target_state K t fr) (ch_nodeIP h) (ch_agentHandle h) cl'"
    using deployed_clock.updated_shows [OF assms(3) _ assms(4,5), of view lay] assms(1,6) handle_up_ready by fastforce
  with assms(2) show ?thesis by (intro cluster_target_clock)
qed

lemma demo_update_created:
  assumes "demo_created 5 True cl"
  shows "\<exists>s' c' cl' k'. updateTimeshift demo_dep demo_tid t fr (demo_ctl_created 5 True, (cl, demo_kube0)) =
      (Inr s', (c', (cl', k'))) \<and> ts_handles s' = [demo_one]"
proof -
  let ?c = "demo_ctl_created 5 True"
  have s: "map_of (co_timeshifts ?c) demo_tid = Some (demo_timeshift 5 True)" by (simp add: demo_registered)
  obtain r c' cl' k' where run: "updateTimeshift demo_dep demo_tid t fr (?c, (cl, demo_kube0)) = (r, (c', (cl', k')))"
    by (metis surj_pair)
  then obtain s' where r: "r = Inr s'" "length (ts_handles s') = 1"
  proof (cases rule: updateTimeshift_cases)
    case (updated s0 us c1 w1 now w2 s1)
    have d: "distinct (map fst us)" using set_handles_indices [OF updated(2)] by blast
    have "s0 = demo_timeshift 5 True" using updated(1) s by simp
    with commit_handles(1) [OF d, of s0 t now fr] updated(4,5) that show ?thesis by (simp add: demo_handles)
  qed (use s in simp)
  have "deployed.handle_live (cl, demo_kube0) demo_one"
    using demo_created_up(2) [OF assms]
    by (auto simp: deployed.handle_live_def node_live_def handle_up_def pool_live_def node_up_def structs_known demo_one_def)
  with deployed.updated_handle [OF run [unfolded r(1)] s, of 0] have "ts_handles s' ! 0 = demo_one" by (simp add: demo_handles)
  with r(2) have "ts_handles s' = [demo_one]" by (cases "ts_handles s'") auto
  with run r(1) show ?thesis by blast
qed

theorem update_reaches_processes_witness:
  "\<exists>cl s' c' cl' k' clk. updateTimeshift demo_dep demo_tid 9 False (demo_ctl_created 5 True, (cl, demo_kube0)) =
      (Inr s', (c', (cl', k'))) \<and> ts_handles s' = [demo_one] \<and>
     target_clock demo_kernel 9 False clk \<and> process_clock d_mem cl' ''10.0.0.1'' demo_hid clk"
proof -
  obtain cl where cl: "demo_created 5 True cl" using demo_created_ex by blast
  obtain s' c' cl' k' where run: "updateTimeshift demo_dep demo_tid 9 False (demo_ctl_created 5 True, (cl, demo_kube0)) =
      (Inr s', (c', (cl', k')))" and hs: "ts_handles s' = [demo_one]"
    using demo_update_created [OF cl] by blast
  have s: "map_of (co_timeshifts (demo_ctl_created 5 True)) demo_tid = Some (demo_timeshift 5 True)"
    by (simp add: demo_registered)
  have near: "False \<or> clock_near demo_kernel 9" by (simp add: demo_clock_near)
  have h: "demo_one \<in> set (ts_handles s')" by (simp add: hs)
  from update_reaches_processes [OF demo_created_up(1) [OF cl] near run s h] demo_created_up(2) [OF cl]
  have "\<exists>clk. target_clock demo_kernel 9 False clk \<and> process_clock d_mem cl' ''10.0.0.1'' demo_hid clk"
    by (simp add: demo_one_def)
  with run hs show ?thesis by blast
qed

section \<open>A delete\<close>

text \<open>
  C3. A delete of a registered timeshift succeeds and removes it, and it sets back to real time
  every process that it can reach, whatever happens to the other handles: when the node can be
  dialled, its agent knows the handle and the process is alive, the process shows the kernel's
  clock afterwards, off only by what passed between two readings of it, one right after the other
  (any two readings are assumed to lie within 292 years of each other).
\<close>

theorem delete_restores_real_time:
  assumes "cluster_ok K elf view lay cl" and "\<forall>w. clock_near K (fst (k_now K w))"
    and "map_of (co_timeshifts c) tid = Some s" and "h \<in> set (ts_handles s)"
    and "handle_up dialable lay (ch_nodeIP h) (ch_agentHandle h) cl"
    and "deleteTimeshift (deployment K elf dialable api) tid (c, (cl, k)) = (e, (c', (cl', k')))"
  shows "e = None \<and> map_of (co_timeshifts c') tid = None \<and>
    (\<exists>clk. real_clock K clk \<and> process_clock view cl' (ch_nodeIP h) (ch_agentHandle h) clk)"
proof -
  let ?E = "deployment K elf dialable api"
  let ?c1 = "c\<lparr>co_timeshifts := AList.delete tid (co_timeshifts c)\<rparr>"
  obtain c2 w1 where p: "persist ?E (add_active (-1) ?c1, (cl, k)) = (c2, w1)" by (rule prod.exhaust)
  then have "fst w1 = cl"
    by (auto simp: persist_def flush_def deployment_def on_kube_eq Let_def
        split: option.splits sum.splits prod.splits if_splits)
  then obtain k1 where w1: "w1 = (cl, k1)" by (cases w1) simp
  obtain rs cl2 k2 where m: "map_step (reset_handle ?E) (ts_handles s) (cl, k1) = (rs, (cl2, k2))" by (metis surj_pair)
  then have "cl' = cl2" using assms(3,6) p by (auto simp: deleteTimeshift_def resetHandles_def Let_def w1)
  with resets_real [OF m assms(1)] assms(4) handle_up_ready [OF assms(5)] have "handle_real K view h cl'" by blast
  from cluster_real_clock [OF this assms(2)] deleteTimeshift_eq [OF assms(6)] assms(3) show ?thesis by simp
qed

theorem delete_restores_real_time_witness:
  "\<exists>cl c' cl' k' clk. deleteTimeshift demo_dep demo_tid (demo_ctl_created 5 True, (cl, demo_kube0)) = (None, (c', (cl', k'))) \<and>
     real_clock demo_kernel clk \<and> process_clock d_mem cl' ''10.0.0.1'' demo_hid clk"
proof -
  obtain cl where cl: "demo_created 5 True cl" using demo_created_ex by blast
  obtain e c' cl' k' where run: "deleteTimeshift demo_dep demo_tid (demo_ctl_created 5 True, (cl, demo_kube0)) =
      (e, (c', (cl', k')))"
    by (metis surj_pair)
  have s: "map_of (co_timeshifts (demo_ctl_created 5 True)) demo_tid = Some (demo_timeshift 5 True)"
    by (simp add: demo_registered)
  have h: "demo_one \<in> set (ts_handles (demo_timeshift 5 True))" by (simp add: demo_handles)
  have up: "handle_up (\<lambda>_. True) demo_layout (ch_nodeIP demo_one) (ch_agentHandle demo_one) cl"
    using demo_created_up(2) [OF cl] by (simp add: demo_one_def)
  from delete_restores_real_time [OF demo_created_up(1) [OF cl] demo_now_near s h up run] run show ?thesis
    by (auto simp: demo_one_def)
qed

section \<open>An expiry\<close>

text \<open>
  C4. A sweep after a timeshift has expired removes it and sets back to real time every process
  of it that can be reached, also when several timeshifts expire at once and whatever happens to
  the other handles: it shows the kernel's clock, off only by what passed between two readings of
  it, one right after the other (any two readings lie within 292 years of each other).
\<close>

theorem expiry_restores_real_time:
  assumes "cluster_ok K elf view lay cl" and "\<forall>w. clock_near K (fst (k_now K w))" and "registry_ok c"
    and "map_of (co_timeshifts c) tid = Some s" and "is_expired (fst (ce_now api k)) s" and "h \<in> set (ts_handles s)"
    and "handle_up dialable lay (ch_nodeIP h) (ch_agentHandle h) cl"
    and "sweepExpired (deployment K elf dialable api) (c, (cl, k)) = (c', (cl', k'))"
  shows "map_of (co_timeshifts c') tid = None \<and>
    (\<exists>clk. real_clock K clk \<and> process_clock view cl' (ch_nodeIP h) (ch_agentHandle h) clk)"
proof -
  let ?E = "deployment K elf dialable api"
  obtain now k1 where now: "ce_now api k = (now, k1)" by (rule prod.exhaust)
  then have E: "ce_now ?E (cl, k) = (now, (cl, k1))" by (simp add: deployment_def on_kube_def)
  let ?gone = "map snd (filter (\<lambda>kv. is_expired now (snd kv)) (co_timeshifts c))"
  let ?c1 = "c\<lparr>co_timeshifts := filter (\<lambda>kv. \<not> is_expired now (snd kv)) (co_timeshifts c)\<rparr>"
  have s: "s \<in> set ?gone" using map_of_SomeD [OF assms(4)] assms(5) now by force
  obtain c2 w2 where p: "persist ?E (?c1, (cl, k1)) = (c2, w2)" by (rule prod.exhaust)
  then have "fst w2 = cl"
    by (auto simp: persist_def flush_def deployment_def on_kube_eq Let_def
        split: option.splits sum.splits prod.splits if_splits)
  then obtain k2 where w2: "w2 = (cl, k2)" by (cases w2) simp
  obtain c3 cl3 k3 where fold: "fold (expire_one ?E) ?gone (c2, (cl, k2)) = (c3, (cl3, k3))" by (metis surj_pair)
  have "?gone \<noteq> []" using s by (metis empty_iff list.set(1))
  then have "sweepExpired ?E (c, (cl, k)) = (c3, (cl3, k3))"
    using fold by (simp add: sweepExpired_def E p w2 Let_def)
  with assms(8) have "cl' = cl3" by simp
  with expire_all_real [OF fold assms(1)] s assms(6) handle_up_ready [OF assms(7)] have "handle_real K view h cl'" by blast
  moreover have "wf_map (co_timeshifts c)" using assms(3) by (simp add: registry_ok_def well_keyed_def)
  then have "map_of (co_timeshifts c') tid = None"
    using sweepExpired_eq [OF assms(8) E] assms(4,5) now
      map_of_filter_keys [of "co_timeshifts c" "\<lambda>s. \<not> is_expired now s" tid] by simp
  ultimately show ?thesis using cluster_real_clock assms(2) by blast
qed

text \<open>The demo controller with a timeshift whose time has run out.\<close>

definition overdue :: timeshift where
  "overdue = (demo_timeshift 5 True)\<lparr>ts_ttl := 1, ts_expiresAt := 5\<rparr>"

definition overdue_ctl :: controller where
  "overdue_ctl = (newController None)\<lparr>co_timeshifts := [(demo_tid, overdue)],
     co_met := (co_met (newController None))\<lparr>m_timeshiftsActive := 1\<rparr>\<rparr>"

theorem expiry_restores_real_time_witness:
  "\<exists>cl c' cl' k' clk. sweepExpired demo_dep (overdue_ctl, (cl, demo_kube0)) = (c', (cl', k')) \<and>
     map_of (co_timeshifts c') demo_tid = None \<and>
     real_clock demo_kernel clk \<and> process_clock d_mem cl' ''10.0.0.1'' demo_hid clk"
proof -
  obtain cl where cl: "demo_created 5 True cl" using demo_created_ex by blast
  obtain c' cl' k' where run: "sweepExpired demo_dep (overdue_ctl, (cl, demo_kube0)) = (c', (cl', k'))"
    by (metis surj_pair)
  have ok: "registry_ok overdue_ctl"
    by (simp add: registry_ok_def overdue_ctl_def overdue_def well_keyed_def wf_map_def demo_timeshift_def new_timeshift_def)
  have s: "map_of (co_timeshifts overdue_ctl) demo_tid = Some overdue" by (simp add: overdue_ctl_def)
  have ex: "is_expired (fst (ce_now demo_api demo_kube0)) overdue"
    by (simp add: is_expired_def demo_api_def demo_kube0_def overdue_def time_IsZero_def zero_time_def second_def time_After_def)
  have h: "demo_one \<in> set (ts_handles overdue)" by (simp add: overdue_def demo_handles)
  have up: "handle_up (\<lambda>_. True) demo_layout (ch_nodeIP demo_one) (ch_agentHandle demo_one) cl"
    using demo_created_up(2) [OF cl] by (simp add: demo_one_def)
  from expiry_restores_real_time [OF demo_created_up(1) [OF cl] demo_now_near ok s ex h up run] run show ?thesis
    by (auto simp: demo_one_def)
qed

section \<open>The shutdown of an agent\<close>

text \<open>
  C5. When an agent shuts down after a signal, and within its grace period, it sets every process
  it injected that is still there back to real time, whatever calls it has served and whatever
  happened to the other processes: the process shows the kernel's clock, off only by what passed
  between two readings of it, one right after the other (any two readings lie within 292 years of
  each other).
\<close>

theorem shutdown_restores_real_time:
  assumes "kernel_laws K view lay" and "\<forall>w. clock_near K (fst (k_now K w))"
    and "parse_args [(''listen'', StringFlag)] args = Inr fs"
    and "agent_main K elf lis False (\<lambda>_. False) args rpcs w = (Exited 0, (srv, w'))"
    and "structs srv hid = Some (p, a)" and "ly_alive (lay w') p"
  shows "\<exists>clk. real_clock K clk \<and> hooked_clock (view w' p) a clk"
proof -
  obtain w1 where "(srv, w') = drain K (\<lambda>_. False) (fold (agent_serve K elf) rpcs (newServer, w1))"
    using agent_main_served [OF assms(4,3)] by blast
  moreover obtain srv0 w0 where st: "fold (agent_serve K elf) rpcs (newServer, w1) = (srv0, w0)" by (rule prod.exhaust)
  ultimately have run: "drain K (\<lambda>_. False) (srv0, w0) = (srv, w')" by simp
  have reach: "agent_reach K elf lay (srv0, w0)"
    using agent_reach_served [OF agent_reach.start, of K elf lay rpcs w1] st by simp
  have same: "structs srv = structs srv0"
    using drain_structs [of srv0 K "\<lambda>_. False" w0] agent_reach_wf [OF reach] run by simp
  note drained = drain_effect [OF assms(1) reach run]
  have "node_up lay (srv0, w0) hid"
    using assms(5,6) drained(1) by (simp add: node_up_def same retimes_def)
  from shows_real_hooked [OF drained(2) [OF this] assms(2)] assms(5) show ?thesis by simp
qed

text \<open>An agent that injects a container and is then told to stop.\<close>

theorem shutdown_restores_real_time_witness:
  "\<exists>srv w' p a clk. agent_main demo_kernel demo_elf (\<lambda>l w. (None, w)) False (\<lambda>_. False) []
       [RpcInject ''containerd://0123456789abcdef0123'' (Some 5) True] demo_world = (Exited 0, (srv, w')) \<and>
     structs srv demo_hid = Some (p, a) \<and> real_clock demo_kernel clk \<and> hooked_clock (d_mem w' p) a clk"
proof -
  let ?rpcs = "[RpcInject ''containerd://0123456789abcdef0123'' (Some 5) True]"
  obtain srv0 w0 where inj: "agent_Inject demo_kernel demo_elf ''containerd://0123456789abcdef0123'' (Some 5) True
      (newServer, demo_world) = (Inr demo_hid, (srv0, w0))"
    using demo_agent_inject by blast
  obtain srv w' where dr: "drain demo_kernel (\<lambda>_. False) (srv0, w0) = (srv, w')" by (rule prod.exhaust)
  have p: "parse_args [(''listen'', StringFlag)] [] = Inr \<lparr>fs_values = [], fs_args = []\<rparr>"
    by (simp add: parse_args_def)
  have run: "agent_main demo_kernel demo_elf (\<lambda>l w. (None, w)) False (\<lambda>_. False) [] ?rpcs demo_world = (Exited 0, (srv, w'))"
    by (simp add: agent_main_def p inj dr)
  have "agent_reach demo_kernel demo_elf demo_layout (srv0, w0)"
    using agent_reach.serve [OF agent_reach.start, of demo_kernel demo_elf demo_layout "hd ?rpcs" demo_world] inj by simp
  then have "structs srv = structs srv0"
    using drain_structs [of srv0 demo_kernel "\<lambda>_. False" w0] agent_reach_wf dr by fastforce
  moreover have "known srv0 demo_hid" by (rule agent_Inject_issues [OF inj])
  ultimately obtain q a where s: "structs srv demo_hid = Some (q, a)" unfolding structs_known by auto
  have "ly_alive (demo_layout w') q" by (simp add: demo_layout_def)
  from shutdown_restores_real_time [OF demo_kernel_laws demo_now_near p run s this] run s show ?thesis by blast
qed

end
