(* ===== verification/DiscoveryClaims.thy ===== *)
theory DiscoveryClaims
  imports K8sresolve Demo
begin

text \<open>
  The properties of the two searches an injection starts with: the init process of a container
  (pkg/k8sresolve) and the clock functions in the vDSO of a process (pkg/vdso).
\<close>

section \<open>The init process of a container\<close>

text \<open>A container is named by its id, with or without the prefix of its runtime.\<close>

definition names_container :: "string \<Rightarrow> string \<Rightarrow> bool" where
  "names_container containerID cid \<longleftrightarrow>
     CHR '':'' \<notin> set cid \<and>
     (containerID = cid \<or> (\<exists>runtime. CHR '':'' \<notin> set runtime \<and> containerID = runtime @ ''://'' @ cid))"

lemma Index_no_scheme: "CHR '':'' \<notin> set s \<Longrightarrow> Index s ''://'' = None"
  by (induction s) (auto simp: has_prefix_def)

lemma names_container_strip: "names_container containerID cid \<Longrightarrow> stripRuntimePrefix containerID = cid"
  using stripRuntimePrefix_scheme [of _ cid]
  by (auto simp: names_container_def stripRuntimePrefix_def Index_no_scheme)

text \<open>The processes of /proc whose cgroup file mentions the first 20 characters of the id.\<close>

definition container_pids :: "(string \<Rightarrow> errno + string) \<Rightarrow> string list \<Rightarrow> string \<Rightarrow> pid set" where
  "container_pids cg entries cid = {pid. \<exists>name \<in> set entries. is_match cg (take 20 cid) name pid}"

lemma LookupPID_eq:
  assumes "stable_cgroups K cg" and "k_proc_dir K w = (Inr entries, w1)"
    and "stripRuntimePrefix containerID = cid" and "8 \<le> length cid"
  shows "LookupPID K containerID w =
    (if container_pids cg entries cid = {}
     then Inl (Msg (''k8sresolve: no process found for container '' @ displayID cid))
     else Inr (Min (container_pids cg entries cid)), w1)"
proof -
  have prefix: "(if 20 < length cid then take 20 cid else cid) = take 20 cid" by simp
  obtain pids where m: "matching_pids K (take 20 cid) entries w1 = (pids, w1)"
    and pids: "set pids = container_pids cg entries cid"
    using matching_pids_set [OF assms(1), of "take 20 cid" entries w1]
    unfolding container_pids_def by (metis prod.collapse fst_conv)
  show ?thesis
    using assms(2-4) m pids hd_sort_Min [of pids]
    by (cases pids) (auto simp: LookupPID_def Let_def prefix simp flip: pids)
qed

lemma finite_container_pids: "finite (container_pids cg entries cid)"
proof -
  have "container_pids cg entries cid \<subseteq> (\<lambda>name. the (Atoi name)) ` set entries"
    by (force simp: container_pids_def is_match_def)
  then show ?thesis by (rule finite_subset) simp
qed

text \<open>
  C14. The process found for a container is its init process: while the cgroup files stand
  still, \<open>LookupPID\<close> returns a pid exactly if it is the lowest among the processes above pid 1
  whose cgroup file mentions the (first 20 characters of the) container id, and it fails
  exactly if there is none; the prefix of the container runtime makes no difference. The id has
  at least 8 characters, below which \<open>LookupPID\<close> refuses it.
\<close>

theorem lookup_finds_init_process:
  assumes "stable_cgroups K cg" and "k_proc_dir K w = (Inr entries, w1)"
    and "names_container containerID cid" and "8 \<le> length cid"
  shows "(LookupPID K containerID w = (Inr pid, w1) \<longleftrightarrow>
      pid \<in> container_pids cg entries cid \<and> (\<forall>q \<in> container_pids cg entries cid. pid \<le> q)) \<and>
    ((\<exists>e. LookupPID K containerID w = (Inl e, w1)) \<longleftrightarrow> container_pids cg entries cid = {})"
proof -
  note [simp] = LookupPID_eq [OF assms(1,2) names_container_strip [OF assms(3)] assms(4)]
  note fin = finite_container_pids [of cg entries cid]
  show ?thesis
    using Min_in [OF fin] Min_le [OF fin] by (auto intro: Min_eqI [OF fin])
qed

text \<open>Three processes, two of them in the container; 9 sorts behind 41 as text.\<close>

definition proc_kernel :: "demo kernel" where
  "proc_kernel = demo_kernel\<lparr>
     k_proc_dir := (\<lambda>w. (Inr [''1'', ''41'', ''7'', ''9'', ''self''], w)),
     k_cgroup := (\<lambda>name w. (if name = ''7'' then Inl ENOENT
       else if name = ''41'' then Inr ''0::/kubepods/abcdef0123456789/sub''
       else Inr ''0::/kubepods/abcdef0123456789'', w))\<rparr>"

definition proc_cgroups :: "string \<Rightarrow> errno + string" where
  "proc_cgroups name = (if name = ''7'' then Inl ENOENT
     else if name = ''41'' then Inr ''0::/kubepods/abcdef0123456789/sub''
     else Inr ''0::/kubepods/abcdef0123456789'')"

lemma proc_pids:
  "container_pids proc_cgroups [''1'', ''41'', ''7'', ''9'', ''self''] ''abcdef0123456789'' = {9, 41}"
proof -
  have atoi: "Atoi ''1'' = Some 1" "Atoi ''41'' = Some 41" "Atoi ''9'' = Some 9" "Atoi ''self'' = None"
    by (simp_all add: Atoi_def Let_def has_prefix_def dec_digit_def)
  have "Contains ''0::/kubepods/abcdef0123456789/sub'' ''abcdef0123456789''"
    "Contains ''0::/kubepods/abcdef0123456789'' ''abcdef0123456789''"
    by (simp_all add: Contains_def has_prefix_def)
  with atoi show ?thesis by (auto simp: container_pids_def is_match_def proc_cgroups_def)
qed

theorem lookup_finds_init_process_witness:
  "LookupPID proc_kernel ''containerd://abcdef0123456789'' demo_world = (Inr 9, demo_world)"
proof -
  have stable: "stable_cgroups proc_kernel proc_cgroups"
    by (simp add: stable_cgroups_def proc_kernel_def proc_cgroups_def)
  have dir: "k_proc_dir proc_kernel demo_world = (Inr [''1'', ''41'', ''7'', ''9'', ''self''], demo_world)"
    by (simp add: proc_kernel_def)
  have "names_container (''containerd'' @ ''://'' @ ''abcdef0123456789'') ''abcdef0123456789''"
    unfolding names_container_def by (intro conjI disjI2 exI [of _ "''containerd''"]) simp_all
  then have names: "names_container ''containerd://abcdef0123456789'' ''abcdef0123456789''" by simp
  from lookup_finds_init_process [OF stable dir names, of 9] show ?thesis by (simp add: proc_pids)
qed

section \<open>The clock functions in the vDSO\<close>

text \<open>
  The value of a function in the symbol table: the last entry under its plain name, or, if the
  table has none, the last entry under its \<open>__vdso_\<close> name.
\<close>

definition vdso_symbol :: "(string \<times> 64 word) list \<Rightarrow> string \<Rightarrow> 64 word option" where
  "vdso_symbol syms n =
     (case last_sym n syms of Some v \<Rightarrow> Some v | None \<Rightarrow> last_sym (''__vdso_'' @ n) syms)"

lemma resolveSymbol_vdso_symbol:
  assumes "fname = ''__vdso_'' @ pname" and "pname \<noteq> fname"
  shows "resolveSymbol syms pname fname = (case vdso_symbol syms pname of
      Some v \<Rightarrow> Inr v | None \<Rightarrow> Inl (Msg ''vdso: symbol not found in dynamic symbol table''))"
  using assms by (auto simp: resolveSymbol_eq vdso_symbol_def split: option.splits)

lemma resolve_all_iff:
  "resolve_all start stop syms = Inr info \<longleftrightarrow>
     v_Start info = start \<and> v_End info = stop \<and>
     (\<exists>c g t. vdso_symbol syms ''clock_gettime'' = Some c \<and> vdso_symbol syms ''gettimeofday'' = Some g \<and>
       vdso_symbol syms ''time'' = Some t \<and>
       ClockGettimeAddr info = start + c \<and> GettimeofdayAddr info = start + g \<and> TimeAddr info = start + t \<and>
       (\<forall>v \<in> {c, g, t}. in_range start stop (start + v)))"
  using resolveSymbol_vdso_symbol [of "''__vdso_clock_gettime''" "''clock_gettime''" syms]
    resolveSymbol_vdso_symbol [of "''__vdso_gettimeofday''" "''gettimeofday''" syms]
    resolveSymbol_vdso_symbol [of "''__vdso_time''" "''time''" syms]
  by (cases info) (auto simp: resolve_all_def Let_def split: option.splits if_splits)

text \<open>The range of the vDSO is that of the first line of the maps file whose path is \<open>[vdso]\<close>.\<close>

definition vdso_mapping :: "string list \<Rightarrow> addr \<Rightarrow> addr \<Rightarrow> bool" where
  "vdso_mapping ls start stop \<longleftrightarrow>
     (\<exists>pre l post. ls = pre @ l # post \<and> (\<forall>x \<in> set pre. vdso_line x = None) \<and>
        vdso_line l = Some (Inr (start, stop)))"

lemma scan_vdso_iff: "scan_vdso ls = Inr (start, stop) \<longleftrightarrow> vdso_mapping ls start stop"
proof
  assume "scan_vdso ls = Inr (start, stop)"
  then show "vdso_mapping ls start stop"
  proof (induction ls)
    case Nil
    then show ?case by simp
  next
    case (Cons l ls)
    show ?case
    proof (cases "vdso_line l")
      case None
      with Cons obtain pre m post where "ls = pre @ m # post" "\<forall>x \<in> set pre. vdso_line x = None"
        "vdso_line m = Some (Inr (start, stop))"
        by (auto simp: vdso_mapping_def)
      with None show ?thesis
        unfolding vdso_mapping_def by (intro exI [of _ "l # pre"] exI [of _ m] exI [of _ post]) simp
    next
      case (Some r)
      with Cons.prems show ?thesis unfolding vdso_mapping_def
        by (intro exI [of _ "[]"] exI [of _ l] exI [of _ ls]) simp
    qed
  qed
next
  assume "vdso_mapping ls start stop"
  then show "scan_vdso ls = Inr (start, stop)" by (auto simp: vdso_mapping_def intro: scan_vdso_first)
qed

text \<open>
  C13. \<open>Locate\<close> succeeds exactly if the process has a [vdso] mapping whose whole image can be
  read, and its symbol table has the three clock functions inside the mapping; what it returns
  is the range and, for each function, the start plus the value of its last symbol, the plain
  name preferred to the \<open>__vdso_\<close> name. The maps file and the memory can be read without an
  error, possibly short.
\<close>

theorem locate_resolves_clock_functions:
  assumes "k_maps K pid w = (Inr ls, w1)"
    and "\<And>start stop. vdso_mapping ls start stop \<Longrightarrow>
      k_read_procmem K pid start (unat (stop - start)) w1 = (Inr (img start stop), w2)"
  shows "Locate K elf pid w = (Inr info, w2) \<longleftrightarrow>
    (\<exists>start stop syms c g t. vdso_mapping ls start stop \<and>
       length (img start stop) = unat (stop - start) \<and> elf (img start stop) = Inr syms \<and>
       vdso_symbol syms ''clock_gettime'' = Some c \<and> vdso_symbol syms ''gettimeofday'' = Some g \<and>
       vdso_symbol syms ''time'' = Some t \<and>
       (\<forall>v \<in> {c, g, t}. in_range start stop (start + v)) \<and>
       info = \<lparr>v_Start = start, v_End = stop, ClockGettimeAddr = start + c,
               GettimeofdayAddr = start + g, TimeAddr = start + t\<rparr>)"
proof (cases "scan_vdso ls")
  case (Inl e)
  then have "\<not> vdso_mapping ls start stop" for start stop using scan_vdso_iff [of ls start stop] by simp
  with Inl show ?thesis by (simp add: Locate_def attempt_def findVDSORange_def assms(1))
next
  case (Inr r)
  obtain start stop where r: "r = (start, stop)" by fastforce
  have m: "vdso_mapping ls s e \<longleftrightarrow> s = start \<and> e = stop" for s e
    using scan_vdso_iff [of ls s e] Inr r by auto
  have "Locate K elf pid w = (Inr info, w2) \<longleftrightarrow>
      length (img start stop) = unat (stop - start) \<and>
      (\<exists>syms. elf (img start stop) = Inr syms \<and> resolve_all start stop syms = Inr info)"
    using assms(2) [of start stop]
    by (auto simp: Locate_def attempt_def findVDSORange_def assms(1) Inr r m readProcMem_def split: sum.splits)
  also have "\<dots> \<longleftrightarrow> (\<exists>s e syms c g t. vdso_mapping ls s e \<and> length (img s e) = unat (e - s) \<and>
      elf (img s e) = Inr syms \<and>
      vdso_symbol syms ''clock_gettime'' = Some c \<and> vdso_symbol syms ''gettimeofday'' = Some g \<and>
      vdso_symbol syms ''time'' = Some t \<and> (\<forall>v \<in> {c, g, t}. in_range s e (s + v)) \<and>
      info = \<lparr>v_Start = s, v_End = e, ClockGettimeAddr = s + c, GettimeofdayAddr = s + g, TimeAddr = s + t\<rparr>)"
    by (cases info) (auto simp: m resolve_all_iff)
  finally show ?thesis .
qed

theorem locate_resolves_clock_functions_witness:
  "\<exists>info. Locate demo_kernel demo_elf 42 demo_world = (Inr info, demo_world) \<and>
     ClockGettimeAddr info = 0x7FFFF7FC1900 \<and> TimeAddr info = 0x7FFFF7FC18D0"
proof -
  let ?mem = "\<lambda>start stop. read_bytes (d_mem demo_world 42) start (unat (stop - start :: addr))"
  let ?info = "\<lparr>v_Start = 0x7FFFF7FC1000, v_End = 0x7FFFF7FC3000, ClockGettimeAddr = 0x7FFFF7FC1900,
    GettimeofdayAddr = 0x7FFFF7FC1600, TimeAddr = 0x7FFFF7FC18D0\<rparr>"
  have maps: "k_maps demo_kernel 42 demo_world = (Inr demo_maps, demo_world)" by (simp add: demo_kernel_def)
  have "vdso_mapping demo_maps 0x7FFFF7FC1000 0x7FFFF7FC3000"
    using demo_vdso_range [of 42 demo_world] by (simp add: scan_vdso_iff findVDSORange_def maps)
  then have "\<exists>start stop syms c g t. vdso_mapping demo_maps start stop \<and>
       length (?mem start stop) = unat (stop - start) \<and> demo_elf (?mem start stop) = Inr syms \<and>
       vdso_symbol syms ''clock_gettime'' = Some c \<and> vdso_symbol syms ''gettimeofday'' = Some g \<and>
       vdso_symbol syms ''time'' = Some t \<and>
       (\<forall>v \<in> {c, g, t}. in_range start stop (start + v)) \<and>
       ?info = \<lparr>v_Start = start, v_End = stop, ClockGettimeAddr = start + c,
               GettimeofdayAddr = start + g, TimeAddr = start + t\<rparr>"
    by (intro exI [of _ "0x7FFFF7FC1000"] exI [of _ "0x7FFFF7FC3000"] exI [of _ "0x900"]
        exI [of _ "0x600"] exI [of _ "0x8D0"]
        exI [of _ "[(''clock_gettime'', 0x900), (''gettimeofday'', 0x600), (''__vdso_time'', 0x8D0)]"])
      (simp add: demo_elf_def vdso_symbol_def last_sym_def in_range_def word_le_nat_alt word_less_nat_alt)
  note found = this
  have mem: "k_read_procmem demo_kernel 42 start (unat (stop - start)) demo_world =
      (Inr (?mem start stop), demo_world)" for start stop :: addr
    by (simp add: demo_kernel_def)
  have "Locate demo_kernel demo_elf 42 demo_world = (Inr ?info, demo_world)"
    by (rule locate_resolves_clock_functions [THEN iffD2, OF maps mem found])
  then show ?thesis by simp
qed

end
