(* ===== verification/RunnerClaims.thy ===== *)
theory RunnerClaims
  imports Runner TrackerInv Demo
begin

text \<open>
  The watch loop of \<open>faketimectl run --track\<close>: its invariant and what a turn does to the handles.
\<close>

section \<open>The invariant of the loop\<close>

definition watch_ok :: "pid \<Rightarrow> watch \<Rightarrow> bool" where
  "watch_ok parentPID l \<longleftrightarrow>
     ih_PID (wl_parentIH l) = parentPID \<and> wf_map (wl_childHandles l) \<and>
     (\<forall>(p, h) \<in> set (wl_childHandles l). ih_PID h = p)"

lemma watch_ok_irrelevant [simp]:
  "watch_ok parent (l\<lparr>wl_tracer := t\<rparr>) = watch_ok parent l"
  "watch_ok parent (l\<lparr>wl_pendingStop := m\<rparr>) = watch_ok parent l"
  "watch_ok parent (l\<lparr>wl_log := msgs\<rparr>) = watch_ok parent l"
  by (simp_all add: watch_ok_def)

lemma watch_ok_parent: "watch_ok parent l \<Longrightarrow> ih_PID h = parent \<Longrightarrow> watch_ok parent (l\<lparr>wl_parentIH := h\<rparr>)"
  by (simp add: watch_ok_def)

lemma watch_ok_child:
  assumes "watch_ok parent l" and "ih_PID h = p"
  shows "watch_ok parent (l\<lparr>wl_childHandles := AList.update p h (wl_childHandles l)\<rparr>)"
  using assms by (auto simp: watch_ok_def set_update_alist)

lemma watch_ok_exit:
  "watch_ok parent l \<Longrightarrow> watch_ok parent (l\<lparr>wl_childHandles := AList.delete p (wl_childHandles l)\<rparr>)"
  by (auto simp: watch_ok_def delete_filter wf_map_def distinct_map_filter)

text \<open>The tracer's own steps leave the handles alone.\<close>

lemma wl_with_tracer_ok:
  "watch_ok parent (fst ws) \<Longrightarrow> wl_with_tracer m ws = (r, ws') \<Longrightarrow> watch_ok parent (fst ws')"
  by (auto simp: wl_with_tracer_def split: prod.splits)

lemma wl_ignored_ok: "watch_ok parent (fst ws) \<Longrightarrow> watch_ok parent (fst (ignore_err (wl_with_tracer m) ws))"
  unfolding ignore_err_def by (rule wl_with_tracer_ok [OF _ prod.collapse [symmetric]])

lemma wl_cont_ok: "watch_ok parent (fst ws) \<Longrightarrow> watch_ok parent (fst (wl_cont K pid sg ws))"
  unfolding wl_cont_def by (rule wl_ignored_ok)

lemma wl_say_ok [simp]: "watch_ok parent (fst (wl_say msg ws)) = watch_ok parent (fst ws)"
  by (simp add: wl_say_def split: prod.splits)

lemma wl_fork_ok:
  assumes "watch_ok parent (fst ws)"
  shows "watch_ok parent (fst (wl_fork K parent pid ws))"
proof -
  obtain x l w where t: "wl_with_tracer (GetEventMsgPID K pid) ws = (x, (l, w))" by (metis prod.exhaust)
  have ok: "watch_ok parent l" using wl_with_tracer_ok [OF assms t] by simp
  have "ih_PID (ChildHandle src p) = p" for src p by (simp add: ChildHandle_def)
  from watch_ok_child [OF ok this] ok show ?thesis
    by (auto simp: wl_fork_def t Let_def intro!: wl_cont_ok split: sum.splits option.splits)
qed

lemma wl_ignored_children [simp]:
  "wl_childHandles (fst (ignore_err (wl_with_tracer m) ws)) = wl_childHandles (fst ws)"
  by (simp add: ignore_err_def wl_with_tracer_def split: prod.splits)

lemma wl_cleanup_children [simp]: "wl_childHandles (fst (wl_cleanup K ws)) = wl_childHandles (fst ws)"
  by (simp add: wl_cleanup_def)

text \<open>A re-injection answers with a handle of the process that called exec.\<close>

lemma reInject_mode_pid:
  assumes "(if frozen then ReInjectFrozenAfterExec K elf parent pid t
    else ReInjectAtTimeAfterExec K elf parent pid t) tw = (Inr h, tw')"
  shows "ih_PID h = pid"
  using assms by (auto simp: ReInjectFrozenAfterExec_def ReInjectAtTimeAfterExec_def
      dest: reInject_pid split: if_splits prod.splits)

lemma wl_exec_ok:
  assumes "watch_ok parent (fst ws)"
  shows "watch_ok parent (fst (wl_exec K elf parent target off frozen pid ws))"
proof -
  obtain l w where ws: "ws = (l, w)" by fastforce
  obtain t w1 where tgt: "wl_target K target off frozen w = (t, w1)" by fastforce
  let ?m = "if frozen then ReInjectFrozenAfterExec K elf parent pid t
    else ReInjectAtTimeAfterExec K elf parent pid t"
  obtain x l2 w2 where t: "wl_with_tracer ?m (l, w1) = (x, (l2, w2))" by (metis prod.exhaust)
  have ok: "watch_ok parent l2" using wl_with_tracer_ok [OF _ t] assms by (simp add: ws)
  have "ih_PID h = pid" if "x = Inr h" for h
    using t that by (auto simp: wl_with_tracer_def dest!: reInject_mode_pid split: prod.splits)
  with ok show ?thesis
    by (auto simp: wl_exec_def ws tgt t intro!: wl_cont_ok watch_ok_parent watch_ok_child
        split: sum.splits)
qed

lemma wl_event_ok:
  assumes "watch_ok parent (fst ws)"
  shows "watch_ok parent (fst (wl_event K elf parent target off frozen pid st ws))"
  using assms wl_fork_ok [OF assms] wl_exec_ok [OF assms]
  by (cases ws) (simp add: wl_event_def watch_ok_exit wl_cont_ok wl_ignored_ok)

lemma wl_loop_ok:
  "watch_ok parent (fst ws) \<Longrightarrow> wl_loop K elf parent target off frozen n ws = (e, ws') \<Longrightarrow>
     watch_ok parent (fst ws')"
proof (induction n arbitrary: ws)
  case 0
  then show ?case by simp
next
  case (Suc n)
  obtain x l w where t: "wl_with_tracer (WaitAnyNonBlocking K) ws = (x, (l, w))" by (metis prod.exhaust)
  have ok: "watch_ok parent (fst (l, w))" using wl_with_tracer_ok [OF Suc.prems(1) t] by simp
  note ev = wl_event_ok [OF ok]
  show ?case
  proof (cases x)
    case (Inl err)
    with Suc.prems(2) ok show ?thesis by (auto simp: wl_turn_def t)
  next
    case (Inr pst)
    with Suc.prems(2) Suc.IH [OF ok] Suc.IH [OF ev] show ?thesis
      by (cases pst) (auto simp: wl_turn_def t split: if_splits)
  qed
qed

lemma wl_cleanup_ok: "watch_ok parent (fst ws) \<Longrightarrow> watch_ok parent (fst (wl_cleanup K ws))"
  by (simp add: wl_cleanup_def wl_ignored_ok)

section \<open>The handles of the tracked command\<close>

text \<open>
  C29. While \<open>run --track\<close> watches a command, whatever fork, exec, exit and signal stops the
  kernel reports and however often the loop comes around, the handle of the command keeps
  addressing the command and each handle of a child addresses that child, one handle per child:
  a fork takes the pid the kernel names, a re-injection after exec that of the process that
  called it.
\<close>

theorem watched_handles_address_their_process:
  assumes "ih_PID h = parentPID"
    and "runWatchLoop K elf tr parentPID h target injectOffset frozen turns w = (e, (l, w'))"
  shows "ih_PID (wl_parentIH l) = parentPID \<and>
    (\<forall>p ch. map_of (wl_childHandles l) p = Some ch \<longrightarrow> ih_PID ch = p) \<and>
    distinct (map fst (wl_childHandles l))"
proof -
  let ?l0 = "\<lparr>wl_tracer = tr, wl_parentIH = h, wl_childHandles = [], wl_pendingStop = [], wl_log = []\<rparr>"
  obtain e1 ws where run: "wl_loop K elf parentPID target injectOffset frozen turns (?l0, w) = (e1, ws)"
    by (rule prod.exhaust)
  have "watch_ok parentPID (fst (?l0, w))" by (simp add: watch_ok_def assms(1) wf_map_def)
  from wl_cleanup_ok [OF wl_loop_ok [OF this run], of K] assms(2) run have "watch_ok parentPID l"
    by (simp add: runWatchLoop_def)
  then show ?thesis by (auto simp: watch_ok_def wf_map_def dest: map_of_SomeD)
qed

text \<open>A kernel that reports a fork of the command, child 43, in every turn.\<close>

definition forking_kernel :: "demo kernel" where
  "forking_kernel = demo_kernel\<lparr>k_wait4 := (\<lambda>p fl w. (Inr (42, stop_status 1 5), w))\<rparr>"

theorem watched_handles_address_their_process_witness:
  "\<exists>e l w ch. runWatchLoop forking_kernel demo_elf \<lparr>t_pid = 42\<rparr> 42 demo_handle 0 0 True 1 demo_world =
      (e, (l, w)) \<and> ih_PID (wl_parentIH l) = 42 \<and> map_of (wl_childHandles l) 43 = Some ch \<and> ih_PID ch = 43"
proof -
  let ?l0 = "\<lparr>wl_tracer = \<lparr>t_pid = 42\<rparr>, wl_parentIH = demo_handle, wl_childHandles = [],
    wl_pendingStop = [], wl_log = []\<rparr>"
  obtain e l w where r: "runWatchLoop forking_kernel demo_elf \<lparr>t_pid = 42\<rparr> 42 demo_handle 0 0 True 1 demo_world =
      (e, (l, w))" by (metis prod.exhaust)
  have wait: "wl_with_tracer (WaitAnyNonBlocking forking_kernel) (?l0, demo_world) =
      (Inr (42, stop_status 1 5), (?l0, demo_world))"
    by (simp add: wl_with_tracer_def WaitAnyNonBlocking_def syscall_as_def forking_kernel_def del: One_nat_def)
  have msg: "wl_with_tracer (GetEventMsgPID forking_kernel 42) (?l0, demo_world) = (Inr 43, (?l0, demo_world))"
    by (simp add: wl_with_tracer_def GetEventMsgPID_def syscall_as_def forking_kernel_def demo_kernel_def)
  have "is_fork_event (stop_status 1 5)"
    by (simp add: is_fork_event_def SIGTRAP_def PTRACE_EVENT_FORK_def del: One_nat_def)
  then have turn: "wl_turn forking_kernel demo_elf 42 0 0 True (?l0, demo_world) =
      (Continue, wl_fork forking_kernel 42 42 (?l0, demo_world))"
    by (simp add: wl_turn_def wait wl_event_def ws_kinds del: One_nat_def)
  have "wl_childHandles (fst (wl_fork forking_kernel 42 42 (?l0, demo_world))) = [(43, ChildHandle demo_handle 43)]"
    by (simp add: wl_fork_def msg wl_source_def wl_say_def wl_cont_def)
  then have "wl_childHandles l = [(43, ChildHandle demo_handle 43)]"
    using r wl_cleanup_children [of forking_kernel "wl_fork forking_kernel 42 42 (?l0, demo_world)"]
    by (simp add: runWatchLoop_def turn)
  then have "map_of (wl_childHandles l) 43 = Some (ChildHandle demo_handle 43)" by simp
  moreover have "ih_PID demo_handle = 42" by (simp add: demo_handle_def)
  ultimately show ?thesis
    using watched_handles_address_their_process [of demo_handle 42, OF _ r] r by blast
qed

end
