(* ===== verification/PlatformStubs.thy ===== *)
theory PlatformStubs
  imports Faketimectl FakeTesting
begin

text \<open>
  pkg/faketime/faketime_stub.go and cmd/faketimectl/cmds_inject_stub.go: what is compiled on a
  platform other than Linux. Every operation that would need ptrace returns the same error, the
  queries answer with zero values, and a test helper skips the test without running its function.
\<close>

section \<open>The library\<close>

definition errNotSupported :: goerr where
  "errNotSupported = Msg ''faketime: not supported on this platform (Linux only)''"

text \<open>The stub types have no fields of their own; a nil pointer is \<open>Inl\<close> next to the error.\<close>

datatype stub_handle = StubHandle

datatype stub_session = StubSession

record stub_tracker =
  sk_Handle :: "stub_handle option"

text \<open>Options are accepted; applying one changes nothing.\<close>

type_synonym stub_option = "stub_session \<Rightarrow> stub_session"

definition stub_WithTracking :: stub_option where
  "stub_WithTracking s = s"

definition stub_WithTrackingFilter :: "(string \<Rightarrow> bool) \<Rightarrow> stub_option" where
  "stub_WithTrackingFilter flt s = s"

definition stub_WithFakeTimeFilter :: "(string \<Rightarrow> bool) \<Rightarrow> stub_option" where
  "stub_WithFakeTimeFilter flt s = s"

subsection \<open>Handles\<close>

definition stub_PID :: "stub_handle \<Rightarrow> int" where
  "stub_PID h = 0"

definition stub_IsAlive :: "stub_handle \<Rightarrow> bool" where
  "stub_IsAlive h = False"

definition stub_IsFrozen :: "stub_handle \<Rightarrow> bool" where
  "stub_IsFrozen h = False"

definition stub_EffectiveTime :: "stub_handle \<Rightarrow> gotime" where
  "stub_EffectiveTime h = zero_time"

definition stub_Start :: "gocmd \<Rightarrow> gotime \<Rightarrow> 'w \<Rightarrow> (goerr + stub_handle) \<times> 'w" where
  "stub_Start cmd t w = (Inl errNotSupported, w)"

definition stub_StartFrozen :: "gocmd \<Rightarrow> gotime \<Rightarrow> 'w \<Rightarrow> (goerr + stub_handle) \<times> 'w" where
  "stub_StartFrozen cmd t w = (Inl errNotSupported, w)"

definition stub_Attach :: "pid \<Rightarrow> gotime \<Rightarrow> 'w \<Rightarrow> (goerr + stub_handle) \<times> 'w" where
  "stub_Attach p t w = (Inl errNotSupported, w)"

definition stub_AttachFrozen :: "pid \<Rightarrow> gotime \<Rightarrow> 'w \<Rightarrow> (goerr + stub_handle) \<times> 'w" where
  "stub_AttachFrozen p t w = (Inl errNotSupported, w)"

definition stub_SetTime :: "stub_handle \<Rightarrow> gotime \<Rightarrow> 'w \<Rightarrow> goerr option \<times> 'w" where
  "stub_SetTime h t w = (Some errNotSupported, w)"

definition stub_Freeze :: "stub_handle \<Rightarrow> gotime \<Rightarrow> 'w \<Rightarrow> goerr option \<times> 'w" where
  "stub_Freeze h t w = (Some errNotSupported, w)"

definition stub_Reset :: "stub_handle \<Rightarrow> 'w \<Rightarrow> goerr option \<times> 'w" where
  "stub_Reset h w = (Some errNotSupported, w)"

subsection \<open>Sessions\<close>

text \<open>The options are not applied.\<close>

definition stub_NewSession :: "gotime \<Rightarrow> stub_option list \<Rightarrow> stub_session" where
  "stub_NewSession t opts = StubSession"

definition stub_ss_Start :: "stub_session \<Rightarrow> gocmd \<Rightarrow> 'w \<Rightarrow> goerr option \<times> 'w" where
  "stub_ss_Start s cmd w = (Some errNotSupported, w)"

definition stub_ss_Attach :: "stub_session \<Rightarrow> pid \<Rightarrow> 'w \<Rightarrow> goerr option \<times> 'w" where
  "stub_ss_Attach s p w = (Some errNotSupported, w)"

definition stub_ss_SetTime :: "stub_session \<Rightarrow> gotime \<Rightarrow> 'w \<Rightarrow> goerr option \<times> 'w" where
  "stub_ss_SetTime s t w = (Some errNotSupported, w)"

definition stub_ss_Freeze :: "stub_session \<Rightarrow> gotime \<Rightarrow> 'w \<Rightarrow> goerr option \<times> 'w" where
  "stub_ss_Freeze s t w = (Some errNotSupported, w)"

definition stub_ss_Reset :: "stub_session \<Rightarrow> 'w \<Rightarrow> goerr option \<times> 'w" where
  "stub_ss_Reset s w = (Some errNotSupported, w)"

definition stub_ss_Close :: "stub_session \<Rightarrow> 'w \<Rightarrow> goerr option \<times> 'w" where
  "stub_ss_Close s w = (Some errNotSupported, w)"

definition stub_ss_Prune :: "stub_session \<Rightarrow> int" where
  "stub_ss_Prune s = 0"

definition stub_ss_IsFrozen :: "stub_session \<Rightarrow> bool" where
  "stub_ss_IsFrozen s = False"

definition stub_ss_EffectiveTime :: "stub_session \<Rightarrow> gotime" where
  "stub_ss_EffectiveTime s = zero_time"

definition stub_ss_PIDs :: "stub_session \<Rightarrow> pid list" where
  "stub_ss_PIDs s = []"

definition stub_ss_Len :: "stub_session \<Rightarrow> int" where
  "stub_ss_Len s = 0"

subsection \<open>Trackers\<close>

definition stub_StartWithTracking :: "gocmd \<Rightarrow> gotime \<Rightarrow> 'w \<Rightarrow> (goerr + stub_tracker) \<times> 'w" where
  "stub_StartWithTracking cmd t w = (Inl errNotSupported, w)"

definition stub_StartFrozenWithTracking :: "gocmd \<Rightarrow> gotime \<Rightarrow> 'w \<Rightarrow> (goerr + stub_tracker) \<times> 'w" where
  "stub_StartFrozenWithTracking cmd t w = (Inl errNotSupported, w)"

definition stub_AttachWithTracking :: "pid \<Rightarrow> gotime \<Rightarrow> 'w \<Rightarrow> (goerr + stub_tracker) \<times> 'w" where
  "stub_AttachWithTracking p t w = (Inl errNotSupported, w)"

definition stub_AttachFrozenWithTracking :: "pid \<Rightarrow> gotime \<Rightarrow> 'w \<Rightarrow> (goerr + stub_tracker) \<times> 'w" where
  "stub_AttachFrozenWithTracking p t w = (Inl errNotSupported, w)"

definition stub_ct_IsFrozen :: "stub_tracker \<Rightarrow> bool" where
  "stub_ct_IsFrozen c = False"

definition stub_ct_PIDs :: "stub_tracker \<Rightarrow> pid list" where
  "stub_ct_PIDs c = []"

definition stub_ct_Children :: "stub_tracker \<Rightarrow> stub_handle list" where
  "stub_ct_Children c = []"

definition stub_ct_SetTime :: "stub_tracker \<Rightarrow> gotime \<Rightarrow> 'w \<Rightarrow> goerr option \<times> 'w" where
  "stub_ct_SetTime c t w = (Some errNotSupported, w)"

definition stub_ct_Freeze :: "stub_tracker \<Rightarrow> gotime \<Rightarrow> 'w \<Rightarrow> goerr option \<times> 'w" where
  "stub_ct_Freeze c t w = (Some errNotSupported, w)"

definition stub_ct_Advance :: "stub_tracker \<Rightarrow> duration \<Rightarrow> 'w \<Rightarrow> goerr option \<times> 'w" where
  "stub_ct_Advance c d w = (Some errNotSupported, w)"

definition stub_ct_Reset :: "stub_tracker \<Rightarrow> 'w \<Rightarrow> goerr option \<times> 'w" where
  "stub_ct_Reset c w = (Some errNotSupported, w)"

definition stub_ct_Err :: "stub_tracker \<Rightarrow> goerr option" where
  "stub_ct_Err c = Some errNotSupported"

definition stub_ct_Close :: "stub_tracker \<Rightarrow> 'w \<Rightarrow> goerr option \<times> 'w" where
  "stub_ct_Close c w = (Some errNotSupported, w)"

section \<open>The test helpers\<close>

text \<open>\<open>t.Skip\<close> ends the test; the function given to the helper is not called.\<close>

datatype test_end = Skipped string

definition skip_test :: "'w \<Rightarrow> test_end \<times> 'w" where
  "skip_test w = (Skipped ''faketime: not supported on this platform (Linux only)'', w)"

definition stub_WithProcess :: "gocmd \<Rightarrow> gotime \<Rightarrow> (stub_handle \<Rightarrow> 'w \<Rightarrow> 'w) \<Rightarrow> 'w \<Rightarrow> test_end \<times> 'w" where
  "stub_WithProcess cmd t fn w = skip_test w"

definition stub_WithFrozenProcess :: "gocmd \<Rightarrow> gotime \<Rightarrow> (stub_handle \<Rightarrow> 'w \<Rightarrow> 'w) \<Rightarrow> 'w \<Rightarrow> test_end \<times> 'w" where
  "stub_WithFrozenProcess cmd t fn w = skip_test w"

definition stub_WithPID :: "pid \<Rightarrow> gotime \<Rightarrow> (stub_handle \<Rightarrow> 'w \<Rightarrow> 'w) \<Rightarrow> 'w \<Rightarrow> test_end \<times> 'w" where
  "stub_WithPID p t fn w = skip_test w"

definition stub_WithFrozenPID :: "pid \<Rightarrow> gotime \<Rightarrow> (stub_handle \<Rightarrow> 'w \<Rightarrow> 'w) \<Rightarrow> 'w \<Rightarrow> test_end \<times> 'w" where
  "stub_WithFrozenPID p t fn w = skip_test w"

definition stub_WithFrozenChildTracker :: "gocmd \<Rightarrow> gotime \<Rightarrow> (stub_tracker \<Rightarrow> 'w \<Rightarrow> 'w) \<Rightarrow> 'w \<Rightarrow> test_end \<times> 'w" where
  "stub_WithFrozenChildTracker cmd t fn w = skip_test w"

definition stub_WithChildTracker :: "gocmd \<Rightarrow> gotime \<Rightarrow> (stub_tracker \<Rightarrow> 'w \<Rightarrow> 'w) \<Rightarrow> 'w \<Rightarrow> test_end \<times> 'w" where
  "stub_WithChildTracker cmd t fn w = skip_test w"

definition stub_WithSession :: "gotime \<Rightarrow> (stub_session \<Rightarrow> 'w \<Rightarrow> goerr option \<times> 'w)
    \<Rightarrow> (stub_session \<Rightarrow> 'w \<Rightarrow> 'w) \<Rightarrow> stub_option list \<Rightarrow> 'w \<Rightarrow> test_end \<times> 'w" where
  "stub_WithSession t setup fn opts w = skip_test w"

section \<open>The command line tool\<close>

definition stub_cmdInject :: "string list \<Rightarrow> 'w \<Rightarrow> 'w cmd_result" where
  "stub_cmdInject args = cmd_fail ''inject: only supported on Linux (requires ptrace)''"

definition stub_cmdReset :: "string list \<Rightarrow> 'w \<Rightarrow> 'w cmd_result" where
  "stub_cmdReset args = cmd_fail ''reset: only supported on Linux (requires ptrace)''"

end
