(* ===== verification/Spec2Isabelle.thy ===== *)
theory Spec2Isabelle
  imports InjectClaims TrackerClaims SessionClaims WithTimeClaims InterleaveClaims CliClaims
    ApiClaims EndToEndClaims DiscoveryClaims RunnerClaims PlatformStubs
begin

text \<open>
  A verification development for epochd, a tool that shifts the clock of running Linux processes
  and Kubernetes containers without restarting them.

  The program in one paragraph. An injector attaches to a process with ptrace, maps one page near
  the vDSO, writes three machine code stubs and a state record into it, and overwrites the entries
  of clock_gettime, gettimeofday and time with jumps to the stubs. The stubs make the real system
  call and add the offset of the state record, or return a frozen time. A library (faketime) keeps
  handles of such processes, follows forks and execs, and groups processes into sessions. In a
  cluster an agent on each node injects containers on request, and a controller keeps a registry
  of timeshifts, spreads each one over the pods that match a selector, repairs lost handles,
  expires timeshifts, stores the registry in a ConfigMap and serves a REST API with a Go client.

  Theories and the code they translate (paths under src/).

  \<^item> Prelude, GoTime, GoStrings, Rfc3339, GoDuration: what the program uses of Go itself: error
    values, maps as association lists, time.Time and time.Duration as integers of nanoseconds with
    their saturation and wrap-around, strings and strconv, RFC 3339 times on the Gregorian
    calendar, duration texts. A time is nanoseconds since 1970; locations and the monotonic
    reading are left out.
  \<^item> Kernel, X86: ptrace, process_vm, wait4, /proc and the clocks as a record of functions on a
    world of any type; the registers, byte memory and instructions the stubs use.
  \<^item> Trampoline, Hooks: pkg/trampoline, the state record as bytes and every instruction of
    trampoline.asm.
  \<^item> Procmem, Vdso, NearbyGap, Inject: pkg/procmem, pkg/vdso and pkg/inject.
  \<^item> Clock, FakeHandle, ChildTracker, TrackerInv, Session: pkg/faketime. Clock is the contract of
    everything that can be set, frozen and advanced; FakeHandle, Session and the controller's
    timeshifts are its instances. ChildTracker is the fork and exec tracker, TrackerInv its
    invariant over any sequence of calls, events and clock readings.
  \<^item> K8sresolve, Agent, Agentclient: pkg/k8sresolve, the server of cmd/agent, pkg/agentclient. The
    locale agent_pool is what the controller may rely on; node_agents is its interpretation on the
    agents' servers behind the client pool.
  \<^item> Registry, Store, Controller, Watcher: cmd/controller without its HTTP side: the timeshifts,
    their stored form, the operations, the reaction to pod events.
  \<^item> ControllerInv, ControllerEnv, Deployment, ClockReadings, ControllerSteps: the registry
    invariant; the contract between controller and surroundings (locale controller_env) with what
    follows for the handles, and its interpretation on a cluster of agents; the path of outside
    calls that an operation makes, and the readings of the wall clock on it; the controller as a
    state machine with its abstract specification, a map from ids to clocks, in which a running
    clock has the offset from a reading that the operation itself took.
  \<^item> Interleave, InterleaveAlone, InterleaveInv: the controller with any number of requests in
    flight. A request is a value of type call, which says where it stands; turn runs it to the next
    lock operation or outside call. Alone, a request does what its operation in Controller does;
    under every schedule the invariant holds and each turn is a step of the abstract map of clocks.
    The outside world may do anything between two turns (the step world), a change of the ConfigMap
    included; turns are the runs in which only the requests move, on which the races are shown.
    TimeshiftType: the well-formedness of a timeshift in every such state.
  \<^item> KernelLaws, InjectFrame, AgentReach: the documented behaviour of the kernel calls that an agent
    makes (kernel_laws) and a small logic for invariants of programs made of them (keeps); what an
    injection leaves alone and what it leaves behind; what each call of an agent does to the state
    structs of all its handles (retimes), and the states an agent can reach by serving calls.
  \<^item> EndToEnd, ClockSetting, ClusterTime: from the controller down to the injected code: the clock
    that a hooked process shows, the drain of an agent; the contract by which a create and an update
    reach every container (locale clock_setting) and its interpretation deployed_clock on the
    cluster of agents; what resets and sweeps do to the processes of all nodes (advances).
  \<^item> HttpApi, Handlers, Sdk, Loopback: pkg/api, cmd/controller/handlers.go, pkg/sdk, and the client
    in front of the handlers.
  \<^item> Processes, ApiSteps: main of cmd/agent and of cmd/controller, with the inputs the controller
    reacts to and the sweeper's goroutine, whose first turn may come at any point among them; the
    operation each HTTP request asks for, and that the routes carry out that one.
  \<^item> GoFlag, Faketimectl, Runner, FakeTesting: Go's flag parsing, cmd/faketimectl with its commands
    and the watch loop of run --track, the test helpers of pkg/faketime and the level of pkg/log.
    PlatformStubs: what replaces pkg/faketime and the injecting commands outside Linux.
  \<^item> Demo, DemoCluster, DemoHttp, Races: one small process, one cluster, one transport and one
    world of racing requests on which the theorems are applied; not part of the program.
  \<^item> InjectClaims, TrackerClaims, SessionClaims, ControllerClaims, RegistryClaims, InterleaveClaims,
    SdkClaims, WithTimeClaims, ApiClaims, CliClaims, EndToEndClaims, DiscoveryClaims, RunnerClaims:
    the properties.

  What is proved. For the injected code: what the three hooked functions return for each state,
  with the saturation of the offset; that an injection writes exactly the jumps and the page and
  leaves the registers and the text it borrowed as they were; where the page is placed; which
  process of a container and which addresses in its vDSO the search before it finds. For the
  library: which process a handle writes to, what a forked child sees, that a session moves as one.
  For the controller: that a create takes only free containers and returns handles the agents know,
  that an update sets the clock and repairs exactly the handles that were lost, the invariant of
  the registry, its refinement of the abstract map of clocks, recovery from the ConfigMap, the
  convergence of pod events. For the whole: that a create and an update set the clock that the
  processes of the containers read through the injected code, and that a delete, an expiry and the
  shutdown of an agent set it back to real time, for every handle that can be reached and whatever
  happens to the others; that each HTTP request
  is the step of the abstract map that its method, path and body ask for, and changes nothing when
  it is refused. For the API and the client: what a status code
  says about the effect, the clock a client reads, that WaitForActive returns and when
  WithTime leaves nothing behind. For the command line tool: that the documented form of update and advance
  fails, and that the handles of run --track keep addressing their processes. Several properties state where the code departs from its documentation;
  the manifest lists them as findings.

  Parameters. Code that is not in the repository is an argument: the kernel (Kernel.kernel, with
  mem_laws and the other law predicates as hypotheses where a property needs them), the ELF reader
  of the vDSO, the gRPC transport (which addresses can be dialled, which nodes are up), the
  Kubernetes API, the random source, JSON (ce_Marshal and the record json with json_laws), the
  HTTP transport of the client. Every property with such a hypothesis has a witness on a concrete
  instance.

  Bounds and fuel. The interpreter of the hook stubs runs at most four basic blocks: the stubs have
  no loops and no path through more, so the bound is never reached. Polling loops of the tracker
  and of WaitForActive are a step function with an explicit list of turns and a partial_function
  whose value None means that it never ends; that it ends is a property. ParseDuration computes
  fractions exactly where Go uses floating point; the texts the program itself writes have
  fractions that both read the same way. The watch loop of run --track gets a number of turns,
  which stands for how long the command runs.

  What is simplified. The handlers, the client and the command line call the controller's
  operations as whole operations; requests in flight at once are the subject of the Interleave
  theories only. There a loop over the handles of a removed timeshift reads each handle when it
  comes to it, and the text of a response is made from the timeshift as it is at the end. Maps are
  association lists whose order stands for Go's iteration order. Error values keep their kind and
  static text, not the numbers and addresses in their messages; Locate gives the errors of
  elf.NewFile and of DynamicSymbols one context, and an error of the scanner over a maps file reads
  like its end. Log lines are left out. In the two daemons the inputs come one after the other.
  A call to an agent whose node is up is carried out and its reply arrives (rpc): a deadline that
  cuts a call short, or a reply lost after the effect, is not a case; a node that is down is. The
  context of the client library is: ctx_client sends nothing once it has ended, and loses the reply
  when it ends while a request runs. A callback of WithTime may return, panic or never end. The
  laws of the JSON codecs (store_laws, json_laws) ask that every value is read back as it was
  written; encoding/json does so for strings of valid UTF-8, the only ones that names, ids and
  selectors of Kubernetes are. A clock reset to real time is off by the difference of two
  consecutive readings (real_clock); a clock set to a target by a reading of some world
  (target_clock). The memory of a process is seen as this program writes it: what the
  process stores itself, and what is mapped, is not part of the view (calm). In the states that an
  agent reaches, the processes it holds handles of keep the program they run.

  Not modelled: the generated gRPC code, the sockets, signals and servers of net, net/http and grpc
  beneath the daemons, the handlers of log/slog, the example program.
\<close>

end
